(* ===== verification/Prelude.thy ===== *)
theory Prelude
  imports Complex_Main "HOL-Library.Multiset" "HOL-Library.List_Lexorder" "HOL-Library.Char_ord"
begin

text \<open>
  The shared base of the BrandBlitz development: the JavaScript built-ins the services use
  (truncating \<open>BigInt\<close> division, decimal \<open>toString\<close>, \<open>padStart\<close> and \<open>padEnd\<close>, \<open>trim\<close>,
  the insertion-ordered \<open>Map\<close>, the stable \<open>Array.prototype.sort\<close>), each with the lemmas the
  component theories use, and the rule collections \<open>js_simps\<close>, \<open>inv_intros\<close> and
  \<open>handler_defs\<close> that the components extend.
\<close>

named_theorems js_simps \<open>rewrite rules for the JavaScript built-ins\<close>
named_theorems inv_intros \<open>preservation of the component invariants by their operations\<close>
named_theorems handler_defs \<open>definitions of request handlers and SQL statements\<close>

section \<open>Truncating integer division\<close>

text \<open>\<open>BigInt\<close> division and remainder round towards zero.\<close>

definition jdiv :: "int \<Rightarrow> int \<Rightarrow> int" where
  "jdiv a b = sgn a * sgn b * (\<bar>a\<bar> div \<bar>b\<bar>)"

definition jmod :: "int \<Rightarrow> int \<Rightarrow> int" where
  "jmod a b = a - b * jdiv a b"

lemma jdiv_nonneg [js_simps, simp]: "0 \<le> a \<Longrightarrow> 0 < b \<Longrightarrow> jdiv a b = a div b"
  by (cases "a = 0") (simp_all add: jdiv_def)

lemma jmod_nonneg [js_simps, simp]: "0 \<le> a \<Longrightarrow> 0 < b \<Longrightarrow> jmod a b = a mod b"
  by (simp add: jmod_def minus_mult_div_eq_mod)

section \<open>Results\<close>

text \<open>Sequencing of fallible code: an exception (\<open>Inl\<close>) skips the rest.\<close>

definition bind_r :: "'e + 'a \<Rightarrow> ('a \<Rightarrow> 'e + 'b) \<Rightarrow> 'e + 'b" where
  "bind_r r f = (case r of Inl e \<Rightarrow> Inl e | Inr a \<Rightarrow> f a)"

lemma bind_r_simps [simp]: "bind_r (Inl e) f = Inl e" "bind_r (Inr a) f = f a"
  by (simp_all add: bind_r_def)

lemma bind_r_Inr_iff: "bind_r r f = Inr b \<longleftrightarrow> (\<exists>a. r = Inr a \<and> f a = Inr b)"
  by (cases r) simp_all

section \<open>Decimal strings\<close>

definition is_digit :: "char \<Rightarrow> bool" where
  "is_digit c \<longleftrightarrow> 48 \<le> (of_char c :: nat) \<and> (of_char c :: nat) \<le> 57"

definition digit_char :: "nat \<Rightarrow> char" where
  "digit_char d = char_of (48 + d)"

definition digit_val :: "char \<Rightarrow> nat" where
  "digit_val c = of_char c - 48"

lemma of_digit_char: "d < 10 \<Longrightarrow> (of_char (digit_char d) :: nat) = 48 + d"
  by (simp add: digit_char_def)

lemma is_digit_digit_char [simp]: "d < 10 \<Longrightarrow> is_digit (digit_char d)"
  by (simp add: is_digit_def of_digit_char)

lemma digit_val_digit_char [simp]: "d < 10 \<Longrightarrow> digit_val (digit_char d) = d"
  by (simp add: digit_val_def of_digit_char)

text \<open>\<open>BigInt.prototype.toString\<close> and \<open>BigInt(string)\<close> on strings of digits.\<close>

fun string_of_nat :: "nat \<Rightarrow> string" where
  "string_of_nat n =
     (if n < 10 then [digit_char n] else string_of_nat (n div 10) @ [digit_char (n mod 10)])"

declare string_of_nat.simps [simp del]

definition string_of_int :: "int \<Rightarrow> string" where
  "string_of_int i = (if i < 0 then ''-'' @ string_of_nat (nat (- i)) else string_of_nat (nat i))"

definition nat_of_string :: "string \<Rightarrow> nat" where
  "nat_of_string s = foldl (\<lambda>acc c. 10 * acc + digit_val c) 0 s"

lemma nat_of_string_Nil [simp]: "nat_of_string [] = 0"
  by (simp add: nat_of_string_def)

lemma nat_of_string_snoc: "nat_of_string (s @ [c]) = 10 * nat_of_string s + digit_val c"
  by (simp add: nat_of_string_def)

lemma nat_of_string_append:
  "nat_of_string (s @ t) = nat_of_string s * 10 ^ length t + nat_of_string t"
proof (induction t rule: rev_induct)
  case Nil
  show ?case by simp
next
  case (snoc c t)
  have "nat_of_string (s @ t @ [c]) = 10 * nat_of_string (s @ t) + digit_val c"
    using nat_of_string_snoc [of "s @ t" c] by simp
  with snoc show ?case by (simp add: nat_of_string_snoc algebra_simps)
qed

lemma nat_of_string_of_nat [simp]: "nat_of_string (string_of_nat n) = n"
proof (induction n rule: string_of_nat.induct)
  case (1 n)
  show ?case
  proof (cases "n < 10")
    case True
    then show ?thesis
      by (simp add: string_of_nat.simps [of n] nat_of_string_def)
  next
    case False
    with 1 show ?thesis
      by (simp add: string_of_nat.simps [of n] nat_of_string_snoc)
  qed
qed

lemma string_of_nat_digits: "list_all is_digit (string_of_nat n)"
proof (induction n rule: string_of_nat.induct)
  case (1 n)
  then show ?case
    by (cases "n < 10") (simp_all add: string_of_nat.simps [of n])
qed

lemma string_of_nat_nonempty [simp]: "string_of_nat n \<noteq> []"
  by (subst string_of_nat.simps) simp

lemma string_of_nat_inj: "string_of_nat m = string_of_nat n \<Longrightarrow> m = n"
  by (metis nat_of_string_of_nat)

lemma string_of_int_inj: "string_of_int i = string_of_int j \<Longrightarrow> i = j"
proof -
  assume eq: "string_of_int i = string_of_int j"
  have no_minus: "hd (string_of_nat n) \<noteq> CHR ''-''" for n
  proof -
    have "is_digit (hd (string_of_nat n))"
      using string_of_nat_digits [of n] by (cases "string_of_nat n") simp_all
    then show ?thesis by (auto simp: is_digit_def)
  qed
  show "i = j"
  proof (cases "i < 0"; cases "j < 0")
    assume "i < 0" "j < 0"
    with eq show ?thesis by (auto simp: string_of_int_def dest: string_of_nat_inj)
  next
    assume "i < 0" "\<not> j < 0"
    with eq no_minus [of "nat j"] show ?thesis by (auto simp: string_of_int_def dest: arg_cong [of _ _ hd])
  next
    assume "\<not> i < 0" "j < 0"
    with eq no_minus [of "nat i"] show ?thesis by (auto simp: string_of_int_def dest: arg_cong [of _ _ hd])
  next
    assume "\<not> i < 0" "\<not> j < 0"
    with eq show ?thesis by (auto simp: string_of_int_def dest: string_of_nat_inj)
  qed
qed

lemma length_string_of_nat: "n < 10 ^ Suc k \<Longrightarrow> length (string_of_nat n) \<le> Suc k"
proof (induction k arbitrary: n)
  case 0
  then show ?case by (simp add: string_of_nat.simps [of n])
next
  case (Suc k)
  show ?case
  proof (cases "n < 10")
    case True
    then show ?thesis by (simp add: string_of_nat.simps [of n])
  next
    case False
    have "n div 10 < 10 ^ Suc k" using Suc.prems by (simp add: less_mult_imp_div_less mult.commute)
    then have "length (string_of_nat (n div 10)) \<le> Suc k" by (rule Suc.IH)
    with False show ?thesis by (simp add: string_of_nat.simps [of n])
  qed
qed

subsection \<open>Padding\<close>

definition padStart :: "nat \<Rightarrow> char \<Rightarrow> string \<Rightarrow> string" where
  "padStart n c s = replicate (n - length s) c @ s"

definition padEnd :: "nat \<Rightarrow> char \<Rightarrow> string \<Rightarrow> string" where
  "padEnd n c s = s @ replicate (n - length s) c"

lemma length_padStart [simp]: "length (padStart n c s) = max n (length s)"
  by (simp add: padStart_def)

lemma length_padEnd [simp]: "length (padEnd n c s) = max n (length s)"
  by (simp add: padEnd_def)

lemma digit_val_zero [simp]: "digit_val CHR ''0'' = 0"
  by (simp add: digit_val_def)

lemma is_digit_zero [simp]: "is_digit CHR ''0''"
  by (simp add: is_digit_def)

lemma nat_of_string_zeros [simp]: "nat_of_string (replicate n CHR ''0'') = 0"
proof (induction n)
  case (Suc n)
  have "replicate (Suc n) CHR ''0'' = replicate n CHR ''0'' @ [CHR ''0'']"
    by (simp add: replicate_append_same)
  with Suc show ?case by (simp add: nat_of_string_snoc del: replicate_Suc)
qed simp

lemma nat_of_string_padStart [simp]: "nat_of_string (padStart n CHR ''0'' s) = nat_of_string s"
  by (simp add: padStart_def nat_of_string_append)

lemma nat_of_string_padEnd:
  "nat_of_string (padEnd n CHR ''0'' s) = nat_of_string s * 10 ^ (n - length s)"
  by (simp add: padEnd_def nat_of_string_append)

lemma digits_padStart: "list_all is_digit s \<Longrightarrow> list_all is_digit (padStart n CHR ''0'' s)"
  by (auto simp: padStart_def list_all_iff)

subsection \<open>Trimming\<close>

definition is_space :: "char \<Rightarrow> bool" where
  "is_space c \<longleftrightarrow> of_char c \<in> {9::nat, 10, 11, 12, 13, 32, 160}"

definition trim :: "string \<Rightarrow> string" where
  "trim s = rev (dropWhile is_space (rev (dropWhile is_space s)))"

text \<open>Strings are sequences of 8-bit characters; only ASCII letters change case.\<close>

definition toUpperCase :: "string \<Rightarrow> string" where
  "toUpperCase = map (\<lambda>c. if 97 \<le> (of_char c :: nat) \<and> (of_char c :: nat) \<le> 122
                          then char_of ((of_char c :: nat) - 32) else c)"

section \<open>Sums over lists\<close>

lemma sum_list_nonneg_int: "(\<And>x. x \<in> set xs \<Longrightarrow> 0 \<le> f x) \<Longrightarrow> 0 \<le> (\<Sum>x\<leftarrow>xs. (f x :: int))"
  by (induction xs) auto

lemma sum_list_filter_le:
  "(\<And>x. x \<in> set xs \<Longrightarrow> 0 \<le> f x) \<Longrightarrow> (\<Sum>x\<leftarrow>filter P xs. (f x :: int)) \<le> (\<Sum>x\<leftarrow>xs. f x)"
  by (induction xs) (auto intro: add_increasing)

lemma member_le_sum_list_int:
  "(\<And>y. y \<in> set xs \<Longrightarrow> 0 \<le> f y) \<Longrightarrow> x \<in> set xs \<Longrightarrow> (f x :: int) \<le> (\<Sum>y\<leftarrow>xs. f y)"
proof (induction xs)
  case (Cons y ys)
  have tail: "0 \<le> (\<Sum>y\<leftarrow>ys. f y)" using Cons.prems(1) by (auto intro: sum_list_nonneg_int)
  show ?case
  proof (cases "x = y")
    case True
    with tail show ?thesis by simp
  next
    case False
    then have "f x \<le> (\<Sum>y\<leftarrow>ys. f y)" using Cons by auto
    then show ?thesis using Cons.prems(1) [of y] by simp
  qed
qed simp

lemma foldl_keeps: "(\<And>b x. f (g b x) = f b) \<Longrightarrow> f (foldl g b xs) = f b"
  by (induction xs arbitrary: b) auto

lemma foldl_plus_eq_sum_list: "foldl (\<lambda>acc x. acc + f x) (a :: int) xs = a + (\<Sum>x\<leftarrow>xs. f x)"
  by (induction xs arbitrary: a) simp_all

text \<open>Proportional shares rounded down never add up to more than the whole, and lose less than one
  unit per share.\<close>

lemma floor_shares_le:
  fixes pool total :: int
  assumes "0 \<le> pool" and "0 < total"
  shows "(\<Sum>x\<leftarrow>xs. (pool * f x) div total) * total \<le> pool * (\<Sum>x\<leftarrow>xs. f x)"
proof (induction xs)
  case (Cons x xs)
  have "(pool * f x) div total * total \<le> pool * f x"
    using div_mult_mod_eq [of "pool * f x" total] pos_mod_sign [OF assms(2), of "pool * f x"] by linarith
  with Cons show ?case by (simp add: algebra_simps)
qed simp

lemma floor_shares_ge:
  fixes pool total :: int
  assumes "0 < total"
  shows "pool * (\<Sum>x\<leftarrow>xs. f x) \<le> (\<Sum>x\<leftarrow>xs. (pool * f x) div total) * total + int (length xs) * (total - 1)"
proof (induction xs)
  case (Cons x xs)
  have "(pool * f x) mod total \<le> total - 1" using assms by simp
  then have "pool * f x \<le> (pool * f x) div total * total + (total - 1)"
    using div_mult_mod_eq [of "pool * f x" total] by linarith
  with Cons show ?case by (simp add: algebra_simps)
qed simp

section \<open>The insertion-ordered \<open>Map\<close>\<close>

type_synonym ('k, 'v) jsmap = "('k \<times> 'v) list"

definition map_get :: "('k, 'v) jsmap \<Rightarrow> 'k \<Rightarrow> 'v option" where
  "map_get m k = map_of m k"

fun map_set :: "('k, 'v) jsmap \<Rightarrow> 'k \<Rightarrow> 'v \<Rightarrow> ('k, 'v) jsmap" where
  "map_set [] k v = [(k, v)]"
| "map_set ((k', v') # m) k v = (if k' = k then (k, v) # m else (k', v') # map_set m k v)"

definition map_wf :: "('k, 'v) jsmap \<Rightarrow> bool" where
  "map_wf m \<longleftrightarrow> distinct (map fst m)"

lemma map_get_Nil [simp]: "map_get [] k = None"
  by (simp add: map_get_def)

lemma map_get_set: "map_get (map_set m k v) k' = (if k' = k then Some v else map_get m k')"
  unfolding map_get_def by (induction m k v rule: map_set.induct) auto

lemma keys_map_set: "fst ` set (map_set m k v) = insert k (fst ` set m)"
  by (induction m k v rule: map_set.induct) auto

lemma map_wf_set: "map_wf m \<Longrightarrow> map_wf (map_set m k v)"
proof (induction m k v rule: map_set.induct)
  case (2 k' v' m k v)
  have "fst ` set (map_set m k v) = insert k (fst ` set m)" by (rule keys_map_set)
  with 2 show ?case by (auto simp: map_wf_def)
qed (simp add: map_wf_def)

lemma map_set_fresh: "map_get m k = None \<Longrightarrow> map_set m k v = m @ [(k, v)]"
  unfolding map_get_def by (induction m k v rule: map_set.induct) (auto split: if_splits)

text \<open>Setting a key adds at most the new value to a sum of non-negative weights, and the old value is
  lost from it.\<close>

lemma sum_map_set:
  "map_wf m \<Longrightarrow> (\<Sum>(k, v)\<leftarrow>map_set m k' v'. (w v :: int)) =
     (\<Sum>(k, v)\<leftarrow>m. w v) + w v' - (case map_get m k' of Some v \<Rightarrow> w v | None \<Rightarrow> 0)"
  unfolding map_get_def
proof (induction m k' v' rule: map_set.induct)
  case (2 k v m k' v')
  then show ?case by (cases "k = k'") (auto simp: map_wf_def split: option.splits)
qed simp

lemma set_map_setE:
  "x \<in> set (map_set m k v) \<Longrightarrow> (x = (k, v) \<Longrightarrow> Q) \<Longrightarrow> (x \<in> set m \<Longrightarrow> Q) \<Longrightarrow> Q"
  by (induction m k v rule: map_set.induct) (auto split: if_splits)

text \<open>What a client of a \<open>Map\<close> relies on.\<close>

locale dictionary =
  fixes empty :: 'm
    and get :: "'m \<Rightarrow> 'k \<Rightarrow> 'v option"
    and put :: "'m \<Rightarrow> 'k \<Rightarrow> 'v \<Rightarrow> 'm"
    and entries :: "'m \<Rightarrow> ('k \<times> 'v) list"
    and wf :: "'m \<Rightarrow> bool"
  assumes get_empty: "get empty k = None"
    and get_put: "get (put m k v) k' = (if k' = k then Some v else get m k')"
    and wf_empty: "wf empty"
    and wf_put: "wf m \<Longrightarrow> wf (put m k v)"
    and entries_get: "wf m \<Longrightarrow> (k, v) \<in> set (entries m) \<longleftrightarrow> get m k = Some v"
    and entries_distinct: "wf m \<Longrightarrow> distinct (map fst (entries m))"
begin

text \<open>Filling a dictionary from a list of keyed values keeps it well formed, and every entry comes
  from the list or was there before.\<close>

lemma wf_fill: "wf m \<Longrightarrow> wf (foldl (\<lambda>m x. put m (key x) (val x)) m xs)"
  by (induction xs arbitrary: m) (auto intro: wf_put)

lemma get_fill:
  "get (foldl (\<lambda>m x. put m (key x) (val x)) m xs) k =
     (case filter (\<lambda>x. key x = k) xs of [] \<Rightarrow> get m k | ys \<Rightarrow> Some (val (last ys)))"
  by (induction xs arbitrary: m) (auto simp: get_put split: list.splits)

lemma fill_entry_source:
  assumes "wf m" and "(k, v) \<in> set (entries (foldl (\<lambda>m x. put m (key x) (val x)) m xs))"
  shows "get m k = Some v \<or> (\<exists>x \<in> set xs. key x = k \<and> val x = v)"
proof -
  have got: "get (foldl (\<lambda>m x. put m (key x) (val x)) m xs) k = Some v"
    using assms wf_fill entries_get by blast
  then show ?thesis
  proof (cases "filter (\<lambda>x. key x = k) xs")
    case (Cons y ys)
    then have l: "last (y # ys) \<in> set (filter (\<lambda>x. key x = k) xs)" by (metis last_in_set list.distinct(1))
    have "v = val (last (y # ys))" using got Cons by (simp add: get_fill)
    with l show ?thesis by auto
  qed (simp add: get_fill)
qed

end

interpretation jsm: dictionary "[]" map_get map_set "\<lambda>m. m" map_wf
proof unfold_locales
  fix m :: "('k, 'v) jsmap" and k v
  assume "map_wf m"
  then show "(k, v) \<in> set m \<longleftrightarrow> map_get m k = Some v"
    by (auto simp: map_wf_def map_get_def)
qed (simp_all add: map_get_set map_wf_set, simp_all add: map_wf_def)

section \<open>Stable sorting by a comparison function\<close>

text \<open>\<open>Array.prototype.sort\<close> is stable: an element stays before a later one unless the comparison
  function is positive.\<close>

fun js_insert :: "('a \<Rightarrow> 'a \<Rightarrow> int) \<Rightarrow> 'a \<Rightarrow> 'a list \<Rightarrow> 'a list" where
  "js_insert cmp x [] = [x]"
| "js_insert cmp x (y # ys) = (if cmp x y \<le> 0 then x # y # ys else y # js_insert cmp x ys)"

definition js_sort :: "('a \<Rightarrow> 'a \<Rightarrow> int) \<Rightarrow> 'a list \<Rightarrow> 'a list" where
  "js_sort cmp xs = foldr (js_insert cmp) xs []"

lemma js_sort_simps [simp]: "js_sort cmp [] = []" "js_sort cmp (x # xs) = js_insert cmp x (js_sort cmp xs)"
  by (simp_all add: js_sort_def)

lemma mset_js_insert: "mset (js_insert cmp x ys) = add_mset x (mset ys)"
  by (induction cmp x ys rule: js_insert.induct) auto

lemma mset_js_sort [simp]: "mset (js_sort cmp xs) = mset xs"
  by (induction xs) (simp_all add: mset_js_insert)

lemma set_js_insert [simp]: "set (js_insert cmp x ys) = insert x (set ys)"
  by (induction cmp x ys rule: js_insert.induct) auto

lemma set_js_sort [simp]: "set (js_sort cmp xs) = set xs"
  by (metis mset_js_sort set_mset_mset)

lemma length_js_sort [simp]: "length (js_sort cmp xs) = length xs"
  by (metis mset_js_sort size_mset)

lemma sum_list_js_sort: "(\<Sum>x\<leftarrow>js_sort cmp xs. f x) = (\<Sum>x\<leftarrow>xs. (f x :: int))"
  by (metis mset_js_sort mset_map sum_mset_sum_list)

text \<open>What a sort needs of its comparison function.\<close>

locale comparison =
  fixes cmp :: "'a \<Rightarrow> 'a \<Rightarrow> int"
  assumes cmp_flip: "0 < cmp x y \<longleftrightarrow> cmp y x < 0"
    and cmp_trans: "cmp x y \<le> 0 \<Longrightarrow> cmp y z \<le> 0 \<Longrightarrow> cmp x z \<le> 0"
begin

lemma cmp_total: "cmp x y \<le> 0 \<or> cmp y x \<le> 0"
  using cmp_flip [of x y] by linarith

lemma sorted_insert:
  "sorted_wrt (\<lambda>x y. cmp x y \<le> 0) ys \<Longrightarrow> sorted_wrt (\<lambda>x y. cmp x y \<le> 0) (js_insert cmp x ys)"
proof (induction ys)
  case (Cons y ys)
  show ?case
  proof (cases "cmp x y \<le> 0")
    case True
    with Cons.prems show ?thesis by (auto intro: cmp_trans)
  next
    case False
    then have "cmp y x \<le> 0" using cmp_total by blast
    with False Cons show ?thesis by auto
  qed
qed simp

lemma sorted_sort: "sorted_wrt (\<lambda>x y. cmp x y \<le> 0) (js_sort cmp xs)"
  by (induction xs) (auto intro: sorted_insert)

lemma insert_stable:
  assumes "sorted_wrt (\<lambda>x y. cmp x y \<le> 0) ys"
  shows "filter (\<lambda>y. cmp a y = 0 \<and> cmp y a = 0) (js_insert cmp x ys) =
    filter (\<lambda>y. cmp a y = 0 \<and> cmp y a = 0) (x # ys)"
  using assms
proof (induction ys)
  case (Cons y ys)
  show ?case
  proof (cases "cmp x y \<le> 0")
    case False
    have "\<not> (cmp a x = 0 \<and> cmp x a = 0 \<and> cmp a y = 0 \<and> cmp y a = 0)"
      using False cmp_trans [of x a y] by auto
    with False Cons show ?thesis by auto
  qed simp
qed simp

text \<open>Elements the comparison cannot tell apart keep their order.\<close>

lemma sort_stable:
  "filter (\<lambda>y. cmp a y = 0 \<and> cmp y a = 0) (js_sort cmp xs) =
   filter (\<lambda>y. cmp a y = 0 \<and> cmp y a = 0) xs"
proof (induction xs)
  case (Cons x xs)
  have "filter (\<lambda>y. cmp a y = 0 \<and> cmp y a = 0) (js_insert cmp x (js_sort cmp xs)) =
    filter (\<lambda>y. cmp a y = 0 \<and> cmp y a = 0) (x # js_sort cmp xs)"
    by (rule insert_stable) (rule sorted_sort)
  with Cons show ?case by simp
qed simp

text \<open>When equal comparison means equal elements, the result does not depend on the input order.\<close>

lemma sorted_unique:
  assumes "sorted_wrt (\<lambda>x y. cmp x y \<le> 0) xs" and "sorted_wrt (\<lambda>x y. cmp x y \<le> 0) ys"
    and "mset xs = mset ys"
    and "\<And>x y. x \<in> set xs \<Longrightarrow> y \<in> set xs \<Longrightarrow> cmp x y \<le> 0 \<Longrightarrow> cmp y x \<le> 0 \<Longrightarrow> x = y"
  shows "xs = ys"
  using assms
proof (induction xs arbitrary: ys)
  case (Cons x xs)
  then obtain y ys' where ys: "ys = y # ys'" by (cases ys) auto
  have sets: "set (x # xs) = set (y # ys')" using Cons.prems(3) ys by (metis set_mset_mset)
  have "x = y \<or> cmp x y \<le> 0" using Cons.prems(1) sets by auto
  moreover have "y = x \<or> cmp y x \<le> 0" using Cons.prems(2) sets ys by auto
  ultimately have xy: "x = y"
    using Cons.prems(4) [of x y] sets cmp_total [of x x] by (metis list.set_intros(1))
  then have "mset xs = mset ys'" using Cons.prems(3) ys by simp
  with Cons.prems Cons.IH [of ys'] xy ys show ?case by auto
qed simp

lemma sort_unique:
  assumes "mset xs = mset ys"
    and "\<And>x y. x \<in> set xs \<Longrightarrow> y \<in> set xs \<Longrightarrow> cmp x y \<le> 0 \<Longrightarrow> cmp y x \<le> 0 \<Longrightarrow> x = y"
  shows "js_sort cmp xs = js_sort cmp ys"
  using sorted_sort [of xs] sorted_sort [of ys] assms by (intro sorted_unique) auto

text \<open>The best element comes first.\<close>

lemma sort_hd_best: "x \<in> set xs \<Longrightarrow> cmp (hd (js_sort cmp xs)) x \<le> 0"
proof -
  assume "x \<in> set xs"
  then have x: "x \<in> set (js_sort cmp xs)" by simp
  then obtain y ys where eq: "js_sort cmp xs = y # ys" by (cases "js_sort cmp xs") auto
  have "cmp y y \<le> 0" using cmp_total by blast
  with sorted_sort [of xs] x show ?thesis unfolding eq by auto
qed

end

end
