(* ===== verification/Errors.thy ===== *)
theory Errors
  imports Prelude
begin

text \<open>
  The exceptions of the API (\<open>apps/api/src/middleware/error.ts\<close>): an exception value carries what
  the global error handler reads (message, status code, error code, the class tests and the hint
  fields), \<open>createError\<close> builds one, and \<open>error_response\<close> is the response the handler sends.
\<close>

record exn =
  err_message :: string
  err_status :: "nat option"
  err_code :: "string option"
  err_zod :: bool
  err_bad_request :: bool
  err_remainingMs :: "int option"
  err_retryAfter :: "int option"

text \<open>\<open>new Error(message)\<close>, a schema failure, and \<open>createError(message, statusCode, code)\<close>.\<close>

definition js_error :: "string \<Rightarrow> exn" where
  "js_error m = \<lparr>err_message = m, err_status = None, err_code = None, err_zod = False,
     err_bad_request = False, err_remainingMs = None, err_retryAfter = None\<rparr>"

definition zod_error :: exn where
  "zod_error = (js_error ''Validation Error'')\<lparr>err_zod := True\<rparr>"

definition createError :: "string \<Rightarrow> nat \<Rightarrow> string option \<Rightarrow> exn" where
  "createError m status c = (js_error m)\<lparr>err_status := Some status, err_code := c\<rparr>"

record response =
  res_status :: nat
  res_error :: string
  res_code :: "string option"
  res_requestId :: "string option"
  res_remainingMs :: "int option"
  res_retryAfter :: "int option"

text \<open>Lines 41 to 61: the status code and the message.\<close>

definition resolve_status :: "exn \<Rightarrow> nat \<times> string" where
  "resolve_status e =
     (if err_zod e then (400, ''Validation Error'')
      else if err_bad_request e then (400, err_message e)
      else if err_code e = Some ''23505'' then (409, ''Resource already exists'')
      else if err_code e = Some ''23503'' then (409, ''Foreign key constraint violation'')
      else if err_code e = Some ''23514'' then (400, ''Check constraint violation'')
      else (case err_status e of None \<Rightarrow> 500 | Some s \<Rightarrow> s, err_message e))"

text \<open>The response body: in production a server error exposes nothing but the request id. The
  response's schema-issue details and the development stack trace are not represented.\<close>

definition error_response :: "bool \<Rightarrow> string \<Rightarrow> exn \<Rightarrow> response" where
  "error_response isProduction requestId e =
     (let (statusCode, message) = resolve_status e;
          isServerError = 500 \<le> statusCode;
          message = (if isServerError then ''Internal Server Error'' else message);
          hidden = isProduction \<and> isServerError
      in \<lparr>res_status = statusCode,
          res_error = (if hidden then ''Internal Server Error'' else message),
          res_code = (if hidden then None else if err_code e = Some '''' then None else err_code e),
          res_requestId = (if hidden then Some requestId else None),
          res_remainingMs = (if hidden then None else err_remainingMs e),
          res_retryAfter = (if hidden then None else err_retryAfter e)\<rparr>)"

lemma resolve_status_createError:
  "c \<notin> {Some ''23505'', Some ''23503'', Some ''23514''} \<Longrightarrow>
   resolve_status (createError m s c) = (s, m)"
  by (simp add: resolve_status_def createError_def js_error_def)

end
