(* ===== verification/Js_Number.thy ===== *)
theory Js_Number
  imports Prelude "HOL-Library.Log_Nat"
begin

text \<open>
  The arithmetic of JavaScript numbers on non-negative values: an IEEE 754 double is a rational, and
  every division or multiplication returns the double nearest to the exact result, ties to the even
  significand. \<open>fl\<close> is that rounding for the normal range (no value of the modelled code is
  subnormal or overflows). The lemmas give what the scoring and the progress code rely on: rounding
  is monotone and keeps every number of at most 53 significant bits, in particular the integers
  below \<open>2 ^ 53\<close>.
\<close>

section \<open>Rounding to an integer\<close>

definition round_even :: "rat \<Rightarrow> int" where
  "round_even y =
     (let f = \<lfloor>y\<rfloor>; d = y - of_int f
      in if d < 1 / 2 then f else if 1 / 2 < d then f + 1 else if even f then f else f + 1)"

lemma round_even_of_int [simp]: "round_even (of_int i) = i"
  by (simp add: round_even_def)

lemma round_even_bounds: "\<lfloor>y\<rfloor> \<le> round_even y" "round_even y \<le> \<lfloor>y\<rfloor> + 1"
  by (auto simp: round_even_def Let_def)

lemma round_even_mono:
  assumes "x \<le> y"
  shows "round_even x \<le> round_even y"
proof (cases "\<lfloor>x\<rfloor> = \<lfloor>y\<rfloor>")
  case True
  with assms show ?thesis by (auto simp: round_even_def Let_def)
next
  case False
  then have "\<lfloor>x\<rfloor> + 1 \<le> \<lfloor>y\<rfloor>" using assms floor_mono [of x y] by linarith
  then show ?thesis using round_even_bounds [of x] round_even_bounds [of y] by linarith
qed

section \<open>The binary exponent\<close>

definition pow2 :: "int \<Rightarrow> rat" where
  "pow2 e = (if 0 \<le> e then 2 ^ nat e else 1 / 2 ^ nat (- e))"

lemma pow2_pos [simp]: "0 < pow2 e"
  by (simp add: pow2_def)

lemma pow2_nonzero [simp]: "pow2 e \<noteq> 0"
  using pow2_pos [of e] by linarith

lemma pow2_powi: "pow2 e = 2 powi e"
  by (simp add: pow2_def power_int_def power_one_over inverse_eq_divide)

lemma pow2_add: "pow2 (a + b) = pow2 a * pow2 b"
  by (simp add: pow2_powi power_int_add)

lemma pow2_0 [simp]: "pow2 0 = 1"
  by (simp add: pow2_def)

lemma pow2_1 [simp]: "pow2 1 = 2"
  by (simp add: pow2_def)

lemma pow2_of_nat [simp]: "pow2 (int n) = 2 ^ n"
  by (simp add: pow2_def)

lemma pow2_mono: "a \<le> b \<Longrightarrow> pow2 a \<le> pow2 b"
  by (simp add: pow2_powi power_int_increasing)

lemma pow2_strict_mono: "a < b \<Longrightarrow> pow2 a < pow2 b"
  by (simp add: pow2_powi power_int_strict_increasing)

text \<open>\<open>expo x\<close> is the exponent \<open>e\<close> with \<open>2 ^ e \<le> x < 2 ^ (e + 1)\<close>, from the bit lengths of
  numerator and denominator.\<close>

definition expo :: "rat \<Rightarrow> int" where
  "expo x =
     (let (p, q) = quotient_of x; e = bitlen p - bitlen q
      in if x < pow2 e then e - 1 else e)"

lemma bitlen_pow2:
  assumes "0 < p"
  shows "pow2 (bitlen p - 1) \<le> of_int p" "of_int p < pow2 (bitlen p)"
proof -
  have b: "2 ^ nat (bitlen p - 1) \<le> p \<and> p < 2 ^ nat (bitlen p)"
    using bitlen_bounds [OF assms] .
  have pos: "1 \<le> bitlen p" using assms by (simp add: bitlen_def floorlog_def)
  have "(of_int (2 ^ nat (bitlen p - 1)) :: rat) \<le> of_int p" using b by (simp only: of_int_le_iff)
  then show "pow2 (bitlen p - 1) \<le> of_int p" using pos by (simp add: pow2_def)
  have "(of_int p :: rat) < of_int (2 ^ nat (bitlen p))" using b by (simp only: of_int_less_iff)
  then show "of_int p < pow2 (bitlen p)" using pos by (simp add: pow2_def)
qed

lemma expo_bounds:
  assumes "0 < x"
  shows "pow2 (expo x) \<le> x" "x < pow2 (expo x + 1)"
proof -
  obtain p q where pq: "quotient_of x = (p, q)" by force
  have q: "0 < q" using pq by (rule quotient_of_denom_pos)
  have x: "x = of_int p / of_int q" using pq by (rule quotient_of_div)
  have p: "0 < p" using assms q unfolding x by (simp add: zero_less_divide_iff)
  define e where "e = bitlen p - bitlen q"
  have qpos: "(0 :: rat) < of_int q" using q by simp
  have low: "pow2 (e - 1) < x"
  proof -
    have "pow2 (e - 1) * of_int q < pow2 (e - 1) * pow2 (bitlen q)"
      using bitlen_pow2(2) [OF q] by (simp add: mult_less_cancel_left_pos)
    also have "\<dots> = pow2 (bitlen p - 1)" by (simp add: e_def flip: pow2_add)
    also have "\<dots> \<le> of_int p" using bitlen_pow2(1) [OF p] .
    finally show ?thesis using qpos by (simp add: x pos_less_divide_eq)
  qed
  have high: "x < pow2 (e + 1)"
  proof -
    have "of_int p < pow2 (bitlen p)" using bitlen_pow2(2) [OF p] .
    also have "\<dots> = pow2 (e + 1) * pow2 (bitlen q - 1)" by (simp add: e_def flip: pow2_add)
    also have "\<dots> \<le> pow2 (e + 1) * of_int q"
      using bitlen_pow2(1) [OF q] by (simp add: mult_le_cancel_left_pos)
    finally show ?thesis using qpos by (simp add: x pos_divide_less_eq)
  qed
  have "expo x = (if x < pow2 e then e - 1 else e)" by (simp add: expo_def pq e_def)
  with low high show "pow2 (expo x) \<le> x" "x < pow2 (expo x + 1)" by (auto split: if_splits)
qed

lemma expo_mono:
  assumes "0 < x" and "x \<le> y"
  shows "expo x \<le> expo y"
proof (rule ccontr)
  assume "\<not> expo x \<le> expo y"
  then have "pow2 (expo y + 1) \<le> pow2 (expo x)" by (intro pow2_mono) simp
  with expo_bounds(1) [OF assms(1)] expo_bounds(2) [of y] assms show False by linarith
qed

section \<open>Rounding to a double\<close>

definition fl :: "rat \<Rightarrow> rat" where
  "fl x = (if x \<le> 0 then 0 else of_int (round_even (x * pow2 (52 - expo x))) * pow2 (expo x - 52))"

definition ndiv :: "rat \<Rightarrow> rat \<Rightarrow> rat" where
  "ndiv a b = fl (a / b)"

definition nmult :: "rat \<Rightarrow> rat \<Rightarrow> rat" where
  "nmult a b = fl (a * b)"

lemma fl_nonneg [simp]: "0 \<le> fl x"
proof (cases "x \<le> 0")
  case False
  then have "0 \<le> x * pow2 (52 - expo x)" by (simp add: less_imp_le)
  then have "round_even 0 \<le> round_even (x * pow2 (52 - expo x))" by (rule round_even_mono)
  then have "0 \<le> round_even (x * pow2 (52 - expo x))" using round_even_of_int [of 0] by simp
  then show ?thesis by (simp add: fl_def less_imp_le)
qed (simp add: fl_def)

lemma fl_0 [simp]: "fl 0 = 0"
  by (simp add: fl_def)

text \<open>Rounding stays within the binade, its upper end included.\<close>

lemma fl_binade:
  assumes "0 < x"
  shows "pow2 (expo x) \<le> fl x" "fl x \<le> pow2 (expo x + 1)"
proof -
  let ?s = "pow2 (52 - expo x)"
  have two53: "(of_int (2 ^ 52) :: rat) = pow2 52" "(of_int (2 ^ 53) :: rat) = pow2 53"
    by (simp_all add: pow2_def)
  have scale: "pow2 (expo x) * ?s = of_int (2 ^ 52)" "pow2 (expo x + 1) * ?s = of_int (2 ^ 53)"
    unfolding two53 by (simp_all add: add.commute flip: pow2_add)
  have rescale: "of_int (2 ^ 52) * pow2 (expo x - 52) = pow2 (expo x)"
    "of_int (2 ^ 53) * pow2 (expo x - 52) = pow2 (expo x + 1)"
    unfolding two53 by (simp_all add: add.commute flip: pow2_add)
  have "pow2 (expo x) * ?s \<le> x * ?s" "x * ?s \<le> pow2 (expo x + 1) * ?s"
    using expo_bounds [OF assms] by (simp_all add: mult_right_mono less_imp_le)
  then have "round_even (of_int (2 ^ 52)) \<le> round_even (x * ?s)"
    "round_even (x * ?s) \<le> round_even (of_int (2 ^ 53))"
    unfolding scale by (auto intro!: round_even_mono)
  then have "(2 ^ 52 :: int) \<le> round_even (x * ?s)" "round_even (x * ?s) \<le> (2 ^ 53 :: int)"
    by (simp_all only: round_even_of_int)
  then have "(of_int (2 ^ 52) :: rat) \<le> of_int (round_even (x * ?s))"
    "(of_int (round_even (x * ?s)) :: rat) \<le> of_int (2 ^ 53)"
    by (simp_all only: of_int_le_iff)
  then have "of_int (2 ^ 52) * pow2 (expo x - 52) \<le> fl x" "fl x \<le> of_int (2 ^ 53) * pow2 (expo x - 52)"
    using assms by (simp_all add: fl_def mult_right_mono less_imp_le del: of_int_power)
  then show "pow2 (expo x) \<le> fl x" "fl x \<le> pow2 (expo x + 1)"
    by (simp_all only: rescale)
qed

lemma fl_mono:
  assumes "x \<le> y"
  shows "fl x \<le> fl y"
proof (cases "x \<le> 0")
  case True
  then show ?thesis by (simp add: fl_def [of x])
next
  case False
  then have x: "0 < x" and y: "0 < y" using assms by simp_all
  show ?thesis
  proof (cases "expo x = expo y")
    case True
    have "x * pow2 (52 - expo x) \<le> y * pow2 (52 - expo y)"
      using assms True by (simp add: mult_right_mono less_imp_le)
    then have "round_even (x * pow2 (52 - expo x)) \<le> round_even (y * pow2 (52 - expo y))"
      by (rule round_even_mono)
    then show ?thesis using x y True by (simp add: fl_def mult_right_mono less_imp_le)
  next
    case False
    then have "expo x + 1 \<le> expo y" using expo_mono [OF x assms] by simp
    then have "pow2 (expo x + 1) \<le> pow2 (expo y)" by (rule pow2_mono)
    then show ?thesis using fl_binade(2) [OF x] fl_binade(1) [OF y] by linarith
  qed
qed

text \<open>The relative rounding error is at most \<open>2 ^ -53\<close>.\<close>

lemma round_even_error: "\<bar>of_int (round_even y) - y\<bar> \<le> 1 / 2"
proof -
  have "of_int \<lfloor>y\<rfloor> \<le> y" "y < of_int \<lfloor>y\<rfloor> + 1" using floor_correct [of y] by simp_all
  then show ?thesis by (auto simp: round_even_def Let_def abs_le_iff)
qed

lemma fl_error:
  assumes "0 \<le> x"
  shows "\<bar>fl x - x\<bar> \<le> x / 2 ^ 53"
proof (cases "x = 0")
  case False
  then have x: "0 < x" using assms by simp
  let ?s = "pow2 (52 - expo x)" and ?t = "pow2 (expo x - 52)"
  have st: "?s * ?t = 1" by (simp flip: pow2_add)
  have "fl x - x = (of_int (round_even (x * ?s)) - x * ?s) * ?t"
    using x st by (simp add: fl_def algebra_simps)
  then have "\<bar>fl x - x\<bar> = \<bar>of_int (round_even (x * ?s)) - x * ?s\<bar> * ?t"
    by (simp add: abs_mult less_imp_le)
  also have "\<dots> \<le> 1 / 2 * ?t"
    using round_even_error by (intro mult_right_mono) (simp_all add: less_imp_le)
  also have "\<dots> = pow2 (expo x) / 2 ^ 53"
  proof -
    have "pow2 (expo x) = ?t * pow2 52" by (simp flip: pow2_add)
    then show ?thesis by (simp add: pow2_def)
  qed
  also have "\<dots> \<le> x / 2 ^ 53" using expo_bounds(1) [OF x] by (simp add: divide_right_mono)
  finally show ?thesis .
qed simp

text \<open>A number of at most 53 significant bits is a double, so rounding keeps it.\<close>

lemma fl_exact:
  assumes "0 < x" and "x * pow2 (52 - expo x) = of_int m"
  shows "fl x = x"
proof -
  have "fl x = of_int m * pow2 (expo x - 52)" using assms by (simp add: fl_def)
  also have "\<dots> = x * (pow2 (52 - expo x) * pow2 (expo x - 52))" by (simp flip: assms(2))
  also have "\<dots> = x" by (simp flip: pow2_add)
  finally show ?thesis .
qed

lemma fl_of_nat:
  assumes "n < 2 ^ 53"
  shows "fl (of_nat n) = of_nat n"
proof (cases "n = 0")
  case False
  then have pos: "(0 :: rat) < of_nat n" by simp
  have "expo (of_nat n) \<le> 52"
  proof (rule ccontr)
    assume "\<not> expo (of_nat n) \<le> 52"
    then have "pow2 53 \<le> pow2 (expo (of_nat n))" by (intro pow2_mono) simp
    then have "pow2 53 \<le> of_nat n" using expo_bounds(1) [OF pos] by linarith
    then have "(of_nat (2 ^ 53) :: rat) \<le> of_nat n" by (simp add: pow2_def)
    with assms show False by (simp only: of_nat_le_iff)
  qed
  then have "of_nat n * pow2 (52 - expo (of_nat n)) = of_int (int n * 2 ^ nat (52 - expo (of_nat n)))"
    by (simp add: pow2_def)
  with pos show ?thesis by (rule fl_exact)
qed simp

lemma fl_le_of_nat: "x \<le> of_nat n \<Longrightarrow> n < 2 ^ 53 \<Longrightarrow> fl x \<le> of_nat n"
  using fl_mono [of x "of_nat n"] fl_of_nat [of n] by simp

lemma fl_ge_of_nat: "of_nat n \<le> x \<Longrightarrow> n < 2 ^ 53 \<Longrightarrow> of_nat n \<le> fl x"
  using fl_mono [of "of_nat n" x] fl_of_nat [of n] by simp

section \<open>Number values\<close>

text \<open>A JavaScript number: a finite value, an infinity or \<open>NaN\<close>. Every comparison with \<open>NaN\<close>
  is false.\<close>

datatype jsnum = Num rat | PosInf | NegInf | NaN

fun isFinite :: "jsnum \<Rightarrow> bool" where
  "isFinite (Num _) = True"
| "isFinite _ = False"

fun num_less :: "jsnum \<Rightarrow> jsnum \<Rightarrow> bool" where
  "num_less NaN _ = False"
| "num_less _ NaN = False"
| "num_less (Num a) (Num b) = (a < b)"
| "num_less (Num _) PosInf = True"
| "num_less (Num _) NegInf = False"
| "num_less NegInf NegInf = False"
| "num_less NegInf _ = True"
| "num_less PosInf _ = False"

definition num_le :: "jsnum \<Rightarrow> jsnum \<Rightarrow> bool" where
  "num_le a b \<longleftrightarrow> num_less a b \<or> (a = b \<and> a \<noteq> NaN)"

lemma num_le_Num [simp]: "num_le (Num a) (Num b) \<longleftrightarrow> a \<le> b"
  by (auto simp: num_le_def)

end
