(* ===== verification/Tables.thy ===== *)
theory Tables
  imports Errors Js_Number
begin

text \<open>
  The state the services share: SQL tables as lists of rows, the Redis keys with their expiry, and
  the interface of a state machine with an invariant. A statement of the source is a function on
  rows: \<open>SELECT ... LIMIT 1\<close> is \<open>find_row\<close>, \<open>UPDATE ... WHERE\<close> is \<open>update_where\<close>,
  \<open>DELETE ... WHERE\<close> is \<open>delete_where\<close>, and a \<open>UNIQUE\<close> constraint is \<open>unique_by\<close>.
  Times are integers, milliseconds since the epoch.
\<close>

section \<open>Tables\<close>

definition unique_by :: "('r \<Rightarrow> 'k) \<Rightarrow> 'r list \<Rightarrow> bool" where
  "unique_by key rows \<longleftrightarrow> distinct (map key rows)"

definition find_row :: "('r \<Rightarrow> bool) \<Rightarrow> 'r list \<Rightarrow> 'r option" where
  "find_row P rows = List.find P rows"

definition update_where :: "('r \<Rightarrow> bool) \<Rightarrow> ('r \<Rightarrow> 'r) \<Rightarrow> 'r list \<Rightarrow> 'r list" where
  "update_where P f rows = map (\<lambda>r. if P r then f r else r) rows"

definition delete_where :: "('r \<Rightarrow> bool) \<Rightarrow> 'r list \<Rightarrow> 'r list" where
  "delete_where P rows = filter (\<lambda>r. \<not> P r) rows"

definition count_where :: "('r \<Rightarrow> bool) \<Rightarrow> 'r list \<Rightarrow> nat" where
  "count_where P rows = length (filter P rows)"

lemma find_row_Some: "find_row P rows = Some r \<Longrightarrow> r \<in> set rows \<and> P r"
  by (auto simp: find_row_def find_Some_iff)

lemma find_row_None: "find_row P rows = None \<longleftrightarrow> (\<forall>r \<in> set rows. \<not> P r)"
  by (auto simp: find_row_def find_None_iff)

lemma find_row_simps [simp]:
  "find_row P [] = None" "find_row P (r # rows) = (if P r then Some r else find_row P rows)"
  by (simp_all add: find_row_def)

lemma find_row_append:
  "find_row P (xs @ ys) = (case find_row P xs of None \<Rightarrow> find_row P ys | Some r \<Rightarrow> Some r)"
  by (induction xs) auto

lemma find_row_unique:
  assumes "unique_by key rows" and "r \<in> set rows"
  shows "find_row (\<lambda>x. key x = key r) rows = Some r"
  using assms by (induction rows) (auto simp: unique_by_def image_iff)

lemma unique_byD: "unique_by key rows \<Longrightarrow> r \<in> set rows \<Longrightarrow> s \<in> set rows \<Longrightarrow> key r = key s \<Longrightarrow> r = s"
  by (metis distinct_map inj_onD unique_by_def)

lemma unique_by_update:
  "(\<And>r. P r \<Longrightarrow> key (f r) = key r) \<Longrightarrow> unique_by key (update_where P f rows) = unique_by key rows"
proof -
  assume "\<And>r. P r \<Longrightarrow> key (f r) = key r"
  then have "map key (update_where P f rows) = map key rows" by (auto simp: update_where_def)
  then show ?thesis by (simp add: unique_by_def)
qed

lemma unique_by_delete: "unique_by key rows \<Longrightarrow> unique_by key (delete_where P rows)"
  by (simp add: unique_by_def delete_where_def distinct_map_filter)

lemma unique_by_snoc:
  "unique_by key (rows @ [r]) \<longleftrightarrow> unique_by key rows \<and> find_row (\<lambda>x. key x = key r) rows = None"
  by (auto simp: unique_by_def find_row_None image_iff)

lemma unique_by_Nil [simp]: "unique_by key []"
  by (simp add: unique_by_def)

lemma set_update_where:
  "set (update_where P f rows) = f ` {r \<in> set rows. P r} \<union> {r \<in> set rows. \<not> P r}"
  by (auto simp: update_where_def)

lemma in_update_whereE:
  assumes "r \<in> set (update_where P f rows)"
  obtains r0 where "r0 \<in> set rows" "P r0" "r = f r0" | "r \<in> set rows" "\<not> P r"
  using assms by (auto simp: update_where_def split: if_splits)

lemma ball_update_where:
  "(\<forall>r \<in> set (update_where P f rows). Q r) \<longleftrightarrow>
   (\<forall>r \<in> set rows. if P r then Q (f r) else Q r)"
  by (auto simp: update_where_def)

lemma ball_delete_where: "\<forall>r \<in> set rows. Q r \<Longrightarrow> \<forall>r \<in> set (delete_where P rows). Q r"
  by (auto simp: delete_where_def)

lemma set_delete_where: "set (delete_where P rows) = {r \<in> set rows. \<not> P r}"
  by (auto simp: delete_where_def)

text \<open>An update that leaves no row matching its own condition can happen only once.\<close>

lemma update_where_once:
  assumes "\<And>r. P r \<Longrightarrow> \<not> P (f r)"
  shows "find_row P (update_where P f rows) = None"
    and "update_where P g (update_where P f rows) = update_where P f rows"
  using assms by (auto simp: find_row_None update_where_def)

text \<open>An update by primary key changes at most one row.\<close>

lemma find_row_update_key:
  assumes "unique_by key rows" and "\<And>r. key (f r) = key r"
  shows "find_row (\<lambda>x. key x = k) (update_where (\<lambda>x. key x = k') f rows) =
    (if k = k' then map_option f (find_row (\<lambda>x. key x = k) rows)
     else find_row (\<lambda>x. key x = k) rows)"
  using assms by (induction rows) (auto simp: update_where_def unique_by_def)

lemma find_row_update_other:
  assumes "\<And>r. Q r \<Longrightarrow> \<not> P r \<and> \<not> P (f r)"
  shows "find_row P (update_where Q f rows) = find_row P rows"
  using assms by (induction rows) (auto simp: update_where_def)

lemma image_update_where: "(\<And>r. key (f r) = key r) \<Longrightarrow> key ` set (update_where P f rows) = key ` set rows"
  by (induction rows) (simp_all add: update_where_def)

text \<open>An update that does not touch the condition of a query.\<close>

lemma find_row_update_same:
  assumes "\<And>r. P (f r) = P r"
  shows "find_row P (update_where Q f rows) = map_option (\<lambda>r. if Q r then f r else r) (find_row P rows)"
  using assms by (induction rows) (auto simp: update_where_def)

section \<open>Redis\<close>

text \<open>A key holds a value and, with \<open>EX\<close>, the time it expires. An integer value stands for its
  decimal string, and a list of named numbers for the JSON text of an object.\<close>

datatype rval = RStr string | RInt int | RSet "string list" | RObj "(string \<times> jsnum) list"

type_synonym rstore = "string \<Rightarrow> (rval \<times> int option) option"

definition r_get :: "int \<Rightarrow> rstore \<Rightarrow> string \<Rightarrow> rval option" where
  "r_get now st k =
     (case st k of
        None \<Rightarrow> None
      | Some (v, None) \<Rightarrow> Some v
      | Some (v, Some e) \<Rightarrow> if now < e then Some v else None)"

definition r_expiry :: "int \<Rightarrow> rstore \<Rightarrow> string \<Rightarrow> int option" where
  "r_expiry now st k = (case st k of Some (v, e) \<Rightarrow> (if r_get now st k = None then None else e) | None \<Rightarrow> None)"

definition r_set :: "rstore \<Rightarrow> string \<Rightarrow> rval \<Rightarrow> rstore" where
  "r_set st k v = st(k \<mapsto> (v, None))"

definition r_set_ex :: "int \<Rightarrow> rstore \<Rightarrow> string \<Rightarrow> rval \<Rightarrow> int \<Rightarrow> rstore" where
  "r_set_ex now st k v secs = st(k \<mapsto> (v, Some (now + secs * 1000)))"

text \<open>\<open>SET k v EX secs NX\<close>: whether the key was set, and the store.\<close>

definition r_set_nx :: "int \<Rightarrow> rstore \<Rightarrow> string \<Rightarrow> rval \<Rightarrow> int \<Rightarrow> bool \<times> rstore" where
  "r_set_nx now st k v secs =
     (if r_get now st k = None then (True, r_set_ex now st k v secs) else (False, st))"

definition r_del :: "rstore \<Rightarrow> string \<Rightarrow> rstore" where
  "r_del st k = st(k := None)"

definition r_incr :: "int \<Rightarrow> rstore \<Rightarrow> string \<Rightarrow> int \<times> rstore" where
  "r_incr now st k =
     (let n = (case r_get now st k of Some (RInt i) \<Rightarrow> i | _ \<Rightarrow> 0) + 1
      in (n, st(k \<mapsto> (RInt n, r_expiry now st k))))"

definition r_expire :: "int \<Rightarrow> rstore \<Rightarrow> string \<Rightarrow> int \<Rightarrow> rstore" where
  "r_expire now st k secs =
     (case r_get now st k of None \<Rightarrow> st | Some v \<Rightarrow> st(k \<mapsto> (v, Some (now + secs * 1000))))"

text \<open>\<open>TTL\<close> in seconds: -2 for no key, -1 for a key without expiry.\<close>

definition r_ttl :: "int \<Rightarrow> rstore \<Rightarrow> string \<Rightarrow> int" where
  "r_ttl now st k =
     (if r_get now st k = None then - 2
      else case r_expiry now st k of None \<Rightarrow> - 1 | Some e \<Rightarrow> (e - now + 999) div 1000)"

definition r_sadd :: "int \<Rightarrow> rstore \<Rightarrow> string \<Rightarrow> string \<Rightarrow> rstore" where
  "r_sadd now st k x =
     (let xs = (case r_get now st k of Some (RSet ys) \<Rightarrow> ys | _ \<Rightarrow> [])
      in st(k \<mapsto> (RSet (if x \<in> set xs then xs else xs @ [x]), r_expiry now st k)))"

definition r_smembers :: "int \<Rightarrow> rstore \<Rightarrow> string \<Rightarrow> string list" where
  "r_smembers now st k = (case r_get now st k of Some (RSet ys) \<Rightarrow> ys | _ \<Rightarrow> [])"

definition r_scard :: "int \<Rightarrow> rstore \<Rightarrow> string \<Rightarrow> nat" where
  "r_scard now st k = length (r_smembers now st k)"

lemmas redis_defs = r_get_def r_expiry_def r_set_def r_set_ex_def r_set_nx_def r_del_def r_incr_def
  r_expire_def r_ttl_def r_sadd_def r_smembers_def r_scard_def

text \<open>What a client of an expiring store relies on.\<close>

locale expiring_store =
  fixes get :: "int \<Rightarrow> 's \<Rightarrow> 'k \<Rightarrow> 'v option"
    and set_ex :: "int \<Rightarrow> 's \<Rightarrow> 'k \<Rightarrow> 'v \<Rightarrow> int \<Rightarrow> 's"
    and del :: "'s \<Rightarrow> 'k \<Rightarrow> 's"
  assumes get_set_ex: "get t (set_ex now s k v secs) k' =
      (if k' = k then (if t < now + secs * 1000 then Some v else None) else get t s k')"
    and get_del: "get t (del s k) k' = (if k' = k then None else get t s k')"
    and get_antimono: "t \<le> t' \<Longrightarrow> get t' s k = Some v \<Longrightarrow> get t s k = Some v"
begin

text \<open>A key consumed by \<open>del\<close> cannot be read again, and an expired one stays expired.\<close>

lemma consumed: "get t (del s k) k = None"
  by (simp add: get_del)

lemma stays_expired: "get t s k = None \<Longrightarrow> t \<le> t' \<Longrightarrow> get t' s k = None"
  using get_antimono by (cases "get t' s k") fastforce+

lemma set_ex_then_other: "k' \<noteq> k \<Longrightarrow> get t (set_ex now s k v secs) k' = get t s k'"
  by (simp add: get_set_ex)

end

interpretation redis: expiring_store r_get r_set_ex r_del
proof
  fix t t' :: int and s k v
  show "t \<le> t' \<Longrightarrow> r_get t' s k = Some v \<Longrightarrow> r_get t s k = Some v"
    by (auto simp: r_get_def split: option.splits if_splits)
qed (auto simp: redis_defs)

section \<open>Handlers\<close>

text \<open>A handler returns its result or the exception it throws, with the state it leaves behind: what
  was written before an exception stays written. \<open>and_then\<close> runs the next middleware.\<close>

definition and_then ::
  "('e + 'a) \<times> 's \<Rightarrow> ('a \<Rightarrow> 's \<Rightarrow> ('e + 'b) \<times> 's) \<Rightarrow> ('e + 'b) \<times> 's" where
  "and_then m f = (case m of (Inl e, s) \<Rightarrow> (Inl e, s) | (Inr a, s) \<Rightarrow> f a s)"

lemma and_then_simps [simp]:
  "and_then (Inl e, s) f = (Inl e, s)" "and_then (Inr a, s) f = f a s"
  by (simp_all add: and_then_def)

lemma and_then_if: "and_then (if b then m else n) f = (if b then and_then m f else and_then n f)"
  by simp

lemma and_then_Inr:
  "and_then m f = (Inr b, t) \<longleftrightarrow> (\<exists>a s. m = (Inr a, s) \<and> f a s = (Inr b, t))"
  by (auto simp: and_then_def split: prod.splits sum.splits)

text \<open>Whatever the first part and the rest keep, the whole keeps, on success and on failure.\<close>

lemma and_then_keeps:
  assumes "P (snd m)" and "\<And>a s. m = (Inr a, s) \<Longrightarrow> P s \<Longrightarrow> P (snd (f a s))"
  shows "P (snd (and_then m f))"
  using assms by (auto simp: and_then_def split: prod.splits sum.splits)

section \<open>State machines\<close>

text \<open>An initial predicate, a step relation and an invariant kept by every step; the reachable
  states satisfy the invariant.\<close>

locale transition_system =
  fixes init :: "'s \<Rightarrow> bool"
    and step :: "'s \<Rightarrow> 's \<Rightarrow> bool"
    and inv :: "'s \<Rightarrow> bool"
  assumes inv_init: "init s \<Longrightarrow> inv s"
    and inv_step: "inv s \<Longrightarrow> step s t \<Longrightarrow> inv t"
begin

lemma inv_steps: "step\<^sup>*\<^sup>* s t \<Longrightarrow> inv s \<Longrightarrow> inv t"
  by (induction rule: rtranclp_induct) (auto intro: inv_step)

lemma inv_reachable: "init s \<Longrightarrow> step\<^sup>*\<^sup>* s t \<Longrightarrow> inv t"
  using inv_steps inv_init by blast

end

end
