(* ===== verification/Usdc.thy ===== *)
theory Usdc
  imports Errors
begin

text \<open>
  Money (\<open>apps/api/src/lib/usdc.ts\<close>): USDC amounts are decimal strings with at most seven places,
  stroops are unbounded integers. The theory gives the conversions, their round trips and the
  proportional share with its conservation bounds.
\<close>

definition STROOPS_PER_USDC :: int where
  "STROOPS_PER_USDC = 10000000"

lemma STROOPS_pos [simp]: "0 < STROOPS_PER_USDC"
  by (simp add: STROOPS_PER_USDC_def)

text \<open>The pattern of an amount: digits, then optionally a point followed by at most seven digits.
  The two groups are the whole and the fractional digits.\<close>

definition match_usdc :: "string \<Rightarrow> (string \<times> string) option" where
  "match_usdc amount =
     (let whole = takeWhile is_digit amount; rest = dropWhile is_digit amount
      in if whole = [] then None
         else case rest of
             [] \<Rightarrow> Some (whole, [])
           | c # frc \<Rightarrow>
               if c = CHR ''.'' \<and> list_all is_digit frc \<and> length frc \<le> 7 then Some (whole, frc)
               else None)"

definition usdcToStroops :: "string \<Rightarrow> exn + string" where
  "usdcToStroops amount =
     (case match_usdc amount of
        None \<Rightarrow> Inl (js_error ''USDC amount must be a non-negative decimal with up to 7 places'')
      | Some (w, f) \<Rightarrow>
          let whole = int (nat_of_string w); fractional = padEnd 7 CHR ''0'' f
          in Inr (string_of_int (whole * STROOPS_PER_USDC + int (nat_of_string fractional))))"

definition stroopsToUsdc :: "int \<Rightarrow> string" where
  "stroopsToUsdc value =
     (let whole = jdiv value STROOPS_PER_USDC; fractional = jmod value STROOPS_PER_USDC
      in string_of_int whole @ ''.'' @ padStart 7 CHR ''0'' (string_of_int fractional))"

definition calculatePayoutShareStroops :: "int \<Rightarrow> int \<Rightarrow> int \<Rightarrow> int" where
  "calculatePayoutShareStroops userScore totalPointsAllUsers poolAmountStroops =
     (if totalPointsAllUsers = 0 then 0
      else jdiv (poolAmountStroops * userScore) totalPointsAllUsers)"

section \<open>Round trips\<close>

lemma takeWhile_digits_point:
  "list_all is_digit w \<Longrightarrow> takeWhile is_digit (w @ CHR ''.'' # f) = w"
  "list_all is_digit w \<Longrightarrow> dropWhile is_digit (w @ CHR ''.'' # f) = CHR ''.'' # f"
  by (induction w) (simp_all add: is_digit_def)

lemma match_usdc_decimal:
  assumes "list_all is_digit w" and "w \<noteq> []" and "list_all is_digit f" and "length f \<le> 7"
  shows "match_usdc (w @ ''.'' @ f) = Some (w, f)"
  using assms by (simp add: match_usdc_def takeWhile_digits_point)

lemma string_of_int_of_nat [simp]: "string_of_int (int n) = string_of_nat n"
  by (simp add: string_of_int_def)

lemma stroopsToUsdc_of_nat:
  "stroopsToUsdc (int n) =
     string_of_nat (n div 10000000) @ ''.'' @ padStart 7 CHR ''0'' (string_of_nat (n mod 10000000))"
proof -
  have "int n div STROOPS_PER_USDC = int (n div 10000000)" "int n mod STROOPS_PER_USDC = int (n mod 10000000)"
    by (simp_all add: STROOPS_PER_USDC_def zdiv_int zmod_int)
  then show ?thesis by (simp add: stroopsToUsdc_def)
qed

lemma length_frac: "length (string_of_nat (n mod 10000000)) \<le> 7"
  using length_string_of_nat [of "n mod 10000000" 6] by simp

lemma usdcToStroops_stroopsToUsdc: "usdcToStroops (stroopsToUsdc (int n)) = Inr (string_of_nat n)"
proof -
  let ?f = "padStart 7 CHR ''0'' (string_of_nat (n mod 10000000))"
  have len: "length ?f = 7" using length_frac [of n] by simp
  have "match_usdc (stroopsToUsdc (int n)) = Some (string_of_nat (n div 10000000), ?f)"
    unfolding stroopsToUsdc_of_nat
    by (rule match_usdc_decimal) (simp_all add: string_of_nat_digits digits_padStart length_frac)
  moreover have "padEnd 7 CHR ''0'' ?f = ?f" using len by (simp add: padEnd_def)
  moreover have "int (n div 10000000) * STROOPS_PER_USDC + int (n mod 10000000) = int n"
    by (simp add: STROOPS_PER_USDC_def zdiv_int zmod_int)
  ultimately show ?thesis by (simp add: usdcToStroops_def)
qed

lemma match_usdc_Some:
  assumes "match_usdc s = Some (w, f)"
  shows "w \<noteq> []" "list_all is_digit w" "list_all is_digit f" "length f \<le> 7" "s = w \<or> s = w @ ''.'' @ f"
proof -
  obtain u v where uv: "u = takeWhile is_digit s" "v = dropWhile is_digit s" by simp
  have split: "s = u @ v" unfolding uv by simp
  have d: "list_all is_digit u" unfolding uv by (auto simp: list_all_iff dest: set_takeWhileD)
  have m: "match_usdc s = (if u = [] then None else case v of [] \<Rightarrow> Some (u, [])
    | c # frc \<Rightarrow> if c = CHR ''.'' \<and> list_all is_digit frc \<and> length frc \<le> 7 then Some (u, frc) else None)"
    unfolding match_usdc_def Let_def uv ..
  note res = assms [unfolded m]
  show "w \<noteq> []" "list_all is_digit w" "list_all is_digit f" "length f \<le> 7"
    using res d by (auto split: if_splits list.splits)
  show "s = w \<or> s = w @ ''.'' @ f"
    using res unfolding split by (auto split: if_splits list.splits)
qed

text \<open>A parsed amount is below one USDC more than its whole part.\<close>

lemma parsed_fraction_bound:
  assumes "list_all is_digit f" and "length f \<le> 7"
  shows "nat_of_string (padEnd 7 CHR ''0'' f) < 10000000"
proof -
  have bound: "nat_of_string t < 10 ^ length t" if "list_all is_digit t" for t
    using that
  proof (induction t rule: rev_induct)
    case (snoc c t)
    then have "digit_val c \<le> 9" "nat_of_string t < 10 ^ length t"
      unfolding digit_val_def is_digit_def by simp_all linarith
    then show ?case by (simp add: nat_of_string_snoc)
  qed simp
  have "list_all is_digit (padEnd 7 CHR ''0'' f)" using assms by (auto simp: padEnd_def list_all_iff)
  then have "nat_of_string (padEnd 7 CHR ''0'' f) < 10 ^ length (padEnd 7 CHR ''0'' f)" by (rule bound)
  then show ?thesis using assms(2) by simp
qed

section \<open>Shares\<close>

lemma share_nonneg:
  "0 \<le> score \<Longrightarrow> 0 \<le> tot \<Longrightarrow> 0 \<le> pool \<Longrightarrow> 0 \<le> calculatePayoutShareStroops score tot pool"
  by (auto simp: calculatePayoutShareStroops_def pos_imp_zdiv_nonneg_iff)

lemma share_div:
  "0 \<le> score \<Longrightarrow> 0 < tot \<Longrightarrow> 0 \<le> pool \<Longrightarrow>
   calculatePayoutShareStroops score tot pool = (pool * score) div tot"
  by (simp add: calculatePayoutShareStroops_def)

lemma shares_le_pool:
  assumes "\<And>x. x \<in> set xs \<Longrightarrow> 0 \<le> score x" and "0 \<le> pool"
    and "tot = (\<Sum>x\<leftarrow>xs. score x)"
  shows "(\<Sum>x\<leftarrow>xs. calculatePayoutShareStroops (score x) tot pool) \<le> pool"
proof (cases "tot = 0")
  case True
  then show ?thesis using assms(2) by (simp add: calculatePayoutShareStroops_def)
next
  case False
  then have pos: "0 < tot" using sum_list_nonneg_int [of xs score] assms(1,3) by simp
  have "(\<Sum>x\<leftarrow>xs. calculatePayoutShareStroops (score x) tot pool) =
    (\<Sum>x\<leftarrow>xs. (pool * score x) div tot)"
    using assms pos by (intro arg_cong [of _ _ sum_list] map_cong) (auto intro: share_div)
  moreover have "(\<Sum>x\<leftarrow>xs. (pool * score x) div tot) * tot \<le> pool * tot"
    using floor_shares_le [OF assms(2) pos, of score xs] assms(3) by simp
  ultimately show ?thesis using pos by (simp add: mult_le_cancel_right)
qed

text \<open>A share never exceeds the pool it is taken from.\<close>

lemma share_le_pool:
  assumes "0 \<le> score" and "score \<le> tot" and "0 \<le> pool"
  shows "calculatePayoutShareStroops score tot pool \<le> pool"
proof (cases "tot = 0")
  case False
  then have pos: "0 < tot" using assms by simp
  have "pool * score \<le> pool * tot" using assms by (simp add: mult_left_mono)
  then have "(pool * score) div tot \<le> (pool * tot) div tot" using pos by (rule zdiv_mono1)
  then show ?thesis using pos assms by (simp add: share_div)
qed (use assms in \<open>simp add: calculatePayoutShareStroops_def\<close>)

text \<open>Less than one stroop per share is left over.\<close>

lemma shares_gt_pool:
  assumes "\<And>x. x \<in> set xs \<Longrightarrow> 0 \<le> score x" and "0 \<le> pool"
    and "tot = (\<Sum>x\<leftarrow>xs. score x)" and "0 < tot"
  shows "pool - int (length xs) < (\<Sum>x\<leftarrow>xs. calculatePayoutShareStroops (score x) tot pool)"
proof -
  let ?S = "\<Sum>x\<leftarrow>xs. calculatePayoutShareStroops (score x) tot pool"
  have eq: "?S = (\<Sum>x\<leftarrow>xs. (pool * score x) div tot)" (is "_ = ?D")
    using assms by (intro arg_cong [of _ _ sum_list] map_cong) (auto intro: share_div)
  have "pool * tot \<le> ?D * tot + int (length xs) * (tot - 1)"
    using floor_shares_ge [OF assms(4), of pool score xs] assms(3) by simp
  also have "\<dots> < ?D * tot + int (length xs) * tot" using assms(3,4) by (cases xs) simp_all
  finally have "pool * tot < (?D + int (length xs)) * tot" by (simp add: distrib_right)
  then show ?thesis using assms(4) eq by (simp add: mult_less_cancel_right)
qed

section \<open>Properties\<close>


text \<open>Proportional shares of a prize pool never add up to more than the pool, each is
  non-negative and at most the pool, and less than one stroop per winner is left over.\<close>

theorem payout_shares_conserve:
  assumes "\<forall>x \<in> set xs. 0 \<le> score x" and "0 \<le> pool"
    and "tot = (\<Sum>x\<leftarrow>xs. score x)" and "0 < tot"
  shows "(\<Sum>x\<leftarrow>xs. calculatePayoutShareStroops (score x) tot pool) \<le> pool \<and>
    pool - int (length xs) < (\<Sum>x\<leftarrow>xs. calculatePayoutShareStroops (score x) tot pool) \<and>
    list_all (\<lambda>x. 0 \<le> calculatePayoutShareStroops (score x) tot pool \<and>
      calculatePayoutShareStroops (score x) tot pool \<le> pool) xs"
proof (intro conjI)
  let ?S = "\<Sum>x\<leftarrow>xs. calculatePayoutShareStroops (score x) tot pool"
  show "?S \<le> pool" using assms(1-3) by (intro shares_le_pool) auto
  show "pool - int (length xs) < ?S" using assms by (intro shares_gt_pool) auto
  have "score x \<le> tot" if "x \<in> set xs" for x
    using member_le_sum_list_int [of xs score x] assms(1,3) that by auto
  then show "list_all (\<lambda>x. 0 \<le> calculatePayoutShareStroops (score x) tot pool \<and>
      calculatePayoutShareStroops (score x) tot pool \<le> pool) xs"
    using assms by (simp add: share_nonneg share_le_pool list_all_iff)
qed

theorem payout_shares_conserve_witness:
  "(\<Sum>x\<leftarrow>[141, 125, 100]. calculatePayoutShareStroops x 366 1000) \<le> 1000 \<and>
   1000 - int (length [141, 125, 100 :: int]) <
     (\<Sum>x\<leftarrow>[141, 125, 100]. calculatePayoutShareStroops x 366 1000)"
  using payout_shares_conserve [of "[141, 125, 100]" "\<lambda>x. x" 1000 366] by simp

end
