(* ===== verification/Scoring.thy ===== *)
theory Scoring
  imports Js_Number Usdc
begin

text \<open>
  Scoring (\<open>apps/api/src/services/scoring.ts\<close>): the score of a round, the range checks, the payout
  share as a decimal string, badge deduplication and the ranking of winners. The speed bonus is
  computed with IEEE doubles as the code does; the lemmas bound it, compare it with the exact
  formula and show that ranking is a stable, deterministic sort.
\<close>

definition BASE_POINTS :: int where "BASE_POINTS = 100"
definition MAX_SPEED_BONUS :: int where "MAX_SPEED_BONUS = 50"
definition ROUND_DURATION_MS :: int where "ROUND_DURATION_MS = 15000"
definition MAX_ROUND_SCORE :: int where "MAX_ROUND_SCORE = BASE_POINTS + MAX_SPEED_BONUS"
definition MAX_TOTAL_SCORE :: int where "MAX_TOTAL_SCORE = MAX_ROUND_SCORE * 3"

lemmas score_consts = BASE_POINTS_def MAX_SPEED_BONUS_def ROUND_DURATION_MS_def
  MAX_ROUND_SCORE_def MAX_TOTAL_SCORE_def

text \<open>The four answer options.\<close>

datatype choice = OptA | OptB | OptC | OptD

datatype validation = Valid | Invalid string jsnum

definition validateRoundScore :: "jsnum \<Rightarrow> validation" where
  "validateRoundScore score =
     (if \<not> isFinite score \<or> num_less score (Num 0) \<or> num_less (Num (of_int MAX_ROUND_SCORE)) score
      then Invalid ''ROUND_SCORE_OUT_OF_RANGE'' score else Valid)"

definition validateTotalScore :: "jsnum \<Rightarrow> validation" where
  "validateTotalScore score =
     (if \<not> isFinite score \<or> num_less score (Num 0) \<or> num_less (Num (of_int MAX_TOTAL_SCORE)) score
      then Invalid ''TOTAL_SCORE_OUT_OF_RANGE'' score else Valid)"

definition calculateRoundScore :: "choice option \<Rightarrow> choice \<Rightarrow> int \<Rightarrow> int" where
  "calculateRoundScore selectedOption correctOption reactionTimeMs =
     (if selectedOption \<noteq> Some correctOption then 0
      else
        let timeLeft = max 0 (ROUND_DURATION_MS - reactionTimeMs);
            speedBonus = \<lfloor>nmult (ndiv (of_int timeLeft) (of_int ROUND_DURATION_MS)) (of_int MAX_SPEED_BONUS)\<rfloor>
        in BASE_POINTS + speedBonus)"

text \<open>\<open>validateAnswer\<close> compares the stored correct option with the selected one.\<close>

definition validateAnswer :: "choice \<Rightarrow> choice option \<Rightarrow> bool" where
  "validateAnswer correct_option selectedOption \<longleftrightarrow> Some correct_option = selectedOption"

definition calculatePayoutShare :: "int \<Rightarrow> int \<Rightarrow> string \<Rightarrow> exn + string" where
  "calculatePayoutShare userScore totalPointsAllUsers poolAmountUsdc =
     bind_r (usdcToStroops poolAmountUsdc) (\<lambda>s.
       Inr (stroopsToUsdc
         (calculatePayoutShareStroops userScore totalPointsAllUsers (int (nat_of_string s)))))"

text \<open>\<open>[...new Set(slugs)]\<close>: the first occurrence of each slug, in order.\<close>

definition deduplicateBadgeSlugs :: "string list \<Rightarrow> string list" where
  "deduplicateBadgeSlugs slugs = foldl (\<lambda>seen s. if s \<in> set seen then seen else seen @ [s]) [] slugs"

text \<open>Timestamps are milliseconds since the epoch (\<open>new Date(endedAt).getTime()\<close>).\<close>

record session_summary =
  sum_userId :: string
  sum_stellarAddress :: string
  sum_totalScore :: int
  sum_endedAt :: int

text \<open>\<open>localeCompare\<close> on user ids: they are UUIDs, whose characters (digits, lower-case letters,
  hyphens at fixed places) collate in code-point order.\<close>

definition localeCompare :: "string \<Rightarrow> string \<Rightarrow> int" where
  "localeCompare a b = (if a < b then - 1 else if a = b then 0 else 1)"

definition compareSessions :: "session_summary \<Rightarrow> session_summary \<Rightarrow> int" where
  "compareSessions a b =
     (if sum_totalScore b \<noteq> sum_totalScore a then sum_totalScore b - sum_totalScore a
      else if sum_endedAt a \<noteq> sum_endedAt b then sum_endedAt a - sum_endedAt b
      else localeCompare (sum_userId a) (sum_userId b))"

text \<open>\<open>topN\<close> absent or 0 keeps every session; \<open>slice(0, n)\<close> with a negative \<open>n\<close> drops from the
  end.\<close>

definition rankWinners :: "session_summary list \<Rightarrow> int option \<Rightarrow> session_summary list" where
  "rankWinners sessions topN =
     (let sorted = js_sort compareSessions sessions
      in case topN of
           None \<Rightarrow> sorted
         | Some n \<Rightarrow> if n = 0 then sorted
                     else if 0 < n then take (nat n) sorted
                     else take (length sorted - nat (- n)) sorted)"

section \<open>Round scores\<close>

text \<open>The speed bonus for a given time left, before and after rounding.\<close>

abbreviation speed_bonus :: "int \<Rightarrow> int" where
  "speed_bonus t \<equiv> \<lfloor>nmult (ndiv (of_int t) 15000) 50\<rfloor>"

lemma calculateRoundScore_correct:
  "calculateRoundScore (Some c) c r = 100 + speed_bonus (max 0 (15000 - r))"
  by (simp add: calculateRoundScore_def score_consts)

lemma calculateRoundScore_wrong: "s \<noteq> Some c \<Longrightarrow> calculateRoundScore s c r = 0"
  by (simp add: calculateRoundScore_def)

lemma ratio_bounds:
  assumes "0 \<le> t" and "t \<le> 15000"
  shows "0 \<le> ndiv (of_int t) 15000" "ndiv (of_int t) 15000 \<le> 1"
proof -
  have "of_int t / 15000 \<le> (of_nat 1 :: rat)" using assms by simp
  then have "fl (of_int t / 15000) \<le> of_nat 1" by (rule fl_le_of_nat) simp
  then show "ndiv (of_int t) 15000 \<le> 1" by (simp add: ndiv_def)
qed (simp add: ndiv_def)

lemma speed_bonus_bounds:
  assumes "0 \<le> t" and "t \<le> 15000"
  shows "0 \<le> speed_bonus t" "speed_bonus t \<le> 50"
proof -
  have "ndiv (of_int t) 15000 * 50 \<le> (of_nat 50 :: rat)" using ratio_bounds [OF assms] by simp
  then have "fl (ndiv (of_int t) 15000 * 50) \<le> of_nat 50" by (rule fl_le_of_nat) simp
  then have "nmult (ndiv (of_int t) 15000) 50 \<le> of_int 50" by (simp add: nmult_def)
  then show "speed_bonus t \<le> 50" by (simp add: floor_le_iff)
qed (simp add: nmult_def)

lemma speed_bonus_mono: "s \<le> t \<Longrightarrow> speed_bonus s \<le> speed_bonus t"
  by (simp add: nmult_def ndiv_def fl_mono floor_mono divide_right_mono mult_right_mono)

lemma speed_bonus_error:
  assumes "0 \<le> t" and "t \<le> 15000"
  shows "\<bar>nmult (ndiv (of_int t) 15000) 50 - of_int t / 300\<bar> \<le> 100 / 2 ^ 53"
proof -
  let ?u = "ndiv (of_int t) 15000" and ?x = "(of_int t :: rat) / 15000"
  have u: "0 \<le> ?u" "?u \<le> 1" using ratio_bounds [OF assms] .
  have "\<bar>fl ?x - ?x\<bar> \<le> ?x / 2 ^ 53" using assms(1) by (intro fl_error) simp
  moreover have "?x / 2 ^ 53 \<le> 1 / 2 ^ 53" using assms(2) by simp
  ultimately have e1: "\<bar>?u - ?x\<bar> \<le> 1 / 2 ^ 53" unfolding ndiv_def by linarith
  have "\<bar>fl (?u * 50) - ?u * 50\<bar> \<le> ?u * 50 / 2 ^ 53" using u by (intro fl_error) simp
  moreover have "?u * 50 / 2 ^ 53 \<le> 50 / 2 ^ 53" using u by simp
  ultimately have e2: "\<bar>nmult ?u 50 - ?u * 50\<bar> \<le> 50 / 2 ^ 53" unfolding nmult_def by linarith
  have "(of_int t :: rat) / 300 = 50 * ?x" by simp
  with e1 e2 show ?thesis by linarith
qed

text \<open>Compared with the exact floor of \<open>t / 300\<close>, rounding can only lose one point, and only where
  \<open>t\<close> is a multiple of 300.\<close>

lemma speed_bonus_exact:
  assumes "0 \<le> t" and "t \<le> 15000"
  shows "speed_bonus t = t div 300 \<or> (t mod 300 = 0 \<and> speed_bonus t = t div 300 - 1)"
proof -
  let ?v = "nmult (ndiv (of_int t) 15000) 50"
  define k m where "k = t div 300" and "m = t mod 300"
  have m: "0 \<le> m" "m \<le> 299" and t: "t = 300 * k + m" by (simp_all add: k_def m_def)
  have t300: "(of_int t :: rat) / 300 = of_int k + of_int m / 300" unfolding t by (simp add: add_divide_distrib)
  have eps: "(100 :: rat) / 2 ^ 53 < 1 / 300" by simp
  have err: "\<bar>?v - (of_int k + of_int m / 300)\<bar> < 1 / 300"
    using speed_bonus_error [OF assms] eps unfolding t300 by linarith
  have mq: "(of_int m :: rat) \<le> 299" "(0 :: rat) \<le> of_int m" using m by simp_all
  have high: "?v < of_int k + 1" using err mq by linarith
  show ?thesis
  proof (cases "m = 0")
    case True
    have "of_int k - 1 \<le> ?v" using err mq by linarith
    then have "k - 1 \<le> \<lfloor>?v\<rfloor>" by (simp add: le_floor_iff)
    moreover have "\<lfloor>?v\<rfloor> \<le> k" using high by (simp add: floor_le_iff)
    ultimately show ?thesis using True by (auto simp: k_def m_def)
  next
    case False
    then have "(1 :: rat) \<le> of_int m" using m by simp
    then have "of_int k \<le> ?v" using err by linarith
    then have "k \<le> \<lfloor>?v\<rfloor>" by (simp add: le_floor_iff)
    moreover have "\<lfloor>?v\<rfloor> \<le> k" using high by (simp add: floor_le_iff)
    ultimately show ?thesis by (simp add: k_def)
  qed
qed

lemma calculateRoundScore_range:
  assumes "0 \<le> r"
  shows "calculateRoundScore s c r = 0 \<or> (100 \<le> calculateRoundScore s c r \<and> calculateRoundScore s c r \<le> 150)"
proof (cases "s = Some c")
  case True
  have "0 \<le> max 0 (15000 - r)" "max 0 (15000 - r) \<le> 15000" using assms by auto
  from speed_bonus_bounds [OF this] show ?thesis
    unfolding True calculateRoundScore_correct by linarith
qed (simp add: calculateRoundScore_wrong)

section \<open>Ranking\<close>

interpretation winners: comparison compareSessions
proof
  fix x y z :: session_summary
  show "0 < compareSessions x y \<longleftrightarrow> compareSessions y x < 0"
    by (auto simp: compareSessions_def localeCompare_def)
  show "compareSessions x y \<le> 0 \<Longrightarrow> compareSessions y z \<le> 0 \<Longrightarrow> compareSessions x z \<le> 0"
    by (auto simp: compareSessions_def localeCompare_def split: if_splits)
qed

lemma compareSessions_eq:
  "compareSessions a b \<le> 0 \<Longrightarrow> compareSessions b a \<le> 0 \<Longrightarrow> sum_userId a = sum_userId b"
  by (auto simp: compareSessions_def localeCompare_def split: if_splits)

lemma set_rankWinners_subset: "set (rankWinners ss n) \<subseteq> set ss"
  by (auto simp: rankWinners_def Let_def split: option.splits if_splits dest: in_set_takeD)

lemma mset_rankWinners_all [simp]: "mset (rankWinners ss None) = mset ss"
  by (simp add: rankWinners_def)

lemma set_rankWinners_all [simp]: "set (rankWinners ss None) = set ss"
  by (simp add: rankWinners_def)

section \<open>Properties\<close>

text \<open>Every round score the server computes passes its own range check: it is 0 for a wrong or
  missing answer and between 100 and 150 for a correct one, and three rounds stay within the total
  range.\<close>

theorem round_score_in_range:
  assumes "0 \<le> r" and "0 \<le> r2" and "0 \<le> r3"
  shows "validateRoundScore (Num (of_int (calculateRoundScore s c r))) = Valid \<and>
    (calculateRoundScore s c r = 0 \<longleftrightarrow> \<not> validateAnswer c s) \<and>
    (validateAnswer c s \<longrightarrow> 100 \<le> calculateRoundScore s c r \<and> calculateRoundScore s c r \<le> 150) \<and>
    validateTotalScore (Num (of_int (calculateRoundScore s c r +
      calculateRoundScore s2 c2 r2 + calculateRoundScore s3 c3 r3))) = Valid"
proof (intro conjI)
  have le: "0 \<le> calculateRoundScore s c r" "calculateRoundScore s c r \<le> 150" if "0 \<le> r" for s c r
    using calculateRoundScore_range [OF that, of s c] by linarith+
  show "validateRoundScore (Num (of_int (calculateRoundScore s c r))) = Valid"
    using le(1) [OF assms(1), of s c] le(2) [OF assms(1), of s c]
    by (simp add: validateRoundScore_def score_consts not_less)
  have "0 \<le> max 0 (15000 - r)" "max 0 (15000 - r) \<le> 15000" using assms by auto
  then have pos: "100 \<le> calculateRoundScore (Some c) c r"
    using speed_bonus_bounds(1) by (simp add: calculateRoundScore_correct)
  then show "calculateRoundScore s c r = 0 \<longleftrightarrow> \<not> validateAnswer c s"
    by (auto simp: validateAnswer_def calculateRoundScore_wrong)
  show "validateAnswer c s \<longrightarrow> 100 \<le> calculateRoundScore s c r \<and> calculateRoundScore s c r \<le> 150"
    using pos le [OF assms(1), of s c] by (auto simp: validateAnswer_def)
  let ?T = "calculateRoundScore s c r + calculateRoundScore s2 c2 r2 + calculateRoundScore s3 c3 r3"
  have "0 \<le> ?T" "?T \<le> 450"
    using le [OF assms(1), of s c] le [OF assms(2), of s2 c2] le [OF assms(3), of s3 c3] by linarith+
  then have "validateTotalScore (Num (of_int x)) = Valid" if "x = ?T" for x
    using that by (simp add: validateTotalScore_def score_consts)
  then show "validateTotalScore (Num (of_int ?T)) = Valid" by blast
qed

theorem round_score_in_range_witness:
  "validateRoundScore (Num (of_int (calculateRoundScore (Some OptB) OptB 2500))) = Valid \<and>
   100 \<le> calculateRoundScore (Some OptB) OptB 2500 \<and>
   validateTotalScore (Num (of_int (calculateRoundScore (Some OptB) OptB 2500 +
     calculateRoundScore None OptC 80 + calculateRoundScore (Some OptD) OptD 15000))) = Valid"
  using round_score_in_range [of 2500 80 15000 "Some OptB" OptB None OptC "Some OptD" OptD]
  by (simp add: validateAnswer_def)

text \<open>A correct answer given sooner never scores less.\<close>

theorem round_score_monotone:
  assumes "r \<le> r'"
  shows "calculateRoundScore s c r' \<le> calculateRoundScore s c r"
proof (cases "s = Some c")
  case True
  have "max 0 (15000 - r') \<le> max 0 (15000 - r)" using assms by simp
  then show ?thesis unfolding True calculateRoundScore_correct using speed_bonus_mono by fastforce
qed (simp add: calculateRoundScore_wrong)

theorem round_score_monotone_witness:
  "calculateRoundScore (Some OptA) OptA 7500 \<le> calculateRoundScore (Some OptA) OptA 2500"
  by (rule round_score_monotone) simp

text \<open>(C34) The double-precision speed bonus is the documented \<open>floor(timeLeft / 15000 * 50)\<close>, except
  that it can be one point lower, and only where the exact bonus is a whole number; it is lower, for
  instance, for a correct answer after 6300 ms, which scores 128 and not 129.\<close>

theorem round_score_exact:
  assumes "0 \<le> r" and "r \<le> 15000"
  shows "(calculateRoundScore (Some c) c r = 100 + (15000 - r) div 300 \<or>
     ((15000 - r) mod 300 = 0 \<and> calculateRoundScore (Some c) c r = 100 + (15000 - r) div 300 - 1)) \<and>
    calculateRoundScore (Some c) c 6300 = 128"
proof (rule conjI)
  have "0 \<le> 15000 - r" "15000 - r \<le> 15000" using assms by auto
  from speed_bonus_exact [OF this] show "calculateRoundScore (Some c) c r = 100 + (15000 - r) div 300 \<or>
     ((15000 - r) mod 300 = 0 \<and> calculateRoundScore (Some c) c r = 100 + (15000 - r) div 300 - 1)"
    using assms by (auto simp: calculateRoundScore_correct)
  have "speed_bonus 8700 = 28" by code_simp
  then show "calculateRoundScore (Some c) c 6300 = 128" by (simp add: calculateRoundScore_correct)
qed

theorem round_score_exact_witness:
  "calculateRoundScore (Some OptA) OptA 2500 = 141 \<and> calculateRoundScore (Some OptA) OptA 6300 = 128"
  using round_score_exact [of 2500 OptA] by simp

text \<open>Ranking returns the sessions in order of score, then finish time, then user id: the full
  ranking is a sorted permutation, a positive limit takes its prefix, nobody outranks the first, and
  with distinct users the outcome does not depend on the order the sessions came in.\<close>

theorem rank_winners_spec:
  "sorted_wrt (\<lambda>a b. compareSessions a b \<le> 0) (rankWinners ss None) \<and>
   mset (rankWinners ss None) = mset ss \<and>
   (0 < n \<longrightarrow> rankWinners ss (Some n) = take (nat n) (rankWinners ss None)) \<and>
   (x \<in> set ss \<longrightarrow> sum_totalScore x \<le> sum_totalScore (hd (rankWinners ss None))) \<and>
   (mset ss = mset ss' \<and> distinct (map sum_userId ss) \<longrightarrow> rankWinners ss None = rankWinners ss' None)"
proof (intro conjI impI)
  show "sorted_wrt (\<lambda>a b. compareSessions a b \<le> 0) (rankWinners ss None)"
    using winners.sorted_sort [of ss] by (simp add: rankWinners_def)
  show "x \<in> set ss \<Longrightarrow> sum_totalScore x \<le> sum_totalScore (hd (rankWinners ss None))"
    using winners.sort_hd_best [of x ss]
    by (auto simp: rankWinners_def compareSessions_def split: if_splits)
  assume *: "mset ss = mset ss' \<and> distinct (map sum_userId ss)"
  have "x = y" if "x \<in> set ss" "y \<in> set ss" "compareSessions x y \<le> 0" "compareSessions y x \<le> 0" for x y
    using compareSessions_eq [OF that(3,4)] * that(1,2) by (metis distinct_map inj_on_contraD)
  with * show "rankWinners ss None = rankWinners ss' None"
    by (simp add: rankWinners_def winners.sort_unique)
qed (simp_all add: rankWinners_def)

abbreviation (input) "ana \<equiv> \<lparr>sum_userId = ''a'', sum_stellarAddress = ''GA'', sum_totalScore = 350, sum_endedAt = 100\<rparr>"
abbreviation (input) "ben \<equiv> \<lparr>sum_userId = ''b'', sum_stellarAddress = ''GB'', sum_totalScore = 350, sum_endedAt = 105\<rparr>"

theorem rank_winners_spec_witness:
  "rankWinners [ben, ana] (Some 1) = take (nat 1) (rankWinners [ben, ana] None) \<and>
   rankWinners [ben, ana] None = rankWinners [ana, ben] None"
  using rank_winners_spec [of "[ben, ana]" 1 ben "[ana, ben]"] by auto

text \<open>Badge deduplication keeps each slug once, in order of first occurrence.\<close>

theorem deduplicate_badges_spec:
  "deduplicateBadgeSlugs slugs = rev (remdups (rev slugs))"
proof -
  have "foldl (\<lambda>seen s. if s \<in> set seen then seen else seen @ [s]) [] slugs = rev (remdups (rev slugs))"
  proof (induction slugs rule: rev_induct)
    case (snoc x xs)
    then show ?case by simp
  qed simp
  then show ?thesis by (simp add: deduplicateBadgeSlugs_def)
qed

end
