(* ===== verification/Sessions_Db.thy ===== *)
theory Sessions_Db
  imports Tables Scoring
begin

text \<open>
  The game tables and their statements (\<open>apps/api/src/db/queries/sessions.ts\<close>): rows of
  \<open>game_sessions\<close>, \<open>session_round_scores\<close>, \<open>users\<close>, \<open>challenges\<close> and \<open>challenge_questions\<close>,
  and one definition per statement, with \<open>NOW()\<close> as the argument \<open>now\<close> and
  \<open>gen_random_uuid()\<close> as the argument \<open>fresh\<close>. The columns \<open>round_1_answer\<close>,
  \<open>round_2_answer\<close> and \<open>round_3_answer\<close> (and the scores and reaction times) are functions of the
  round number.
\<close>

section \<open>Rows\<close>

datatype session_status = SWarmup | SActive | SCompleted | SFlagged | SAbandoned

datatype abandon_reason = ATimeout | AError | AExplicit

record game_session =
  gs_id :: string
  gs_user :: string
  gs_challenge :: string
  gs_device :: "string option"
  gs_status :: session_status
  gs_warmup_started :: "int option"
  gs_warmup_completed :: "int option"
  gs_started :: "int option"
  gs_completed :: "int option"
  gs_answer :: "nat \<Rightarrow> choice option"
  gs_score :: "nat \<Rightarrow> int"
  gs_reaction :: "nat \<Rightarrow> int option"
  gs_total :: int
  gs_rank :: "int option"
  gs_flagged :: bool
  gs_flag_reasons :: "string list"
  gs_practice :: bool
  gs_hmac :: "string option"
  gs_variant :: "string option"
  gs_tier :: "string option"
  gs_abandon :: "abandon_reason option"
  gs_created :: int

record round_row =
  rs_session :: string
  rs_round :: nat
  rs_score :: int
  rs_answer :: "choice option"
  rs_reaction :: "int option"

datatype league = Bronze | Silver | Gold

record user =
  u_id :: string
  u_suspended :: bool
  u_suspended_at :: "int option"
  u_deleted_at :: "int option"
  u_stellar_address :: "string option"
  u_embedded_wallet :: "string option"
  u_league :: "league option"
  u_total_score :: int
  u_challenges_played :: nat
  u_streak :: int
  u_last_play_day :: "int option"
  u_streak_repairs :: nat
  u_streak_repair_available :: bool
  u_last_active_at :: "int option"

datatype challenge_status =
  CDraft | CPendingDeposit | CActive | CEnded | CSettled | CPayoutFailed | CCancelled | CRefunded

record challenge =
  ch_id :: string
  ch_brand :: string
  ch_memo :: "string option"
  ch_pool :: int
  ch_status :: challenge_status
  ch_batched :: bool
  ch_deposit_tx :: "string option"
  ch_confirmations :: int
  ch_payout_tx :: "string list option"
  ch_ends_at :: "int option"
  ch_deleted_at :: "int option"
  ch_created :: int

record question =
  q_challenge :: string
  q_round :: nat
  q_correct :: choice

record fraud_flag =
  ff_session :: string
  ff_user :: string
  ff_type :: string
  ff_created :: int

record audit_row =
  au_actor :: string
  au_action :: string
  au_entity :: string
  au_key :: string

record variant_row =
  vr_id :: string
  vr_challenge :: string
  vr_active :: bool

record tier_row =
  tr_id :: string
  tr_challenge :: string

text \<open>A notification's JSON payload holds strings and numbers; a push message as it is sent.\<close>

datatype pval = PStr string | PNum jsnum

type_synonym payload = "(string \<times> pval) list"

record notification =
  nt_id :: string
  nt_user :: string
  nt_type :: string
  nt_payload :: payload

record push_message =
  pm_title :: string
  pm_body :: string
  pm_url :: string
  pm_tag :: string
  pm_notification :: "string option"

text \<open>The state of the service: the tables, the run-time configuration (key and field to number),
  the push messages handed to the browser vendors, and Redis, which may be down.\<close>

record app =
  sessions :: "game_session list"
  round_scores :: "round_row list"
  users :: "user list"
  challenges :: "challenge list"
  questions :: "question list"
  fraud_flags :: "fraud_flag list"
  audit_log :: "audit_row list"
  variants :: "variant_row list"
  tiers :: "tier_row list"
  badges :: "(string \<times> string) list"
  notifications :: "notification list"
  app_config :: "string \<Rightarrow> string \<Rightarrow> jsnum option"
  push_outbox :: "(string \<times> push_message) list"
  redis_up :: bool
  redis_kv :: rstore

text \<open>A service with empty tables, and a user with the column defaults.\<close>

definition blank_app :: app where
  "blank_app = \<lparr>sessions = [], round_scores = [], users = [], challenges = [], questions = [], fraud_flags = [],
     audit_log = [], variants = [], tiers = [], badges = [], notifications = [],
     app_config = (\<lambda>_ _. None), push_outbox = [], redis_up = True, redis_kv = (\<lambda>_. None)\<rparr>"

definition new_user :: "string \<Rightarrow> user" where
  "new_user uid = \<lparr>u_id = uid, u_suspended = False, u_suspended_at = None, u_deleted_at = None,
     u_stellar_address = None, u_embedded_wallet = None, u_league = None, u_total_score = 0,
     u_challenges_played = 0, u_streak = 0, u_last_play_day = None, u_streak_repairs = 0,
     u_streak_repair_available = False, u_last_active_at = None\<rparr>"

text \<open>A Redis command on the state: it throws when Redis is down.\<close>

definition redis_error :: exn where
  "redis_error = js_error ''Connection is closed.''"

definition redis_do :: "(rstore \<Rightarrow> 'a \<times> rstore) \<Rightarrow> app \<Rightarrow> (exn + 'a) \<times> app" where
  "redis_do f a =
     (if redis_up a then (case f (redis_kv a) of (x, st) \<Rightarrow> (Inr x, a\<lparr>redis_kv := st\<rparr>))
      else (Inl redis_error, a))"

section \<open>Statements\<close>

text \<open>The column defaults of a new row.\<close>

definition new_session ::
  "string \<Rightarrow> string \<Rightarrow> string \<Rightarrow> string option \<Rightarrow> bool \<Rightarrow> string option \<Rightarrow> string option \<Rightarrow> int \<Rightarrow> game_session" where
  "new_session fresh userId challengeId deviceId isPractice variantId tierId now =
     \<lparr>gs_id = fresh, gs_user = userId, gs_challenge = challengeId, gs_device = deviceId,
      gs_status = SWarmup, gs_warmup_started = None, gs_warmup_completed = None, gs_started = None,
      gs_completed = None, gs_answer = (\<lambda>_. None), gs_score = (\<lambda>_. 0), gs_reaction = (\<lambda>_. None),
      gs_total = 0, gs_rank = None, gs_flagged = False, gs_flag_reasons = [], gs_practice = isPractice,
      gs_hmac = None, gs_variant = variantId, gs_tier = tierId, gs_abandon = None, gs_created = now\<rparr>"

definition same_slot :: "string \<Rightarrow> string \<Rightarrow> game_session \<Rightarrow> bool" where
  "same_slot userId challengeId r \<longleftrightarrow> gs_user r = userId \<and> gs_challenge r = challengeId"

definition getSession :: "app \<Rightarrow> string \<Rightarrow> string \<Rightarrow> game_session option" where
  "getSession a userId challengeId = find_row (same_slot userId challengeId) (sessions a)"

definition getSessionById :: "app \<Rightarrow> string \<Rightarrow> game_session option" where
  "getSessionById a sid = find_row (\<lambda>r. gs_id r = sid) (sessions a)"

text \<open>\<open>ON CONFLICT (user_id, challenge_id) DO UPDATE SET user_id = ...\<close> returns the existing row.\<close>

definition createSession ::
  "string \<Rightarrow> int \<Rightarrow> string \<Rightarrow> string \<Rightarrow> string option \<Rightarrow> bool \<Rightarrow> app \<Rightarrow> game_session \<times> app" where
  "createSession fresh now userId challengeId deviceId isPractice a =
     (case getSession a userId challengeId of
        Some r \<Rightarrow> (r, a)
      | None \<Rightarrow>
          let row = new_session fresh userId challengeId deviceId isPractice None None now
          in (row, a\<lparr>sessions := sessions a @ [row]\<rparr>))"

definition claimSession ::
  "string \<Rightarrow> int \<Rightarrow> string \<Rightarrow> string \<Rightarrow> string option \<Rightarrow> bool \<Rightarrow> string option \<Rightarrow> string option \<Rightarrow> app \<Rightarrow>
   game_session option \<times> app" where
  "claimSession fresh now userId challengeId deviceId isPractice variantId tierId a =
     (case getSession a userId challengeId of
        Some _ \<Rightarrow> (None, a)
      | None \<Rightarrow>
          let row = new_session fresh userId challengeId deviceId isPractice variantId tierId now
          in (Some row, a\<lparr>sessions := sessions a @ [row]\<rparr>))"

text \<open>Deleting a session deletes its round scores and fraud flags (\<open>ON DELETE CASCADE\<close>).\<close>

definition delete_sessions :: "(game_session \<Rightarrow> bool) \<Rightarrow> app \<Rightarrow> app" where
  "delete_sessions P a =
     a\<lparr>sessions := delete_where P (sessions a),
       round_scores := delete_where (\<lambda>x. \<exists>r \<in> set (sessions a). P r \<and> gs_id r = rs_session x) (round_scores a),
       fraud_flags := delete_where (\<lambda>x. \<exists>r \<in> set (sessions a). P r \<and> gs_id r = ff_session x) (fraud_flags a)\<rparr>"

definition deleteOpenSession :: "string \<Rightarrow> string \<Rightarrow> app \<Rightarrow> bool \<times> app" where
  "deleteOpenSession userId challengeId a =
     (let P = (\<lambda>r. same_slot userId challengeId r \<and> gs_status r \<in> {SWarmup, SActive, SAbandoned})
      in (0 < count_where P (sessions a), delete_sessions P a))"

definition markWarmupStarted :: "int \<Rightarrow> string \<Rightarrow> app \<Rightarrow> app" where
  "markWarmupStarted now sid a =
     a\<lparr>sessions := update_where (\<lambda>r. gs_id r = sid)
        (\<lambda>r. r\<lparr>gs_warmup_started := (case gs_warmup_started r of None \<Rightarrow> Some now | w \<Rightarrow> w)\<rparr>) (sessions a)\<rparr>"

definition markWarmupCompleted :: "int \<Rightarrow> string \<Rightarrow> app \<Rightarrow> (exn + unit) \<times> app" where
  "markWarmupCompleted now sid a =
     (let P = (\<lambda>r. gs_id r = sid \<and> gs_warmup_completed r = None)
      in if count_where P (sessions a) = 0
         then (Inl (js_error ''Warmup already completed or session not found''), a)
         else (Inr (), a\<lparr>sessions := update_where P (\<lambda>r. r\<lparr>gs_warmup_completed := Some now\<rparr>) (sessions a)\<rparr>))"

definition markChallengeStarted :: "int \<Rightarrow> string \<Rightarrow> app \<Rightarrow> app" where
  "markChallengeStarted now sid a =
     a\<lparr>sessions := update_where (\<lambda>r. gs_id r = sid)
        (\<lambda>r. r\<lparr>gs_started := (case gs_started r of None \<Rightarrow> Some now | t \<Rightarrow> t), gs_status := SActive\<rparr>)
        (sessions a)\<rparr>"

text \<open>The upsert of \<open>session_round_scores\<close> and the copy into the columns of the session.\<close>

definition upsert_round :: "round_row \<Rightarrow> round_row list \<Rightarrow> round_row list" where
  "upsert_round x rows =
     (if find_row (\<lambda>r. rs_session r = rs_session x \<and> rs_round r = rs_round x) rows = None
      then rows @ [x]
      else update_where (\<lambda>r. rs_session r = rs_session x \<and> rs_round r = rs_round x) (\<lambda>_. x) rows)"

definition recordRoundScore ::
  "string \<Rightarrow> nat \<Rightarrow> int \<Rightarrow> choice option \<Rightarrow> int option \<Rightarrow> app \<Rightarrow> (exn + unit) \<times> app" where
  "recordRoundScore sid rnd score answer reactionTimeMs a =
     (if rnd \<notin> {1, 2, 3} then (Inl (js_error ''Invalid round''), a)
      else
        (Inr (),
         a\<lparr>round_scores := upsert_round
              \<lparr>rs_session = sid, rs_round = rnd, rs_score = score, rs_answer = answer,
               rs_reaction = reactionTimeMs\<rparr> (round_scores a),
           sessions := update_where (\<lambda>r. gs_id r = sid)
              (\<lambda>r. r\<lparr>gs_score := (gs_score r)(rnd := score), gs_answer := (gs_answer r)(rnd := answer),
                     gs_reaction := (gs_reaction r)(rnd := reactionTimeMs)\<rparr>) (sessions a)\<rparr>))"

definition sum_rounds :: "app \<Rightarrow> string \<Rightarrow> int" where
  "sum_rounds a sid = (\<Sum>x\<leftarrow>filter (\<lambda>x. rs_session x = sid) (round_scores a). rs_score x)"

text \<open>The transaction of \<open>finishSession\<close>; the table's range check on \<open>total_score\<close> aborts it.\<close>

definition finishSession :: "int \<Rightarrow> string \<Rightarrow> app \<Rightarrow> (exn + game_session) \<times> app" where
  "finishSession now sid a =
     (case getSessionById a sid of
        None \<Rightarrow> (Inl (js_error ''Session not found''), a)
      | Some current \<Rightarrow>
          if gs_completed current \<noteq> None then (Inr current, a)
          else
            let totalScore = sum_rounds a sid;
                finish = (\<lambda>r. r\<lparr>gs_completed := Some now, gs_status := SCompleted, gs_total := totalScore\<rparr>)
            in if totalScore < 0 \<or> MAX_TOTAL_SCORE < totalScore
               then (Inl ((js_error ''check constraint'')\<lparr>err_code := Some ''23514''\<rparr>), a)
               else
                 (Inr (finish current),
                  a\<lparr>sessions := update_where (\<lambda>r. gs_id r = sid) finish (sessions a),
                    users := update_where (\<lambda>u. u_id u = gs_user current)
                      (\<lambda>u. u\<lparr>u_total_score := u_total_score u + totalScore,
                             u_challenges_played := u_challenges_played u + 1\<rparr>) (users a)\<rparr>))"

definition storeSessionHmac :: "string \<Rightarrow> string \<Rightarrow> app \<Rightarrow> app" where
  "storeSessionHmac sid hmac a =
     a\<lparr>sessions := update_where (\<lambda>r. gs_id r = sid) (\<lambda>r. r\<lparr>gs_hmac := Some hmac\<rparr>) (sessions a)\<rparr>"

definition flagSession :: "string \<Rightarrow> string list \<Rightarrow> app \<Rightarrow> app" where
  "flagSession sid reasons a =
     a\<lparr>sessions := update_where (\<lambda>r. gs_id r = sid)
        (\<lambda>r. r\<lparr>gs_flagged := True, gs_status := SFlagged, gs_flag_reasons := gs_flag_reasons r @ reasons\<rparr>)
        (sessions a)\<rparr>"

definition abandon_row :: "int \<Rightarrow> abandon_reason \<Rightarrow> game_session \<Rightarrow> game_session" where
  "abandon_row now reason r =
     r\<lparr>gs_status := SAbandoned, gs_abandon := Some reason,
       gs_completed := (case gs_completed r of None \<Rightarrow> Some now | t \<Rightarrow> t)\<rparr>"

definition abandonSession :: "int \<Rightarrow> string \<Rightarrow> string \<Rightarrow> abandon_reason \<Rightarrow> app \<Rightarrow> bool \<times> app" where
  "abandonSession now userId challengeId reason a =
     (let P = (\<lambda>r. same_slot userId challengeId r \<and> gs_status r \<in> {SWarmup, SActive})
      in (0 < count_where P (sessions a),
          a\<lparr>sessions := update_where P (abandon_row now reason) (sessions a)\<rparr>))"

definition last_activity :: "game_session \<Rightarrow> int" where
  "last_activity r =
     (case gs_started r of
        Some t \<Rightarrow> t
      | None \<Rightarrow> (case gs_warmup_started r of Some t \<Rightarrow> t | None \<Rightarrow> gs_created r))"

definition markAbandonedSessions :: "int \<Rightarrow> app \<Rightarrow> nat \<times> app" where
  "markAbandonedSessions now a =
     (let P = (\<lambda>r. gs_status r \<in> {SWarmup, SActive} \<and> last_activity r < now - 7200000)
      in (count_where P (sessions a),
          a\<lparr>sessions := update_where P (abandon_row now ATimeout) (sessions a)\<rparr>))"

text \<open>\<open>getChallengeById\<close>, \<open>getChallengeQuestions\<close> and \<open>findUserById\<close> of the other query files.\<close>

definition getChallengeById :: "app \<Rightarrow> string \<Rightarrow> challenge option" where
  "getChallengeById a cid = find_row (\<lambda>c. ch_id c = cid \<and> ch_deleted_at c = None) (challenges a)"

definition getChallengeQuestions :: "app \<Rightarrow> string \<Rightarrow> question list" where
  "getChallengeQuestions a cid = sort_key q_round (filter (\<lambda>q. q_challenge q = cid) (questions a))"

definition findUserById :: "app \<Rightarrow> string \<Rightarrow> user option" where
  "findUserById a uid = find_row (\<lambda>u. u_id u = uid \<and> u_deleted_at u = None) (users a)"

lemmas session_stmt_defs = new_session_def getSession_def getSessionById_def createSession_def
  claimSession_def delete_sessions_def deleteOpenSession_def markWarmupStarted_def
  markWarmupCompleted_def markChallengeStarted_def recordRoundScore_def finishSession_def
  storeSessionHmac_def flagSession_def abandon_row_def abandonSession_def markAbandonedSessions_def

declare session_stmt_defs [handler_defs]

end
