(* ===== verification/Anti_Cheat.thy ===== *)
theory Anti_Cheat
  imports Sessions_Db
begin

text \<open>
  The anti-cheat middleware (\<open>apps/api/src/middleware/anti-cheat.ts\<close>), the account gate
  (\<open>require-active-user.ts\<close>), the fingerprint (\<open>lib/fingerprint.ts\<close>) and what the global error
  handler does to the session of a failed request. \<open>SHA-256\<close> (hex digest), the client address
  normalisation of the rate limiter and the environment's lockout defaults are parameters;
  \<open>Date.now()\<close> and \<open>NOW()\<close> are one clock reading per request.
\<close>

section \<open>Requests\<close>

record request =
  rq_user :: "string option"
  rq_exp :: int
  rq_impersonated :: bool
  rq_token :: "string option"
  rq_sessionId :: "string option"
  rq_challenge :: string
  rq_device :: "string option"
  rq_visitor :: "string option"
  rq_ip :: "string option"
  rq_ua :: "string option"
  rq_isPractice :: bool
  rq_tier :: "string option"
  rq_clientTimestamp :: "jsnum option"
  rq_reactionTimeMs :: "jsnum option"
  rq_roundScore :: "jsnum option"
  rq_selectedOption :: "choice option option"
  rq_challengeToken :: "string option"

text \<open>A \<open>selectedOption\<close> of \<open>Some None\<close> is \<open>null\<close>; \<open>None\<close> is a missing or invalid value.\<close>

definition sub :: "request \<Rightarrow> string" where
  "sub req = (case rq_user req of Some u \<Rightarrow> u | None \<Rightarrow> '''')"

text \<open>JavaScript's truthiness of an optional string.\<close>

definition given :: "string option \<Rightarrow> string option" where
  "given s = (case s of Some [] \<Rightarrow> None | _ \<Rightarrow> s)"

definition requireActiveUser :: "request \<Rightarrow> app \<Rightarrow> (exn + unit) \<times> app" where
  "requireActiveUser req a =
     (case given (rq_user req) of
        None \<Rightarrow> (Inl (createError ''Authentication required'' 401 (Some ''UNAUTHENTICATED'')), a)
      | Some uid \<Rightarrow>
          (case findUserById a uid of
             None \<Rightarrow> (Inl (createError ''User not found'' 404 (Some ''USER_NOT_FOUND'')), a)
           | Some u \<Rightarrow>
               if rq_impersonated req
               then (Inl (createError ''Impersonated sessions cannot perform mutating actions (read-only mode)'' 403
                           (Some ''IMPERSONATION_READ_ONLY'')), a)
               else if u_suspended u \<or> u_suspended_at u \<noteq> None
               then (Inl (createError ''Your account has been suspended. Please contact support for assistance.'' 403
                           (Some ''ACCOUNT_SUSPENDED'')), a)
               else (Inr (), a)))"

section \<open>Fraud flags\<close>

definition BOT_REACTION_THRESHOLD_MS :: rat where "BOT_REACTION_THRESHOLD_MS = 80"
definition MIN_HUMAN_REACTION_MS :: rat where "MIN_HUMAN_REACTION_MS = 150"
definition MAX_HUMAN_REACTION_MS :: rat where "MAX_HUMAN_REACTION_MS = 30000"
definition MAX_CLOCK_SKEW_MS :: rat where "MAX_CLOCK_SKEW_MS = 5000"

text \<open>\<open>ON CONFLICT (session_id, flag_type) DO UPDATE\<close> refreshes the existing flag; a new flag
  needs the rows its foreign keys name.\<close>

definition createFraudFlag :: "int \<Rightarrow> string \<Rightarrow> string \<Rightarrow> string \<Rightarrow> app \<Rightarrow> (exn + unit) \<times> app" where
  "createFraudFlag now sid uid flagType a =
     (let same = (\<lambda>f. ff_session f = sid \<and> ff_type f = flagType)
      in if find_row same (fraud_flags a) \<noteq> None
         then (Inr (), a\<lparr>fraud_flags := update_where same (\<lambda>f. f\<lparr>ff_created := now\<rparr>) (fraud_flags a)\<rparr>)
         else if getSessionById a sid = None \<or> find_row (\<lambda>u. u_id u = uid) (users a) = None
         then (Inl ((js_error ''foreign key'')\<lparr>err_code := Some ''23503''\<rparr>), a)
         else (Inr (), a\<lparr>fraud_flags := fraud_flags a @
                [\<lparr>ff_session = sid, ff_user = uid, ff_type = flagType, ff_created = now\<rparr>]\<rparr>))"

definition resolveSessionId :: "request \<Rightarrow> app \<Rightarrow> string option" where
  "resolveSessionId req a =
     (case given (rq_sessionId req) of
        Some sid \<Rightarrow> Some sid
      | None \<Rightarrow>
          (case (given (Some (rq_challenge req)), given (rq_user req)) of
             (Some cid, Some uid) \<Rightarrow> map_option gs_id (getSession a uid cid)
           | _ \<Rightarrow> None))"

definition recordFraudFlag :: "int \<Rightarrow> request \<Rightarrow> string \<Rightarrow> app \<Rightarrow> (exn + unit) \<times> app" where
  "recordFraudFlag now req flagType a =
     (case given (rq_user req) of
        None \<Rightarrow> (Inr (), a)
      | Some uid \<Rightarrow>
          (case given (resolveSessionId req a) of
             None \<Rightarrow> (Inr (), a)
           | Some sid \<Rightarrow> createFraudFlag now sid uid flagType a))"

text \<open>The wrapper logs a failure and goes on.\<close>

definition recordFraudFlagBestEffort :: "int \<Rightarrow> request \<Rightarrow> string \<Rightarrow> app \<Rightarrow> app" where
  "recordFraudFlagBestEffort now req flagType a = snd (recordFraudFlag now req flagType a)"

section \<open>Timing checks\<close>

definition detectClockSkew :: "int \<Rightarrow> request \<Rightarrow> app \<Rightarrow> (exn + unit) \<times> app" where
  "detectClockSkew now req a =
     (case rq_clientTimestamp req of
        None \<Rightarrow> (Inr (), a)
      | Some t \<Rightarrow>
          (case t of
             Num x \<Rightarrow>
               if x \<le> 0
               then (Inl (createError ''Invalid client timestamp'' 400 (Some ''INVALID_TIMESTAMP'')),
                     recordFraudFlagBestEffort now req ''invalid_client_timestamp'' a)
               else if MAX_CLOCK_SKEW_MS < fl \<bar>of_int now - x\<bar>
               then (Inl (createError ''Client clock skew too large'' 400 (Some ''CLOCK_SKEW'')),
                     recordFraudFlagBestEffort now req ''clock_skew'' a)
               else (Inr (), a)
           | _ \<Rightarrow> (Inl (createError ''Invalid client timestamp'' 400 (Some ''INVALID_TIMESTAMP'')),
                   recordFraudFlagBestEffort now req ''invalid_client_timestamp'' a)))"

definition THRESHOLDS_CACHE_KEY :: string where
  "THRESHOLDS_CACHE_KEY = ''config:cache:anti_cheat.thresholds''"

definition or_default :: "jsnum option \<Rightarrow> rat \<Rightarrow> jsnum" where
  "or_default v d = (case v of Some x \<Rightarrow> x | None \<Rightarrow> Num d)"

text \<open>A field missing from a cached object reads as \<open>undefined\<close>, which compares like \<open>NaN\<close>.\<close>

definition getThresholds :: "int \<Rightarrow> app \<Rightarrow> (jsnum \<times> jsnum) \<times> app" where
  "getThresholds now a =
     (if \<not> redis_up a then ((Num MIN_HUMAN_REACTION_MS, Num MAX_HUMAN_REACTION_MS), a)
      else case r_get now (redis_kv a) THRESHOLDS_CACHE_KEY of
        Some (RObj obj) \<Rightarrow>
          ((case map_of obj ''min_human_reaction_ms'' of Some x \<Rightarrow> x | None \<Rightarrow> NaN,
            case map_of obj ''max_human_reaction_ms'' of Some x \<Rightarrow> x | None \<Rightarrow> NaN), a)
      | Some _ \<Rightarrow> ((Num MIN_HUMAN_REACTION_MS, Num MAX_HUMAN_REACTION_MS), a)
      | None \<Rightarrow>
          let lo = or_default (app_config a ''anti_cheat.thresholds'' ''min_human_reaction_ms'') MIN_HUMAN_REACTION_MS;
              hi = or_default (app_config a ''anti_cheat.thresholds'' ''max_human_reaction_ms'') MAX_HUMAN_REACTION_MS
          in ((lo, hi),
              a\<lparr>redis_kv := r_set_ex now (redis_kv a) THRESHOLDS_CACHE_KEY
                   (RObj [(''min_human_reaction_ms'', lo), (''max_human_reaction_ms'', hi)]) 5\<rparr>))"

definition validateReactionTime :: "int \<Rightarrow> request \<Rightarrow> app \<Rightarrow> (exn + unit) \<times> app" where
  "validateReactionTime now req a =
     (case rq_reactionTimeMs req of
        None \<Rightarrow> (Inr (), a)
      | Some t \<Rightarrow>
          if num_less t (Num BOT_REACTION_THRESHOLD_MS)
          then (Inl (createError ''Reaction time impossible for humans'' 403 (Some ''REACTION_IMPOSSIBLE'')),
                recordFraudFlagBestEffort now req ''reaction_time_bot_threshold'' a)
          else
            let ((lo, hi), a) = getThresholds now a;
                a = (if num_less t lo then recordFraudFlagBestEffort now req ''reaction_time_below_minimum'' a else a);
                a = (if num_less hi t then recordFraudFlagBestEffort now req ''reaction_time_above_maximum'' a else a)
            in (Inr (), a))"

definition validateRoundScore_mw :: "int \<Rightarrow> request \<Rightarrow> app \<Rightarrow> (exn + unit) \<times> app" where
  "validateRoundScore_mw now req a =
     (case rq_roundScore req of
        None \<Rightarrow> (Inr (), a)
      | Some s \<Rightarrow>
          if \<not> isFinite s \<or> num_less s (Num 0) \<or> num_less (Num (of_int MAX_ROUND_SCORE)) s
          then (Inl (createError ''Round score exceeds per-round maximum'' 422 (Some ''ROUND_SCORE_OUT_OF_RANGE'')),
                recordFraudFlagBestEffort now req ''round_score_out_of_range'' a)
          else (Inr (), a))"

definition assertValidTotalScore :: "jsnum \<Rightarrow> exn + unit" where
  "assertValidTotalScore s =
     (if \<not> isFinite s \<or> num_less s (Num 0) \<or> num_less (Num (of_int MAX_TOTAL_SCORE)) s
      then Inl (createError ''Total score is outside valid range'' 422 (Some ''TOTAL_SCORE_OUT_OF_RANGE''))
      else Inr ())"

section \<open>One session per challenge\<close>

text \<open>The two sub-selects: a random active variant (\<open>rnd\<close> stands for \<open>random()\<close>) and the tier.\<close>

definition pick :: "nat \<Rightarrow> 'a list \<Rightarrow> 'a option" where
  "pick rnd xs = (if xs = [] then None else Some (xs ! (rnd mod length xs)))"

definition session_options :: "nat \<Rightarrow> request \<Rightarrow> app \<Rightarrow> string option \<times> string option" where
  "session_options rnd req a =
     (map_option vr_id (pick rnd (filter (\<lambda>v. vr_challenge v = rq_challenge req \<and> vr_active v) (variants a))),
      map_option tr_id (find_row (\<lambda>t. tr_challenge t = rq_challenge req \<and>
         (case rq_tier req of None \<Rightarrow> True | Some i \<Rightarrow> tr_id t = i)) (tiers a)))"

text \<open>Delete the abandoned row and insert a fresh one, in one statement.\<close>

definition replaceAbandoned ::
  "string \<Rightarrow> int \<Rightarrow> string \<Rightarrow> string \<Rightarrow> string option \<Rightarrow> bool \<Rightarrow> string option \<Rightarrow> string option \<Rightarrow> app \<Rightarrow>
   game_session option \<times> app" where
  "replaceAbandoned fresh now uid cid deviceId isPractice variantId tierId a =
     (let del = (\<lambda>r. same_slot uid cid r \<and> gs_status r = SAbandoned);
          a1 = delete_sessions del a
      in if count_where del (sessions a) = 0 then (None, a)
         else claimSession fresh now uid cid deviceId isPractice variantId tierId a1)"

definition enforceOneSessionPerChallenge ::
  "string \<Rightarrow> nat \<Rightarrow> int \<Rightarrow> request \<Rightarrow> app \<Rightarrow> (exn + game_session) \<times> app" where
  "enforceOneSessionPerChallenge fresh rnd now req a =
     (let uid = sub req; cid = rq_challenge req;
          deviceId = (case rq_device req of Some d \<Rightarrow> Some d | None \<Rightarrow> rq_visitor req);
          (variantId, tierId) = session_options rnd req a
      in if given (rq_tier req) \<noteq> None \<and> tierId = None
         then (Inl (createError ''Invalid challenge tier'' 422 (Some ''INVALID_TIER'')), a)
         else
           case claimSession fresh now uid cid deviceId (rq_isPractice req) variantId tierId a of
             (Some session, a1) \<Rightarrow> (Inr session, a1)
           | (None, a1) \<Rightarrow>
               (case getSession a1 uid cid of
                  None \<Rightarrow> (Inl (createError ''Session not found'' 404 None), a1)
                | Some existing \<Rightarrow>
                    if gs_status existing = SAbandoned then
                      (case replaceAbandoned fresh now uid cid deviceId (rq_isPractice req) variantId tierId a1 of
                         (Some session, a2) \<Rightarrow> (Inr session, a2)
                       | (None, a2) \<Rightarrow>
                           (case getSession a2 uid cid of
                              None \<Rightarrow> (Inl (createError ''Session not found'' 404 None), a2)
                            | Some refetched \<Rightarrow> (Inr refetched, a2)))
                    else (Inr existing, a1)))"

section \<open>Device fingerprint\<close>

fun split_on :: "char \<Rightarrow> string \<Rightarrow> string list" where
  "split_on c [] = [[]]"
| "split_on c (x # xs) =
     (if x = c then [] # split_on c xs
      else case split_on c xs of [] \<Rightarrow> [[x]] | w # ws \<Rightarrow> (x # w) # ws)"

fun join_with :: "string \<Rightarrow> string list \<Rightarrow> string" where
  "join_with sep [] = []"
| "join_with sep [w] = w"
| "join_with sep (w # ws) = w @ sep @ join_with sep ws"

definition or_empty :: "string option \<Rightarrow> string" where
  "or_empty s = (case s of Some x \<Rightarrow> x | None \<Rightarrow> '''')"

definition computeFingerprint ::
  "(string \<Rightarrow> string) \<Rightarrow> string option \<Rightarrow> string option \<Rightarrow> string option \<Rightarrow> string option \<Rightarrow> string" where
  "computeFingerprint sha256 visitorId deviceId ip userAgent =
     (let clientSig = or_empty visitorId @ ''|'' @ or_empty deviceId;
          ip24 = (case given ip of Some i \<Rightarrow> join_with ''.'' (take 3 (split_on CHR ''.'' i)) | None \<Rightarrow> '''');
          uaHash = take 8 (sha256 (or_empty userAgent))
      in sha256 (clientSig @ '':'' @ ip24 @ '':'' @ uaHash))"

definition fp_key :: "string \<Rightarrow> string" where
  "fp_key fingerprint = ''fp:'' @ fingerprint @ '':accounts''"

definition validateDeviceFingerprint ::
  "(string \<Rightarrow> string) \<Rightarrow> (string option \<Rightarrow> string) \<Rightarrow> int \<Rightarrow> request \<Rightarrow> app \<Rightarrow> (exn + unit) \<times> app" where
  "validateDeviceFingerprint sha256 normalizeClientIp now req a =
     (if given (rq_visitor req) = None \<and> given (rq_device req) = None
      then (Inl (createError ''Missing X-Device-Id header'' 400 (Some ''MISSING_DEVICE_ID'')), a)
      else case given (rq_user req) of
        None \<Rightarrow> (Inr (), a)
      | Some uid \<Rightarrow>
          if \<not> redis_up a then (Inr (), a)
          else
            let key = fp_key (computeFingerprint sha256 (rq_visitor req) (rq_device req)
                                (Some (normalizeClientIp (rq_ip req))) (rq_ua req));
                kv = r_expire now (r_sadd now (redis_kv a) key uid) key 86400;
                a1 = a\<lparr>redis_kv := kv\<rparr>
            in if 3 \<le> r_scard now kv key
               then (Inl (createError ''Session rejected due to fingerprint collision'' 403
                            (Some ''FINGERPRINT_COLLISION'')),
                     recordFraudFlagBestEffort now req ''multi_account_fingerprint'' a1)
               else (Inr (), a1))"

section \<open>Session-start lockout\<close>

definition sessionStartLockoutKey :: "string \<Rightarrow> string" where
  "sessionStartLockoutKey uid = ''lockout:session_start:'' @ uid"

text \<open>The configured threshold and window (seconds), or the environment's.\<close>

definition getSessionStartLockoutConfig :: "rat \<times> rat \<Rightarrow> app \<Rightarrow> rat \<times> rat" where
  "getSessionStartLockoutConfig env a =
     (let field = (\<lambda>f d. case app_config a ''session_start_lockout'' f of
                           Some (Num x) \<Rightarrow> if 0 < x then x else d | _ \<Rightarrow> d)
      in (field ''threshold'' (fst env), field ''window_seconds'' (snd env)))"

text \<open>The gate: an exception, or the listener's data to be used when the response is finished
  (none when the check failed open).\<close>

definition requireSessionStartAllowed ::
  "rat \<times> rat \<Rightarrow> int \<Rightarrow> request \<Rightarrow> app \<Rightarrow> (exn + (string \<times> rat \<times> rat) option) \<times> app" where
  "requireSessionStartAllowed env now req a =
     (case given (rq_user req) of
        None \<Rightarrow> (Inr None, a)
      | Some uid \<Rightarrow>
          let key = sessionStartLockoutKey uid;
              (threshold, windowSeconds) = getSessionStartLockoutConfig env a
          in if \<not> redis_up a then (Inr None, a)
             else
               let count = (case r_get now (redis_kv a) key of Some (RInt n) \<Rightarrow> n | _ \<Rightarrow> 0)
               in if threshold \<le> of_int count
                  then (Inl (createError ''Too many failed session start attempts. Please try again later.'' 429
                               (Some ''SESSION_START_LOCKED'')), a)
                  else (Inr (Some (uid, threshold, windowSeconds)), a))"

text \<open>The \<open>finish\<close> listener: a failed start is counted, the first one opens the window, and the one
  that reaches the threshold is written to the audit log. \<open>EXPIRE\<close> refuses a fractional window.\<close>

definition session_start_finished ::
  "int \<Rightarrow> (string \<times> rat \<times> rat) option \<Rightarrow> nat \<Rightarrow> app \<Rightarrow> app" where
  "session_start_finished now listener statusCode a =
     (case listener of
        None \<Rightarrow> a
      | Some (uid, threshold, windowSeconds) \<Rightarrow>
          if statusCode < 400 \<or> \<not> redis_up a then a
          else
            let key = sessionStartLockoutKey uid;
                (updated, kv) = r_incr now (redis_kv a) key;
                whole = (of_int \<lfloor>windowSeconds\<rfloor> = windowSeconds)
            in if updated = 1 \<and> \<not> whole then a\<lparr>redis_kv := kv\<rparr>
               else
                 let a1 = a\<lparr>redis_kv := (if updated = 1 then r_expire now kv key \<lfloor>windowSeconds\<rfloor> else kv)\<rparr>
                 in if of_int updated = threshold
                    then a1\<lparr>audit_log := audit_log a1 @ [\<lparr>au_actor = uid, au_action = ''session_start_lockout'',
                               au_entity = ''user'', au_key = uid\<rparr>]\<rparr>
                    else a1)"

section \<open>The error handler and the attached session\<close>

text \<open>A request that fails with a session attached closes it, if it is open, with reason \<open>error\<close>.
  The statement is issued without waiting; here it takes effect with the response.\<close>

definition errorHandler_session :: "int \<Rightarrow> string \<Rightarrow> app \<Rightarrow> app" where
  "errorHandler_session now sid a =
     a\<lparr>sessions := update_where (\<lambda>r. gs_id r = sid \<and> gs_status r \<in> {SWarmup, SActive})
         (abandon_row now AError) (sessions a)\<rparr>"

definition on_error :: "('s \<Rightarrow> 's) \<Rightarrow> ('e + 'a) \<times> 's \<Rightarrow> ('e + 'a) \<times> 's" where
  "on_error f m = (case m of (Inl e, s) \<Rightarrow> (Inl e, f s) | (Inr x, s) \<Rightarrow> (Inr x, s))"

lemma on_error_simps [simp]: "on_error f (Inl e, s) = (Inl e, f s)" "on_error f (Inr x, s) = (Inr x, s)"
  by (simp_all add: on_error_def)

section \<open>Lockout\<close>

lemma of_int_two_plus: "(2 + rat_of_nat n = of_int k) = (2 + int n = k)"
  using of_int_eq_iff [of "2 + int n" k, where 'a = rat] by simp

lemma lockout_state:
  assumes "redis_up a" and "r_get t0 (redis_kv a) (sessionStartLockoutKey uid) = None"
    and "0 < w" and "1 \<le> k" and "\<forall>t \<in> set ts. t0 \<le> t \<and> t < t0 + w * 1000"
  shows "let b = foldl (\<lambda>a t. session_start_finished t (Some (uid, of_int k, of_int w)) 401 a) a (t0 # ts) in
    redis_up b \<and>
    redis_kv b (sessionStartLockoutKey uid) = Some (RInt (1 + int (length ts)), Some (t0 + w * 1000)) \<and>
    audit_log b = audit_log a @ (if k \<le> 1 + int (length ts)
      then [\<lparr>au_actor = uid, au_action = ''session_start_lockout'', au_entity = ''user'', au_key = uid\<rparr>] else [])"
  using assms(5)
proof (induction ts rule: rev_induct)
  case Nil
  show ?case using assms(1-4)
    by (simp add: session_start_finished_def r_incr_def r_expire_def r_expiry_def Let_def)
      (auto simp: r_get_def split: option.splits)
next
  case (snoc t ts)
  let ?b = "foldl (\<lambda>a t. session_start_finished t (Some (uid, of_int k, of_int w)) 401 a) a (t0 # ts)"
  let ?key = "sessionStartLockoutKey uid"
  have t: "t < t0 + w * 1000" using snoc.prems by simp
  have IH: "redis_up ?b" "redis_kv ?b ?key = Some (RInt (1 + int (length ts)), Some (t0 + w * 1000))"
    "audit_log ?b = audit_log a @ (if k \<le> 1 + int (length ts)
      then [\<lparr>au_actor = uid, au_action = ''session_start_lockout'', au_entity = ''user'', au_key = uid\<rparr>] else [])"
    using snoc by (simp_all add: Let_def)
  have "r_incr t (redis_kv ?b) ?key = (2 + int (length ts),
      (redis_kv ?b)(?key \<mapsto> (RInt (2 + int (length ts)), Some (t0 + w * 1000))))"
    using IH(2) t by (simp add: r_incr_def r_get_def r_expiry_def Let_def)
  then have step: "session_start_finished t (Some (uid, of_int k, of_int w)) 401 ?b =
    (let c = ?b\<lparr>redis_kv := (redis_kv ?b)(?key \<mapsto> (RInt (2 + int (length ts)), Some (t0 + w * 1000)))\<rparr>
     in if 2 + int (length ts) = k
        then c\<lparr>audit_log := audit_log ?b @ [\<lparr>au_actor = uid, au_action = ''session_start_lockout'',
               au_entity = ''user'', au_key = uid\<rparr>]\<rparr> else c)"
    using IH(1) by (simp add: session_start_finished_def Let_def of_int_two_plus)
  show ?case
    using IH step by (auto simp: Let_def)
qed

text \<open>
  (C27) The session-start lockout counts failures in a window opened by the first one: after a failed
  start at \<open>t0\<close> and any further ones inside the window, a start inside the window is refused with
  429 exactly when the failures have reached the threshold, and allowed again once the window is
  over; the lockout is written to the audit log once.
\<close>

theorem lockout_window:
  assumes "redis_up a" and "r_get t0 (redis_kv a) (sessionStartLockoutKey uid) = None"
    and "getSessionStartLockoutConfig env a = (of_int k, of_int w)" and "0 < w" and "1 \<le> k"
    and "\<forall>t \<in> set ts. t0 \<le> t \<and> t < t0 + w * 1000"
    and "rq_user req = Some uid" and "uid \<noteq> []"
    and "b = foldl (\<lambda>a t. session_start_finished t (Some (uid, of_int k, of_int w)) 401 a) a (t0 # ts)"
    and "getSessionStartLockoutConfig env b = (of_int k, of_int w)" and "t0 \<le> t"
  shows "((\<exists>e. requireSessionStartAllowed env t req b = (Inl e, b) \<and> err_status e = Some 429) \<longleftrightarrow>
           t < t0 + w * 1000 \<and> k \<le> int (length (t0 # ts))) \<and>
    length (filter (\<lambda>x. au_action x = ''session_start_lockout'' \<and> au_key x = uid) (audit_log b)) =
      length (filter (\<lambda>x. au_action x = ''session_start_lockout'' \<and> au_key x = uid) (audit_log a)) +
      (if k \<le> int (length (t0 # ts)) then 1 else 0)"
proof -
  have st: "redis_up b" "redis_kv b (sessionStartLockoutKey uid) = Some (RInt (1 + int (length ts)), Some (t0 + w * 1000))"
    "audit_log b = audit_log a @ (if k \<le> 1 + int (length ts)
      then [\<lparr>au_actor = uid, au_action = ''session_start_lockout'', au_entity = ''user'', au_key = uid\<rparr>] else [])"
    using lockout_state [OF assms(1,2,4,5,6)] unfolding assms(9) Let_def by blast+
  have g: "given (rq_user req) = Some uid" using assms(7,8) by (cases uid) (simp_all add: given_def)
  have c: "r_get t (redis_kv b) (sessionStartLockoutKey uid) =
    (if t < t0 + w * 1000 then Some (RInt (1 + int (length ts))) else None)"
    using st(2) by (simp add: r_get_def)
  have n: "(of_int k \<le> (of_int (1 + int (length ts)) :: rat)) = (k \<le> 1 + int (length ts))"
    by (rule of_int_le_iff)
  have z: "\<not> (of_int k \<le> (0 :: rat))" using assms(5) by simp
  show ?thesis
    using st(1,3) g c n z assms(10)
    by (auto simp: requireSessionStartAllowed_def createError_def js_error_def Let_def)
qed

section \<open>Fingerprints\<close>

lemma smembers_after_sadd:
  "r_smembers now (r_expire now (r_sadd now kv key x) key 86400) key =
     (let xs = r_smembers now kv key in if x \<in> set xs then xs else xs @ [x])"
  by (auto simp: r_smembers_def r_expire_def r_sadd_def r_get_def r_expiry_def Let_def
      split: option.splits rval.splits if_splits prod.splits)

text \<open>
  With Redis up and a device header, a request passes the fingerprint check exactly when it
  makes at most two accounts for its fingerprint in the last day; the account is remembered either
  way, and a refusal is a 403.
\<close>

theorem fingerprint_limits_accounts:
  assumes "redis_up a" and "rq_user req = Some uid" and "uid \<noteq> []"
    and "given (rq_visitor req) \<noteq> None \<or> given (rq_device req) \<noteq> None"
    and "key = fp_key (computeFingerprint sha (rq_visitor req) (rq_device req) (Some (nrm (rq_ip req))) (rq_ua req))"
    and "distinct (r_smembers now (redis_kv a) key)"
  shows "(case validateDeviceFingerprint sha nrm now req a of
      (Inr _, a') \<Rightarrow> card (insert uid (set (r_smembers now (redis_kv a) key))) \<le> 2 \<and>
         set (r_smembers now (redis_kv a') key) = insert uid (set (r_smembers now (redis_kv a) key)) \<and>
         distinct (r_smembers now (redis_kv a') key)
    | (Inl e, a') \<Rightarrow> 3 \<le> card (insert uid (set (r_smembers now (redis_kv a) key))) \<and> err_status e = Some 403)"
proof -
  have g: "given (rq_user req) = Some uid" using assms(2,3) by (cases uid) (simp_all add: given_def)
  let ?xs = "r_smembers now (redis_kv a) key"
  have len: "r_scard now (r_expire now (r_sadd now (redis_kv a) key uid) key 86400) key = card (insert uid (set ?xs))"
    using assms(6) by (auto simp: r_scard_def smembers_after_sadd Let_def distinct_card insert_absorb card_insert_if)
  show ?thesis
    unfolding validateDeviceFingerprint_def assms(5) [symmetric]
    using assms(1,4,6) g len
    by (auto simp: Let_def smembers_after_sadd createError_def js_error_def)
qed

section \<open>Flags and clock skew\<close>

text \<open>Recording a flag touches the flags only, and keeps them unique.\<close>

lemma recordFraudFlag_only:
  "\<exists>fs. recordFraudFlagBestEffort now req t a = a\<lparr>fraud_flags := fs\<rparr> \<and>
     (unique_by (\<lambda>f. (ff_session f, ff_type f)) (fraud_flags a) \<longrightarrow>
      unique_by (\<lambda>f. (ff_session f, ff_type f)) fs)"
proof -
  have same: "\<exists>fs. a = a\<lparr>fraud_flags := fs\<rparr> \<and> (unique_by (\<lambda>f. (ff_session f, ff_type f)) (fraud_flags a) \<longrightarrow>
      unique_by (\<lambda>f. (ff_session f, ff_type f)) fs)" by (rule exI [of _ "fraud_flags a"]) simp
  have "\<exists>fs. snd (createFraudFlag now sid uid t a) = a\<lparr>fraud_flags := fs\<rparr> \<and>
     (unique_by (\<lambda>f. (ff_session f, ff_type f)) (fraud_flags a) \<longrightarrow>
      unique_by (\<lambda>f. (ff_session f, ff_type f)) fs)" for sid uid
    using same by (auto simp: createFraudFlag_def Let_def unique_by_update unique_by_snoc)
  with same show ?thesis
    by (auto simp: recordFraudFlagBestEffort_def recordFraudFlag_def split: option.split)
qed

lemma recordFraudFlag_keeps [simp]:
  "sessions (recordFraudFlagBestEffort now req t a) = sessions a"
  "round_scores (recordFraudFlagBestEffort now req t a) = round_scores a"
  "users (recordFraudFlagBestEffort now req t a) = users a"
  "redis_kv (recordFraudFlagBestEffort now req t a) = redis_kv a"
  "redis_up (recordFraudFlagBestEffort now req t a) = redis_up a"
  using recordFraudFlag_only [of now req t a] by auto

lemma recordFraudFlag_recorded:
  assumes "rq_user req = Some uid" and "uid \<noteq> []" and "rq_sessionId req = None" and "rq_challenge req \<noteq> []"
    and "getSession a uid (rq_challenge req) = Some r" and "gs_id r \<noteq> []"
    and "find_row (\<lambda>u. u_id u = uid) (users a) \<noteq> None"
  shows "\<exists>f \<in> set (fraud_flags (recordFraudFlagBestEffort now req t a)).
    ff_session f = gs_id r \<and> ff_type f = t \<and> ff_created f = now"
proof -
  have g: "given (rq_user req) = Some uid" "given (Some (rq_challenge req)) = Some (rq_challenge req)"
    "given (rq_sessionId req) = None" "given (Some (gs_id r)) = Some (gs_id r)"
    using assms by (auto simp: given_def neq_Nil_conv)
  have "r \<in> set (sessions a)" using assms(5) by (auto simp: getSession_def dest: find_row_Some)
  then have row: "getSessionById a (gs_id r) \<noteq> None" by (auto simp: getSessionById_def find_row_None)
  have run: "recordFraudFlagBestEffort now req t a = snd (createFraudFlag now (gs_id r) uid t a)"
    using g assms(5) by (simp add: recordFraudFlagBestEffort_def recordFraudFlag_def resolveSessionId_def)
  show ?thesis
  proof (cases "find_row (\<lambda>f. ff_session f = gs_id r \<and> ff_type f = t) (fraud_flags a)")
    case None
    then show ?thesis using run row assms(7) by (auto simp: createFraudFlag_def)
  next
    case (Some f)
    then have "f \<in> set (fraud_flags a)" "ff_session f = gs_id r" "ff_type f = t" by (auto dest: find_row_Some)
    then have "f\<lparr>ff_created := now\<rparr> \<in> set (fraud_flags (recordFraudFlagBestEffort now req t a))"
      using run Some by (auto simp: createFraudFlag_def set_update_where)
    then show ?thesis
      by (rule bexI [rotated]) (simp add: \<open>ff_session f = gs_id r\<close> \<open>ff_type f = t\<close>)
  qed
qed

lemma fl_int_gt: "5000 < n \<Longrightarrow> 5000 < fl (of_int n)"
proof -
  assume "5000 < n"
  then have "(of_int 5001 :: rat) \<le> of_int n" by (intro of_int_le_iff [THEN iffD2]) simp
  then have "(of_nat 5001 :: rat) \<le> of_int n" by simp
  then have "of_nat 5001 \<le> fl (of_int n)" by (rule fl_ge_of_nat) simp
  then show ?thesis by simp
qed

lemma fl_int_le: "n \<le> 5000 \<Longrightarrow> fl (of_int n) \<le> 5000"
  using fl_le_of_nat [of "of_int n" 5000] by simp

text \<open>
  A whole-millisecond client timestamp is accepted exactly when it is positive and within five
  seconds of the server clock; a refused request answers 400, flags the player's session for the
  challenge if there is one, and changes nothing else.
\<close>

theorem clock_skew_tolerance:
  assumes "rq_clientTimestamp req = Some (Num (of_int t))"
  shows "(case detectClockSkew now req a of
      (Inr _, a') \<Rightarrow> 0 < t \<and> \<bar>now - t\<bar> \<le> 5000 \<and> a' = a
    | (Inl e, a') \<Rightarrow> \<not> (0 < t \<and> \<bar>now - t\<bar> \<le> 5000) \<and> err_status e = Some 400 \<and>
        a' = a\<lparr>fraud_flags := fraud_flags a'\<rparr> \<and>
        (\<forall>uid r. rq_user req = Some uid \<and> uid \<noteq> [] \<and> rq_sessionId req = None \<and> rq_challenge req \<noteq> [] \<and>
           getSession a uid (rq_challenge req) = Some r \<and> gs_id r \<noteq> [] \<and>
           find_row (\<lambda>u. u_id u = uid) (users a) \<noteq> None \<longrightarrow>
           (\<exists>f \<in> set (fraud_flags a'). ff_session f = gs_id r \<and> ff_created f = now)))"
proof -
  have skew: "(MAX_CLOCK_SKEW_MS < fl \<bar>of_int now - of_int t\<bar>) = (5000 < \<bar>now - t\<bar>)"
  proof -
    have "\<bar>of_int now - of_int t\<bar> = (of_int \<bar>now - t\<bar> :: rat)" by simp
    then show ?thesis
      using fl_int_gt [of "\<bar>now - t\<bar>"] fl_int_le [of "\<bar>now - t\<bar>"]
      by (cases "5000 < \<bar>now - t\<bar>") (auto simp: MAX_CLOCK_SKEW_MS_def)
  qed
  have only: "recordFraudFlagBestEffort now req x a =
      a\<lparr>fraud_flags := fraud_flags (recordFraudFlagBestEffort now req x a)\<rparr>" for x
    using recordFraudFlag_only [of now req x a] by auto
  have flagged: "\<exists>f \<in> set (fraud_flags (recordFraudFlagBestEffort now req x a)). ff_session f = gs_id r \<and> ff_created f = now"
    if "rq_user req = Some uid" "uid \<noteq> []" "rq_sessionId req = None" "rq_challenge req \<noteq> []"
      "getSession a uid (rq_challenge req) = Some r" "gs_id r \<noteq> []"
      "find_row (\<lambda>u. u_id u = uid) (users a) \<noteq> None" for x uid r
    using recordFraudFlag_recorded [OF that, of now x] by blast
  consider "t \<le> 0" | "0 < t" "5000 < \<bar>now - t\<bar>" | "0 < t" "\<bar>now - t\<bar> \<le> 5000" by linarith
  then show ?thesis
  proof cases
    case 1
    then have "detectClockSkew now req a =
      (Inl (createError ''Invalid client timestamp'' 400 (Some ''INVALID_TIMESTAMP'')),
       recordFraudFlagBestEffort now req ''invalid_client_timestamp'' a)"
      using assms by (simp add: detectClockSkew_def)
    with 1 only flagged show ?thesis by (simp add: createError_def js_error_def)
  next
    case 2
    then have "detectClockSkew now req a =
      (Inl (createError ''Client clock skew too large'' 400 (Some ''CLOCK_SKEW'')),
       recordFraudFlagBestEffort now req ''clock_skew'' a)"
      using assms skew by (simp add: detectClockSkew_def)
    with 2 only flagged show ?thesis by (simp add: createError_def js_error_def)
  next
    case 3
    with assms skew show ?thesis by (simp add: detectClockSkew_def)
  qed
qed

section \<open>Instances\<close>

definition plain_req :: request where
  "plain_req = \<lparr>rq_user = Some ''u'', rq_exp = 900, rq_impersonated = False, rq_token = None, rq_sessionId = None,
     rq_challenge = ''c'', rq_device = Some ''d'', rq_visitor = None, rq_ip = None, rq_ua = None,
     rq_isPractice = False, rq_tier = None, rq_clientTimestamp = None, rq_reactionTimeMs = None,
     rq_roundScore = None, rq_selectedOption = None, rq_challengeToken = None\<rparr>"

lemma finished_config: "app_config (session_start_finished t l c a) = app_config a"
  by (simp add: session_start_finished_def Let_def split: option.split prod.split)

lemma lockout_config_cong: "app_config b = app_config a \<Longrightarrow>
    getSessionStartLockoutConfig env b = getSessionStartLockoutConfig env a"
  by (simp add: getSessionStartLockoutConfig_def)

theorem lockout_window_witness:
  "\<exists>e. requireSessionStartAllowed (3, 900) 3000 plain_req
     (foldl (\<lambda>a t. session_start_finished t (Some (''u'', of_int 3, of_int 900)) 401 a) blank_app [0, 1000, 2000]) =
     (Inl e, foldl (\<lambda>a t. session_start_finished t (Some (''u'', of_int 3, of_int 900)) 401 a) blank_app [0, 1000, 2000]) \<and>
     err_status e = Some 429"
proof -
  let ?b = "foldl (\<lambda>a t. session_start_finished t (Some (''u'', of_int 3, of_int 900)) 401 a) blank_app [0, 1000, 2000]"
  have up: "redis_up blank_app" and none: "r_get 0 (redis_kv blank_app) (sessionStartLockoutKey ''u'') = None"
    by (simp_all add: blank_app_def r_get_def)
  have cfg: "getSessionStartLockoutConfig (3, 900) blank_app = (of_int 3, of_int 900)"
    by (simp add: getSessionStartLockoutConfig_def blank_app_def)
  have "app_config ?b = app_config blank_app" by (simp add: finished_config)
  then have cfg': "getSessionStartLockoutConfig (3, 900) ?b = (of_int 3, of_int 900)"
    by (simp only: lockout_config_cong cfg)
  have u: "rq_user plain_req = Some ''u''" by (simp add: plain_req_def)
  have "(\<exists>e. requireSessionStartAllowed (3, 900) 3000 plain_req ?b = (Inl e, ?b) \<and> err_status e = Some 429) \<longleftrightarrow>
      (3000 :: int) < 0 + 900 * 1000 \<and> (3 :: int) \<le> int (length [0 :: int, 1000, 2000])"
    using lockout_window [OF up none cfg _ _ _ u _ refl cfg', where t = 3000] by simp
  then show ?thesis by simp
qed

theorem fingerprint_limits_accounts_witness:
  "\<exists>a'. validateDeviceFingerprint (take 8) or_empty 0 plain_req blank_app = (Inr (), a') \<and>
     (\<exists>key. set (r_smembers 0 (redis_kv a') key) = {''u''})"
proof -
  let ?key = "fp_key (computeFingerprint (take 8) (rq_visitor plain_req) (rq_device plain_req)
    (Some (or_empty (rq_ip plain_req))) (rq_ua plain_req))"
  have h: "redis_up blank_app" "rq_user plain_req = Some ''u''" "''u'' \<noteq> []"
    "given (rq_visitor plain_req) \<noteq> None \<or> given (rq_device plain_req) \<noteq> None"
    by (simp_all add: blank_app_def plain_req_def given_def)
  have e: "r_smembers 0 (redis_kv blank_app) k = []" for k
    by (simp add: r_smembers_def r_get_def blank_app_def)
  have "distinct (r_smembers 0 (redis_kv blank_app) ?key)" by (simp add: e)
  from fingerprint_limits_accounts [where sha = "take 8" and nrm = or_empty and now = 0, OF h refl this] show ?thesis
    by (cases "validateDeviceFingerprint (take 8) or_empty 0 plain_req blank_app";
        cases "fst (validateDeviceFingerprint (take 8) or_empty 0 plain_req blank_app)")
      (auto simp: e)
qed

theorem clock_skew_tolerance_witness:
  "fst (detectClockSkew 10000 (plain_req\<lparr>rq_clientTimestamp := Some (Num (of_int 6000))\<rparr>) blank_app) = Inr () \<and>
   fst (detectClockSkew 10000 (plain_req\<lparr>rq_clientTimestamp := Some (Num (of_int 4000))\<rparr>) blank_app) \<noteq> Inr ()"
proof -
  let ?r = "\<lambda>t. plain_req\<lparr>rq_clientTimestamp := Some (Num (of_int t))\<rparr>"
  have h: "rq_clientTimestamp (?r t) = Some (Num (of_int t))" for t by simp
  show ?thesis
    using clock_skew_tolerance [OF h [of 6000], of 10000 blank_app] clock_skew_tolerance [OF h [of 4000], of 10000 blank_app]
    by (cases "detectClockSkew 10000 (?r 6000) blank_app"; cases "fst (detectClockSkew 10000 (?r 6000) blank_app)";
        cases "detectClockSkew 10000 (?r 4000) blank_app"; cases "fst (detectClockSkew 10000 (?r 4000) blank_app)") auto
qed

end
