(* ===== verification/Notifications.thy ===== *)
theory Notifications
  imports Sessions_Db
begin

text \<open>
  Notification dispatch (\<open>apps/api/src/services/notifications.ts\<close>): every notification becomes a
  row of the in-app inbox, and the types worth interrupting the user for are also pushed. The insert
  fails exactly when its foreign key does, that is when the user has no row.
\<close>

definition PUSH_NOTIFICATION_TYPES :: "string list" where
  "PUSH_NOTIFICATION_TYPES = [''payout_received'', ''challenge_reminder'']"

definition asString :: "pval option \<Rightarrow> string option" where
  "asString v = (case v of Some (PStr s) \<Rightarrow> if 0 < length (trim s) then Some s else None | _ \<Rightarrow> None)"

definition asNumber :: "pval option \<Rightarrow> rat option" where
  "asNumber v = (case v of Some (PNum (Num x)) \<Rightarrow> Some x | _ \<Rightarrow> None)"

text \<open>A template literal prints a lead time, which the callers pass as a whole number of minutes.\<close>

definition print_number :: "rat \<Rightarrow> string" where
  "print_number x = string_of_int \<lfloor>x\<rfloor>"

definition buildPushMessage :: "string \<Rightarrow> payload \<Rightarrow> string option \<Rightarrow> push_message option" where
  "buildPushMessage type payload notificationId =
     (if type = ''payout_received'' then
        Some \<lparr>pm_title = ''Payout received'',
              pm_body = (case asString (map_of payload ''amount_usdc'') of
                           Some amount \<Rightarrow> ''You received '' @ amount @ '' USDC''
                         | None \<Rightarrow> ''You received a USDC payout''),
              pm_url = ''/profile'', pm_tag = ''payout_received'', pm_notification = notificationId\<rparr>
      else if type = ''challenge_reminder'' then
        (let brand = asString (map_of payload ''brand_name'');
             challengeId = asString (map_of payload ''challenge_id'');
             leadTime = asNumber (map_of payload ''lead_time_minutes'');
             startsIn = (case leadTime of
                           Some t \<Rightarrow> if t = 0 then '' starts soon'' else '' starts in '' @ print_number t @ '' minutes''
                         | None \<Rightarrow> '' starts soon'')
         in Some \<lparr>pm_title = ''Challenge starting soon'',
                  pm_body = (case brand of Some b \<Rightarrow> b | None \<Rightarrow> ''A challenge'') @ startsIn @ '' '' @ [CHR 0xE2, CHR 0x80, CHR 0x94] @ '' jump in now.'',
                  pm_url = (case challengeId of Some c \<Rightarrow> ''/challenge/'' @ c | None \<Rightarrow> ''/challenges''),
                  pm_tag = (case challengeId of Some c \<Rightarrow> ''challenge_reminder:'' @ c | None \<Rightarrow> ''challenge_reminder''),
                  pm_notification = notificationId\<rparr>)
      else None)"

definition dispatchNotification ::
  "string \<Rightarrow> string \<Rightarrow> string \<Rightarrow> payload \<Rightarrow> app \<Rightarrow> string option \<times> app" where
  "dispatchNotification fresh userId type payload a =
     (if find_row (\<lambda>u. u_id u = userId) (users a) = None then (None, a)
      else
        let a1 = a\<lparr>notifications := notifications a @
                     [\<lparr>nt_id = fresh, nt_user = userId, nt_type = type, nt_payload = payload\<rparr>]\<rparr>
        in (Some fresh,
            if type \<in> set PUSH_NOTIFICATION_TYPES then
              (case buildPushMessage type payload (Some fresh) of
                 Some m \<Rightarrow> a1\<lparr>push_outbox := push_outbox a1 @ [(userId, m)]\<rparr>
               | None \<Rightarrow> a1)
            else a1))"

section \<open>Overtaken participants\<close>

text \<open>\<open>services/rank-overtaken.ts\<close>: the players of a challenge with a lower score get at most one
  notification per three minutes. \<open>fresh\<close> gives the id of the row inserted for a user.\<close>

definition throttleKey :: "string \<Rightarrow> string \<Rightarrow> string" where
  "throttleKey uid cid = ''notif:rank_overtaken:'' @ uid @ '':'' @ cid"

definition ranked :: "string \<Rightarrow> game_session \<Rightarrow> bool" where
  "ranked cid r \<longleftrightarrow> gs_challenge r = cid \<and> gs_status r = SCompleted \<and> \<not> gs_flagged r \<and> \<not> gs_practice r"

fun notify_each ::
  "(string \<Rightarrow> string) \<Rightarrow> int \<Rightarrow> string \<Rightarrow> string \<Rightarrow> int \<Rightarrow> string list \<Rightarrow> app \<Rightarrow> app" where
  "notify_each fresh now cid cname leaderCount [] a = a"
| "notify_each fresh now cid cname leaderCount (uid # rest) a =
     (if \<not> redis_up a then a
      else if r_get now (redis_kv a) (throttleKey uid cid) \<noteq> None
      then notify_each fresh now cid cname leaderCount rest a
      else
        let (nid, a1) = dispatchNotification (fresh uid) uid ''rank_overtaken''
              [(''challenge_id'', PStr cid), (''challenge_name'', PStr cname),
               (''new_rank'', PNum (Num (of_int (leaderCount + 1))))] a;
            a2 = (if nid = None then a1
                  else a1\<lparr>redis_kv := r_set_ex now (redis_kv a1) (throttleKey uid cid) (RStr ''1'') 180\<rparr>)
        in notify_each fresh now cid cname leaderCount rest a2)"

definition notifyOvertakenParticipants ::
  "(string \<Rightarrow> string) \<Rightarrow> int \<Rightarrow> string \<Rightarrow> string \<Rightarrow> int \<Rightarrow> string \<Rightarrow> app \<Rightarrow> app" where
  "notifyOvertakenParticipants fresh now newUser cid newScore cname a =
     (let overtaken = sort_key (\<lambda>r. - gs_total r)
            (filter (\<lambda>r. ranked cid r \<and> gs_user r \<noteq> newUser \<and> gs_total r < newScore) (sessions a));
          leaderCount = int (count_where (\<lambda>r. ranked cid r \<and> newScore \<le> gs_total r) (sessions a))
      in if overtaken = [] then a
         else notify_each fresh now cid cname leaderCount (map gs_user overtaken) a)"

section \<open>Lemmas\<close>

lemma buildPushMessage_iff: "buildPushMessage t p n = None \<longleftrightarrow> t \<notin> set PUSH_NOTIFICATION_TYPES"
  by (simp add: buildPushMessage_def PUSH_NOTIFICATION_TYPES_def Let_def)

lemma dispatch_keeps:
  "sessions (snd (dispatchNotification f u t p a)) = sessions a"
  "round_scores (snd (dispatchNotification f u t p a)) = round_scores a"
  "users (snd (dispatchNotification f u t p a)) = users a"
  "redis_kv (snd (dispatchNotification f u t p a)) = redis_kv a"
  "redis_up (snd (dispatchNotification f u t p a)) = redis_up a"
  "badges (snd (dispatchNotification f u t p a)) = badges a"
  by (simp_all add: dispatchNotification_def Let_def split: option.split)

text \<open>
  Dispatching reaches the inbox of an existing user exactly once and reports the new row's id;
  a message is pushed exactly for the interrupting types, it carries that id, and for a user without
  a row nothing is stored, nothing is pushed and the caller is told so.
\<close>

theorem dispatch_spec:
  "(if u \<in> u_id ` set (users a)
    then fst (dispatchNotification f u t p a) = Some f \<and>
         notifications (snd (dispatchNotification f u t p a)) =
           notifications a @ [\<lparr>nt_id = f, nt_user = u, nt_type = t, nt_payload = p\<rparr>] \<and>
         (if t \<in> {''payout_received'', ''challenge_reminder''}
          then \<exists>m. push_outbox (snd (dispatchNotification f u t p a)) = push_outbox a @ [(u, m)] \<and>
                   pm_notification m = Some f
          else push_outbox (snd (dispatchNotification f u t p a)) = push_outbox a)
    else dispatchNotification f u t p a = (None, a))"
proof (cases "u \<in> u_id ` set (users a)")
  case True
  then have "find_row (\<lambda>x. u_id x = u) (users a) \<noteq> None" by (auto simp: find_row_None)
  with True show ?thesis
    by (auto simp: dispatchNotification_def buildPushMessage_def PUSH_NOTIFICATION_TYPES_def Let_def)
next
  case False
  then have "find_row (\<lambda>x. u_id x = u) (users a) = None" by (auto simp: find_row_None)
  with False show ?thesis by (simp add: dispatchNotification_def)
qed

lemma notify_each_keeps:
  "sessions (notify_each f now cid cn lc us a) = sessions a"
  "round_scores (notify_each f now cid cn lc us a) = round_scores a"
  "users (notify_each f now cid cn lc us a) = users a"
  "(\<And>u. k \<noteq> throttleKey u cid) \<Longrightarrow> redis_kv (notify_each f now cid cn lc us a) k = redis_kv a k"
  by (induction f now cid cn lc us a rule: notify_each.induct)
    (simp_all add: case_prod_beta dispatch_keeps r_set_ex_def Let_def)

text \<open>Everything it notifies about is a rank notification, and a user is not notified again while
  the throttle key of an earlier one lives.\<close>

definition rank_notes :: "string \<Rightarrow> app \<Rightarrow> notification list" where
  "rank_notes uid a = filter (\<lambda>n. nt_user n = uid \<and> nt_type n = ''rank_overtaken'') (notifications a)"

lemma dispatch_rank_notes:
  "rank_notes v (snd (dispatchNotification f u ''rank_overtaken'' p a)) =
     rank_notes v a @ (if v = u \<and> find_row (\<lambda>x. u_id x = u) (users a) \<noteq> None
       then [\<lparr>nt_id = f, nt_user = u, nt_type = ''rank_overtaken'', nt_payload = p\<rparr>] else [])"
  "fst (dispatchNotification f u ''rank_overtaken'' p a) \<noteq> None \<longleftrightarrow> find_row (\<lambda>x. u_id x = u) (users a) \<noteq> None"
  by (auto simp: dispatchNotification_def rank_notes_def PUSH_NOTIFICATION_TYPES_def Let_def)

lemma throttleKey_inj: "throttleKey u c = throttleKey v c \<longleftrightarrow> u = v"
  by (simp add: throttleKey_def)

lemma notify_each_once:
  "length (rank_notes v (notify_each f now cid cn lc us a)) \<le>
     length (rank_notes v a) + (if r_get now (redis_kv a) (throttleKey v cid) = None then 1 else 0)"
proof (induction f now cid cn lc us a rule: notify_each.induct)
  case (2 f now cid cn lc uid rest a)
  let ?p = "[(''challenge_id'', PStr cid), (''challenge_name'', PStr cn),
    (''new_rank'', PNum (Num (of_int (lc + 1))))]"
  let ?d = "dispatchNotification (f uid) uid ''rank_overtaken'' ?p a"
  let ?a2 = "if fst ?d = None then snd ?d
    else snd ?d\<lparr>redis_kv := r_set_ex now (redis_kv (snd ?d)) (throttleKey uid cid) (RStr ''1'') 180\<rparr>"
  show ?case
  proof (cases "redis_up a \<and> r_get now (redis_kv a) (throttleKey uid cid) = None")
    case True
    then have run: "notify_each f now cid cn lc (uid # rest) a = notify_each f now cid cn lc rest ?a2"
      by (simp add: case_prod_beta Let_def)
    have IH: "length (rank_notes v (notify_each f now cid cn lc rest ?a2)) \<le>
       length (rank_notes v ?a2) + (if r_get now (redis_kv ?a2) (throttleKey v cid) = None then 1 else 0)"
      using 2(2) [of ?d "fst ?d" "snd ?d" ?a2] True by simp
    have eqn: "rank_notes v ?a2 = rank_notes v (snd ?d)" by (simp add: rank_notes_def)
    have key: "r_get now (redis_kv ?a2) (throttleKey v cid) =
      (if fst ?d \<noteq> None \<and> v = uid then Some (RStr ''1'') else r_get now (redis_kv a) (throttleKey v cid))"
      by (auto simp: dispatch_keeps redis.get_set_ex throttleKey_inj)
    show ?thesis
      using IH True unfolding run eqn key dispatch_rank_notes(1)
      using dispatch_rank_notes(2) [of "f uid" uid ?p a] by (auto split: if_splits)
  next
    case False
    then show ?thesis using 2(1) by auto
  qed
qed simp

text \<open>
  A finished game sends each overtaken player at most one notification, and none to a player who
  got one for this challenge less than three minutes ago; nothing else of the game state changes.
\<close>

theorem overtaken_throttled:
  "length (rank_notes v (notifyOvertakenParticipants f now w cid sc cn a)) \<le>
     length (rank_notes v a) + (if r_get now (redis_kv a) (throttleKey v cid) = None then 1 else 0) \<and>
   sessions (notifyOvertakenParticipants f now w cid sc cn a) = sessions a \<and>
   users (notifyOvertakenParticipants f now w cid sc cn a) = users a"
proof -
  define overtaken where "overtaken = sort_key (\<lambda>r. - gs_total r)
      (filter (\<lambda>r. ranked cid r \<and> gs_user r \<noteq> w \<and> gs_total r < sc) (sessions a))"
  define lc where "lc = int (count_where (\<lambda>r. ranked cid r \<and> sc \<le> gs_total r) (sessions a))"
  define us where "us = map gs_user overtaken"
  have "notifyOvertakenParticipants f now w cid sc cn a = notify_each f now cid cn lc us a"
    unfolding notifyOvertakenParticipants_def Let_def overtaken_def [symmetric] lc_def [symmetric] us_def by simp
  then show ?thesis using notify_each_once [of v f now cid cn lc us a] by (simp add: notify_each_keeps)
qed

end
