(* ===== verification/Streaks.thy ===== *)
theory Streaks
  imports Notifications
begin

text \<open>
  Daily streaks (\<open>apps/api/src/services/streaks.ts\<close> and the streak statements of
  \<open>db/queries/users.ts\<close>). A day is the number of the UTC day since the epoch, so
  \<open>toUtcDay\<close> is a division and \<open>dayDiff\<close> a difference. \<open>insertStreakMilestoneNotification\<close>
  refers to \<open>query\<close> and \<open>logger\<close>, which its module does not import: after the dispatch it ends in
  a \<open>ReferenceError\<close>, raised again inside its own \<open>catch\<close>.
\<close>

definition STREAK_MILESTONES :: "int list" where "STREAK_MILESTONES = [3, 7, 14, 30]"

definition NOTIFICATION_MILESTONES :: "int list" where "NOTIFICATION_MILESTONES = [7, 30, 100]"

definition toUtcDay :: "int \<Rightarrow> int" where "toUtcDay now = now div 86400000"

definition dayDiff :: "int \<Rightarrow> int \<Rightarrow> int" where "dayDiff from to = to - from"

section \<open>Statements\<close>

definition getUserStreak :: "app \<Rightarrow> string \<Rightarrow> user option" where
  "getUserStreak a uid = find_row (\<lambda>u. u_id u = uid \<and> u_deleted_at u = None) (users a)"

definition setUserStreak :: "string \<Rightarrow> int \<Rightarrow> int \<Rightarrow> bool \<Rightarrow> app \<Rightarrow> user option \<times> app" where
  "setUserStreak uid streak lastPlayDay repairAvailable a =
     (let a' = a\<lparr>users := update_where (\<lambda>u. u_id u = uid)
            (\<lambda>u. u\<lparr>u_streak := streak, u_last_play_day := Some lastPlayDay,
                   u_streak_repair_available := repairAvailable\<rparr>) (users a)\<rparr>
      in (find_row (\<lambda>u. u_id u = uid) (users a'), a'))"

definition repairUserStreak :: "string \<Rightarrow> int \<Rightarrow> app \<Rightarrow> user option \<times> app" where
  "repairUserStreak uid playDay a =
     (let P = (\<lambda>u. u_id u = uid \<and> u_streak_repairs u < 1);
          a' = a\<lparr>users := update_where P
            (\<lambda>u. u\<lparr>u_streak := max (u_streak u) 1, u_last_play_day := Some playDay,
                   u_streak_repair_available := False, u_streak_repairs := u_streak_repairs u + 1\<rparr>)
            (users a)\<rparr>
      in (if find_row P (users a) = None then None else find_row (\<lambda>u. u_id u = uid) (users a'), a'))"

section \<open>Operations\<close>

definition insertStreakMilestoneNotification :: "string \<Rightarrow> string \<Rightarrow> int \<Rightarrow> app \<Rightarrow> (exn + unit) \<times> app" where
  "insertStreakMilestoneNotification fresh uid milestone a =
     (let (_, a') = dispatchNotification fresh uid ''streak_milestone''
                      [(''milestone'', PNum (Num (of_int milestone)))] a
      in (Inl (js_error ''logger is not defined''), a'))"

definition next_streak :: "int option \<Rightarrow> int \<Rightarrow> int \<Rightarrow> int" where
  "next_streak lastPlayDay streak today =
     (case lastPlayDay of
        Some d \<Rightarrow> if dayDiff d today = 1 then streak + 1 else 1
      | None \<Rightarrow> 1)"

definition updateStreak :: "string \<Rightarrow> int \<Rightarrow> string \<Rightarrow> app \<Rightarrow> (exn + user option) \<times> app" where
  "updateStreak fresh now uid a =
     (case getUserStreak a uid of
        None \<Rightarrow> (Inl (js_error ''User not found''), a)
      | Some current \<Rightarrow>
          let today = toUtcDay now in
          if u_last_play_day current = Some today then (Inr (Some current), a)
          else
            let newStreak = next_streak (u_last_play_day current) (u_streak current) today;
                (updated, a1) = setUserStreak uid newStreak today (3 \<le> newStreak) a
            in if newStreak \<in> set NOTIFICATION_MILESTONES
               then and_then (insertStreakMilestoneNotification fresh uid newStreak a1)
                      (\<lambda>_ a2. (Inr updated, a2))
               else (Inr updated, a1))"

definition nextMilestone :: "int \<Rightarrow> int" where
  "nextMilestone streak =
     (case List.find (\<lambda>m. streak < m) STREAK_MILESTONES of Some m \<Rightarrow> m | None \<Rightarrow> last STREAK_MILESTONES)"

record streak_response =
  sr_streak :: int
  sr_lastPlayDay :: "int option"
  sr_repairAvailable :: bool
  sr_nextMilestone :: int
  sr_progress :: rat
  sr_milestoneJustHit :: bool

definition formatStreak :: "user \<Rightarrow> int \<Rightarrow> streak_response" where
  "formatStreak s now =
     (let m = nextMilestone (u_streak s) in
      \<lparr>sr_streak = u_streak s, sr_lastPlayDay = u_last_play_day s,
       sr_repairAvailable = u_streak_repair_available s, sr_nextMilestone = m,
       sr_progress = min 1 (fl (of_int (u_streak s) / of_int (max 1 m))),
       sr_milestoneJustHit = (u_streak s \<in> set STREAK_MILESTONES \<and> u_last_play_day s = Some (toUtcDay now))\<rparr>)"

definition getStreak :: "app \<Rightarrow> string \<Rightarrow> int \<Rightarrow> exn + streak_response" where
  "getStreak a uid now =
     (case getUserStreak a uid of
        None \<Rightarrow> Inl (js_error ''User not found'')
      | Some current \<Rightarrow> Inr (formatStreak current now))"

record streak_detail =
  sd_current :: int
  sd_longest :: int
  sd_last_activity :: "int option"
  sd_is_at_risk :: bool
  sd_repair_deadline :: "int option"
  sd_days_required :: int
  sd_reward_badge :: string
  sd_frozen :: bool

definition badgeMap :: "int \<Rightarrow> string option" where
  "badgeMap = [3 \<mapsto> ''streak_3_days'', 7 \<mapsto> ''streak_7_days'', 14 \<mapsto> ''streak_14_days'', 30 \<mapsto> ''streak_30_days'']"

definition getStreakDetail :: "app \<Rightarrow> string \<Rightarrow> int \<Rightarrow> exn + streak_detail" where
  "getStreakDetail a uid now =
     (case getUserStreak a uid of
        None \<Rightarrow> Inl (js_error ''User not found'')
      | Some current \<Rightarrow>
          let lastPlayDay = u_last_play_day current;
              today = toUtcDay now;
              m = nextMilestone (u_streak current);
              risk = (case lastPlayDay of Some d \<Rightarrow> dayDiff d today = 1 | None \<Rightarrow> False)
          in Inr \<lparr>sd_current = u_streak current, sd_longest = u_streak current,
                  sd_last_activity = map_option (\<lambda>d. d * 86400000) lastPlayDay,
                  sd_is_at_risk = risk,
                  sd_repair_deadline = (if risk then map_option (\<lambda>d. (d + 2) * 86400000) lastPlayDay else None),
                  sd_days_required = m,
                  sd_reward_badge = (case badgeMap m of Some b \<Rightarrow> b | None \<Rightarrow> ''streak_badge''),
                  sd_frozen = False\<rparr>)"

definition repairStreak :: "string \<Rightarrow> int \<Rightarrow> app \<Rightarrow> streak_response option \<times> app" where
  "repairStreak uid now a =
     (let (repaired, a') = repairUserStreak uid (toUtcDay now) a
      in (map_option (\<lambda>s. formatStreak s now) repaired, a'))"

section \<open>Lemmas\<close>

text \<open>The user row an update leaves behind, whether or not the notification fails.\<close>

definition played :: "int \<Rightarrow> user \<Rightarrow> user" where
  "played today u =
     (if u_last_play_day u = Some today then u
      else u\<lparr>u_streak := next_streak (u_last_play_day u) (u_streak u) today,
             u_last_play_day := Some today,
             u_streak_repair_available := 3 \<le> next_streak (u_last_play_day u) (u_streak u) today\<rparr>)"

lemma played_id [simp]: "u_id (played t u) = u_id u" "u_deleted_at (played t u) = u_deleted_at u"
  by (simp_all add: played_def)

lemma getUserStreak_iff:
  assumes "unique_by u_id (users a)"
  shows "getUserStreak a uid = Some u \<longleftrightarrow> u \<in> set (users a) \<and> u_id u = uid \<and> u_deleted_at u = None"
proof
  assume r: "u \<in> set (users a) \<and> u_id u = uid \<and> u_deleted_at u = None"
  then obtain v where v: "getUserStreak a uid = Some v"
    by (cases "getUserStreak a uid") (auto simp: getUserStreak_def find_row_None)
  then have "v \<in> set (users a)" "u_id v = uid" by (auto simp: getUserStreak_def dest: find_row_Some)
  with r have "v = u" using unique_byD [OF assms] by blast
  with v show "getUserStreak a uid = Some u" by simp
qed (auto simp: getUserStreak_def dest: find_row_Some)

lemma users_updateStreak:
  assumes "unique_by u_id (users a)" and "getUserStreak a uid = Some u"
  shows "users (snd (updateStreak fresh now uid a)) =
    update_where (\<lambda>x. u_id x = uid) (played (toUtcDay now)) (users a)"
proof -
  have only: "x = u" if "x \<in> set (users a)" "u_id x = uid" for x
    using that assms getUserStreak_iff [OF assms(1)] unique_byD [OF assms(1)] by blast
  show ?thesis
  proof (cases "u_last_play_day u = Some (toUtcDay now)")
    case True
    then have "snd (updateStreak fresh now uid a) = a" using assms(2) by (simp add: updateStreak_def Let_def)
    moreover have "update_where (\<lambda>x. u_id x = uid) (played (toUtcDay now)) (users a) = users a"
      using True only by (auto simp: update_where_def played_def intro!: map_idI)
    ultimately show ?thesis by simp
  next
    case False
    then have "users (snd (updateStreak fresh now uid a)) =
      users (snd (setUserStreak uid (next_streak (u_last_play_day u) (u_streak u) (toUtcDay now))
        (toUtcDay now) (3 \<le> next_streak (u_last_play_day u) (u_streak u) (toUtcDay now)) a))"
      using assms(2)
      by (simp add: updateStreak_def Let_def insertStreakMilestoneNotification_def dispatch_keeps
          case_prod_beta)
    then show ?thesis
      using only False by (auto simp: setUserStreak_def Let_def update_where_def played_def)
  qed
qed

lemma getUserStreak_played:
  assumes "unique_by u_id (users a)" and "getUserStreak a uid = Some u"
  shows "unique_by u_id (users (snd (updateStreak fresh now uid a))) \<and>
    getUserStreak (snd (updateStreak fresh now uid a)) uid = Some (played (toUtcDay now) u)"
proof -
  let ?a' = "snd (updateStreak fresh now uid a)"
  have eq: "users ?a' = update_where (\<lambda>x. u_id x = uid) (played (toUtcDay now)) (users a)"
    using users_updateStreak [OF assms] .
  have uniq: "unique_by u_id (users ?a')" unfolding eq using assms(1) by (simp add: unique_by_update)
  moreover have "u \<in> set (users a)" "u_id u = uid" "u_deleted_at u = None"
    using assms getUserStreak_iff by blast+
  ultimately show ?thesis
    using getUserStreak_iff [OF uniq] unfolding eq by (auto simp: set_update_where)
qed

text \<open>The reference: the number of consecutive days at the end of a history, latest day first.\<close>

fun run_length :: "int list \<Rightarrow> int" where
  "run_length [] = 0"
| "run_length [d] = 1"
| "run_length (d # e # ds) =
     (if d = e then run_length (e # ds) else if d = e + 1 then 1 + run_length (e # ds) else 1)"

definition play_all :: "string \<Rightarrow> string \<Rightarrow> int list \<Rightarrow> app \<Rightarrow> app" where
  "play_all fresh uid plays a = foldl (\<lambda>a now. snd (updateStreak fresh now uid a)) a plays"

lemma play_all_state:
  assumes "unique_by u_id (users a)" and "getUserStreak a uid = Some u" and "u_last_play_day u = None"
  shows "\<exists>v. unique_by u_id (users (play_all fresh uid plays a)) \<and>
    getUserStreak (play_all fresh uid plays a) uid = Some v \<and>
    (plays = [] \<longrightarrow> u_last_play_day v = None) \<and>
    (plays \<noteq> [] \<longrightarrow> u_last_play_day v = Some (toUtcDay (last plays)) \<and>
       u_streak v = run_length (rev (map toUtcDay plays)))"
proof (induction plays rule: rev_induct)
  case Nil
  with assms show ?case by (simp add: play_all_def)
next
  case (snoc t ts)
  then obtain v where v: "unique_by u_id (users (play_all fresh uid ts a))"
    "getUserStreak (play_all fresh uid ts a) uid = Some v"
    "ts = [] \<longrightarrow> u_last_play_day v = None"
    "ts \<noteq> [] \<longrightarrow> u_last_play_day v = Some (toUtcDay (last ts)) \<and> u_streak v = run_length (rev (map toUtcDay ts))"
    by blast
  have run: "rev (map toUtcDay ts) = toUtcDay (last ts) # tl (rev (map toUtcDay ts))" if "ts \<noteq> []"
    using that by (cases ts rule: rev_cases) simp_all
  have "u_last_play_day (played (toUtcDay t) v) = Some (toUtcDay t) \<and>
    u_streak (played (toUtcDay t) v) = run_length (toUtcDay t # rev (map toUtcDay ts))"
  proof (cases "ts = []")
    case True
    with v(3) show ?thesis by (simp add: played_def next_streak_def)
  next
    case False
    with v(4) show ?thesis
      by (subst run [OF False], subst (asm) run [OF False]) (auto simp: played_def next_streak_def dayDiff_def)
  qed
  moreover have "unique_by u_id (users (play_all fresh uid (ts @ [t]) a)) \<and>
    getUserStreak (play_all fresh uid (ts @ [t]) a) uid = Some (played (toUtcDay t) v)"
    using getUserStreak_played [OF v(1,2)] by (simp add: play_all_def)
  ultimately show ?case by (intro exI [of _ "played (toUtcDay t) v"]) simp
qed


text \<open>
  The milestone step is broken: whenever a play brings the streak to 7, 30 or 100 days, the
  update throws although the streak has been stored; at every other length it returns normally.
\<close>

theorem streak_milestone_throws:
  assumes "getUserStreak a uid = Some u" and "u_last_play_day u \<noteq> Some (toUtcDay now)"
  shows "(\<exists>e. fst (updateStreak fresh now uid a) = Inl e) \<longleftrightarrow>
    next_streak (u_last_play_day u) (u_streak u) (toUtcDay now) \<in> {7, 30, 100}"
  using assms
  by (simp add: updateStreak_def Let_def insertStreakMilestoneNotification_def NOTIFICATION_MILESTONES_def
      split: prod.split)

text \<open>
  A streak repair happens at most once until the monthly counter is reset: it sets the last play
  day to today and keeps a positive streak, a second attempt returns nothing and changes nothing, and
  it ignores the flag that says whether a repair is available.
\<close>

theorem repair_once:
  assumes "unique_by u_id (users a)" and "u \<in> set (users a)" and "u_id u = uid" and "u_streak_repairs u = 0"
  shows "\<exists>v a'. repairUserStreak uid day a = (Some v, a') \<and>
    v = u\<lparr>u_streak := max (u_streak u) 1, u_last_play_day := Some day, u_streak_repair_available := False,
          u_streak_repairs := 1\<rparr> \<and>
    repairUserStreak uid day' a' = (None, a')"
proof -
  let ?f = "\<lambda>u. u\<lparr>u_streak := max (u_streak u) 1, u_last_play_day := Some day,
      u_streak_repair_available := False, u_streak_repairs := u_streak_repairs u + 1\<rparr>"
  let ?P = "\<lambda>x. u_id x = uid \<and> u_streak_repairs x < 1"
  have only: "x = u" if "x \<in> set (users a)" "u_id x = uid" for x
    using that assms unique_byD by metis
  have upd: "update_where ?P ?f (users a) = update_where (\<lambda>x. u_id x = uid) ?f (users a)"
    using only assms(4) by (auto simp: update_where_def)
  have find: "find_row (\<lambda>x. u_id x = uid) (users a) = Some u"
    using find_row_unique [OF assms(1,2)] assms(3) by simp
  have found: "find_row ?P (users a) \<noteq> None" using assms(2-4) by (auto simp: find_row_None)
  have find': "find_row (\<lambda>x. u_id x = uid) (update_where ?P ?f (users a)) = Some (?f u)"
    unfolding upd using find_row_update_key [OF assms(1), of ?f uid uid] find by simp
  have none: "find_row ?P (update_where ?P ?f (users a)) = None" by (rule update_where_once) simp
  let ?g = "\<lambda>u. u\<lparr>u_streak := max (u_streak u) 1, u_last_play_day := Some day',
      u_streak_repair_available := False, u_streak_repairs := u_streak_repairs u + 1\<rparr>"
  have idem: "update_where ?P ?g (update_where ?P ?f (users a)) = update_where ?P ?f (users a)"
    by (rule update_where_once) simp
  let ?a' = "a\<lparr>users := update_where ?P ?f (users a)\<rparr>"
  have "repairUserStreak uid day a = (Some (?f u), ?a')"
    using found find' by (simp add: repairUserStreak_def Let_def)
  moreover have "repairUserStreak uid day' ?a' = (None, ?a')"
    using none idem by (simp add: repairUserStreak_def Let_def)
  moreover have "?f u = u\<lparr>u_streak := max (u_streak u) 1, u_last_play_day := Some day,
      u_streak_repair_available := False, u_streak_repairs := 1\<rparr>" using assms(4) by simp
  ultimately show ?thesis by (intro exI [of _ "?f u"] exI [of _ ?a'] conjI)
qed

section \<open>Instances\<close>

lemma one_user:
  "unique_by u_id (users (blank_app\<lparr>users := [u]\<rparr>))"
  "u_deleted_at u = None \<Longrightarrow> getUserStreak (blank_app\<lparr>users := [u]\<rparr>) (u_id u) = Some u"
  by (simp_all add: unique_by_def getUserStreak_def)


theorem streak_milestone_throws_witness:
  "\<exists>e. fst (updateStreak ''n'' 86400000 ''u''
     (blank_app\<lparr>users := [(new_user ''u'')\<lparr>u_streak := 6, u_last_play_day := Some 0\<rparr>]\<rparr>)) = Inl e"
proof -
  let ?u = "(new_user ''u'')\<lparr>u_streak := 6, u_last_play_day := Some 0\<rparr>"
  have g: "getUserStreak (blank_app\<lparr>users := [?u]\<rparr>) ''u'' = Some ?u"
    using one_user(2) [of ?u] by (simp add: new_user_def)
  have l: "u_last_play_day ?u \<noteq> Some (toUtcDay 86400000)" by (simp add: toUtcDay_def)
  show ?thesis
    using streak_milestone_throws [OF g l, of "''n''"] by (simp add: next_streak_def dayDiff_def toUtcDay_def)
qed

theorem repair_once_witness:
  "\<exists>v a'. repairUserStreak ''u'' 9 (blank_app\<lparr>users := [new_user ''u'']\<rparr>) = (Some v, a') \<and>
     u_streak v = 1 \<and> repairUserStreak ''u'' 10 a' = (None, a')"
  using repair_once [OF one_user(1), of "new_user ''u''" "new_user ''u''" "''u''" 9 10]
  by (auto simp: new_user_def blank_app_def)

end
