(* ===== verification/Badges.thy ===== *)
theory Badges
  imports Notifications
begin

text \<open>
  Badges (\<open>apps/api/src/services/badges.ts\<close>, \<open>db/queries/badges.ts\<close>): the catalogue, the
  rules that award badges when a session completes, and the award statement with its
  \<open>UNIQUE (user_id, badge_slug)\<close> constraint.
\<close>

definition PERFECT_SCORE :: int where "PERFECT_SCORE = 450"

record badge_definition =
  bd_slug :: string
  bd_name :: string
  bd_description :: string
  bd_criteria :: string
  bd_iconUrl :: string

definition BADGE_DEFINITIONS :: "badge_definition list" where
  "BADGE_DEFINITIONS =
    [\<lparr>bd_slug = ''first_win'', bd_name = ''First Win'',
      bd_description = ''You completed your first challenge.'',
      bd_criteria = ''Complete your first non-practice challenge.'', bd_iconUrl = ''/badges/first-win.svg''\<rparr>,
     \<lparr>bd_slug = ''perfect_score'', bd_name = ''Perfect Score'',
      bd_description = ''You answered every question correctly with maximum speed.'',
      bd_criteria = ''Score 450 points in a single challenge.'', bd_iconUrl = ''/badges/perfect-score.svg''\<rparr>,
     \<lparr>bd_slug = ''streak_3'', bd_name = ''On a Roll'', bd_description = ''You played 3 days in a row.'',
      bd_criteria = ''Maintain a 3-day streak.'', bd_iconUrl = ''/badges/streak-3.svg''\<rparr>,
     \<lparr>bd_slug = ''streak_7'', bd_name = ''Week Warrior'', bd_description = ''You played 7 days in a row.'',
      bd_criteria = ''Maintain a 7-day streak.'', bd_iconUrl = ''/badges/streak-7.svg''\<rparr>,
     \<lparr>bd_slug = ''wins_10'', bd_name = ''Veteran'', bd_description = ''You have completed 10 challenges.'',
      bd_criteria = ''Complete 10 non-practice challenges.'', bd_iconUrl = ''/badges/wins-10.svg''\<rparr>,
     \<lparr>bd_slug = ''league_silver'', bd_name = ''Silver Climber'',
      bd_description = ''You earned promotion to the Silver League.'',
      bd_criteria = ''Finish in the top 3 of your Bronze league group.'', bd_iconUrl = ''/badges/league-silver.svg''\<rparr>,
     \<lparr>bd_slug = ''league_gold'', bd_name = ''Gold Contender'',
      bd_description = ''You earned promotion to the Gold League.'',
      bd_criteria = ''Finish in the top 3 of your Silver league group.'', bd_iconUrl = ''/badges/league-gold.svg''\<rparr>,
     \<lparr>bd_slug = ''league_diamond'', bd_name = ''Diamond Elite'',
      bd_description = ''You finished in the top 3 of the Gold League.'',
      bd_criteria = ''Finish in the top 3 of your Gold league group.'', bd_iconUrl = ''/badges/league-diamond.svg''\<rparr>]"

text \<open>\<open>INSERT ... ON CONFLICT DO NOTHING RETURNING *\<close>: whether a row was inserted.\<close>

definition awardBadge :: "string \<Rightarrow> string \<Rightarrow> app \<Rightarrow> (exn + bool) \<times> app" where
  "awardBadge userId slug a =
     (if (userId, slug) \<in> set (badges a) then (Inr False, a)
      else if find_row (\<lambda>u. u_id u = userId) (users a) = None
      then (Inl ((js_error ''foreign key'')\<lparr>err_code := Some ''23503''\<rparr>), a)
      else (Inr True, a\<lparr>badges := badges a @ [(userId, slug)]\<rparr>))"

definition getUserBadges :: "app \<Rightarrow> string \<Rightarrow> string list" where
  "getUserBadges a userId = map snd (filter (\<lambda>b. fst b = userId) (badges a))"

definition getBadgesForUser :: "app \<Rightarrow> string \<Rightarrow> (badge_definition \<times> bool) list" where
  "getBadgesForUser a userId =
     map (\<lambda>def. (def, bd_slug def \<in> set (getUserBadges a userId))) BADGE_DEFINITIONS"

fun grantBadges :: "string \<Rightarrow> string list \<Rightarrow> app \<Rightarrow> (exn + string list) \<times> app" where
  "grantBadges userId [] a = (Inr [], a)"
| "grantBadges userId (slug # slugs) a =
     and_then (awardBadge userId slug a) (\<lambda>badge a.
       and_then (grantBadges userId slugs a) (\<lambda>awarded a.
         (Inr (if badge then slug # awarded else awarded), a)))"

definition session_badges :: "user \<Rightarrow> int \<Rightarrow> string list" where
  "session_badges user score =
     (if u_challenges_played user = 1 then [''first_win''] else []) @
     (if score = PERFECT_SCORE then [''perfect_score''] else []) @
     (if 3 \<le> u_streak user then [''streak_3''] else []) @
     (if 7 \<le> u_streak user then [''streak_7''] else []) @
     (if 10 \<le> u_challenges_played user then [''wins_10''] else [])"

definition checkAndAwardSessionBadges ::
  "string \<Rightarrow> int \<Rightarrow> bool \<Rightarrow> app \<Rightarrow> (exn + string list) \<times> app" where
  "checkAndAwardSessionBadges userId score isPractice a =
     (if isPractice then (Inr [], a)
      else case findUserById a userId of
        None \<Rightarrow> (Inr [], a)
      | Some user \<Rightarrow> grantBadges userId (session_badges user score) a)"

text \<open>The weekly league awards, for the users the league statements select.\<close>

fun award_each :: "(string \<times> string list) list \<Rightarrow> app \<Rightarrow> (exn + unit) \<times> app" where
  "award_each [] a = (Inr (), a)"
| "award_each ((uid, slugs) # rest) a = and_then (grantBadges uid slugs a) (\<lambda>_ a. award_each rest a)"

definition checkAndAwardLeagueDiamondBadges :: "string list \<Rightarrow> app \<Rightarrow> (exn + unit) \<times> app" where
  "checkAndAwardLeagueDiamondBadges topGold a = award_each (map (\<lambda>u. (u, [''league_diamond''])) topGold) a"

definition checkAndAwardLeaguePromotionBadges :: "(string \<times> league) list \<Rightarrow> app \<Rightarrow> (exn + unit) \<times> app" where
  "checkAndAwardLeaguePromotionBadges promoted a =
     award_each (map (\<lambda>(u, l). (u, [if l = Silver then ''league_silver'' else ''league_gold''])) promoted) a"

section \<open>Lemmas\<close>

lemma awardBadge_keeps:
  "sessions (snd (awardBadge u s a)) = sessions a"
  "round_scores (snd (awardBadge u s a)) = round_scores a"
  "users (snd (awardBadge u s a)) = users a"
  "redis_kv (snd (awardBadge u s a)) = redis_kv a"
  "redis_up (snd (awardBadge u s a)) = redis_up a"
  by (simp_all add: awardBadge_def)

lemma grantBadges_exec:
  assumes "find_row (\<lambda>u. u_id u = uid) (users a) \<noteq> None"
  shows "\<exists>awarded. fst (grantBadges uid slugs a) = Inr awarded \<and>
    snd (grantBadges uid slugs a) = a\<lparr>badges := badges a @ map (Pair uid) awarded\<rparr> \<and>
    set awarded = {s \<in> set slugs. (uid, s) \<notin> set (badges a)} \<and> distinct awarded"
  using assms
proof (induction slugs arbitrary: a)
  case (Cons s slugs)
  show ?case
  proof (cases "(uid, s) \<in> set (badges a)")
    case True
    obtain r t where g: "grantBadges uid slugs a = (r, t)" by (cases "grantBadges uid slugs a")
    from Cons.IH [OF Cons.prems] g True show ?thesis
      by (auto simp: awardBadge_def)
  next
    case False
    let ?a = "a\<lparr>badges := badges a @ [(uid, s)]\<rparr>"
    obtain r t where g: "grantBadges uid slugs ?a = (r, t)" by (cases "grantBadges uid slugs ?a")
    have "find_row (\<lambda>u. u_id u = uid) (users ?a) \<noteq> None" using Cons.prems by simp
    from Cons.IH [OF this] g obtain aw where
      aw: "r = Inr aw" "t = ?a\<lparr>badges := badges ?a @ map (Pair uid) aw\<rparr>"
        "set aw = {x \<in> set slugs. (uid, x) \<notin> set (badges ?a)}" "distinct aw" by auto
    have "grantBadges uid (s # slugs) a = (Inr (s # aw), t)"
      using False Cons.prems g aw(1) by (simp add: awardBadge_def)
    with aw False show ?thesis by auto
  qed
qed simp

lemma findUserById_row: "findUserById a uid = Some u \<Longrightarrow> find_row (\<lambda>u. u_id u = uid) (users a) \<noteq> None"
  by (auto simp: findUserById_def find_row_None dest!: find_row_Some)

lemma session_badges_cases:
  "checkAndAwardSessionBadges uid t p a =
     (case findUserById a uid of
        Some u \<Rightarrow> if p then (Inr [], a) else grantBadges uid (session_badges u t) a
      | None \<Rightarrow> (Inr [], a))"
  by (simp add: checkAndAwardSessionBadges_def split: option.split)

text \<open>Awarding badges changes nothing but the badges table.\<close>

lemma award_session_badges_only:
  "\<exists>bs. snd (checkAndAwardSessionBadges uid t p a) = a\<lparr>badges := bs\<rparr>"
  "\<exists>slugs. fst (checkAndAwardSessionBadges uid t p a) = Inr slugs"
proof -
  have same: "\<exists>bs. a = a\<lparr>badges := bs\<rparr>" by (rule exI [of _ "badges a"]) simp
  have "(\<exists>bs. snd (checkAndAwardSessionBadges uid t p a) = a\<lparr>badges := bs\<rparr>) \<and>
    (\<exists>slugs. fst (checkAndAwardSessionBadges uid t p a) = Inr slugs)"
  proof (cases "findUserById a uid")
    case None
    then show ?thesis using same by (auto simp: session_badges_cases)
  next
    case (Some u)
    from grantBadges_exec [OF findUserById_row [OF Some], of "session_badges u t"]
    show ?thesis using Some same by (auto simp: session_badges_cases)
  qed
  then show "\<exists>bs. snd (checkAndAwardSessionBadges uid t p a) = a\<lparr>badges := bs\<rparr>"
    "\<exists>slugs. fst (checkAndAwardSessionBadges uid t p a) = Inr slugs" by blast+
qed

text \<open>
  Completing a competitive session awards each badge at most once: the table's uniqueness is
  kept, the returned list holds exactly the earned badges the user did not have, all of them are
  badges of the catalogue, and awarding again in the resulting state returns nothing and changes
  nothing.
\<close>

theorem session_badges_once:
  assumes "distinct (badges a)" and "findUserById a uid = Some u"
  shows "\<exists>awarded a'. checkAndAwardSessionBadges uid score False a = (Inr awarded, a') \<and>
    distinct (badges a') \<and> set awarded = {s \<in> set (session_badges u score). (uid, s) \<notin> set (badges a)} \<and>
    set awarded \<subseteq> bd_slug ` set BADGE_DEFINITIONS \<and>
    set (session_badges u score) \<subseteq> set (getUserBadges a' uid) \<and>
    checkAndAwardSessionBadges uid score False a' = (Inr [], a')"
proof -
  let ?s = "session_badges u score"
  obtain awarded where
    g: "fst (grantBadges uid ?s a) = Inr awarded"
      "snd (grantBadges uid ?s a) = a\<lparr>badges := badges a @ map (Pair uid) awarded\<rparr>"
      "set awarded = {s \<in> set ?s. (uid, s) \<notin> set (badges a)}" "distinct awarded"
    using grantBadges_exec [OF findUserById_row [OF assms(2)], of ?s] by blast
  define a' where "a' = a\<lparr>badges := badges a @ map (Pair uid) awarded\<rparr>"
  have run: "checkAndAwardSessionBadges uid score False a = (Inr awarded, a')"
    using g(1,2) assms(2) by (simp add: checkAndAwardSessionBadges_def a'_def prod_eq_iff)
  have u': "findUserById a' uid = Some u" using assms(2) by (simp add: a'_def findUserById_def)
  obtain aw2 where
    g2: "fst (grantBadges uid ?s a') = Inr aw2"
      "snd (grantBadges uid ?s a') = a'\<lparr>badges := badges a' @ map (Pair uid) aw2\<rparr>"
      "set aw2 = {s \<in> set ?s. (uid, s) \<notin> set (badges a')}"
    using grantBadges_exec [OF findUserById_row [OF u'], of ?s] by blast
  have "set aw2 = {}" using g2(3) g(3) by (auto simp: a'_def)
  then have aw2: "aw2 = []" by simp
  have again: "checkAndAwardSessionBadges uid score False a' = (Inr [], a')"
    using g2(1,2) aw2 u' by (simp add: checkAndAwardSessionBadges_def prod_eq_iff)
  have dist: "distinct (badges a')"
    using assms(1) g(3,4) by (auto simp: a'_def distinct_map inj_on_def)
  have cat: "set awarded \<subseteq> bd_slug ` set BADGE_DEFINITIONS"
    using g(3) by (auto simp: session_badges_def BADGE_DEFINITIONS_def split: if_splits)
  have all: "set ?s \<subseteq> set (getUserBadges a' uid)"
    using g(3) by (force simp: getUserBadges_def a'_def)
  show ?thesis using run dist g(3) cat all again by blast
qed

theorem session_badges_once_witness:
  "\<exists>awarded a'. checkAndAwardSessionBadges ''u'' 450 False
      (blank_app\<lparr>users := [(new_user ''u'')\<lparr>u_challenges_played := 1\<rparr>]\<rparr>) = (Inr awarded, a') \<and>
    set awarded = {''first_win'', ''perfect_score''} \<and>
    checkAndAwardSessionBadges ''u'' 450 False a' = (Inr [], a')"
proof -
  let ?u = "(new_user ''u'')\<lparr>u_challenges_played := 1\<rparr>"
  let ?a = "blank_app\<lparr>users := [?u]\<rparr>"
  have u: "findUserById ?a ''u'' = Some ?u" by (simp add: findUserById_def new_user_def)
  have d: "distinct (badges ?a)" by (simp add: blank_app_def)
  have "{s \<in> set (session_badges ?u 450). (''u'', s) \<notin> set (badges ?a)} = {''first_win'', ''perfect_score''}"
    by (auto simp: session_badges_def PERFECT_SCORE_def new_user_def blank_app_def)
  then show ?thesis using session_badges_once [OF d u, of 450] by fastforce
qed

end
