(* ===== verification/Session_Routes.thy ===== *)
theory Session_Routes
  imports Anti_Cheat Streaks Badges
begin

text \<open>
  The game endpoints (\<open>apps/api/src/routes/sessions.ts\<close>), with their middleware in the order of
  the router, the integrity code of \<open>lib/integrity.ts\<close> and \<open>completeWarmupWithLock\<close> of
  \<open>services/scoring.ts\<close>. A handler starts after \<open>authenticate\<close>, so the request carries its user.
  \<open>HMAC-SHA256\<close> (hex) and the printing of a timestamp are parameters, and so is the verdict of the
  third-party rate limiter.
\<close>

section \<open>Parameters and keys\<close>

record env =
  e_sha256 :: "string \<Rightarrow> string"
  e_normalizeClientIp :: "string option \<Rightarrow> string"
  e_lockout :: "rat \<times> rat"
  e_integrity_key :: "string option"
  e_hmac :: "string \<Rightarrow> string \<Rightarrow> string"
  e_showTime :: "int \<Rightarrow> string"
  e_noteId :: "string \<Rightarrow> string"

definition WARMUP_MIN_SECONDS :: int where "WARMUP_MIN_SECONDS = 20"

definition unlock_key :: "string \<Rightarrow> string" where "unlock_key sid = ''warmup:unlock:'' @ sid"
definition ctoken_key :: "string \<Rightarrow> string" where "ctoken_key tok = ''challenge-token:'' @ tok"
definition start_key :: "string \<Rightarrow> string" where "start_key sid = ''session:start:'' @ sid"
definition stoken_key :: "string \<Rightarrow> string" where "stoken_key sid = ''session-token:'' @ sid"
definition tokenRevocationKey :: "string \<Rightarrow> string" where "tokenRevocationKey tok = ''auth:revoked:'' @ tok"

definition tokenTtlSeconds :: "int \<Rightarrow> int \<Rightarrow> int" where
  "tokenTtlSeconds now expiry = max 1 (expiry - now div 1000)"

lemmas key_defs = unlock_key_def ctoken_key_def start_key_def stoken_key_def tokenRevocationKey_def

text \<open>Setting and deleting keys in sequence; a Redis failure is thrown.\<close>

definition redis_write :: "(rstore \<Rightarrow> rstore) \<Rightarrow> app \<Rightarrow> (exn + unit) \<times> app" where
  "redis_write f a = redis_do (\<lambda>st. ((), f st)) a"

section \<open>Integrity\<close>

definition computeSessionHmac :: "env \<Rightarrow> string \<Rightarrow> int \<Rightarrow> int \<Rightarrow> string" where
  "computeSessionHmac env sid score completedAt =
     (case given (e_integrity_key env) of
        None \<Rightarrow> ''''
      | Some key \<Rightarrow> e_hmac env key (sid @ '':'' @ string_of_int score @ '':'' @ e_showTime env completedAt))"

definition hex_val :: "char \<Rightarrow> nat option" where
  "hex_val c =
     (let n = of_char c in
      if 48 \<le> n \<and> n \<le> 57 then Some (n - 48)
      else if 97 \<le> n \<and> n \<le> 102 then Some (n - 87)
      else if 65 \<le> n \<and> n \<le> 70 then Some (n - 55)
      else None)"

text \<open>\<open>Buffer.from(s, "hex")\<close> decodes pairs and stops at the first that is not hexadecimal.\<close>

fun from_hex :: "string \<Rightarrow> nat list" where
  "from_hex (c # d # s) =
     (case (hex_val c, hex_val d) of (Some h, Some l) \<Rightarrow> (16 * h + l) # from_hex s | _ \<Rightarrow> [])"
| "from_hex _ = []"

text \<open>\<open>timingSafeEqual\<close> throws on buffers of different lengths, which counts as not equal.\<close>

definition verifySessionHmac :: "env \<Rightarrow> string \<Rightarrow> int \<Rightarrow> int \<Rightarrow> string option \<Rightarrow> bool" where
  "verifySessionHmac env sid score completedAt storedHmac =
     (if given (e_integrity_key env) = None \<or> given storedHmac = None then True
      else
        let expected = computeSessionHmac env sid score completedAt
        in if expected = [] then True
           else from_hex expected = from_hex (or_empty storedHmac))"

section \<open>Recovery\<close>

definition lastAnsweredRound :: "game_session \<Rightarrow> nat" where
  "lastAnsweredRound s =
     (if gs_answer s 3 \<noteq> None \<or> 0 < gs_score s 3 then 3
      else if gs_answer s 2 \<noteq> None \<or> 0 < gs_score s 2 then 2
      else if gs_answer s 1 \<noteq> None \<or> 0 < gs_score s 1 then 1
      else 0)"

datatype recovery = RWarmup | RInProgress | RCompleted | RExpired

definition recoveryStatus :: "game_session \<Rightarrow> recovery" where
  "recoveryStatus s =
     (if gs_completed s \<noteq> None \<or> gs_status s = SCompleted then RCompleted
      else if gs_status s = SAbandoned then RExpired
      else if gs_started s \<noteq> None \<or> gs_status s = SActive then RInProgress
      else RWarmup)"

definition remainingTimeMs :: "int \<Rightarrow> game_session \<Rightarrow> int" where
  "remainingTimeMs now s =
     (case gs_started s of None \<Rightarrow> 45000 | Some t \<Rightarrow> max 0 (45000 - (now - t)))"

record progress =
  pr_id :: string
  pr_status :: recovery
  pr_last_answered :: nat
  pr_current_round :: nat
  pr_remaining :: int
  pr_total :: int
  pr_scores :: "int list"

definition get_session_progress :: "int \<Rightarrow> request \<Rightarrow> app \<Rightarrow> (exn + progress) \<times> app" where
  "get_session_progress now req a =
     (case getChallengeById a (rq_challenge req) of
        None \<Rightarrow> (Inl (createError ''Challenge not found'' 404 None), a)
      | Some challenge \<Rightarrow>
          (case getSession a (sub req) (ch_id challenge) of
             None \<Rightarrow> (Inl (createError ''Session not found'' 404 None), a)
           | Some session \<Rightarrow>
               if gs_user session \<noteq> sub req then (Inl (createError ''Forbidden'' 403 None), a)
               else
                 let lastRound = lastAnsweredRound session
                 in (Inr \<lparr>pr_id = gs_id session, pr_status = recoveryStatus session,
                          pr_last_answered = lastRound, pr_current_round = min (lastRound + 1) 3,
                          pr_remaining = remainingTimeMs now session,
                          pr_total = (if gs_total session \<noteq> 0 then gs_total session
                                      else gs_score session 1 + gs_score session 2 + gs_score session 3),
                          pr_scores = [gs_score session 1, gs_score session 2, gs_score session 3]\<rparr>, a)))"

definition delete_session :: "int \<Rightarrow> request \<Rightarrow> app \<Rightarrow> (exn + unit) \<times> app" where
  "delete_session now req a =
     (case getChallengeById a (rq_challenge req) of
        None \<Rightarrow> (Inl (createError ''Challenge not found'' 404 None), a)
      | Some challenge \<Rightarrow>
          (case abandonSession now (sub req) (ch_id challenge) AExplicit a of
             (False, a1) \<Rightarrow> (Inl (createError ''No open session to forfeit'' 404 None), a1)
           | (True, a1) \<Rightarrow> (Inr (), a1)))"

section \<open>Warm-up\<close>

definition warmup_start_handler :: "int \<Rightarrow> request \<Rightarrow> game_session \<Rightarrow> app \<Rightarrow> (exn + string \<times> int) \<times> app" where
  "warmup_start_handler now req session a =
     (case getChallengeById a (rq_challenge req) of
        None \<Rightarrow> (Inl (createError ''Challenge not available'' 404 None), a)
      | Some challenge \<Rightarrow>
          if ch_status challenge \<noteq> CActive then (Inl (createError ''Challenge not available'' 404 None), a)
          else
            let a1 = markWarmupStarted now (gs_id session) a;
                unlockAt = now + WARMUP_MIN_SECONDS * 1000
            in and_then (redis_write (\<lambda>st. r_set_ex now st (unlock_key (gs_id session)) (RInt unlockAt) 300) a1)
                 (\<lambda>_ a2. (Inr (gs_id session, unlockAt), a2)))"

text \<open>The route: account gate, session claim, fingerprint, handler; once the session is attached, a
  failure goes through the error handler with it.\<close>

definition post_warmup_start ::
  "env \<Rightarrow> string \<Rightarrow> nat \<Rightarrow> int \<Rightarrow> request \<Rightarrow> app \<Rightarrow> (exn + string \<times> int) \<times> app" where
  "post_warmup_start env fresh rnd now req a =
     and_then (requireActiveUser req a) (\<lambda>_ a.
     and_then (enforceOneSessionPerChallenge fresh rnd now req a) (\<lambda>session a.
       on_error (errorHandler_session now (gs_id session))
         (and_then (validateDeviceFingerprint (e_sha256 env) (e_normalizeClientIp env) now req a) (\<lambda>_ a.
            warmup_start_handler now req session a))))"

definition warmup_remaining :: "int \<Rightarrow> string \<Rightarrow> app \<Rightarrow> int" where
  "warmup_remaining now sid a =
     (case r_get now (redis_kv a) (unlock_key sid) of Some (RInt unlockAt) \<Rightarrow> unlockAt - now | _ \<Rightarrow> 0)"

definition warmup_complete_handler :: "int \<Rightarrow> request \<Rightarrow> app \<Rightarrow> (exn + string) \<times> app" where
  "warmup_complete_handler now req a =
     (case getChallengeById a (rq_challenge req) of
        None \<Rightarrow> (Inl (createError ''Challenge not found'' 404 None), a)
      | Some challenge \<Rightarrow>
          (case getSession a (sub req) (ch_id challenge) of
             None \<Rightarrow> (Inl (createError ''Session not found'' 404 None), a)
           | Some session \<Rightarrow>
               if gs_user session \<noteq> sub req then (Inl (createError ''Forbidden'' 403 None), a)
               else if \<not> redis_up a then (Inl redis_error, a)
               else if 0 < warmup_remaining now (gs_id session) a
               then (Inl ((createError ''Warm-up minimum not yet elapsed'' 400 (Some ''WARMUP_TOO_FAST''))
                            \<lparr>err_remainingMs := Some (warmup_remaining now (gs_id session) a)\<rparr>), a)
               else
                 and_then (markWarmupCompleted now (gs_id session) a) (\<lambda>_ a.
                   let challengeToken = ''ct:'' @ gs_id session @ '':'' @ string_of_int now
                   in and_then (redis_write (\<lambda>st. r_set_ex now st (ctoken_key challengeToken) (RStr (gs_id session)) 600) a)
                        (\<lambda>_ a. (Inr challengeToken, a)))))"

definition post_warmup_complete :: "int \<Rightarrow> request \<Rightarrow> app \<Rightarrow> (exn + string) \<times> app" where
  "post_warmup_complete now req a =
     and_then (detectClockSkew now req a) (\<lambda>_ a. warmup_complete_handler now req a)"

text \<open>The transactional variant; \<open>locked\<close> says that the row lock timed out.\<close>

definition completeWarmupWithLock ::
  "bool \<Rightarrow> int \<Rightarrow> string \<Rightarrow> string \<Rightarrow> app \<Rightarrow> (exn + game_session) \<times> app" where
  "completeWarmupWithLock locked now uid cid a =
     (if locked
      then (Inl (createError ''Warm-up completion is already in progress'' 409 (Some ''WARMUP_LOCK_TIMEOUT'')), a)
      else case getSession a uid cid of
        None \<Rightarrow> (Inl (createError ''Session not found'' 404 None), a)
      | Some session \<Rightarrow>
          if gs_warmup_completed session \<noteq> None
          then (Inl (createError ''Warm-up already completed'' 409 (Some ''WARMUP_ALREADY_COMPLETED'')), a)
          else if \<not> redis_up a then (Inl redis_error, a)
          else if 0 < warmup_remaining now (gs_id session) a
          then (Inl ((createError ''Warm-up minimum not yet elapsed'' 400 (Some ''WARMUP_TOO_FAST''))
                       \<lparr>err_remainingMs := Some (warmup_remaining now (gs_id session) a)\<rparr>), a)
          else
            case markWarmupCompleted now (gs_id session) a of
              (Inl _, a) \<Rightarrow> (Inl (createError ''Warm-up already completed'' 409 (Some ''WARMUP_ALREADY_COMPLETED'')), a)
            | (Inr _, a) \<Rightarrow> (Inr (session\<lparr>gs_warmup_completed := Some now\<rparr>), a))"

section \<open>Start\<close>

definition start_handler :: "int \<Rightarrow> request \<Rightarrow> app \<Rightarrow> (exn + string \<times> int) \<times> app" where
  "start_handler now req a =
     (case rq_challengeToken req of
        None \<Rightarrow> (Inl zod_error, a)
      | Some challengeToken \<Rightarrow>
          (case getChallengeById a (rq_challenge req) of
             None \<Rightarrow> (Inl (createError ''Challenge not found'' 404 None), a)
           | Some challenge \<Rightarrow>
               if \<not> redis_up a then (Inl redis_error, a)
               else case r_get now (redis_kv a) (ctoken_key challengeToken) of
                 None \<Rightarrow> (Inl (createError ''Invalid or expired challenge token'' 401 None), a)
               | Some stored \<Rightarrow>
                   (case getSession a (sub req) (ch_id challenge) of
                      None \<Rightarrow> (Inl (createError ''Session mismatch'' 403 None), a)
                    | Some session \<Rightarrow>
                        if stored \<noteq> RStr (gs_id session) then (Inl (createError ''Session mismatch'' 403 None), a)
                        else
                          let a1 = markChallengeStarted now (gs_id session) a;
                              a2 = a1\<lparr>users := update_where (\<lambda>u. u_id u = sub req)
                                     (\<lambda>u. u\<lparr>u_last_active_at := Some now\<rparr>) (users a1)\<rparr>
                          in and_then (redis_write (\<lambda>st.
                               let st1 = r_del st (ctoken_key challengeToken);
                                   st2 = r_set_ex now st1 (start_key (gs_id session)) (RInt now) 120
                               in case given (rq_token req) of
                                    None \<Rightarrow> st2
                                  | Some tok \<Rightarrow> r_set_ex now st2 (stoken_key (gs_id session)) (RStr tok) 600) a2)
                             (\<lambda>_ a3. (Inr (gs_id session, now), a3)))))"

definition post_start :: "env \<Rightarrow> bool \<Rightarrow> int \<Rightarrow> request \<Rightarrow> app \<Rightarrow> (exn + string \<times> int) \<times> app" where
  "post_start env limiterAllows now req a =
     and_then (requireActiveUser req a) (\<lambda>_ a.
       if \<not> limiterAllows then (Inl (createError ''Too many challenge attempts'' 429 None), a)
       else
         and_then (requireSessionStartAllowed (e_lockout env) now req a) (\<lambda>listener a.
           case start_handler now req a of
             (Inr x, a1) \<Rightarrow> (Inr x, session_start_finished now listener 200 a1)
           | (Inl e, a1) \<Rightarrow> (Inl e, session_start_finished now listener (fst (resolve_status e)) a1)))"

section \<open>Answers\<close>

record answer_response =
  ar_correct :: bool
  ar_score :: int
  ar_round :: nat
  ar_total :: "int option"
  ar_sessionId :: "string option"

text \<open>\<open>AnswerSchema\<close>: a whole non-negative reaction time and one of the four options or \<open>null\<close>.\<close>

definition parse_answer :: "request \<Rightarrow> exn + choice option \<times> int" where
  "parse_answer req =
     (case (rq_selectedOption req, rq_reactionTimeMs req) of
        (Some selected, Some (Num x)) \<Rightarrow>
          if of_int \<lfloor>x\<rfloor> = x \<and> 0 \<le> x then Inr (selected, \<lfloor>x\<rfloor>) else Inl zod_error
      | _ \<Rightarrow> Inl zod_error)"

definition revokeSessionToken :: "int \<Rightarrow> string \<Rightarrow> string \<Rightarrow> int \<Rightarrow> app \<Rightarrow> (exn + unit) \<times> app" where
  "revokeSessionToken now sid tok expiry a =
     redis_write (\<lambda>st. r_set_ex now (r_del (r_del st (stoken_key sid)) (start_key sid))
                         (tokenRevocationKey tok) (RStr ''1'') (tokenTtlSeconds now expiry)) a"

text \<open>\<open>redis.keys("leaderboard:*")\<close> and the deletion of what it returns.\<close>

definition drop_leaderboard_keys :: "rstore \<Rightarrow> rstore" where
  "drop_leaderboard_keys st = (\<lambda>k. if take 12 k = ''leaderboard:'' then None else st k)"

text \<open>What follows the third round of a competitive session.\<close>

definition after_competitive_finish ::
  "env \<Rightarrow> string \<Rightarrow> int \<Rightarrow> game_session \<Rightarrow> string \<Rightarrow> app \<Rightarrow> (exn + unit) \<times> app" where
  "after_competitive_finish env fresh now completed cname a =
     and_then (updateStreak fresh now (gs_user completed) a) (\<lambda>_ a.
     and_then (checkAndAwardSessionBadges (gs_user completed) (gs_total completed) (gs_practice completed) a) (\<lambda>_ a.
     and_then (redis_write drop_leaderboard_keys a) (\<lambda>_ a.
       (Inr (), notifyOvertakenParticipants (e_noteId env) now (gs_user completed) (gs_challenge completed)
                  (gs_total completed) cname a))))"

definition finish_game ::
  "env \<Rightarrow> string \<Rightarrow> int \<Rightarrow> request \<Rightarrow> game_session \<Rightarrow> string \<Rightarrow> app \<Rightarrow> (exn + string option) \<times> app" where
  "finish_game env fresh now req session cname a =
     and_then (finishSession now (gs_id session) a) (\<lambda>completed a.
       case assertValidTotalScore (Num (of_int (gs_total completed))) of
         Inl e \<Rightarrow> (Inl e, a)
       | Inr _ \<Rightarrow>
           let hmac = computeSessionHmac env (gs_id completed) (gs_total completed)
                 (case gs_completed completed of Some t \<Rightarrow> t | None \<Rightarrow> now);
               a = (if hmac \<noteq> [] then storeSessionHmac (gs_id session) hmac a else a)
           in and_then (if gs_practice completed then (Inr (), a)
                        else after_competitive_finish env fresh now completed cname a) (\<lambda>_ a.
              and_then (case given (rq_token req) of
                          None \<Rightarrow> (Inr (), a)
                        | Some tok \<Rightarrow> revokeSessionToken now (gs_id session) tok (rq_exp req) a) (\<lambda>_ a.
                (Inr (if gs_practice completed then None else Some (gs_id completed)), a))))"

text \<open>The checks of lines 287 to 331: an exception, the replay of a finished third round, or the
  session and question to score.\<close>

datatype answer_plan = Replay answer_response | Score game_session question "choice option" int

definition check_answer :: "nat \<Rightarrow> request \<Rightarrow> app \<Rightarrow> exn + answer_plan" where
  "check_answer rnd req a =
     (if rnd \<notin> {1, 2, 3} then Inl (createError ''Invalid round'' 400 None)
      else case parse_answer req of
        Inl e \<Rightarrow> Inl e
      | Inr (selected, reactionTimeMs) \<Rightarrow>
      (case getChallengeById a (rq_challenge req) of
         None \<Rightarrow> Inl (createError ''Challenge not found'' 404 None)
       | Some challenge \<Rightarrow>
      (case getSession a (sub req) (ch_id challenge) of
         None \<Rightarrow> Inl (createError ''Session not found'' 404 None)
       | Some session \<Rightarrow>
         if gs_user session \<noteq> sub req then Inl (createError ''Forbidden'' 403 None)
         else if gs_started session = None then Inl (createError ''Challenge not started'' 400 None)
         else if gs_completed session \<noteq> None \<and> rnd \<noteq> 3
         then Inl (createError ''Session already completed'' 409 None)
         else if gs_flagged session then Inl (createError ''Session flagged for review'' 403 None)
         else case List.find (\<lambda>q. q_round q = rnd) (getChallengeQuestions a (ch_id challenge)) of
           None \<Rightarrow> Inl (createError ''Question not found'' 404 None)
         | Some question \<Rightarrow>
           if gs_completed session \<noteq> None
           then (if gs_answer session 3 \<noteq> selected
                 then Inl (createError ''Answer conflict detected'' 409 (Some ''CONFLICT_REPLAY''))
                 else Inr (Replay \<lparr>ar_correct = validateAnswer (q_correct question) selected,
                            ar_score = gs_score session 3, ar_round = 3,
                            ar_total = Some (gs_total session), ar_sessionId = None\<rparr>))
           else if gs_answer session rnd \<noteq> None
           then Inl (createError ''Round already answered'' 400 None)
           else Inr (Score session question selected reactionTimeMs))))"

definition answer_handler ::
  "env \<Rightarrow> string \<Rightarrow> int \<Rightarrow> nat \<Rightarrow> string \<Rightarrow> request \<Rightarrow> app \<Rightarrow> (exn + answer_response) \<times> app" where
  "answer_handler env fresh now rnd cname req a =
     (case check_answer rnd req a of
        Inl e \<Rightarrow> (Inl e, a)
      | Inr (Replay response) \<Rightarrow> (Inr response, a)
      | Inr (Score session question selected reactionTimeMs) \<Rightarrow>
          let score = calculateRoundScore selected (q_correct question) reactionTimeMs
          in case validateRoundScore (Num (of_int score)) of
               Invalid code v \<Rightarrow> (Inl (createError ''Round score out of range'' 422 (Some code)), a)
             | Valid \<Rightarrow>
                 and_then (recordRoundScore (gs_id session) rnd score selected (Some reactionTimeMs) a) (\<lambda>_ a.
                 and_then (if rnd = 3 then finish_game env fresh now req session cname a else (Inr None, a)) (\<lambda>shareId a.
                   (Inr \<lparr>ar_correct = validateAnswer (q_correct question) selected, ar_score = score,
                         ar_round = rnd, ar_total = None, ar_sessionId = shareId\<rparr>, a))))"

definition post_answer ::
  "env \<Rightarrow> string \<Rightarrow> int \<Rightarrow> nat \<Rightarrow> string \<Rightarrow> request \<Rightarrow> app \<Rightarrow> (exn + answer_response) \<times> app" where
  "post_answer env fresh now rnd cname req a =
     and_then (validateReactionTime now req a) (\<lambda>_ a. answer_handler env fresh now rnd cname req a)"

end
