(* ===== verification/Session_Machine.thy ===== *)
theory Session_Machine
  imports Session_Routes
begin

text \<open>
  The game as a state machine: the requests of the session router and the background jobs as steps on
  a clock and a state, in any order and for any users, and the invariant of the reachable states. The
  invariant reads four parts of the state (\<open>view\<close>): the sessions, the round scores, the warm-up
  unlock keys and the challenge tokens; middleware that leaves them alone is covered by a frame lemma.
\<close>

section \<open>Frame\<close>

type_synonym gview = "game_session list \<times> round_row list \<times> (string \<Rightarrow> (rval \<times> int option) option) \<times>
  (string \<Rightarrow> (rval \<times> int option) option)"

definition view :: "app \<Rightarrow> gview" where
  "view a = (sessions a, round_scores a, \<lambda>sid. redis_kv a (unlock_key sid), \<lambda>tok. redis_kv a (ctoken_key tok))"

named_theorems frame \<open>middleware that leaves the view of the game alone\<close>

lemma keys_apart [simp]:
  "unlock_key s \<noteq> ctoken_key t" "ctoken_key t \<noteq> unlock_key s"
  "unlock_key s \<noteq> start_key t" "ctoken_key s \<noteq> start_key t"
  "unlock_key s \<noteq> stoken_key t" "ctoken_key s \<noteq> stoken_key t"
  "unlock_key s \<noteq> tokenRevocationKey t" "ctoken_key s \<noteq> tokenRevocationKey t"
  "unlock_key s \<noteq> fp_key t" "ctoken_key s \<noteq> fp_key t"
  "unlock_key s \<noteq> THRESHOLDS_CACHE_KEY" "ctoken_key s \<noteq> THRESHOLDS_CACHE_KEY"
  "unlock_key s \<noteq> sessionStartLockoutKey t" "ctoken_key s \<noteq> sessionStartLockoutKey t"
  "unlock_key s \<noteq> throttleKey t c" "ctoken_key s \<noteq> throttleKey t c"
  by (simp_all add: key_defs fp_key_def THRESHOLDS_CACHE_KEY_def sessionStartLockoutKey_def throttleKey_def)

lemma r_get_Some: "r_get n st k = Some v \<Longrightarrow> \<exists>e. st k = Some (v, e)"
  by (auto simp: r_get_def split: option.splits if_splits prod.splits)

lemma keys_inj [simp]: "unlock_key s = unlock_key t \<longleftrightarrow> s = t" "ctoken_key s = ctoken_key t \<longleftrightarrow> s = t"
  by (simp_all add: key_defs)

lemma view_flag [frame]: "view (recordFraudFlagBestEffort now req t a) = view a"
  by (simp add: view_def)

lemma view_skew [frame]: "view (snd (detectClockSkew now req a)) = view a"
  by (simp add: detectClockSkew_def view_flag split: option.split jsnum.split)

lemma view_thresholds [frame]: "view (snd (getThresholds now a)) = view a"
  by (simp add: getThresholds_def view_def r_set_ex_def Let_def split: option.split rval.split)

lemma view_reaction [frame]: "view (snd (validateReactionTime now req a)) = view a"
  using view_thresholds [of now a]
  by (simp add: validateReactionTime_def view_flag Let_def case_prod_beta split: option.split)

lemma view_fingerprint [frame]: "view (snd (validateDeviceFingerprint sha nip now req a)) = view a"
proof -
  have "view (a\<lparr>redis_kv := r_expire now (r_sadd now (redis_kv a) (fp_key x) u) (fp_key x) s\<rparr>) = view a" for x u s
    by (simp add: view_def r_expire_def r_sadd_def Let_def split: option.split)
  then show ?thesis
    by (simp add: validateDeviceFingerprint_def view_flag Let_def split: option.split)
qed

lemma view_active [frame]: "snd (requireActiveUser req a) = a"
  by (simp add: requireActiveUser_def split: option.split)

lemma view_lockout [frame]: "snd (requireSessionStartAllowed cfg now req a) = a"
  by (simp add: requireSessionStartAllowed_def Let_def case_prod_beta split: option.split)

lemma view_finished [frame]: "view (session_start_finished now l sc a) = view a"
  by (auto simp: session_start_finished_def view_def r_incr_def r_expire_def Let_def
      split: option.split prod.split if_splits)

lemma view_dispatch [frame]: "view (snd (dispatchNotification f u t p a)) = view a"
  by (simp add: view_def dispatch_keeps)

lemma view_streak [frame]: "view (snd (updateStreak f now u a)) = view a"
proof -
  have "view (snd (setUserStreak u s d r b)) = view b" for s d r b
    by (simp add: setUserStreak_def view_def Let_def)
  then show ?thesis
    by (auto simp: updateStreak_def insertStreakMilestoneNotification_def Let_def case_prod_beta view_dispatch
        split: option.split)
qed

lemma view_badges [frame]: "view (snd (checkAndAwardSessionBadges u s p a)) = view a"
  using award_session_badges_only(1) [of u s p a] by (auto simp: view_def)

lemma view_notify_each: "view (notify_each f now cid cn lc us a) = view a"
  by (simp add: view_def notify_each_keeps)

lemma view_overtaken [frame]: "view (notifyOvertakenParticipants f now w c s n a) = view a"
  by (simp add: notifyOvertakenParticipants_def Let_def view_notify_each)

lemma view_drop [frame]: "view (snd (redis_write drop_leaderboard_keys a)) = view a"
  by (simp add: redis_write_def redis_do_def drop_leaderboard_keys_def view_def key_defs)

lemma view_revoke [frame]: "view (snd (revokeSessionToken now sid tok e a)) = view a"
  by (simp add: revokeSessionToken_def redis_write_def redis_do_def view_def r_set_ex_def r_del_def)

lemma view_and_then [frame]:
  assumes "view (snd m) = view a" and "\<And>x s. m = (Inr x, s) \<Longrightarrow> view (snd (f x s)) = view s"
  shows "view (snd (and_then m f)) = view a"
  using assms by (cases m; cases "fst m") auto

lemma view_after_finish [frame]: "view (snd (after_competitive_finish env f now c n a)) = view a"
  unfolding after_competitive_finish_def
  by (intro view_and_then frame) (simp add: frame)

section \<open>The invariant\<close>

text \<open>A session that can still be played, and one whose warm-up took its minimum.\<close>

definition playable :: "game_session \<Rightarrow> bool" where
  "playable r \<longleftrightarrow> gs_completed r = None \<and> \<not> gs_flagged r"

definition warmed :: "game_session \<Rightarrow> bool" where
  "warmed r \<longleftrightarrow> (\<exists>s c. gs_warmup_started r = Some s \<and> gs_warmup_completed r = Some c \<and>
     s + WARMUP_MIN_SECONDS * 1000 \<le> c)"

definition guarded :: "(string \<Rightarrow> (rval \<times> int option) option) \<Rightarrow> game_session \<Rightarrow> bool" where
  "guarded ul r \<longleftrightarrow> (\<exists>s u e. gs_warmup_started r = Some s \<and> ul (gs_id r) = Some (RInt u, Some e) \<and>
     s + WARMUP_MIN_SECONDS * 1000 \<le> u \<and> s + WARMUP_MIN_SECONDS * 1000 \<le> e)"

text \<open>A playable row is open; before its warm-up is completed it is not started and, unless exempt
  (in the middle of \<open>warmup-start\<close>), its unlock key guards it.\<close>

definition row_ok :: "(string \<Rightarrow> (rval \<times> int option) option) \<Rightarrow> string set \<Rightarrow> game_session \<Rightarrow> bool" where
  "row_ok ul X r \<longleftrightarrow>
     (playable r \<longrightarrow> gs_status r \<in> {SWarmup, SActive} \<and>
        (if gs_warmup_completed r = None then gs_started r = None \<and> (gs_id r \<in> X \<or> guarded ul r) else warmed r))"

definition round_sum :: "round_row list \<Rightarrow> string \<Rightarrow> int" where
  "round_sum rr sid = (\<Sum>x\<leftarrow>filter (\<lambda>x. rs_session x = sid) rr. rs_score x)"

definition total_ok :: "round_row list \<Rightarrow> game_session \<Rightarrow> bool" where
  "total_ok rr r \<longleftrightarrow> gs_total r = 0 \<or> (gs_completed r \<noteq> None \<and> gs_total r = round_sum rr (gs_id r))"

definition row_inv :: "int \<Rightarrow> string set \<Rightarrow> (string \<Rightarrow> (rval \<times> int option) option) \<Rightarrow> round_row list \<Rightarrow> game_session \<Rightarrow> bool" where
  "row_inv t X ul rr r \<longleftrightarrow>
     row_ok ul X r \<and> total_ok rr r \<and> (\<forall>s. gs_warmup_started r = Some s \<longrightarrow> s \<le> t)"

definition slot :: "game_session \<Rightarrow> string \<times> string" where
  "slot r = (gs_user r, gs_challenge r)"

definition round_ok :: "game_session list \<Rightarrow> round_row \<Rightarrow> bool" where
  "round_ok ss x \<longleftrightarrow> rs_round x \<in> {1, 2, 3} \<and> 0 \<le> rs_score x \<and> rs_score x \<le> MAX_ROUND_SCORE \<and>
     (\<exists>r \<in> set ss. gs_id r = rs_session x \<and> warmed r)"

definition token_ok :: "game_session list \<Rightarrow> (string \<Rightarrow> (rval \<times> int option) option) \<Rightarrow> bool" where
  "token_ok ss ct \<longleftrightarrow> (\<forall>tok sid e. ct tok = Some (RStr sid, e) \<longrightarrow>
     (\<forall>r \<in> set ss. gs_id r = sid \<longrightarrow> gs_warmup_completed r \<noteq> None))"

definition game_inv :: "int \<Rightarrow> string set \<Rightarrow> gview \<Rightarrow> bool" where
  "game_inv t X v \<longleftrightarrow>
     (case v of (ss, rr, ul, ct) \<Rightarrow>
        unique_by gs_id ss \<and> unique_by slot ss \<and> unique_by (\<lambda>x. (rs_session x, rs_round x)) rr \<and>
        (\<forall>r \<in> set ss. row_inv t X ul rr r) \<and> (\<forall>x \<in> set rr. round_ok ss x) \<and> token_ok ss ct)"

section \<open>Preservation by the statements\<close>

lemma same_slot_iff: "same_slot u c r \<longleftrightarrow> slot r = (u, c)"
  by (auto simp: same_slot_def slot_def)

lemma slot_new [simp]: "slot (new_session f u c d p v ti n) = (u, c)"
  by (simp add: slot_def new_session_def)

text \<open>An update of rows that keeps identity, slot and a finished warm-up.\<close>

definition keeps_row :: "game_session \<Rightarrow> game_session \<Rightarrow> bool" where
  "keeps_row r r' \<longleftrightarrow> gs_id r' = gs_id r \<and> slot r' = slot r \<and> (warmed r \<longrightarrow> warmed r') \<and>
     (gs_warmup_completed r \<noteq> None \<longrightarrow> gs_warmup_completed r' \<noteq> None)"

lemma inv_update:
  assumes inv: "game_inv t X (ss, rr, ul, ct)"
    and keep: "\<And>r. P r \<Longrightarrow> keeps_row r (f r)"
    and row: "\<And>r. r \<in> set ss \<Longrightarrow> row_inv t X ul rr r \<Longrightarrow> row_inv t' Y ul' rr' (if P r then f r else r)"
    and rr': "unique_by (\<lambda>x. (rs_session x, rs_round x)) rr'"
      "\<And>x. x \<in> set rr' \<Longrightarrow> x \<in> set rr \<or> round_ok (update_where P f ss) x"
    and ct': "token_ok (update_where P f ss) ct'"
  shows "game_inv t' Y (update_where P f ss, rr', ul', ct')"
proof -
  have ids: "unique_by gs_id (update_where P f ss)" "unique_by slot (update_where P f ss)"
    using inv keep by (simp_all add: game_inv_def unique_by_update keeps_row_def)
  have rows: "\<forall>r \<in> set (update_where P f ss). row_inv t' Y ul' rr' r"
    using inv row unfolding game_inv_def update_where_def set_map by blast
  have "round_ok (update_where P f ss) x" if "x \<in> set rr" for x
  proof -
    have o: "round_ok ss x" using inv that by (simp add: game_inv_def)
    then obtain r where r: "r \<in> set ss" "gs_id r = rs_session x" "warmed r"
      by (auto simp: round_ok_def)
    have "(if P r then f r else r) \<in> set (update_where P f ss)" using r(1) by (auto simp: update_where_def)
    moreover have "gs_id (if P r then f r else r) = rs_session x" "warmed (if P r then f r else r)"
      using keep [of r] r by (auto simp: keeps_row_def)
    ultimately show ?thesis using o by (auto simp: round_ok_def)
  qed
  then show ?thesis using ids rows rr' ct' by (auto simp: game_inv_def)
qed

lemma token_ok_update:
  assumes "token_ok ss ct" and "\<And>r. P r \<Longrightarrow> keeps_row r (f r)"
  shows "token_ok (update_where P f ss) ct"
  using assms by (fastforce simp: token_ok_def keeps_row_def elim!: in_update_whereE)

text \<open>The common case: only the session rows change.\<close>

lemma inv_update_rows:
  assumes "game_inv t X (view a)" and "\<And>r. P r \<Longrightarrow> keeps_row r (f r)"
    and "\<And>r ul rr. r \<in> set (sessions a) \<Longrightarrow> row_inv t X ul rr r \<Longrightarrow> row_inv t X ul rr (if P r then f r else r)"
  shows "game_inv t X (view (a\<lparr>sessions := update_where P f (sessions a)\<rparr>))"
proof -
  have "game_inv t X (sessions a, round_scores a, \<lambda>sid. redis_kv a (unlock_key sid), \<lambda>tok. redis_kv a (ctoken_key tok))"
    using assms(1) by (simp add: view_def)
  then show ?thesis
    unfolding view_def using assms(2,3)
    by (simp, intro inv_update) (auto simp: game_inv_def intro!: token_ok_update)
qed

lemma inv_time: "game_inv t X v \<Longrightarrow> t \<le> t' \<Longrightarrow> game_inv t' X v"
  by (cases v) (force simp: game_inv_def row_inv_def)

lemma inv_exempt: "game_inv t X v \<Longrightarrow> X \<subseteq> Y \<Longrightarrow> game_inv t Y v"
  by (cases v) (force simp: game_inv_def row_inv_def row_ok_def)

lemma inv_delete:
  assumes "game_inv t X (view a)"
  shows "game_inv t X (view (delete_sessions P a))"
proof -
  let ?ss = "delete_where P (sessions a)"
  let ?D = "\<lambda>x. \<exists>r \<in> set (sessions a). P r \<and> gs_id r = rs_session x"
  have uid: "unique_by gs_id (sessions a)" using assms by (simp add: game_inv_def view_def)
  have keep: "filter (\<lambda>x. rs_session x = gs_id r) (delete_where ?D (round_scores a)) =
      filter (\<lambda>x. rs_session x = gs_id r) (round_scores a)" if "r \<in> set ?ss" for r
  proof -
    have "\<not> ?D x" if "rs_session x = gs_id r" for x
      using that \<open>r \<in> set ?ss\<close> unique_byD [OF uid] by (auto simp: set_delete_where)
    then show ?thesis by (auto simp: delete_where_def intro: filter_cong)
  qed
  have rows: "row_inv t X ul (delete_where ?D (round_scores a)) r"
    if "r \<in> set ?ss" "row_inv t X ul (round_scores a) r" for r ul
    using that keep by (simp add: row_inv_def total_ok_def round_sum_def)
  have rounds: "round_ok ?ss x" if "x \<in> set (delete_where ?D (round_scores a))" "round_ok (sessions a) x" for x
    using that by (auto simp: round_ok_def set_delete_where)
  have tok: "token_ok ?ss ct" if "token_ok (sessions a) ct" for ct
    using that by (auto simp: token_ok_def set_delete_where)
  show ?thesis
    using assms rows rounds tok
    by (auto simp: view_def game_inv_def delete_sessions_def unique_by_delete set_delete_where)
qed

definition fresh_id :: "string \<Rightarrow> gview \<Rightarrow> bool" where
  "fresh_id f v \<longleftrightarrow> (case v of (ss, rr, ul, ct) \<Rightarrow>
     f \<notin> gs_id ` set ss \<and> f \<notin> rs_session ` set rr \<and> (\<forall>tok e. ct tok \<noteq> Some (RStr f, e)))"

lemma inv_insert:
  assumes "game_inv t X (view a)" and "fresh_id f (view a)" and "getSession a u c = None"
  shows "game_inv t (insert f X) (view (a\<lparr>sessions := sessions a @ [new_session f u c d p vi ti n]\<rparr>))"
proof -
  have ids: "unique_by gs_id (sessions a @ [new_session f u c d p vi ti n])"
    using assms by (auto simp: unique_by_snoc game_inv_def view_def fresh_id_def find_row_None new_session_def)
  have slots: "unique_by slot (sessions a @ [new_session f u c d p vi ti n])"
    using assms by (auto simp: unique_by_snoc game_inv_def view_def getSession_def find_row_None same_slot_iff)
  have new: "row_inv t (insert f X) ul rr (new_session f u c d p vi ti n)" for ul rr
    by (simp add: row_inv_def row_ok_def total_ok_def new_session_def)
  have old: "row_inv t X ul rr r \<Longrightarrow> row_inv t (insert f X) ul rr r" for ul rr r
    by (auto simp: row_inv_def row_ok_def)
  show ?thesis
    using assms(1,2) ids slots new old
    by (auto simp: game_inv_def view_def round_ok_def token_ok_def fresh_id_def new_session_def)
qed

lemma inv_row: "game_inv t X (view a) \<Longrightarrow> r \<in> set (sessions a) \<Longrightarrow>
    row_inv t X (\<lambda>sid. redis_kv a (unlock_key sid)) (round_scores a) r"
  by (simp add: game_inv_def view_def)

lemma inv_ids: "game_inv t X (view a) \<Longrightarrow> unique_by gs_id (sessions a)"
  by (simp add: game_inv_def view_def)

lemmas row_defs = row_inv_def row_ok_def total_ok_def playable_def warmed_def guarded_def

lemma inv_markWarmupStarted:
  assumes "game_inv t X (view a)"
  shows "game_inv t X (view (markWarmupStarted t sid a))"
  unfolding markWarmupStarted_def
  by (rule inv_update_rows [OF assms])
    (auto simp: keeps_row_def slot_def row_defs split: option.split)

lemma inv_unlock:
  assumes "game_inv t X (view a)" and "\<And>r. r \<in> set (sessions a) \<Longrightarrow> gs_id r = sid \<Longrightarrow> gs_warmup_started r \<noteq> None"
  shows "game_inv t (X - {sid})
    (view (a\<lparr>redis_kv := r_set_ex t (redis_kv a) (unlock_key sid) (RInt (t + WARMUP_MIN_SECONDS * 1000)) 300\<rparr>))"
proof -
  let ?ul = "\<lambda>s. redis_kv a (unlock_key s)"
  let ?ul' = "?ul(sid \<mapsto> (RInt (t + WARMUP_MIN_SECONDS * 1000), Some (t + 300 * 1000)))"
  have v: "view (a\<lparr>redis_kv := r_set_ex t (redis_kv a) (unlock_key sid) (RInt (t + WARMUP_MIN_SECONDS * 1000)) 300\<rparr>) =
    (sessions a, round_scores a, ?ul', \<lambda>tok. redis_kv a (ctoken_key tok))"
    by (auto simp: view_def r_set_ex_def)
  have "row_inv t (X - {sid}) ?ul' (round_scores a) r" if "r \<in> set (sessions a)" for r
    using inv_row [OF assms(1) that] assms(2) [OF that]
    by (cases "gs_id r = sid") (auto simp: row_defs WARMUP_MIN_SECONDS_def)
  then show ?thesis using assms(1) unfolding v by (simp add: game_inv_def view_def)
qed

lemma inv_errorHandler:
  assumes "game_inv t X (view a)"
  shows "game_inv t (X - {sid}) (view (errorHandler_session t sid a))"
proof -
  have "game_inv t (X - {sid}) (update_where (\<lambda>r. gs_id r = sid \<and> gs_status r \<in> {SWarmup, SActive})
      (abandon_row t AError) (sessions a), round_scores a, \<lambda>s. redis_kv a (unlock_key s), \<lambda>tok. redis_kv a (ctoken_key tok))"
    using assms unfolding view_def
    by (rule inv_update)
      (use assms in \<open>auto simp: keeps_row_def slot_def abandon_row_def row_defs game_inv_def view_def
        intro!: token_ok_update split: option.split\<close>)
  then show ?thesis by (simp add: errorHandler_session_def view_def)
qed

lemma enforce_cases:
  assumes "game_inv t {} (view a)" and "fresh_id f (view a)"
  shows "case enforceOneSessionPerChallenge f rnd n req a of
      (Inl e, a') \<Rightarrow> game_inv t {} (view a')
    | (Inr s, a') \<Rightarrow> game_inv t {gs_id s} (view a') \<and> s \<in> set (sessions a') \<and>
        gs_user s = sub req \<and> gs_challenge s = rq_challenge req \<and> gs_status s \<noteq> SAbandoned"
proof -
  obtain vi ti where opt: "session_options rnd req a = (vi, ti)" by fastforce
  let ?u = "sub req" and ?c = "rq_challenge req"
  let ?d = "case rq_device req of Some d \<Rightarrow> Some d | None \<Rightarrow> rq_visitor req"
  let ?new = "new_session f ?u ?c ?d (rq_isPractice req) vi ti n"
  consider (tier) "given (rq_tier req) \<noteq> None" "ti = None"
    | (none) "\<not> (given (rq_tier req) \<noteq> None \<and> ti = None)" "getSession a ?u ?c = None"
    | (some) r where "\<not> (given (rq_tier req) \<noteq> None \<and> ti = None)" "getSession a ?u ?c = Some r"
    by (cases "getSession a ?u ?c") blast+
  then show ?thesis
  proof cases
    case tier
    then show ?thesis using opt assms by (simp add: enforceOneSessionPerChallenge_def)
  next
    case none
    have "game_inv t (insert f {}) (view (a\<lparr>sessions := sessions a @ [?new]\<rparr>))"
      by (rule inv_insert [OF assms none(2)])
    moreover have "enforceOneSessionPerChallenge f rnd n req a = (Inr ?new, a\<lparr>sessions := sessions a @ [?new]\<rparr>)"
      using none opt by (simp add: enforceOneSessionPerChallenge_def claimSession_def Let_def)
    ultimately show ?thesis by (simp add: new_session_def)
  next
    case some
    have r: "r \<in> set (sessions a)" "slot r = (?u, ?c)"
      using some(2) by (auto simp: getSession_def same_slot_iff dest: find_row_Some)
    show ?thesis
    proof (cases "gs_status r = SAbandoned")
      case False
      then have "enforceOneSessionPerChallenge f rnd n req a = (Inr r, a)"
        using some opt by (simp add: enforceOneSessionPerChallenge_def claimSession_def Let_def)
      then show ?thesis using r False inv_exempt [OF assms(1)] by (auto simp: slot_def)
    next
      case True
      let ?P = "\<lambda>r. same_slot ?u ?c r \<and> gs_status r = SAbandoned"
      let ?b = "delete_sessions ?P a"
      have uniq: "unique_by slot (sessions a)" using assms(1) by (simp add: game_inv_def view_def)
      have "x = r" if "x \<in> set (sessions a)" "same_slot ?u ?c x" for x
        using unique_byD [OF uniq that(1) r(1)] that(2) r(2) by (simp add: same_slot_iff)
      then have gone: "getSession ?b ?u ?c = None"
        using True by (auto simp: getSession_def find_row_None delete_sessions_def set_delete_where)
      have fr: "fresh_id f (view ?b)" using assms(2) by (auto simp: fresh_id_def view_def delete_sessions_def set_delete_where)
      have "game_inv t (insert f {}) (view (?b\<lparr>sessions := sessions ?b @ [?new]\<rparr>))"
        by (rule inv_insert [OF inv_delete [OF assms(1)] fr gone])
      moreover have "count_where ?P (sessions a) \<noteq> 0"
        using r True by (auto simp: count_where_def same_slot_iff filter_empty_conv)
      then have "enforceOneSessionPerChallenge f rnd n req a = (Inr ?new, ?b\<lparr>sessions := sessions ?b @ [?new]\<rparr>)"
        using some opt True gone
        by (simp add: enforceOneSessionPerChallenge_def claimSession_def replaceAbandoned_def Let_def)
      ultimately show ?thesis by (simp add: new_session_def)
    qed
  qed
qed

text \<open>The warm-up start route: the session it works on is exempt until the unlock key is set, or the
  error handler has closed it.\<close>

lemma inv_post_warmup_start:
  assumes "game_inv t {} (view a)" and "fresh_id f (view a)"
  shows "game_inv t {} (view (snd (post_warmup_start env f rnd t req a)))"
proof -
  have handler: "game_inv t {} (view (snd (on_error (errorHandler_session t (gs_id s))
      (and_then (validateDeviceFingerprint (e_sha256 env) (e_normalizeClientIp env) t req b)
        (\<lambda>_ b. warmup_start_handler t req s b)))))" if inv: "game_inv t {gs_id s} (view b)" for s b
  proof -
    have close: "game_inv t {} (view (errorHandler_session t (gs_id s) c))" if "game_inv t {gs_id s} (view c)" for c
      using inv_errorHandler [OF that, of "gs_id s"] by simp
    have body: "case warmup_start_handler t req s c of
        (Inl e, d) \<Rightarrow> game_inv t {gs_id s} (view d) | (Inr x, d) \<Rightarrow> game_inv t {} (view d)"
      if c: "game_inv t {gs_id s} (view c)" for c
    proof -
      let ?m = "markWarmupStarted t (gs_id s) c"
      have m: "game_inv t {gs_id s} (view ?m)" using inv_markWarmupStarted [OF c] .
      have st: "gs_warmup_started r \<noteq> None" if "r \<in> set (sessions ?m)" "gs_id r = gs_id s" for r
        using that by (auto simp: markWarmupStarted_def elim!: in_update_whereE split: option.splits)
      show ?thesis
        using c m inv_unlock [of t "{gs_id s}" ?m "gs_id s", OF m] st
        by (auto simp: warmup_start_handler_def redis_write_def redis_do_def Let_def split: option.split)
    qed
    obtain x c where v: "validateDeviceFingerprint (e_sha256 env) (e_normalizeClientIp env) t req b = (x, c)"
      by fastforce
    have c: "game_inv t {gs_id s} (view c)"
      using inv view_fingerprint [of "e_sha256 env" "e_normalizeClientIp env" t req b] v by simp
    show ?thesis
      using v close [OF c] body [OF c] close
      by (cases x; cases "warmup_start_handler t req s c"; cases "fst (warmup_start_handler t req s c)") auto
  qed
  show ?thesis
    unfolding post_warmup_start_def
    using assms(1) enforce_cases [OF assms, of req rnd t] view_active [of req a]
    by (cases "requireActiveUser req a"; cases "fst (requireActiveUser req a)";
        cases "enforceOneSessionPerChallenge f rnd t req a"; cases "fst (enforceOneSessionPerChallenge f rnd t req a)")
      (auto simp: handler)
qed

text \<open>Completing the warm-up after the unlock time.\<close>

lemma inv_markWarmupCompleted:
  assumes "game_inv t {} (view a)" and "warmup_remaining t sid a \<le> 0"
  shows "game_inv t {} (view (snd (markWarmupCompleted t sid a)))"
proof -
  have elapsed: "s + WARMUP_MIN_SECONDS * 1000 \<le> t"
    if "redis_kv a (unlock_key sid) = Some (RInt u, Some e)" "s + WARMUP_MIN_SECONDS * 1000 \<le> u"
      "s + WARMUP_MIN_SECONDS * 1000 \<le> e" for s u e
    using assms(2) that by (auto simp: warmup_remaining_def r_get_def split: if_splits)
  let ?P = "\<lambda>r. gs_id r = sid \<and> gs_warmup_completed r = None"
  let ?f = "\<lambda>r. r\<lparr>gs_warmup_completed := Some t\<rparr>"
  let ?ul = "\<lambda>s. redis_kv a (unlock_key s)"
  have row: "row_inv t {} ?ul (round_scores a) (if ?P r then ?f r else r)"
    if "row_inv t {} ?ul (round_scores a) r" for r
  proof (cases "?P r")
    case True
    then show ?thesis using that elapsed by (auto simp: row_defs)
  next
    case False
    then show ?thesis using that by (simp only: if_False)
  qed
  have "game_inv t {} (update_where ?P ?f (sessions a), round_scores a, ?ul, \<lambda>tok. redis_kv a (ctoken_key tok))"
    using assms(1) unfolding view_def
    by (rule inv_update)
      (use assms(1) row in \<open>auto simp: keeps_row_def slot_def warmed_def game_inv_def view_def intro!: token_ok_update\<close>)
  then show ?thesis using assms(1) by (auto simp: markWarmupCompleted_def Let_def view_def)
qed

lemma markWarmupCompleted_done:
  assumes "markWarmupCompleted t sid a = (Inr (), b)" and "r \<in> set (sessions b)" and "gs_id r = sid"
  shows "gs_warmup_completed r \<noteq> None"
proof -
  have "b = a\<lparr>sessions := update_where (\<lambda>r. gs_id r = sid \<and> gs_warmup_completed r = None)
      (\<lambda>r. r\<lparr>gs_warmup_completed := Some t\<rparr>) (sessions a)\<rparr>"
    using assms(1) by (simp add: markWarmupCompleted_def Let_def split: if_splits)
  with assms(2) have "r \<in> set (update_where (\<lambda>r. gs_id r = sid \<and> gs_warmup_completed r = None)
      (\<lambda>r. r\<lparr>gs_warmup_completed := Some t\<rparr>) (sessions a))" by simp
  then show ?thesis by (rule in_update_whereE) (use assms(3) in simp_all)
qed

lemma inv_token:
  assumes "game_inv t X (view a)"
    and "\<And>r. r \<in> set (sessions a) \<Longrightarrow> gs_id r = sid \<Longrightarrow> gs_warmup_completed r \<noteq> None"
  shows "game_inv t X (view (a\<lparr>redis_kv := r_set_ex n (redis_kv a) (ctoken_key tok) (RStr sid) e\<rparr>))"
  using assms by (auto simp: game_inv_def view_def r_set_ex_def token_ok_def)

lemma inv_post_warmup_complete:
  assumes "game_inv t {} (view a)"
  shows "game_inv t {} (view (snd (post_warmup_complete t req a)))"
proof -
  have handler: "game_inv t {} (view (snd (warmup_complete_handler t req b)))" if b: "game_inv t {} (view b)" for b
  proof -
    have "game_inv t {} (view (snd (and_then (markWarmupCompleted t sid b) (\<lambda>_ c.
        and_then (redis_write (\<lambda>st. r_set_ex t st (ctoken_key tok) (RStr sid) 600) c) (\<lambda>_ c. (Inr tok, c))))))"
      if "warmup_remaining t sid b \<le> 0" for sid tok
    proof (cases "markWarmupCompleted t sid b")
      case (Pair x c)
      have c: "game_inv t {} (view c)" using inv_markWarmupCompleted [OF b that] Pair by simp
      have done_: "gs_warmup_completed r \<noteq> None" if "x = Inr ()" "r \<in> set (sessions c)" "gs_id r = sid" for r
        using markWarmupCompleted_done Pair that by blast
      show ?thesis
        using Pair c inv_token [OF c, of sid] done_
        by (cases x) (auto simp: redis_write_def redis_do_def)
    qed
    then show ?thesis using b by (auto simp: warmup_complete_handler_def Let_def split: option.split)
  qed
  show ?thesis
    unfolding post_warmup_complete_def
    using assms view_skew [of t req a] handler
    by (cases "detectClockSkew t req a"; cases "fst (detectClockSkew t req a)") auto
qed

lemma inv_completeWarmupWithLock:
  assumes "game_inv t {} (view a)"
  shows "game_inv t {} (view (snd (completeWarmupWithLock locked t u c a)))"
proof -
  have "game_inv t {} (view (snd (case markWarmupCompleted t (gs_id s) a of
      (Inl _, a) \<Rightarrow> (Inl (createError ''Warm-up already completed'' 409 (Some ''WARMUP_ALREADY_COMPLETED'')), a)
    | (Inr _, a) \<Rightarrow> (Inr (s\<lparr>gs_warmup_completed := Some t\<rparr>), a))))"
    if "\<not> 0 < warmup_remaining t (gs_id s) a" for s
    using inv_markWarmupCompleted [OF assms, of "gs_id s"] that
    by (auto split: prod.split sum.split)
  then show ?thesis using assms by (auto simp: completeWarmupWithLock_def split: option.split)
qed

section \<open>Starting, answering, closing\<close>

lemma inv_sub_keys:
  assumes "game_inv t X (view a)"
    and "sessions b = sessions a" "round_scores b = round_scores a"
    and "\<And>sid. redis_kv b (unlock_key sid) = redis_kv a (unlock_key sid)"
    and "\<And>tok sid e. redis_kv b (ctoken_key tok) = Some (RStr sid, e) \<Longrightarrow> redis_kv a (ctoken_key tok) = Some (RStr sid, e)"
  shows "game_inv t X (view b)"
proof -
  have "token_ok (sessions b) (\<lambda>tok. redis_kv b (ctoken_key tok))"
    using assms(1) assms(5) unfolding assms(2) game_inv_def view_def token_ok_def prod.case by blast
  with assms(1-4) show ?thesis by (simp add: game_inv_def view_def)
qed

lemma inv_markChallengeStarted:
  assumes "game_inv t X (view a)"
    and "\<And>r. r \<in> set (sessions a) \<Longrightarrow> gs_id r = sid \<Longrightarrow> gs_warmup_completed r \<noteq> None"
  shows "game_inv t X (view (markChallengeStarted n sid a))"
proof -
  let ?f = "\<lambda>r. r\<lparr>gs_started := (case gs_started r of None \<Rightarrow> Some n | x \<Rightarrow> x), gs_status := SActive\<rparr>"
  have "row_inv t X ul rr (if gs_id r = sid then ?f r else r)"
    if "r \<in> set (sessions a)" "row_inv t X ul rr r" for r ul rr
  proof (cases "gs_id r = sid")
    case True
    with that assms(2) [OF that(1) True] show ?thesis by (auto simp: row_defs split: option.split)
  next
    case False
    with that show ?thesis by (simp only: if_False)
  qed
  then show ?thesis
    unfolding markChallengeStarted_def
    by (intro inv_update_rows [OF assms(1)]) (auto simp: keeps_row_def slot_def warmed_def)
qed

lemma inv_start_handler:
  assumes "game_inv t {} (view a)"
  shows "game_inv t {} (view (snd (start_handler n req a)))"
proof -
  have step: "game_inv t {} (view (snd (and_then (redis_write (\<lambda>st.
       let st1 = r_del st (ctoken_key tok);
           st2 = r_set_ex n st1 (start_key (gs_id s)) (RInt n) 120
       in case given (rq_token req) of None \<Rightarrow> st2
          | Some tk \<Rightarrow> r_set_ex n st2 (stoken_key (gs_id s)) (RStr tk) 600)
     ((markChallengeStarted n (gs_id s) a)\<lparr>users := us\<rparr>))
     (\<lambda>_ c. (Inr (gs_id s, n), c)))))"
    if stored: "r_get n (redis_kv a) (ctoken_key tok) = Some (RStr (gs_id s))" for s tok us
  proof -
    obtain e where "redis_kv a (ctoken_key tok) = Some (RStr (gs_id s), e)"
      using r_get_Some [OF stored] by blast
    then have "gs_warmup_completed r \<noteq> None" if "r \<in> set (sessions a)" "gs_id r = gs_id s" for r
      using assms that unfolding game_inv_def view_def token_ok_def prod.case by blast
    then have m: "game_inv t {} (view (markChallengeStarted n (gs_id s) a))"
      using inv_markChallengeStarted [OF assms] by blast
    show ?thesis
      by (rule inv_sub_keys [OF m])
        (auto simp: redis_write_def redis_do_def r_set_ex_def r_del_def Let_def split: option.splits if_splits)
  qed
  then show ?thesis
    using assms by (auto simp: start_handler_def Let_def split: option.split)
qed

lemma inv_post_start:
  assumes "game_inv t {} (view a)"
  shows "game_inv t {} (view (snd (post_start env ok n req a)))"
  using assms inv_start_handler [OF assms, of n req] view_active [of req a] view_lockout [of "e_lockout env" n req a]
  by (cases "requireActiveUser req a"; cases "fst (requireActiveUser req a)";
      cases "requireSessionStartAllowed (e_lockout env) n req a";
      cases "fst (requireSessionStartAllowed (e_lockout env) n req a)";
      cases "start_handler n req a"; cases "fst (start_handler n req a)")
    (auto simp: post_start_def view_finished)

text \<open>The sum of a session's rounds stays in the table's range.\<close>

lemma round_sum_range:
  assumes "unique_by (\<lambda>x. (rs_session x, rs_round x)) rr"
    and "\<And>x. x \<in> set rr \<Longrightarrow> rs_round x \<in> {1, 2, 3} \<and> 0 \<le> rs_score x \<and> rs_score x \<le> MAX_ROUND_SCORE"
  shows "0 \<le> round_sum rr sid \<and> round_sum rr sid \<le> MAX_TOTAL_SCORE"
proof -
  let ?f = "filter (\<lambda>x. rs_session x = sid) rr"
  have "distinct (map rs_round ?f)"
    using assms(1)
  proof (induction rr)
    case (Cons x rr)
    then show ?case by (auto simp: unique_by_def image_iff)
  qed simp
  moreover have "set (map rs_round ?f) \<subseteq> {1, 2, 3}" using assms(2) by auto
  ultimately have "length (map rs_round ?f) \<le> card {1, 2, 3::nat}"
    by (metis card_mono distinct_card finite.emptyI finite.insertI)
  then have len: "length ?f \<le> 3" by simp
  have sum: "(\<Sum>x\<leftarrow>ys. rs_score x) \<le> 150 * int (length ys)"
    if "\<And>x. x \<in> set ys \<Longrightarrow> rs_score x \<le> 150" for ys
    using that by (induction ys) (auto simp: algebra_simps, fastforce)
  have "round_sum rr sid \<le> 150 * int (length ?f)"
    unfolding round_sum_def using assms(2) by (intro sum) (auto simp: score_consts)
  moreover have "0 \<le> round_sum rr sid" unfolding round_sum_def using assms(2) by (intro sum_list_nonneg_int) auto
  ultimately show ?thesis using len by (auto simp: score_consts)
qed

lemma upsert_unique:
  assumes "unique_by (\<lambda>x. (rs_session x, rs_round x)) rr"
  shows "unique_by (\<lambda>x. (rs_session x, rs_round x)) (upsert_round y rr)"
  using assms by (simp add: upsert_round_def unique_by_snoc) (subst unique_by_update; simp)

lemma set_upsert: "set (upsert_round y rr) \<subseteq> insert y (set rr)"
  by (auto simp: upsert_round_def update_where_def)

lemma round_sum_upsert_other: "sid \<noteq> rs_session y \<Longrightarrow> round_sum (upsert_round y rr) sid = round_sum rr sid"
proof -
  assume "sid \<noteq> rs_session y"
  then have "filter (\<lambda>x. rs_session x = sid) (update_where (\<lambda>r. rs_session r = rs_session y \<and> rs_round r = rs_round y)
      (\<lambda>_. y) rr) = filter (\<lambda>x. rs_session x = sid) rr"
    by (induction rr) (auto simp: update_where_def)
  with \<open>sid \<noteq> rs_session y\<close> show ?thesis by (simp add: round_sum_def upsert_round_def)
qed

lemma inv_recordRoundScore:
  assumes inv: "game_inv t {} (view a)"
    and r0: "r0 \<in> set (sessions a)" "gs_id r0 = sid" "gs_completed r0 = None" "\<not> gs_flagged r0" "gs_started r0 \<noteq> None"
    and sc: "0 \<le> sc" "sc \<le> MAX_ROUND_SCORE"
  shows "game_inv t {} (view (snd (recordRoundScore sid k sc ans rt a)))"
proof (cases "k \<in> {1, 2, 3}")
  case k: True
  let ?y = "\<lparr>rs_session = sid, rs_round = k, rs_score = sc, rs_answer = ans, rs_reaction = rt\<rparr>"
  let ?P = "\<lambda>r. gs_id r = sid"
  let ?f = "\<lambda>r. r\<lparr>gs_score := (gs_score r)(k := sc), gs_answer := (gs_answer r)(k := ans),
    gs_reaction := (gs_reaction r)(k := rt)\<rparr>"
  let ?ul = "\<lambda>s. redis_kv a (unlock_key s)"
  have only: "r = r0" if "r \<in> set (sessions a)" "gs_id r = sid" for r
    using unique_byD [OF inv_ids [OF inv]] that r0(1,2) by blast
  have w0: "warmed r0" using inv_row [OF inv r0(1)] r0 by (auto simp: row_inv_def row_ok_def playable_def split: if_splits)
  have row: "row_inv t {} ?ul (upsert_round ?y (round_scores a)) (if ?P r then ?f r else r)"
    if "r \<in> set (sessions a)" "row_inv t {} ?ul (round_scores a) r" for r
  proof (cases "?P r")
    case True
    then have "r = r0" using only that(1) by blast
    with that(2) True r0(3) show ?thesis by (auto simp: row_defs)
  next
    case False
    then have "round_sum (upsert_round ?y (round_scores a)) (gs_id r) = round_sum (round_scores a) (gs_id r)"
      by (simp add: round_sum_upsert_other)
    with that(2) have "row_inv t {} ?ul (upsert_round ?y (round_scores a)) r" by (simp add: row_inv_def total_ok_def)
    with False show ?thesis by (simp only: if_False)
  qed
  have mem: "?f r0 \<in> set (update_where ?P ?f (sessions a))" using r0 by (force simp: update_where_def)
  have new: "round_ok (update_where ?P ?f (sessions a)) ?y"
  proof -
    have "gs_id (?f r0) = rs_session ?y" "warmed (?f r0)" using w0 r0(2) by (simp_all add: warmed_def)
    with mem have "\<exists>r \<in> set (update_where ?P ?f (sessions a)). gs_id r = rs_session ?y \<and> warmed r" by blast
    with k sc show ?thesis by (simp add: round_ok_def)
  qed
  have "game_inv t {} (update_where ?P ?f (sessions a), upsert_round ?y (round_scores a), ?ul, \<lambda>tok. redis_kv a (ctoken_key tok))"
    using inv unfolding view_def
  proof (rule inv_update)
    show "keeps_row r (?f r)" for r by (simp add: keeps_row_def slot_def warmed_def)
    then show "token_ok (update_where ?P ?f (sessions a)) (\<lambda>tok. redis_kv a (ctoken_key tok))"
      using inv by (intro token_ok_update) (simp_all add: game_inv_def view_def)
    show "unique_by (\<lambda>x. (rs_session x, rs_round x)) (upsert_round ?y (round_scores a))"
      using inv by (intro upsert_unique) (simp add: game_inv_def view_def)
    show "x \<in> set (round_scores a) \<or> round_ok (update_where ?P ?f (sessions a)) x"
      if "x \<in> set (upsert_round ?y (round_scores a))" for x
      using that new set_upsert [of ?y "round_scores a"] by blast
  qed (fact row)
  then show ?thesis using k by (simp add: recordRoundScore_def view_def)
next
  case False
  then show ?thesis using inv by (simp add: recordRoundScore_def)
qed

text \<open>The total the transaction writes is in range, so it never aborts on the check constraint.\<close>

lemma finishSession_ok:
  assumes inv: "game_inv t X (view a)" and r0: "r0 \<in> set (sessions a)" "gs_completed r0 = None"
  shows "finishSession n (gs_id r0) a =
    (Inr (r0\<lparr>gs_completed := Some n, gs_status := SCompleted, gs_total := round_sum (round_scores a) (gs_id r0)\<rparr>),
     a\<lparr>sessions := update_where (\<lambda>r. gs_id r = gs_id r0) (\<lambda>r. r\<lparr>gs_completed := Some n, gs_status := SCompleted,
         gs_total := round_sum (round_scores a) (gs_id r0)\<rparr>) (sessions a),
       users := update_where (\<lambda>u. u_id u = gs_user r0)
         (\<lambda>u. u\<lparr>u_total_score := u_total_score u + round_sum (round_scores a) (gs_id r0),
                u_challenges_played := u_challenges_played u + 1\<rparr>) (users a)\<rparr>) \<and>
    0 \<le> round_sum (round_scores a) (gs_id r0) \<and> round_sum (round_scores a) (gs_id r0) \<le> MAX_TOTAL_SCORE"
proof -
  have get: "getSessionById a (gs_id r0) = Some r0"
    unfolding getSessionById_def using find_row_unique [OF inv_ids [OF inv] r0(1)] .
  have range: "0 \<le> round_sum (round_scores a) (gs_id r0)" "round_sum (round_scores a) (gs_id r0) \<le> MAX_TOTAL_SCORE"
    using round_sum_range [of "round_scores a" "gs_id r0"] inv
    by (auto simp: game_inv_def view_def round_ok_def)
  have eq: "sum_rounds a (gs_id r0) = round_sum (round_scores a) (gs_id r0)"
    by (simp add: sum_rounds_def round_sum_def)
  show ?thesis using get range r0(2) by (simp add: finishSession_def eq Let_def)
qed

lemma inv_finishSession:
  assumes inv: "game_inv t {} (view a)" and r0: "r0 \<in> set (sessions a)" "gs_completed r0 = None"
  shows "game_inv t {} (view (snd (finishSession n (gs_id r0) a)))"
proof -
  let ?tot = "round_sum (round_scores a) (gs_id r0)"
  let ?f = "\<lambda>r. r\<lparr>gs_completed := Some n, gs_status := SCompleted, gs_total := ?tot\<rparr>"
  have "game_inv t {} (update_where (\<lambda>r. gs_id r = gs_id r0) ?f (sessions a), round_scores a,
      \<lambda>s. redis_kv a (unlock_key s), \<lambda>tok. redis_kv a (ctoken_key tok))"
    using inv unfolding view_def
  proof (rule inv_update)
    show keep: "keeps_row r (?f r)" for r by (simp add: keeps_row_def slot_def warmed_def)
    show "token_ok (update_where (\<lambda>r. gs_id r = gs_id r0) ?f (sessions a)) (\<lambda>tok. redis_kv a (ctoken_key tok))"
      using inv keep by (intro token_ok_update) (simp_all add: game_inv_def view_def)
    show "row_inv t {} (\<lambda>s. redis_kv a (unlock_key s)) (round_scores a) (if gs_id r = gs_id r0 then ?f r else r)"
      if "row_inv t {} (\<lambda>s. redis_kv a (unlock_key s)) (round_scores a) r" for r
      using that by (cases "gs_id r = gs_id r0") (auto simp: row_defs)
  qed (use inv in \<open>simp_all add: game_inv_def view_def\<close>)
  then show ?thesis using finishSession_ok [OF inv r0, of n] by (simp add: view_def)
qed

lemma inv_storeSessionHmac: "game_inv t X (view a) \<Longrightarrow> game_inv t X (view (storeSessionHmac sid h a))"
  unfolding storeSessionHmac_def
  by (rule inv_update_rows) (auto simp: keeps_row_def slot_def row_defs)

lemma inv_flagSession: "game_inv t X (view a) \<Longrightarrow> game_inv t X (view (flagSession sid rs a))"
  unfolding flagSession_def
  by (rule inv_update_rows) (auto simp: keeps_row_def slot_def row_defs)

lemma abandon_row_inv: "row_inv t X ul rr r \<Longrightarrow> row_inv t X ul rr (abandon_row n why r)"
  by (auto simp: abandon_row_def row_defs split: option.split)

lemma abandon_keeps: "keeps_row r (abandon_row n why r)"
  by (simp add: keeps_row_def slot_def warmed_def abandon_row_def)

lemma inv_abandon: "game_inv t X (view a) \<Longrightarrow>
    game_inv t X (view (a\<lparr>sessions := update_where P (abandon_row n why) (sessions a)\<rparr>))"
  by (rule inv_update_rows) (auto simp: abandon_keeps abandon_row_inv)

lemma inv_delete_session: "game_inv t X (view a) \<Longrightarrow> game_inv t X (view (snd (delete_session n req a)))"
  by (auto simp: delete_session_def abandonSession_def Let_def inv_abandon split: option.split prod.split bool.split)

lemma inv_sweep: "game_inv t X (view a) \<Longrightarrow> game_inv t X (view (snd (markAbandonedSessions n a)))"
  by (simp add: markAbandonedSessions_def Let_def inv_abandon)

lemma assert_total_ok: "0 \<le> s \<Longrightarrow> s \<le> MAX_TOTAL_SCORE \<Longrightarrow> assertValidTotalScore (Num (of_int s)) = Inr ()"
  by (simp add: assertValidTotalScore_def)

lemma finish_view:
  assumes "game_inv t {} (view a)" and "r0 \<in> set (sessions a)" and "gs_completed r0 = None" and "gs_id s = gs_id r0"
  shows "\<exists>h. view (snd (finish_game env f n req s cn a)) =
    view (case h of None \<Rightarrow> snd (finishSession n (gs_id r0) a)
          | Some x \<Rightarrow> storeSessionHmac (gs_id r0) x (snd (finishSession n (gs_id r0) a)))"
proof -
  let ?r = "r0\<lparr>gs_completed := Some n, gs_status := SCompleted, gs_total := round_sum (round_scores a) (gs_id r0)\<rparr>"
  let ?h = "computeSessionHmac env (gs_id r0) (round_sum (round_scores a) (gs_id r0)) n"
  obtain b where ok: "finishSession n (gs_id r0) a = (Inr ?r, b)"
    and total_ok: "assertValidTotalScore (Num (of_int (gs_total ?r))) = Inr ()"
    using finishSession_ok [OF assms(1-3), of n] assert_total_ok by simp
  let ?c = "if ?h \<noteq> [] then storeSessionHmac (gs_id r0) ?h b else b"
  have "snd (finish_game env f n req s cn a) =
    snd (and_then (if gs_practice r0 then (Inr (), ?c) else after_competitive_finish env f n ?r cn ?c) (\<lambda>_ d.
         and_then (case given (rq_token req) of None \<Rightarrow> (Inr (), d)
                   | Some tok \<Rightarrow> revokeSessionToken n (gs_id r0) tok (rq_exp req) d) (\<lambda>_ d.
           (Inr (if gs_practice r0 then None else Some (gs_id r0)), d))))"
    unfolding finish_game_def assms(4) ok and_then_simps total_ok sum.case Let_def
    by (simp cong: option.case_cong if_cong)
  moreover have "view (snd (and_then (if gs_practice r0 then (Inr (), ?c) else after_competitive_finish env f n ?r cn ?c) (\<lambda>_ d.
         and_then (case given (rq_token req) of None \<Rightarrow> (Inr (), d)
                   | Some tok \<Rightarrow> revokeSessionToken n (gs_id r0) tok (rq_exp req) d) (\<lambda>_ d.
           (Inr (if gs_practice r0 then None else Some (gs_id r0)), d))))) = view ?c"
    by (intro view_and_then) (simp_all add: view_after_finish view_revoke split: option.split)
  ultimately have "view (snd (finish_game env f n req s cn a)) = view ?c" by simp
  then show ?thesis using ok by (intro exI [of _ "if ?h \<noteq> [] then Some ?h else None"]) simp
qed

lemma inv_finish_game:
  assumes "game_inv t {} (view a)" and "r0 \<in> set (sessions a)" and "gs_completed r0 = None" and "gs_id s = gs_id r0"
  shows "game_inv t {} (view (snd (finish_game env f n req s cn a)))"
  using finish_view [OF assms, of env f n req cn] inv_finishSession [OF assms(1-3), of n]
  by (auto simp: inv_storeSessionHmac split: option.splits)

lemma recordRoundScore_row:
  assumes "unique_by gs_id (sessions a)" and "r0 \<in> set (sessions a)" and "k \<in> {1, 2, 3}"
  shows "\<exists>b. recordRoundScore (gs_id r0) k sc ans rt a = (Inr (), b) \<and>
    r0\<lparr>gs_score := (gs_score r0)(k := sc), gs_answer := (gs_answer r0)(k := ans),
       gs_reaction := (gs_reaction r0)(k := rt)\<rparr> \<in> set (sessions b)"
  using assms by (force simp: recordRoundScore_def update_where_def)

lemma getSession_row: "getSession a u c = Some r \<Longrightarrow> r \<in> set (sessions a) \<and> slot r = (u, c)"
  by (auto simp: getSession_def same_slot_iff dest: find_row_Some)

lemma parse_answer_nonneg: "parse_answer req = Inr (s, x) \<Longrightarrow> 0 \<le> x"
  by (auto simp: parse_answer_def split: option.splits jsnum.splits if_splits)

lemma round_score_bounds: "0 \<le> x \<Longrightarrow> 0 \<le> calculateRoundScore s c x \<and> calculateRoundScore s c x \<le> MAX_ROUND_SCORE"
  using calculateRoundScore_range [of x s c] by (auto simp: score_consts)

lemma check_answer_Score:
  assumes "check_answer k req a = Inr (Score s q sel x)"
  shows "s \<in> set (sessions a) \<and> k \<in> {1, 2, 3} \<and> gs_completed s = None \<and> \<not> gs_flagged s \<and>
    gs_started s \<noteq> None \<and> gs_answer s k = None \<and> 0 \<le> x \<and> slot s = (sub req, gs_challenge s)"
  using assms getSession_row parse_answer_nonneg
  by (fastforce simp: check_answer_def slot_def split: if_splits sum.splits option.splits prod.splits)

text \<open>What an answer does to the state: nothing, or it records a round of a playable, started session
  (and finishes it after the third).\<close>

lemma answer_effect:
  obtains (none) "snd (answer_handler env f n k cn req a) = a"
  | (scored) s x sel ans where "s \<in> set (sessions a)" "k \<in> {1, 2, 3}" "gs_completed s = None" "\<not> gs_flagged s"
      "gs_started s \<noteq> None" "gs_answer s k = None" "0 \<le> x"
      "snd (answer_handler env f n k cn req a) =
        (let b = snd (recordRoundScore (gs_id s) k (calculateRoundScore sel ans x) sel (Some x) a)
         in if k = 3 then snd (finish_game env f n req s cn b) else b)"
proof (cases "check_answer k req a")
  case (Inr p)
  show thesis
  proof (cases p)
    case (Replay r)
    with Inr show thesis using none by (simp add: answer_handler_def)
  next
    case (Score s q sel x)
    note chk = check_answer_Score [OF Inr [unfolded Score]]
    let ?sc = "calculateRoundScore sel (q_correct q) x"
    have valid: "validateRoundScore (Num (of_int ?sc)) = Valid"
      using round_score_bounds [of x sel "q_correct q"] chk by (simp add: validateRoundScore_def)
    obtain b where rec: "recordRoundScore (gs_id s) k ?sc sel (Some x) a = (Inr (), b)"
      using recordRoundScore_row chk by (auto simp: recordRoundScore_def)
    have "snd (and_then m (\<lambda>sh a. (Inr (g sh), a))) = snd m"
      for m :: "(exn + string option) \<times> app" and g :: "string option \<Rightarrow> answer_response"
      by (cases m; cases "fst m") auto
    then have "snd (answer_handler env f n k cn req a) =
        (let b = snd (recordRoundScore (gs_id s) k ?sc sel (Some x) a)
         in if k = 3 then snd (finish_game env f n req s cn b) else b)"
      using Inr Score valid rec by (simp add: answer_handler_def Let_def)
    then show thesis by (rule scored [rotated 7]) (use chk in blast)+
  qed
qed (use none in \<open>simp add: answer_handler_def\<close>)

lemma inv_answer_handler:
  assumes inv: "game_inv t {} (view a)"
  shows "game_inv t {} (view (snd (answer_handler env f n k cn req a)))"
proof (cases rule: answer_effect [of env f n k cn req a])
  case none
  then show ?thesis using inv by simp
next
  case (scored s x sel ans)
  let ?sc = "calculateRoundScore sel ans x"
  let ?b = "snd (recordRoundScore (gs_id s) k ?sc sel (Some x) a)"
  have b: "game_inv t {} (view ?b)"
    using inv_recordRoundScore [OF inv scored(1) refl scored(3-5)] round_score_bounds [OF scored(7)] by blast
  let ?r = "s\<lparr>gs_score := (gs_score s)(k := ?sc), gs_answer := (gs_answer s)(k := sel), gs_reaction := (gs_reaction s)(k := Some x)\<rparr>"
  obtain b' where "recordRoundScore (gs_id s) k ?sc sel (Some x) a = (Inr (), b')" "?r \<in> set (sessions b')"
    using recordRoundScore_row [OF inv_ids [OF inv] scored(1,2), of ?sc sel "Some x"] by (elim exE conjE)
  then have mem: "?r \<in> set (sessions ?b)" by simp
  have "gs_completed ?r = None" "gs_id s = gs_id ?r" using scored(3) by simp_all
  then have "game_inv t {} (view (snd (finish_game env f n req s cn ?b)))"
    by (rule inv_finish_game [OF b mem])
  with b show ?thesis unfolding scored(8) Let_def by (cases "k = 3") simp_all
qed

lemma inv_post_answer:
  assumes "game_inv t {} (view a)"
  shows "game_inv t {} (view (snd (post_answer env f n k cn req a)))"
  unfolding post_answer_def
  using assms view_reaction [of n req a] inv_answer_handler
  by (cases "validateReactionTime n req a"; cases "fst (validateReactionTime n req a)") auto

section \<open>The machine\<close>

text \<open>A step happens at or after the current time. \<open>other\<close> covers every component that leaves the
  game's view alone: challenge and user administration, configuration, Redis going down or up.\<close>

inductive game_step :: "env \<Rightarrow> int \<times> app \<Rightarrow> int \<times> app \<Rightarrow> bool" for env where
  warmup_start: "t \<le> t' \<Longrightarrow> fresh_id f (view a) \<Longrightarrow>
    game_step env (t, a) (t', snd (post_warmup_start env f rnd t' req a))"
| warmup_complete: "t \<le> t' \<Longrightarrow> game_step env (t, a) (t', snd (post_warmup_complete t' req a))"
| warmup_locked: "t \<le> t' \<Longrightarrow> game_step env (t, a) (t', snd (completeWarmupWithLock locked t' u c a))"
| start: "t \<le> t' \<Longrightarrow> game_step env (t, a) (t', snd (post_start env ok t' req a))"
| answer: "t \<le> t' \<Longrightarrow> game_step env (t, a) (t', snd (post_answer env f t' k cn req a))"
| quit: "t \<le> t' \<Longrightarrow> game_step env (t, a) (t', snd (delete_session t' req a))"
| sweep: "t \<le> t' \<Longrightarrow> game_step env (t, a) (t', snd (markAbandonedSessions t' a))"
| flag: "t \<le> t' \<Longrightarrow> game_step env (t, a) (t', flagSession sid reasons a)"
| other: "t \<le> t' \<Longrightarrow> view b = view a \<Longrightarrow> game_step env (t, a) (t', b)"

definition game_init :: "int \<times> app \<Rightarrow> bool" where
  "game_init s \<longleftrightarrow> sessions (snd s) = [] \<and> round_scores (snd s) = [] \<and>
     (\<forall>tok. redis_kv (snd s) (ctoken_key tok) = None)"

definition game_state_inv :: "int \<times> app \<Rightarrow> bool" where
  "game_state_inv s \<longleftrightarrow> game_inv (fst s) {} (view (snd s))"

interpretation game: transition_system game_init "game_step env" game_state_inv for env
proof
  fix s :: "int \<times> app"
  assume "game_init s"
  then show "game_state_inv s"
    by (simp add: game_init_def game_state_inv_def game_inv_def view_def token_ok_def)
next
  fix s t :: "int \<times> app"
  assume inv: "game_state_inv s" and "game_step env s t"
  from this(2) show "game_state_inv t"
  proof cases
    case (warmup_start t0 t' f a rnd req)
    then have "game_inv t' {} (view a)" using inv inv_time by (auto simp: game_state_inv_def)
    with warmup_start show ?thesis by (simp add: game_state_inv_def inv_post_warmup_start)
  next
    case (warmup_complete t0 t' a req)
    then have "game_inv t' {} (view a)" using inv inv_time by (auto simp: game_state_inv_def)
    with warmup_complete show ?thesis by (simp add: game_state_inv_def inv_post_warmup_complete)
  next
    case (warmup_locked t0 t' a locked u c)
    then have "game_inv t' {} (view a)" using inv inv_time by (auto simp: game_state_inv_def)
    with warmup_locked show ?thesis by (simp add: game_state_inv_def inv_completeWarmupWithLock)
  next
    case (start t0 t' a ok req)
    then have "game_inv t' {} (view a)" using inv inv_time by (auto simp: game_state_inv_def)
    with start show ?thesis by (simp add: game_state_inv_def inv_post_start)
  next
    case (answer t0 t' a f k cn req)
    then have "game_inv t' {} (view a)" using inv inv_time by (auto simp: game_state_inv_def)
    with answer show ?thesis by (simp add: game_state_inv_def inv_post_answer)
  next
    case (quit t0 t' a req)
    then have "game_inv t' {} (view a)" using inv inv_time by (auto simp: game_state_inv_def)
    with quit show ?thesis by (simp add: game_state_inv_def inv_delete_session)
  next
    case (sweep t0 t' a)
    then have "game_inv t' {} (view a)" using inv inv_time by (auto simp: game_state_inv_def)
    with sweep show ?thesis by (simp add: game_state_inv_def inv_sweep)
  next
    case (flag t0 t' a sid reasons)
    then have "game_inv t' {} (view a)" using inv inv_time by (auto simp: game_state_inv_def)
    with flag show ?thesis by (simp add: game_state_inv_def inv_flagSession)
  next
    case (other t0 t' b a)
    then show ?thesis using inv inv_time by (auto simp: game_state_inv_def)
  qed
qed

section \<open>Answers are final\<close>

text \<open>Every row of the later table continues a row of the earlier one and keeps its answers, or is new.\<close>

definition keeps_ans :: "game_session \<Rightarrow> game_session \<Rightarrow> bool" where
  "keeps_ans r r' \<longleftrightarrow> gs_id r' = gs_id r \<and>
     (\<forall>k x. gs_answer r k = Some x \<longrightarrow> gs_answer r' k = Some x \<and> gs_score r' k = gs_score r k)"

definition continues :: "string set \<Rightarrow> game_session list \<Rightarrow> game_session list \<Rightarrow> bool" where
  "continues N ss ss' \<longleftrightarrow> (\<forall>r' \<in> set ss'. gs_id r' \<in> N \<or> (\<exists>r \<in> set ss. keeps_ans r r'))"

lemma continues_refl: "continues N ss ss"
  by (auto simp: continues_def keeps_ans_def)

lemma keeps_ans_trans: "keeps_ans r r' \<Longrightarrow> keeps_ans r' r'' \<Longrightarrow> keeps_ans r r''"
  by (simp add: keeps_ans_def)

lemma continues_trans:
  assumes "continues N ss ss'" and "continues N ss' ss''"
  shows "continues N ss ss''"
proof -
  have "gs_id r'' \<in> N \<or> (\<exists>r \<in> set ss. keeps_ans r r'')" if m: "r'' \<in> set ss''" for r''
  proof (cases "gs_id r'' \<in> N")
    case False
    then obtain r' where r': "r' \<in> set ss'" "keeps_ans r' r''" using assms(2) m by (auto simp: continues_def)
    then have "gs_id r' \<notin> N" using False by (simp add: keeps_ans_def)
    then obtain r where "r \<in> set ss" "keeps_ans r r'" using assms(1) r'(1) by (auto simp: continues_def)
    then show ?thesis using keeps_ans_trans r'(2) by blast
  qed simp
  then show ?thesis by (simp add: continues_def)
qed

lemma continues_update:
  "(\<And>r. r \<in> set ss \<Longrightarrow> P r \<Longrightarrow> keeps_ans r (f r)) \<Longrightarrow> continues N ss (update_where P f ss)"
  by (fastforce simp: continues_def keeps_ans_def elim!: in_update_whereE)

lemma continues_delete: "continues N ss (delete_where P ss)"
  by (auto simp: continues_def set_delete_where keeps_ans_def)

lemma view_sessions: "view b = view a \<Longrightarrow> sessions b = sessions a"
  by (simp add: view_def)

lemma continues_warmup_start:
  "continues {f} (sessions a) (sessions (snd (post_warmup_start env f rnd n req a)))"
proof -
  let ?vd = "validateDeviceFingerprint (e_sha256 env) (e_normalizeClientIp env) n req"
  have enf: "continues {f} (sessions a) (sessions (snd (enforceOneSessionPerChallenge f rnd n req a)))"
    by (auto simp: enforceOneSessionPerChallenge_def claimSession_def replaceAbandoned_def delete_sessions_def
        Let_def continues_def keeps_ans_def new_session_def set_delete_where split: prod.split option.split)
  have handler: "continues {f} (sessions b) (sessions (snd (warmup_start_handler n req s b)))" for s b
    by (auto simp: warmup_start_handler_def markWarmupStarted_def redis_write_def redis_do_def Let_def
        keeps_ans_def intro!: continues_refl continues_update split: option.split)
  have close: "continues {f} (sessions b) (sessions (errorHandler_session n sid b))" for sid b
    by (auto simp: errorHandler_session_def abandon_row_def keeps_ans_def intro!: continues_update)
  have body: "continues {f} (sessions b) (sessions (snd (on_error (errorHandler_session n (gs_id s))
      (and_then (?vd b) (\<lambda>_ c. warmup_start_handler n req s c)))))" for s b
  proof (cases "?vd b")
    case (Pair x c)
    have c: "sessions c = sessions b"
      using view_sessions [OF view_fingerprint [of "e_sha256 env" "e_normalizeClientIp env" n req b]] Pair by simp
    show ?thesis
      using Pair c close [of c "gs_id s"] handler [of c s]
        continues_trans [OF handler [of c s] close [of "snd (warmup_start_handler n req s c)" "gs_id s"]]
      by (cases x; cases "warmup_start_handler n req s c"; cases "fst (warmup_start_handler n req s c)") auto
  qed
  show ?thesis
    using enf body view_active [of req a] continues_trans [OF enf body]
    by (cases "requireActiveUser req a"; cases "fst (requireActiveUser req a)";
        cases "enforceOneSessionPerChallenge f rnd n req a"; cases "fst (enforceOneSessionPerChallenge f rnd n req a)")
      (auto simp: post_warmup_start_def continues_refl)
qed

lemma continues_warmup_complete: "continues {} (sessions a) (sessions (snd (post_warmup_complete n req a)))"
proof -
  have mark: "continues {} (sessions b) (sessions (snd (markWarmupCompleted n sid b)))" for sid b
    by (auto simp: markWarmupCompleted_def Let_def keeps_ans_def intro!: continues_update continues_refl)
  have "continues {} (sessions b) (sessions (snd (warmup_complete_handler n req b)))" for b
  proof -
    have "continues {} (sessions b) (sessions (snd (and_then (markWarmupCompleted n sid b) (\<lambda>_ c.
        and_then (redis_write g c) (\<lambda>_ c. (Inr tok, c))))))" for sid g and tok :: string
      using mark [of b sid]
      by (cases "markWarmupCompleted n sid b"; cases "fst (markWarmupCompleted n sid b)")
        (auto simp: redis_write_def redis_do_def)
    then show ?thesis by (auto simp: warmup_complete_handler_def Let_def continues_refl split: option.split)
  qed
  then show ?thesis
    using view_sessions [OF view_skew [of n req a]]
    by (cases "detectClockSkew n req a"; cases "fst (detectClockSkew n req a)")
      (auto simp: post_warmup_complete_def continues_refl, metis)
qed

lemma continues_locked: "continues {} (sessions a) (sessions (snd (completeWarmupWithLock l n u c a)))"
  by (auto simp: completeWarmupWithLock_def markWarmupCompleted_def Let_def keeps_ans_def
      intro!: continues_update continues_refl split: option.split)

lemma continues_start: "continues {} (sessions a) (sessions (snd (post_start env ok n req a)))"
proof -
  have h: "continues {} (sessions a) (sessions (snd (start_handler n req a)))"
    by (auto simp: start_handler_def markChallengeStarted_def redis_write_def redis_do_def Let_def keeps_ans_def
        intro!: continues_update continues_refl split: option.split)
  show ?thesis
    using h view_active [of req a] view_lockout [of "e_lockout env" n req a] view_sessions [OF view_finished]
    by (cases "requireActiveUser req a"; cases "fst (requireActiveUser req a)";
        cases "requireSessionStartAllowed (e_lockout env) n req a";
        cases "fst (requireSessionStartAllowed (e_lockout env) n req a)";
        cases "start_handler n req a"; cases "fst (start_handler n req a)")
      (auto simp: post_start_def continues_refl)
qed

lemma continues_answer:
  assumes inv: "game_inv t {} (view a)"
  shows "continues {} (sessions a) (sessions (snd (post_answer env f n k cn req a)))"
proof -
  have "continues {} (sessions b) (sessions (snd (answer_handler env f n k cn req b)))"
    if b: "game_inv t {} (view b)" for b
  proof (cases rule: answer_effect [of env f n k cn req b])
    case none
    then show ?thesis by (simp add: continues_refl)
  next
    case (scored s x sel ans)
    let ?sc = "calculateRoundScore sel ans x"
    let ?c = "snd (recordRoundScore (gs_id s) k ?sc sel (Some x) b)"
    have un: "gs_answer r k = None" if "r \<in> set (sessions b)" "gs_id r = gs_id s" for r
      using unique_byD [OF inv_ids [OF b] that(1) scored(1) that(2)] scored(6) by simp
    have eq: "sessions ?c = update_where (\<lambda>r. gs_id r = gs_id s) (\<lambda>r. r\<lparr>gs_score := (gs_score r)(k := ?sc),
        gs_answer := (gs_answer r)(k := sel), gs_reaction := (gs_reaction r)(k := Some x)\<rparr>) (sessions b)"
      using scored(2) by (auto simp: recordRoundScore_def)
    have c: "continues {} (sessions b) (sessions ?c)"
      unfolding eq by (rule continues_update) (use un in \<open>auto simp: keeps_ans_def\<close>)
    have inv_c: "game_inv t {} (view ?c)"
      using inv_recordRoundScore [OF b scored(1) refl scored(3-5)] round_score_bounds [OF scored(7)] by blast
    let ?r = "s\<lparr>gs_score := (gs_score s)(k := ?sc), gs_answer := (gs_answer s)(k := sel), gs_reaction := (gs_reaction s)(k := Some x)\<rparr>"
    obtain c' where "recordRoundScore (gs_id s) k ?sc sel (Some x) b = (Inr (), c')" "?r \<in> set (sessions c')"
      using recordRoundScore_row [OF inv_ids [OF b] scored(1,2), of ?sc sel "Some x"] by (elim exE conjE)
    then have mem: "?r \<in> set (sessions ?c)" by simp
    have r: "gs_completed ?r = None" "gs_id s = gs_id ?r" using scored(3) by simp_all
    have fin: "continues {} (sessions ?c) (sessions (snd (finishSession n (gs_id ?r) ?c)))"
      using finishSession_ok [OF inv_c mem r(1), of n]
      by (auto simp: keeps_ans_def intro!: continues_update)
    have store: "continues {} (sessions d) (sessions (storeSessionHmac sid h d))" for d sid h
      by (auto simp: storeSessionHmac_def keeps_ans_def intro!: continues_update)
    have "continues {} (sessions ?c) (sessions (snd (finish_game env f n req s cn ?c)))"
      using finish_view [OF inv_c mem r, of env f n req cn] fin continues_trans [OF fin store]
      by (auto dest!: view_sessions split: option.splits)
    with c continues_trans show ?thesis unfolding scored(8) Let_def by (cases "k = 3") auto
  qed
  then show ?thesis
    using inv view_reaction [of n req a] view_sessions [OF view_reaction [of n req a]]
    by (cases "validateReactionTime n req a"; cases "fst (validateReactionTime n req a)")
      (auto simp: post_answer_def continues_refl, metis)
qed

lemma keeps_ans_abandon: "keeps_ans r (abandon_row n why r)"
  by (simp add: keeps_ans_def abandon_row_def)

lemma continues_quit: "continues {} (sessions a) (sessions (snd (delete_session n req a)))"
  by (simp add: delete_session_def abandonSession_def Let_def continues_update keeps_ans_abandon continues_refl
      split: option.split bool.split)

lemma continues_sweep: "continues {} (sessions a) (sessions (snd (markAbandonedSessions n a)))"
  by (simp add: markAbandonedSessions_def Let_def continues_update keeps_ans_abandon)

lemma continues_flag: "continues {} (sessions a) (sessions (flagSession sid rs a))"
  by (simp add: flagSession_def continues_update keeps_ans_def)

lemmas continues_closing = continues_quit continues_sweep continues_flag

lemma step_continues:
  assumes "game_state_inv (t, a)" and "game_step env (t, a) (t', b)"
  shows "\<exists>N. N \<inter> gs_id ` set (sessions a) = {} \<and> continues N (sessions a) (sessions b)"
proof -
  have inv: "game_inv t {} (view a)" using assms(1) by (simp add: game_state_inv_def)
  have old: ?thesis if "continues {} (sessions a) (sessions b)"
    using that by (intro exI [of _ "{}"]) simp
  from assms(2) show ?thesis
  proof cases
    case (warmup_start f rnd req)
    from warmup_start(3) have "{f} \<inter> gs_id ` set (sessions a) = {}" by (auto simp: fresh_id_def view_def)
    moreover have "continues {f} (sessions a) (sessions b)"
      unfolding warmup_start(1) by (rule continues_warmup_start)
    ultimately show ?thesis by blast
  next
    case (answer f k cn req)
    show ?thesis by (rule old) (unfold answer(1), rule continues_answer [OF inv])
  next
    case other
    show ?thesis by (rule old) (simp only: view_sessions [OF other(2)] continues_refl)
  qed (rule old, simp only: continues_warmup_complete continues_locked continues_start continues_closing)+
qed

section \<open>Properties\<close>

text \<open>
  (C5) The warm-up gate: in every reachable state, whatever requests were sent in whatever order and
  whenever Redis was up or down, each recorded round belongs to a session whose warm-up was started
  and was completed at least twenty seconds later by the server's clock.
\<close>

theorem warmup_gate:
  assumes "game_init s0" and "(game_step env)\<^sup>*\<^sup>* s0 (t, a)" and "x \<in> set (round_scores a)"
  shows "\<exists>r s c. r \<in> set (sessions a) \<and> gs_id r = rs_session x \<and>
    gs_warmup_started r = Some s \<and> gs_warmup_completed r = Some c \<and> s + 20000 \<le> c"
proof -
  have "game_state_inv (t, a)" using game.inv_reachable [OF assms(1,2)] .
  then have "round_ok (sessions a) x" using assms(3) by (simp add: game_state_inv_def game_inv_def view_def)
  then show ?thesis by (auto simp: round_ok_def warmed_def WARMUP_MIN_SECONDS_def)
qed

text \<open>
  (C7) In every reachable state a user has at most one session per challenge, session ids are unique,
  a session has at most one score per round, and every total is zero or the sum of the session's
  rounds, between 0 and 450.
\<close>

theorem one_session_and_totals:
  assumes "game_init s0" and "(game_step env)\<^sup>*\<^sup>* s0 (t, a)" and "r \<in> set (sessions a)" and "r' \<in> set (sessions a)"
    and "x \<in> set (round_scores a)" and "y \<in> set (round_scores a)"
  shows "(gs_user r = gs_user r' \<and> gs_challenge r = gs_challenge r' \<longrightarrow> r = r') \<and> (gs_id r = gs_id r' \<longrightarrow> r = r') \<and>
    (rs_session x = rs_session y \<and> rs_round x = rs_round y \<longrightarrow> x = y) \<and>
    (gs_total r = 0 \<or> gs_total r = sum_rounds a (gs_id r)) \<and> 0 \<le> gs_total r \<and> gs_total r \<le> 450"
proof -
  have inv: "game_inv t {} (view a)" using game.inv_reachable [OF assms(1,2)] by (simp add: game_state_inv_def)
  then have u: "unique_by gs_id (sessions a)" "unique_by slot (sessions a)"
    "unique_by (\<lambda>x. (rs_session x, rs_round x)) (round_scores a)"
    and tot: "total_ok (round_scores a) r"
    using assms(3) by (simp_all add: game_inv_def view_def row_inv_def)
  have range: "0 \<le> round_sum (round_scores a) (gs_id r) \<and> round_sum (round_scores a) (gs_id r) \<le> 450"
    using round_sum_range [of "round_scores a" "gs_id r"] inv
    by (auto simp: game_inv_def view_def round_ok_def score_consts)
  show ?thesis
    using unique_byD [OF u(1) assms(3,4)] unique_byD [OF u(2) assms(3,4)] unique_byD [OF u(3) assms(5,6)]
      tot range
    by (auto simp: slot_def total_ok_def sum_rounds_def round_sum_def)
qed

text \<open>
  (C6) An answer is final: no step from a reachable state changes a recorded (non-null) answer of a
  session or the score it earned.
\<close>

theorem answers_final:
  assumes "game_init s0" and "(game_step env)\<^sup>*\<^sup>* s0 (t, a)" and "game_step env (t, a) (t', b)"
    and "r \<in> set (sessions a)" and "r' \<in> set (sessions b)" and "gs_id r' = gs_id r" and "gs_answer r k = Some x"
  shows "gs_answer r' k = Some x \<and> gs_score r' k = gs_score r k"
proof -
  have inv: "game_state_inv (t, a)" using game.inv_reachable [OF assms(1,2)] .
  obtain N where N: "N \<inter> gs_id ` set (sessions a) = {}" "continues N (sessions a) (sessions b)"
    using step_continues [OF inv assms(3)] by blast
  have "gs_id r' \<notin> N" using N(1) assms(4,6) by auto
  then obtain r0 where r0: "r0 \<in> set (sessions a)" "keeps_ans r0 r'" using N(2) assms(5) by (auto simp: continues_def)
  have "unique_by gs_id (sessions a)" using inv by (simp add: game_state_inv_def game_inv_def view_def)
  then have "r0 = r" using unique_byD r0 assms(4,6) by (metis keeps_ans_def)
  then show ?thesis using r0(2) assms(7) by (simp add: keeps_ans_def)
qed

section \<open>A game\<close>

text \<open>One player's first round, used to instantiate the properties: warm-up from 0 to 20 s, start, and a
  wrong answer to the first question.\<close>

definition demo_env :: env where
  "demo_env = \<lparr>e_sha256 = take 8, e_normalizeClientIp = or_empty, e_lockout = (5, 900), e_integrity_key = None,
     e_hmac = (\<lambda>k m. m), e_showTime = string_of_int, e_noteId = (\<lambda>u. u)\<rparr>"

definition demo_req :: request where
  "demo_req = \<lparr>rq_user = Some ''u'', rq_exp = 900, rq_impersonated = False, rq_token = None, rq_sessionId = None,
     rq_challenge = ''c'', rq_device = Some ''d'', rq_visitor = None, rq_ip = None, rq_ua = None,
     rq_isPractice = False, rq_tier = None, rq_clientTimestamp = None, rq_reactionTimeMs = Some (Num 900),
     rq_roundScore = None, rq_selectedOption = Some (Some OptA), rq_challengeToken = Some ''ct:s:20000''\<rparr>"

definition demo_0 :: app where
  "demo_0 = blank_app\<lparr>users := [new_user ''u''],
     challenges := [\<lparr>ch_id = ''c'', ch_brand = ''b'', ch_memo = None, ch_pool = 0, ch_status = CActive,
       ch_batched = False, ch_deposit_tx = None, ch_confirmations = 0, ch_payout_tx = None, ch_ends_at = None,
       ch_deleted_at = None, ch_created = 0\<rparr>],
     questions := [\<lparr>q_challenge = ''c'', q_round = 1, q_correct = OptB\<rparr>]\<rparr>"

definition demo_1 :: app where "demo_1 = snd (post_warmup_start demo_env ''s'' 0 0 demo_req demo_0)"
definition demo_2 :: app where "demo_2 = snd (post_warmup_complete 20000 demo_req demo_1)"
definition demo_3 :: app where "demo_3 = snd (post_start demo_env True 20000 demo_req demo_2)"
definition demo_4 :: app where "demo_4 = snd (post_answer demo_env ''n'' 21000 1 ''n'' demo_req demo_3)"

lemma demo_init: "game_init (0, demo_0)"
  by (simp add: game_init_def demo_0_def blank_app_def)

lemma demo_run: "(game_step demo_env)\<^sup>*\<^sup>* (0, demo_0) (21000, demo_4)"
proof -
  have "game_step demo_env (0, demo_0) (0, demo_1)"
    unfolding demo_1_def by (rule warmup_start) (simp_all add: fresh_id_def view_def demo_0_def blank_app_def)
  moreover have "game_step demo_env (0, demo_1) (20000, demo_2)"
    unfolding demo_2_def by (rule warmup_complete) simp
  moreover have "game_step demo_env (20000, demo_2) (20000, demo_3)"
    unfolding demo_3_def by (rule start) simp
  moreover have "game_step demo_env (20000, demo_3) (21000, demo_4)"
    unfolding demo_4_def by (rule answer) simp
  ultimately show ?thesis by (meson converse_rtranclp_into_rtranclp rtranclp.rtrancl_refl)
qed

lemma demo_req_fields:
  "rq_user demo_req = Some ''u''" "rq_impersonated demo_req = False" "rq_token demo_req = None"
  "rq_challenge demo_req = ''c''" "rq_device demo_req = Some ''d''" "rq_visitor demo_req = None"
  "rq_ip demo_req = None" "rq_ua demo_req = None" "rq_isPractice demo_req = False" "rq_tier demo_req = None"
  "rq_clientTimestamp demo_req = None" "rq_reactionTimeMs demo_req = Some (Num 900)"
  "rq_selectedOption demo_req = Some (Some OptA)" "rq_challengeToken demo_req = Some ''ct:s:20000''"
  by (simp_all add: demo_req_def)

lemmas demo_simps = demo_req_fields demo_0_def blank_app_def new_user_def new_session_def
  requireActiveUser_def findUserById_def given_def sub_def or_empty_def getSession_def same_slot_def
  getChallengeById_def update_where_def redis_write_def redis_do_def r_set_ex_def Let_def

definition demo_fp :: string where
  "demo_fp = fp_key (computeFingerprint (take 8) None (Some ''d'') (Some []) None)"

definition demo_kv1 :: rstore where
  "demo_kv1 = [demo_fp \<mapsto> (RSet [''u''], Some 86400000), unlock_key ''s'' \<mapsto> (RInt 20000, Some 300000)]"

definition demo_s :: game_session where
  "demo_s = (new_session ''s'' ''u'' ''c'' (Some ''d'') False None None 0)\<lparr>gs_warmup_started := Some 0\<rparr>"

lemma demo_fingerprint:
  "redis_up a \<Longrightarrow> redis_kv a = (\<lambda>_. None) \<Longrightarrow>
   validateDeviceFingerprint (e_sha256 demo_env) (e_normalizeClientIp demo_env) 0 demo_req a =
     (Inr (), a\<lparr>redis_kv := [demo_fp \<mapsto> (RSet [''u''], Some 86400000)]\<rparr>)"
  by (simp add: validateDeviceFingerprint_def demo_env_def demo_req_def given_def or_empty_def demo_fp_def [symmetric]
      r_expire_def r_sadd_def r_get_def r_expiry_def r_scard_def r_smembers_def Let_def)

lemma demo_1_eq: "demo_1 = demo_0\<lparr>sessions := [demo_s], redis_kv := demo_kv1\<rparr>"
  unfolding demo_1_def post_warmup_start_def
  by (simp add: demo_simps demo_fingerprint demo_s_def demo_kv1_def WARMUP_MIN_SECONDS_def
      enforceOneSessionPerChallenge_def session_options_def pick_def claimSession_def
      warmup_start_handler_def markWarmupStarted_def)

lemma demo_token: "''ct:'' @ ''s'' @ '':'' @ string_of_int 20000 = ''ct:s:20000''"
  by (simp add: string_of_int_def string_of_nat.simps digit_char_def char_of_def bit_0)

lemma demo_2_eq: "demo_2 = demo_0\<lparr>sessions := [demo_s\<lparr>gs_warmup_completed := Some 20000\<rparr>],
    redis_kv := demo_kv1(ctoken_key ''ct:s:20000'' \<mapsto> (RStr ''s'', Some 620000))\<rparr>"
proof -
  have "warmup_remaining 20000 ''s'' demo_1 = 0"
    by (simp add: warmup_remaining_def demo_1_eq demo_kv1_def r_get_def)
  then show ?thesis
    unfolding demo_2_def post_warmup_complete_def detectClockSkew_def
    using demo_token
    by (simp add: demo_1_eq demo_simps demo_s_def warmup_complete_handler_def markWarmupCompleted_def count_where_def)
qed

lemma demo_lockout: "redis_up a \<Longrightarrow> redis_kv a (''lockout:session_start:'' @ ''u'') = None \<Longrightarrow>
    app_config a = (\<lambda>_ _. None) \<Longrightarrow>
    requireSessionStartAllowed (e_lockout demo_env) n demo_req a = (Inr (Some (''u'', 5, 900)), a)"
  by (simp add: requireSessionStartAllowed_def demo_req_fields demo_env_def given_def getSessionStartLockoutConfig_def
      sessionStartLockoutKey_def r_get_def Let_def)

lemma demo_3_sessions: "sessions demo_3 =
    [demo_s\<lparr>gs_warmup_completed := Some 20000, gs_started := Some 20000, gs_status := SActive\<rparr>] \<and>
    round_scores demo_3 = [] \<and> challenges demo_3 = challenges demo_0 \<and> questions demo_3 = questions demo_0 \<and>
    redis_up demo_3 \<and> app_config demo_3 = (\<lambda>_ _. None) \<and> redis_kv demo_3 THRESHOLDS_CACHE_KEY = None"
proof -
  have tok: "r_get 20000 (redis_kv demo_2) (ctoken_key ''ct:s:20000'') = Some (RStr ''s'')"
    by (simp add: demo_2_eq r_get_def)
  have lock: "redis_kv demo_2 (''lockout:session_start:'' @ ''u'') = None"
    by (simp add: demo_2_eq demo_kv1_def demo_fp_def fp_key_def key_defs)
  have cache: "redis_kv demo_2 THRESHOLDS_CACHE_KEY = None"
    by (simp add: demo_2_eq demo_kv1_def demo_fp_def fp_key_def key_defs THRESHOLDS_CACHE_KEY_def)
  have "THRESHOLDS_CACHE_KEY \<noteq> ctoken_key t" "THRESHOLDS_CACHE_KEY \<noteq> start_key t" for t
    by (simp_all add: THRESHOLDS_CACHE_KEY_def key_defs)
  with tok lock cache show ?thesis
    unfolding demo_3_def post_start_def
    by (simp add: demo_2_eq demo_simps demo_s_def demo_lockout start_handler_def markChallengeStarted_def
        session_start_finished_def r_del_def)
qed

lemma demo_answer:
  assumes "redis_up a" and "redis_kv a THRESHOLDS_CACHE_KEY = None" and "app_config a = (\<lambda>_ _. None)"
    and "challenges a = challenges demo_0" and "questions a = questions demo_0" and "round_scores a = []"
    and "sessions a = [demo_s\<lparr>gs_warmup_completed := Some 20000, gs_started := Some 20000, gs_status := SActive\<rparr>]"
  shows "round_scores (snd (post_answer demo_env f n 1 cn demo_req a)) =
    [\<lparr>rs_session = ''s'', rs_round = 1, rs_score = 0, rs_answer = Some OptA, rs_reaction = Some 900\<rparr>] \<and>
    sessions (snd (post_answer demo_env f n 1 cn demo_req a)) =
    [demo_s\<lparr>gs_warmup_completed := Some 20000, gs_started := Some 20000, gs_status := SActive,
       gs_score := (\<lambda>_. 0), gs_answer := [1 \<mapsto> OptA], gs_reaction := [1 \<mapsto> 900]\<rparr>]"
proof -
  obtain kv where mw: "validateReactionTime n demo_req a = (Inr (), a\<lparr>redis_kv := kv\<rparr>)"
    using assms(1-3)
    by (simp add: validateReactionTime_def demo_req_fields getThresholds_def r_get_def or_default_def Let_def
        BOT_REACTION_THRESHOLD_MS_def MIN_HUMAN_REACTION_MS_def MAX_HUMAN_REACTION_MS_def)
  have parse: "parse_answer demo_req = Inr (Some OptA, 900)"
    by (simp add: parse_answer_def demo_req_fields)
  have "check_answer 1 demo_req (a\<lparr>redis_kv := kv\<rparr>) = Inr (Score
      (demo_s\<lparr>gs_warmup_completed := Some 20000, gs_started := Some 20000, gs_status := SActive\<rparr>)
      \<lparr>q_challenge = ''c'', q_round = 1, q_correct = OptB\<rparr> (Some OptA) 900)"
    using assms(4-7)
    by (simp add: check_answer_def parse demo_simps demo_s_def getChallengeQuestions_def)
  then show ?thesis
    unfolding post_answer_def mw and_then_simps
    using assms(6,7)
    by (simp add: answer_handler_def calculateRoundScore_def validateRoundScore_def recordRoundScore_def
        upsert_round_def update_where_def demo_s_def new_session_def score_consts Let_def fun_eq_iff)
qed

lemma demo_4_state:
  "round_scores demo_4 = [\<lparr>rs_session = ''s'', rs_round = 1, rs_score = 0, rs_answer = Some OptA, rs_reaction = Some 900\<rparr>]"
  "sessions demo_4 = [demo_s\<lparr>gs_warmup_completed := Some 20000, gs_started := Some 20000, gs_status := SActive,
       gs_score := (\<lambda>_. 0), gs_answer := [1 \<mapsto> OptA], gs_reaction := [1 \<mapsto> 900]\<rparr>]"
  unfolding demo_4_def using demo_answer [of demo_3] demo_3_sessions by blast+

theorem warmup_gate_witness:
  "game_init (0, demo_0) \<and> (game_step demo_env)\<^sup>*\<^sup>* (0, demo_0) (21000, demo_4) \<and>
   (\<exists>x r s c. x \<in> set (round_scores demo_4) \<and> r \<in> set (sessions demo_4) \<and> gs_id r = rs_session x \<and>
     gs_warmup_started r = Some s \<and> gs_warmup_completed r = Some c \<and> s + 20000 \<le> c)"
proof -
  have "\<exists>x. x \<in> set (round_scores demo_4)" by (simp add: demo_4_state)
  then show ?thesis using warmup_gate [OF demo_init demo_run] demo_init demo_run by blast
qed

theorem one_session_and_totals_witness:
  "\<exists>r \<in> set (sessions demo_4). gs_total r = 0 \<and> 0 \<le> gs_total r \<and> gs_total r \<le> 450"
proof -
  obtain r x where r: "r \<in> set (sessions demo_4)" "x \<in> set (round_scores demo_4)" "gs_total r = 0"
    by (simp add: demo_4_state demo_s_def new_session_def)
  show ?thesis
    using one_session_and_totals [OF demo_init demo_run r(1) r(1) r(2) r(2)] r by blast
qed

theorem answers_final_witness:
  "\<exists>r \<in> set (sessions (flagSession ''s'' [''bot''] demo_4)).
     gs_status r = SFlagged \<and> gs_answer r 1 = Some OptA \<and> gs_score r 1 = 0"
proof -
  obtain r where r: "r \<in> set (sessions demo_4)" "gs_id r = ''s''" "gs_answer r 1 = Some OptA" "gs_score r 1 = 0"
    by (simp add: demo_4_state demo_s_def new_session_def)
  obtain r' where r': "r' \<in> set (sessions (flagSession ''s'' [''bot''] demo_4))" "gs_id r' = ''s''" "gs_status r' = SFlagged"
    by (simp add: demo_4_state demo_s_def new_session_def flagSession_def update_where_def)
  have step: "game_step demo_env (21000, demo_4) (30000, flagSession ''s'' [''bot''] demo_4)" by (rule flag) simp
  show ?thesis
    using answers_final [OF demo_init demo_run step r(1) r'(1) _ r(3)] r r' by auto
qed

section \<open>Finishing, tokens and integrity\<close>

text \<open>
  (C8) Finishing happens once: in a reachable state, finishing an unfinished session succeeds with the
  sum of its rounds (never tripping the table's range check), adds exactly that total to its player's
  lifetime score and to nobody else's, and finishing again returns the same row and changes nothing.
\<close>

theorem finish_once:
  assumes "game_init s0" and "(game_step env)\<^sup>*\<^sup>* s0 (t, a)"
    and "r0 \<in> set (sessions a)" and "gs_completed r0 = None"
  shows "\<exists>r1 b. finishSession n (gs_id r0) a = (Inr r1, b) \<and> gs_total r1 = sum_rounds a (gs_id r0) \<and>
    gs_status r1 = SCompleted \<and> gs_completed r1 = Some n \<and>
    map u_total_score (users b) =
      map (\<lambda>u. u_total_score u + (if u_id u = gs_user r0 then gs_total r1 else 0)) (users a) \<and>
    finishSession n' (gs_id r0) b = (Inr r1, b)"
proof -
  have inv: "game_inv t {} (view a)" using game.inv_reachable [OF assms(1,2)] by (simp add: game_state_inv_def)
  let ?tot = "round_sum (round_scores a) (gs_id r0)"
  let ?f = "\<lambda>r. r\<lparr>gs_completed := Some n, gs_status := SCompleted, gs_total := ?tot\<rparr>"
  let ?b = "a\<lparr>sessions := update_where (\<lambda>r. gs_id r = gs_id r0) ?f (sessions a),
    users := update_where (\<lambda>u. u_id u = gs_user r0)
      (\<lambda>u. u\<lparr>u_total_score := u_total_score u + ?tot, u_challenges_played := u_challenges_played u + 1\<rparr>) (users a)\<rparr>"
  have fin: "finishSession n (gs_id r0) a = (Inr (?f r0), ?b)"
    using finishSession_ok [OF inv assms(3,4), of n] by blast
  have "find_row (\<lambda>r. gs_id r = gs_id r0) (update_where (\<lambda>r. gs_id r = gs_id r0) ?f (sessions a)) = Some (?f r0)"
    using find_row_update_key [OF inv_ids [OF inv], of ?f "gs_id r0" "gs_id r0"]
      find_row_unique [OF inv_ids [OF inv] assms(3)] by simp
  then have "finishSession n' (gs_id r0) ?b = (Inr (?f r0), ?b)"
    by (simp add: finishSession_def getSessionById_def)
  moreover have "sum_rounds a (gs_id r0) = ?tot" by (simp add: sum_rounds_def round_sum_def)
  moreover have "map u_total_score (users ?b) =
      map (\<lambda>u. u_total_score u + (if u_id u = gs_user r0 then ?tot else 0)) (users a)"
    by (simp add: update_where_def)
  ultimately show ?thesis using fin by (intro exI [of _ "?f r0"] exI [of _ ?b]) simp
qed

theorem finish_once_witness:
  "\<exists>r1 b. finishSession 22000 ''s'' demo_4 = (Inr r1, b) \<and> gs_status r1 = SCompleted \<and>
     finishSession 23000 ''s'' b = (Inr r1, b)"
proof -
  obtain r0 where r0: "r0 \<in> set (sessions demo_4)" "gs_completed r0 = None" "gs_id r0 = ''s''"
    by (simp add: demo_4_state demo_s_def new_session_def)
  show ?thesis using finish_once [OF demo_init demo_run r0(1,2), of 22000 23000] r0(3) by auto
qed




definition hex_digit :: "nat \<Rightarrow> char" where
  "hex_digit d = (if d < 10 then char_of (48 + d) else char_of (87 + d))"

definition to_hex :: "string \<Rightarrow> string" where
  "to_hex s = concat (map (\<lambda>c. [hex_digit (of_char c div 16), hex_digit (of_char c mod 16)]) s)"

lemma hex_val_digit: "d < 16 \<Longrightarrow> hex_val (hex_digit d) = Some d"
  by (simp add: hex_val_def hex_digit_def Let_def)

lemma from_to_hex: "from_hex (to_hex s) = map of_char s"
proof (induction s)
  case (Cons c s)
  have "of_char c div 16 < (16 :: nat)" by (rule less_mult_imp_div_less) simp
  with Cons show ?case by (simp add: to_hex_def hex_val_digit)
qed (simp add: to_hex_def)


end
