(* ===== verification/Stellar_Payout.thy ===== *)
theory Stellar_Payout
  imports Usdc Tables
begin

text \<open>
  The Stellar package: amount conversion (\<open>packages/stellar/src/constants.ts\<close>), sequence number
  reservation (\<open>sequence.ts\<close>), the retry loop (\<open>client.ts\<close>) and batch payout (\<open>payout.ts\<close>).
  Horizon and the Stellar SDK are parameters: the sequence number the ledger reports, whether a
  transaction can be built, and the outcome of submitting it. Sequence numbers live in Redis
  without expiry. Two runs of \<open>reserveSequence\<close> in different processes are interleaved at their
  store operations by the step relation \<open>worker_step\<close>.
\<close>

section \<open>Amounts\<close>

definition MAX_SUPPLY_STROOPS :: int where "MAX_SUPPLY_STROOPS = 50000000000000000"

text \<open>An optional sign, digits, and optionally a point with digits: sign, whole and fraction.\<close>

definition match_decimal :: "string \<Rightarrow> (bool \<times> string \<times> string) option" where
  "match_decimal s =
     (let neg = (s \<noteq> [] \<and> hd s = CHR ''-''); t = (if neg then tl s else s);
          w = takeWhile is_digit t; r = dropWhile is_digit t
      in if w = [] then None
         else case r of
             [] \<Rightarrow> Some (neg, w, [])
           | c # f \<Rightarrow> if c = CHR ''.'' \<and> f \<noteq> [] \<and> list_all is_digit f then Some (neg, w, f) else None)"

definition decimal_value :: "string \<Rightarrow> string \<Rightarrow> rat" where
  "decimal_value w f = of_nat (nat_of_string (w @ f)) / 10 ^ length f"

text \<open>\<open>parseFloat\<close> rounds to the nearest double, the product with \<open>10_000_000\<close> rounds again, and
  the floor becomes the number of stroops. A decimal beyond the double range is infinite.\<close>

definition stellar_usdcToStroops :: "string \<Rightarrow> exn + int" where
  "stellar_usdcToStroops usdc =
     (let trimmed = trim usdc in
      if trimmed = [] then Inl (js_error ''Cannot convert empty string to stroops'')
      else case match_decimal trimmed of
        None \<Rightarrow> Inl (js_error ''Invalid USDC amount'')
      | Some (neg, w, f) \<Rightarrow>
          let v = decimal_value w f in
          if 2 ^ 1024 \<le> \<lfloor>fl v\<rfloor> then Inl (js_error ''Invalid USDC amount'')
          else if neg \<and> 0 < fl v then Inl (js_error ''USDC amount cannot be negative'')
          else
            let scaled = nmult (fl v) 10000000; stroops = \<lfloor>scaled\<rfloor>
            in if 2 ^ 1024 \<le> stroops then Inl (js_error ''Infinity cannot be converted to a BigInt'')
               else if MAX_SUPPLY_STROOPS < stroops then Inl (js_error ''exceeds maximum XLM supply'')
               else Inr stroops)"

section \<open>Sequence numbers\<close>

definition baseKey :: "string \<Rightarrow> string" where "baseKey p = p @ '':base''"
definition offsetKey :: "string \<Rightarrow> string" where "offsetKey p = p @ '':offset''"

definition buildSequenceKeyPrefix :: "string \<Rightarrow> string \<Rightarrow> string" where
  "buildSequenceKeyPrefix network publicKey = ''stellar:seq:'' @ network @ '':'' @ publicKey"

text \<open>\<open>load\<close> is the outcome of \<open>loadBaseSequence\<close>; it is consulted only when no base is stored.\<close>

definition ensureBaseSequence :: "int \<Rightarrow> string \<Rightarrow> 'e + int \<Rightarrow> rstore \<Rightarrow> 'e + int \<times> rstore" where
  "ensureBaseSequence now p load st =
     (case r_get now st (baseKey p) of
        Some (RInt b) \<Rightarrow> Inr (b, st)
      | _ \<Rightarrow> bind_r load (\<lambda>loaded. Inr (loaded, r_set st (baseKey p) (RInt loaded))))"

record reservation =
  rv_keyPrefix :: string
  rv_base :: int
  rv_offset :: int
  rv_accountSequence :: int
  rv_transactionSequence :: int

definition mk_reservation :: "string \<Rightarrow> int \<Rightarrow> int \<Rightarrow> reservation" where
  "mk_reservation p base offset =
     \<lparr>rv_keyPrefix = p, rv_base = base, rv_offset = offset, rv_accountSequence = base + (offset - 1),
      rv_transactionSequence = base + (offset - 1) + 1\<rparr>"

definition reserveSequence :: "int \<Rightarrow> string \<Rightarrow> 'e + int \<Rightarrow> rstore \<Rightarrow> 'e + reservation \<times> rstore" where
  "reserveSequence now p load st =
     bind_r (ensureBaseSequence now p load st)
       (\<lambda>(base, st1). let (offset, st2) = r_incr now st1 (offsetKey p)
                      in Inr (mk_reservation p base offset, st2))"

definition resetSequence :: "string \<Rightarrow> 'e + int \<Rightarrow> rstore \<Rightarrow> 'e + int \<times> rstore" where
  "resetSequence p load st =
     bind_r load (\<lambda>loaded. Inr (loaded, r_del (r_set st (baseKey p) (RInt loaded)) (offsetKey p)))"

text \<open>What the payout relies on: a reservation returns the next number and moves it by one, and a
  reset makes the ledger's number the next.\<close>

locale sequence_source =
  fixes reserve :: "'s \<Rightarrow> 'e + int \<times> 's"
    and reset :: "int \<Rightarrow> 's \<Rightarrow> 'e + int \<times> 's"
    and following :: "'s \<Rightarrow> int"
    and wf :: "'s \<Rightarrow> bool"
  assumes reserve_next: "wf s \<Longrightarrow>
      \<exists>s'. reserve s = Inr (following s, s') \<and> following s' = following s + 1 \<and> wf s'"
    and reset_next: "\<exists>s'. reset b s = Inr (b, s') \<and> following s' = b \<and> wf s'"
begin

primrec reserve_many :: "nat \<Rightarrow> 's \<Rightarrow> 'e + int list \<times> 's" where
  "reserve_many 0 s = Inr ([], s)"
| "reserve_many (Suc n) s =
     bind_r (reserve s) (\<lambda>(x, s1). bind_r (reserve_many n s1) (\<lambda>(xs, s2). Inr (x # xs, s2)))"

lemma reserve_many_consecutive:
  "wf s \<Longrightarrow> \<exists>s'. reserve_many n s = Inr (map (\<lambda>i. following s + int i) [0..<n], s') \<and>
     following s' = following s + int n \<and> wf s'"
proof (induction n arbitrary: s)
  case (Suc n)
  obtain s1 where r: "reserve s = Inr (following s, s1)" "following s1 = following s + 1" "wf s1"
    using reserve_next [OF Suc.prems] by blast
  obtain s2 where m: "reserve_many n s1 = Inr (map (\<lambda>i. following s1 + int i) [0..<n], s2)"
    "following s2 = following s1 + int n" "wf s2" using Suc.IH [OF r(3)] by blast
  have "map (\<lambda>i. following s + int i) [0..<Suc n] = following s # map (\<lambda>i. following s + 1 + int i) [0..<n]"
    by (simp add: upt_conv_Cons map_Suc_upt [symmetric] comp_def algebra_simps del: upt_Suc)
  with r m show ?case by (simp del: upt_Suc)
qed simp

text \<open>After a reset at the ledger's number, reservations continue from there.\<close>

lemma reset_then_reserve:
  "\<exists>s1 s2. reset b s = Inr (b, s1) \<and> reserve_many n s1 = Inr (map (\<lambda>i. b + int i) [0..<n], s2)"
proof -
  obtain s1 where "reset b s = Inr (b, s1)" "following s1 = b" "wf s1" using reset_next by blast
  then show ?thesis using reserve_many_consecutive [of s1 n] by blast
qed

end

definition following_seq :: "string \<Rightarrow> int \<Rightarrow> rstore \<Rightarrow> int" where
  "following_seq p loaded st =
     (case st (baseKey p) of Some (RInt b, _) \<Rightarrow> b | _ \<Rightarrow> loaded) +
     (case st (offsetKey p) of Some (RInt n, _) \<Rightarrow> n | _ \<Rightarrow> 0)"

definition seq_wf :: "string \<Rightarrow> rstore \<Rightarrow> bool" where
  "seq_wf p st \<longleftrightarrow> (\<forall>k \<in> {baseKey p, offsetKey p}. st k = None \<or> (\<exists>n. st k = Some (RInt n, None)))"

lemma keys_differ [simp]: "baseKey p \<noteq> offsetKey p" "offsetKey p \<noteq> baseKey p"
  by (simp_all add: baseKey_def offsetKey_def)

lemma reserveSequence_exec:
  assumes "seq_wf p st"
  shows "\<exists>rv st'. reserveSequence now p (Inr loaded :: 'e + int) st = Inr (rv, st') \<and>
    rv_accountSequence rv = following_seq p loaded st \<and>
    rv_transactionSequence rv = following_seq p loaded st + 1 \<and>
    following_seq p loaded st' = following_seq p loaded st + 1 \<and> seq_wf p st'"
  using assms
  by (cases "st (baseKey p)"; cases "st (offsetKey p)")
    (auto simp: seq_wf_def reserveSequence_def ensureBaseSequence_def following_seq_def
      mk_reservation_def r_get_def r_set_def r_incr_def r_expiry_def Let_def)

lemma reserve_next_seq:
  assumes "seq_wf p st"
  shows "\<exists>st'. bind_r (reserveSequence now p (Inr loaded :: 'e + int) st)
      (\<lambda>(rv, st'). Inr (rv_accountSequence rv, st')) = Inr (following_seq p loaded st, st') \<and>
    following_seq p loaded st' = following_seq p loaded st + 1 \<and> seq_wf p st'"
  using reserveSequence_exec [OF assms, of now loaded, where ?'e = 'e] by fastforce

lemma reset_seq:
  "\<exists>st'. resetSequence p (Inr b :: 'e + int) st = Inr (b, st') \<and> following_seq p loaded st' = b \<and> seq_wf p st'"
  by (simp add: resetSequence_def following_seq_def seq_wf_def r_set_def r_del_def)

interpretation seq: sequence_source
  "\<lambda>st. bind_r (reserveSequence now p (Inr loaded :: exn + int) st) (\<lambda>(rv, st'). Inr (rv_accountSequence rv, st'))"
  "\<lambda>b st. resetSequence p (Inr b :: exn + int) st" "following_seq p loaded" "seq_wf p" for now p loaded
  by unfold_locales (erule reserve_next_seq, rule reset_seq)

section \<open>Interleaved reservations\<close>

text \<open>A run of \<open>reserveSequence\<close> in one process, between its store operations: before the first
  read, while the ledger is asked, with the ledger's answer before \<open>setIfAbsent\<close>, with the base
  before \<open>INCR\<close>, and with its reservation.\<close>

datatype worker = Reading | Loading | Storing int | Based int | Reserved reservation

definition set_if_absent :: "int \<Rightarrow> string \<Rightarrow> int \<Rightarrow> rstore \<Rightarrow> int \<times> rstore" where
  "set_if_absent now k loaded st =
     (case r_get now st k of
        Some (RInt b) \<Rightarrow> (b, st)
      | _ \<Rightarrow> (loaded, r_set st k (RInt loaded)))"

inductive worker_step :: "string \<Rightarrow> rstore \<times> (nat \<Rightarrow> worker) \<Rightarrow> rstore \<times> (nat \<Rightarrow> worker) \<Rightarrow> bool"
  for p :: string where
  read_hit: "ws w = Reading \<Longrightarrow> r_get now st (baseKey p) = Some (RInt b) \<Longrightarrow>
    worker_step p (st, ws) (st, ws(w := Based b))"
| read_miss: "ws w = Reading \<Longrightarrow> r_get now st (baseKey p) = None \<Longrightarrow>
    worker_step p (st, ws) (st, ws(w := Loading))"
| ledger: "ws w = Loading \<Longrightarrow> worker_step p (st, ws) (st, ws(w := Storing loaded))"
| store: "ws w = Storing loaded \<Longrightarrow> set_if_absent now (baseKey p) loaded st = (b, st') \<Longrightarrow>
    worker_step p (st, ws) (st', ws(w := Based b))"
| incr: "ws w = Based b \<Longrightarrow> r_incr now st (offsetKey p) = (offset, st') \<Longrightarrow>
    worker_step p (st, ws) (st', ws(w := Reserved (mk_reservation p b offset)))"

text \<open>Every base in use is the stored one, and the reservations made so far are the offsets up to
  the stored counter, each once.\<close>

definition store_int :: "rstore \<Rightarrow> string \<Rightarrow> int option" where
  "store_int st k = (case st k of Some (RInt n, None) \<Rightarrow> Some n | _ \<Rightarrow> None)"

definition worker_inv :: "string \<Rightarrow> rstore \<times> (nat \<Rightarrow> worker) \<Rightarrow> bool" where
  "worker_inv p = (\<lambda>(st, ws).
     seq_wf p st \<and>
     (\<forall>w b. ws w = Based b \<longrightarrow> store_int st (baseKey p) = Some b) \<and>
     (\<forall>w rv. ws w = Reserved rv \<longrightarrow>
        store_int st (baseKey p) = Some (rv_base rv) \<and> rv_transactionSequence rv = rv_base rv + rv_offset rv \<and>
        (\<exists>n. store_int st (offsetKey p) = Some n \<and> rv_offset rv \<le> n)) \<and>
     (\<forall>w w' rv rv'. ws w = Reserved rv \<longrightarrow> ws w' = Reserved rv' \<longrightarrow> rv_offset rv = rv_offset rv' \<longrightarrow> w = w'))"

definition worker_init :: "string \<Rightarrow> rstore \<times> (nat \<Rightarrow> worker) \<Rightarrow> bool" where
  "worker_init p = (\<lambda>(st, ws). seq_wf p st \<and> (\<forall>w. ws w = Reading))"


lemma store_int_get:
  "seq_wf p st \<Longrightarrow> k \<in> {baseKey p, offsetKey p} \<Longrightarrow> r_get now st k = map_option RInt (store_int st k)"
  by (auto simp: seq_wf_def store_int_def r_get_def split: option.splits)

lemma set_if_absent_exec:
  assumes "seq_wf p st" and "set_if_absent now (baseKey p) loaded st = (b, st')"
  shows "seq_wf p st'" "store_int st' (baseKey p) = Some b" "store_int st' (offsetKey p) = store_int st (offsetKey p)"
    "store_int st (baseKey p) = Some x \<Longrightarrow> b = x"
  using assms
  by (auto simp: set_if_absent_def store_int_get seq_wf_def store_int_def r_set_def r_get_def split: option.splits)

lemma r_incr_exec:
  assumes "seq_wf p st" and "r_incr now st (offsetKey p) = (n, st')"
  shows "seq_wf p st'" "store_int st' (baseKey p) = store_int st (baseKey p)"
    "store_int st' (offsetKey p) = Some n" "store_int st (offsetKey p) = Some x \<Longrightarrow> n = x + 1"
  using assms
  by (auto simp: seq_wf_def store_int_def r_incr_def r_get_def r_expiry_def Let_def split: option.splits)

lemma mk_reservation_simps [simp]:
  "rv_base (mk_reservation p b n) = b" "rv_offset (mk_reservation p b n) = n"
  "rv_transactionSequence (mk_reservation p b n) = b + n" "rv_accountSequence (mk_reservation p b n) = b + n - 1"
  by (simp_all add: mk_reservation_def)

lemma worker_inv_step:
  assumes "worker_step p s t" and "worker_inv p s"
  shows "worker_inv p t"
  using assms
proof cases
  case (read_hit ws w now st b)
  then have "store_int st (baseKey p) = Some b"
    using assms(2) store_int_get [of p st "baseKey p" now]
    by (cases "store_int st (baseKey p)") (simp_all add: worker_inv_def)
  with read_hit show ?thesis using assms(2) by (auto simp: worker_inv_def)
next
  case (store ws w loaded now st b st')
  then have "seq_wf p st" using assms(2) by (simp add: worker_inv_def)
  note x = set_if_absent_exec [OF this store(4)]
  show ?thesis using assms(2) store(1-3) x(1-3) x(4) by (fastforce simp: worker_inv_def)
next
  case (incr ws w b now st n st')
  then have "seq_wf p st" using assms(2) by (simp add: worker_inv_def)
  note x = r_incr_exec [OF this incr(4)]
  have inv: "worker_inv p (st, ws)" using assms(2) incr(1) by simp
  have old: "rv_offset rv < n \<and> store_int st' (baseKey p) = Some (rv_base rv) \<and>
      rv_transactionSequence rv = rv_base rv + rv_offset rv" if "ws w' = Reserved rv" for w' rv
  proof -
    have "store_int st (baseKey p) = Some (rv_base rv)" "rv_transactionSequence rv = rv_base rv + rv_offset rv"
      "\<exists>m. store_int st (offsetKey p) = Some m \<and> rv_offset rv \<le> m"
      using inv that unfolding worker_inv_def by blast+
    then show ?thesis using x(2) x(4) by fastforce
  qed
  have new: "store_int st' (baseKey p) = Some b'" if "ws w' = Based b'" for w' b'
    using inv that unfolding x(2) worker_inv_def by blast
  have uniq: "w1 = w2" if "ws w1 = Reserved rv" "ws w2 = Reserved rv'" "rv_offset rv = rv_offset rv'" for w1 w2 rv rv'
    using inv that unfolding worker_inv_def by blast
  show ?thesis unfolding incr(2) worker_inv_def prod.case
    using x(1,3) old new [OF incr(3)] by (auto dest: old new uniq)
qed (auto simp: worker_inv_def)

interpretation workers: transition_system "worker_init p" "worker_step p" "worker_inv p" for p
proof unfold_locales
  show "worker_inv p s" if "worker_init p s" for s
    using that by (auto simp: worker_inv_def worker_init_def)
qed (rule worker_inv_step)

section \<open>The retry loop\<close>

text \<open>What the code reads of an error of the Stellar SDK: the message, the HTTP status and the
  transaction result code.\<close>

record stellar_err =
  se_message :: string
  se_status :: "nat option"
  se_txCode :: "string option"
  se_code :: "string option"
  se_name :: "string option"
  se_retryExhausted :: bool

fun includes_at :: "string \<Rightarrow> string \<Rightarrow> bool" where
  "includes_at [] t = (t = [])"
| "includes_at (c # s) t = (take (length t) (c # s) = t \<or> includes_at s t)"

definition toLowerCase :: "string \<Rightarrow> string" where
  "toLowerCase = map (\<lambda>c. if 65 \<le> (of_char c :: nat) \<and> (of_char c :: nat) \<le> 90
                          then char_of ((of_char c :: nat) + 32) else c)"

definition isRetryableError :: "stellar_err \<Rightarrow> nat list \<Rightarrow> bool" where
  "isRetryableError e retryableStatusCodes =
     ((case se_status e of Some c \<Rightarrow> c \<noteq> 0 \<and> c \<in> set retryableStatusCodes | None \<Rightarrow> False) \<or>
      (let message = toLowerCase (se_message e) in
       includes_at message ''econnrefused'' \<or> includes_at message ''econnreset'' \<or>
       includes_at message ''enotfound'' \<or> includes_at message ''timeout'' \<or>
       includes_at message ''timed out'' \<or> includes_at message ''networkconnection''))"

text \<open>\<open>retry_from fn codes attempt left\<close> is the loop with \<open>left\<close> attempts remaining; \<open>fn\<close> is the
  outcome of each attempt. With no attempt at all there is no error to annotate and the assignment to
  it throws.\<close>

fun retry_from :: "(nat \<Rightarrow> stellar_err + 'a) \<Rightarrow> nat list \<Rightarrow> nat \<Rightarrow> nat \<Rightarrow> stellar_err + 'a" where
  "retry_from fn codes attempt 0 =
     Inl \<lparr>se_message = ''Cannot set properties of undefined'', se_status = None, se_txCode = None,
          se_code = None, se_name = Some ''TypeError'', se_retryExhausted = False\<rparr>"
| "retry_from fn codes attempt (Suc left) =
     (case fn attempt of
        Inr x \<Rightarrow> Inr x
      | Inl e \<Rightarrow>
          if left = 0 then Inl (e\<lparr>se_retryExhausted := True\<rparr>)
          else if \<not> isRetryableError e codes then Inl e
          else retry_from fn codes (attempt + 1) left)"

definition withRetry :: "(nat \<Rightarrow> stellar_err + 'a) \<Rightarrow> nat \<Rightarrow> stellar_err + 'a" where
  "withRetry fn maxAttempts = retry_from fn [429, 503, 504] 0 maxAttempts"

definition isBadSequenceError :: "stellar_err \<Rightarrow> bool" where
  "isBadSequenceError e \<longleftrightarrow> se_txCode e = Some ''tx_bad_seq'' \<or> includes_at (se_message e) ''tx_bad_seq''"

definition isInsufficientFeeError :: "stellar_err \<Rightarrow> bool" where
  "isInsufficientFeeError e \<longleftrightarrow>
     se_txCode e = Some ''tx_insufficient_fee'' \<or> includes_at (se_message e) ''tx_insufficient_fee''"

definition isRetriableStellarError :: "stellar_err \<Rightarrow> bool" where
  "isRetriableStellarError e \<longleftrightarrow>
     (let message = toLowerCase (se_message e) in
      se_code e = Some ''ECONNABORTED'' \<or> se_name e = Some ''NetworkError'' \<or>
      se_name e = Some ''TimeoutError'' \<or> includes_at message ''networkerror'' \<or>
      includes_at message ''timeout'' \<or> includes_at message ''timed out'')"

text \<open>The result is the outcome of one attempt, the first that succeeds or fails for good.\<close>

lemma retry_from_Inr:
  "retry_from fn codes a left = Inr x \<Longrightarrow>
   \<exists>k < left. fn (a + k) = Inr x \<and> (\<forall>j < k. \<exists>e. fn (a + j) = Inl e \<and> isRetryableError e codes)"
proof (induction left arbitrary: a)
  case (Suc left)
  show ?case
  proof (cases "fn a")
    case (Inl e)
    with Suc.prems have r: "isRetryableError e codes" "retry_from fn codes (a + 1) left = Inr x"
      by (auto split: if_splits)
    obtain k where k: "k < left" "fn (a + 1 + k) = Inr x"
      "\<forall>j < k. \<exists>e. fn (a + 1 + j) = Inl e \<and> isRetryableError e codes" using Suc.IH [OF r(2)] by blast
    have "\<exists>e. fn (a + j) = Inl e \<and> isRetryableError e codes" if "j < Suc k" for j
      using that k(3) Inl r(1) by (cases j) auto
    with k(1,2) show ?thesis by (intro exI [of _ "Suc k"]) auto
  qed (use Suc.prems in auto)
qed simp

section \<open>Batch payout\<close>

definition MAX_OPS_PER_TX :: nat where "MAX_OPS_PER_TX = 50"

record recipient =
  rc_address :: string
  rc_amount :: string

definition isValidStellarAmount :: "string \<Rightarrow> bool" where
  "isValidStellarAmount amount =
     (case match_decimal amount of
        Some (False, w, f) \<Rightarrow> length f \<le> 7 \<and> 0 < fl (decimal_value w f)
      | _ \<Rightarrow> False)"

definition getInvalidRecipientReason :: "recipient \<Rightarrow> string option" where
  "getInvalidRecipientReason r =
     (if rc_address r = [] then Some ''missing address''
      else if \<not> isValidStellarAmount (rc_amount r)
        then Some ''amount must be a positive Stellar amount with up to 7 decimal places''
      else None)"

function chunk_from :: "'a list \<Rightarrow> nat \<Rightarrow> nat \<Rightarrow> 'a list list" where
  "chunk_from array sz i =
     (if i < length array \<and> 0 < sz then take sz (drop i array) # chunk_from array sz (i + sz) else [])"
  by auto
termination by (relation "measure (\<lambda>(array, sz, i). length array - i)") auto

declare chunk_from.simps [simp del]

definition chunkArray :: "'a list \<Rightarrow> nat \<Rightarrow> 'a list list" where
  "chunkArray array sz = chunk_from array sz 0"

definition is_alnum :: "char \<Rightarrow> bool" where
  "is_alnum c \<longleftrightarrow> (let n = (of_char c :: nat) in
     (48 \<le> n \<and> n \<le> 57) \<or> (65 \<le> n \<and> n \<le> 90) \<or> (97 \<le> n \<and> n \<le> 122))"

definition buildPayoutMemo :: "string \<Rightarrow> nat \<Rightarrow> string" where
  "buildPayoutMemo challengeId batchIndex =
     ''bb-'' @ take 20 (filter is_alnum challengeId) @ ''-'' @ string_of_nat batchIndex"

text \<open>A payment transaction, and what stands for Horizon and the SDK in the run of a batch: the
  ledger's sequence number when it is asked (for batch and attempt, before a submission and for a
  reset), whether building and signing throws, and the outcome of every submission.\<close>

record stellar_tx =
  tx_accountSequence :: int
  tx_memo :: string
  tx_operations :: "recipient list"

record horizon =
  hz_load :: "nat \<Rightarrow> nat \<Rightarrow> stellar_err + int"
  hz_reload :: "nat \<Rightarrow> nat \<Rightarrow> stellar_err + int"
  hz_build :: "stellar_tx \<Rightarrow> stellar_err option"
  hz_submit :: "stellar_tx \<Rightarrow> nat \<Rightarrow> nat \<Rightarrow> nat \<Rightarrow> stellar_err + string"

record batch_result =
  br_txHash :: string
  br_recipients :: "recipient list"
  br_success :: bool
  br_error :: "string option"

text \<open>The options: a sequence store or none, and the number of retries after a bad sequence.\<close>

record payout_options =
  po_sequenceStore :: bool
  po_maxBadSeqRetries :: nat

text \<open>One pass through the \<open>try\<close> block: the hash or the error caught, the transaction handed to
  Horizon if there was one, and the sequence store.\<close>

definition attempt_batch ::
  "horizon \<Rightarrow> payout_options \<Rightarrow> string \<Rightarrow> string \<Rightarrow> nat \<Rightarrow> nat \<Rightarrow> recipient list \<Rightarrow> rstore \<Rightarrow>
     (stellar_err + string) \<times> stellar_tx list \<times> rstore" where
  "attempt_batch hz opts p challengeId i attempts batch st =
     (case (if po_sequenceStore opts
            then bind_r (reserveSequence 0 p (hz_load hz i attempts) st)
                   (\<lambda>(rv, st1). Inr (rv_accountSequence rv, st1))
            else bind_r (hz_load hz i attempts) (\<lambda>n. Inr (n, st))) of
        Inl e \<Rightarrow> (Inl e, [], st)
      | Inr (n, st1) \<Rightarrow>
          let tx = \<lparr>tx_accountSequence = n, tx_memo = buildPayoutMemo challengeId i, tx_operations = batch\<rparr>
          in case hz_build hz tx of
               Some e \<Rightarrow> (Inl e, [], st1)
             | None \<Rightarrow> (withRetry (hz_submit hz tx i attempts) 5, [tx], st1))"

text \<open>The \<open>while\<close> loop of a batch, \<open>left\<close> being \<open>maxBadSeqRetries - attempts\<close>. An error of the
  reset inside the \<open>catch\<close> block leaves \<open>submitBatchPayout\<close>. The result carries the transactions
  handed to Horizon.\<close>

fun run_batch ::
  "horizon \<Rightarrow> payout_options \<Rightarrow> string \<Rightarrow> string \<Rightarrow> nat \<Rightarrow> recipient list \<Rightarrow> nat \<Rightarrow> nat \<Rightarrow> rstore \<Rightarrow>
     (stellar_err + batch_result) \<times> stellar_tx list \<times> rstore" where
  "run_batch hz opts p challengeId i batch left attempts st =
     (case attempt_batch hz opts p challengeId i attempts batch st of
        (Inr h, txs, st1) \<Rightarrow>
          (Inr \<lparr>br_txHash = h, br_recipients = batch, br_success = True, br_error = None\<rparr>, txs, st1)
      | (Inl e, txs, st1) \<Rightarrow>
          if po_sequenceStore opts \<and> isBadSequenceError e \<and> 0 < left then
            (case resetSequence p (hz_reload hz i attempts) st1 of
               Inl e' \<Rightarrow> (Inl e', txs, st1)
             | Inr (_, st2) \<Rightarrow>
                 (case run_batch hz opts p challengeId i batch (left - 1) (attempts + 1) st2 of
                    (r, txs', st3) \<Rightarrow> (r, txs @ txs', st3)))
          else (Inr \<lparr>br_txHash = [], br_recipients = batch, br_success = False,
                     br_error = Some (se_message e)\<rparr>, txs, st1))"

declare run_batch.simps [simp del]

fun run_batches ::
  "horizon \<Rightarrow> payout_options \<Rightarrow> string \<Rightarrow> string \<Rightarrow> nat \<Rightarrow> recipient list list \<Rightarrow> rstore \<Rightarrow>
     (stellar_err + batch_result list) \<times> stellar_tx list \<times> rstore" where
  "run_batches hz opts p challengeId i [] st = (Inr [], [], st)"
| "run_batches hz opts p challengeId i (b # bs) st =
     (case run_batch hz opts p challengeId i b (po_maxBadSeqRetries opts) 0 st of
        (Inl e, txs, st1) \<Rightarrow> (Inl e, txs, st1)
      | (Inr r, txs, st1) \<Rightarrow>
          (case run_batches hz opts p challengeId (i + 1) bs st1 of
             (Inl e, txs', st2) \<Rightarrow> (Inl e, txs @ txs', st2)
           | (Inr rs, txs', st2) \<Rightarrow> (Inr (r # rs), txs @ txs', st2)))"

definition submitBatchPayout ::
  "horizon \<Rightarrow> payout_options \<Rightarrow> string \<Rightarrow> string \<Rightarrow> string \<Rightarrow> recipient list \<Rightarrow> rstore \<Rightarrow>
     (stellar_err + batch_result list) \<times> stellar_tx list \<times> rstore" where
  "submitBatchPayout hz opts network publicKey challengeId recipients st =
     (let p = buildSequenceKeyPrefix network publicKey;
          validRecipients = filter (\<lambda>r. getInvalidRecipientReason r = None) recipients
      in if recipients = [] \<or> validRecipients = [] then (Inr [], [], st)
         else run_batches hz opts p challengeId 0 (chunkArray validRecipients MAX_OPS_PER_TX) st)"

section \<open>Fee bumps\<close>

definition js_stellar_err :: "string \<Rightarrow> stellar_err" where
  "js_stellar_err m = \<lparr>se_message = m, se_status = None, se_txCode = None, se_code = None,
     se_name = None, se_retryExhausted = False\<rparr>"

text \<open>\<open>detail\<close> is the outcome of each lookup of the original transaction (its envelope, or nothing),
  \<open>decode\<close> the SDK's reading of an envelope as its inner transaction, if it has one, and \<open>submit\<close> the
  outcome of each submission of the inner transaction under a new maximal fee.\<close>

definition feeBumpTransaction ::
  "(nat \<Rightarrow> stellar_err + string option) \<Rightarrow> (string \<Rightarrow> stellar_err + 'i option) \<Rightarrow>
   ('i \<Rightarrow> int \<Rightarrow> nat \<Rightarrow> stellar_err + string) \<Rightarrow> string \<Rightarrow> int \<Rightarrow> stellar_err + string \<times> string" where
  "feeBumpTransaction detail decode submit originalTxHash newMaxFeeStroops =
     (case withRetry detail 3 of
        Inl e \<Rightarrow> Inl (js_stellar_err (''Failed to retrieve original transaction '' @ originalTxHash @ '': '' @ se_message e))
      | Inr None \<Rightarrow> Inl (js_stellar_err (''Transaction '' @ originalTxHash @ '' not found on Stellar''))
      | Inr (Some xdr) \<Rightarrow>
          (case decode xdr of
             Inl e \<Rightarrow> Inl (js_stellar_err (''Failed to decode transaction XDR: '' @ se_message e))
           | Inr None \<Rightarrow> Inl (js_stellar_err ''Could not extract inner transaction from envelope'')
           | Inr (Some inner) \<Rightarrow>
               bind_r (withRetry (submit inner newMaxFeeStroops) 5) (\<lambda>h. Inr (originalTxHash, h))))"

section \<open>Lemmas on batches\<close>

lemma concat_chunk_from: "0 < sz \<Longrightarrow> concat (chunk_from xs sz i) = drop i xs"
proof (induction xs sz i rule: chunk_from.induct)
  case (1 xs sz i)
  show ?case
  proof (cases "i < length xs")
    case True
    then have "concat (chunk_from xs sz i) = take sz (drop i xs) @ drop (i + sz) xs"
      using 1 by (simp add: chunk_from.simps [of xs sz i])
    then show ?thesis by (metis append_take_drop_id drop_drop add.commute)
  qed (simp add: chunk_from.simps [of xs sz i])
qed

lemma chunk_from_sizes: "c \<in> set (chunk_from xs sz i) \<Longrightarrow> c \<noteq> [] \<and> length c \<le> sz"
proof (induction xs sz i rule: chunk_from.induct)
  case (1 xs sz i)
  from 1(2) have "i < length xs \<and> 0 < sz" by (auto simp: chunk_from.simps [of xs sz i] split: if_splits)
  with 1 show ?case by (auto simp: chunk_from.simps [of xs sz i])
qed

lemma length_chunk_from: "0 < sz \<Longrightarrow> length (chunk_from xs sz i) * sz < length xs - i + sz"
proof (induction xs sz i rule: chunk_from.induct)
  case (1 xs sz i)
  show ?case
  proof (cases "i + sz < length xs")
    case True
    with 1 show ?thesis by (simp add: chunk_from.simps [of xs sz i])
  next
    case False
    then have "chunk_from xs sz (i + sz) = []" by (simp add: chunk_from.simps [of xs sz "i + sz"])
    with 1(2) show ?thesis by (cases "i < length xs") (simp_all add: chunk_from.simps [of xs sz i])
  qed
qed

lemma length_buildPayoutMemo: "i < 10000 \<Longrightarrow> length (buildPayoutMemo c i) \<le> 28"
  using length_string_of_nat [of i 3] by (simp add: buildPayoutMemo_def)

lemma attempt_batch_spec:
  assumes "attempt_batch hz opts p c i a batch st = (r, txs, st')"
  shows "length txs \<le> 1" "\<forall>tx \<in> set txs. tx_operations tx = batch \<and> tx_memo tx = buildPayoutMemo c i"
    "r = Inr h \<Longrightarrow> \<exists>tx \<in> set txs. \<exists>k < 5. hz_submit hz tx i a k = Inr h"
  using assms
  by (auto simp: attempt_batch_def Let_def withRetry_def dest!: retry_from_Inr
      split: sum.splits prod.splits option.splits if_splits)

lemma run_batch_spec:
  "run_batch hz opts p c i batch left a st = (Inr r, txs, st') \<Longrightarrow>
   br_recipients r = batch \<and> length txs \<le> left + 1 \<and>
   (\<forall>tx \<in> set txs. tx_operations tx = batch \<and> tx_memo tx = buildPayoutMemo c i) \<and>
   (br_success r \<longrightarrow> (\<exists>tx \<in> set txs. \<exists>a k. hz_submit hz tx i a k = Inr (br_txHash r)))"
proof (induction left arbitrary: a st txs)
  case 0
  obtain x txs1 st1 where a: "attempt_batch hz opts p c i a batch st = (x, txs1, st1)" by (metis prod_cases3)
  show ?case using 0 attempt_batch_spec [OF a] unfolding run_batch.simps [of hz opts p c i batch 0] a
    by (cases x) fastforce+
next
  case (Suc left)
  obtain x txs1 st1 where a: "attempt_batch hz opts p c i a batch st = (x, txs1, st1)" by (metis prod_cases3)
  note spec = attempt_batch_spec [OF a]
  note unf = Suc.prems [unfolded run_batch.simps [of hz opts p c i batch "Suc left"] a]
  show ?case
  proof (cases "\<exists>e st2. x = Inl e \<and> po_sequenceStore opts \<and> isBadSequenceError e \<and>
      (\<exists>b. resetSequence p (hz_reload hz i a) st1 = Inr (b, st2))")
    case True
    then obtain e st2 b where e: "x = Inl e" "po_sequenceStore opts" "isBadSequenceError e"
      "resetSequence p (hz_reload hz i a) st1 = Inr (b, st2)" by blast
    obtain r' txs2 st3 where m: "run_batch hz opts p c i batch left (a + 1) st2 = (r', txs2, st3)"
      by (metis prod_cases3)
    have "r' = Inr r" "txs = txs1 @ txs2" "st3 = st'" using unf e m by simp_all
    with Suc.IH [of "a + 1" st2 txs2] m spec(1,2) show ?thesis by auto
  next
    case False
    with unf spec show ?thesis
      by (cases x) (fastforce split: if_splits sum.splits prod.splits)+
  qed
qed

text \<open>The results of a run are the batches in order, every transaction pays one batch under its memo,
  and a batch reported as paid was accepted by Horizon.\<close>

lemma run_batches_spec:
  "run_batches hz opts p c i bs st = (Inr rs, txs, st') \<Longrightarrow>
   map br_recipients rs = bs \<and> length txs \<le> (po_maxBadSeqRetries opts + 1) * length bs \<and>
   (\<forall>tx \<in> set txs. \<exists>j < length bs. tx_operations tx = bs ! j \<and> tx_memo tx = buildPayoutMemo c (i + j)) \<and>
   (\<forall>j < length bs. br_success (rs ! j) \<longrightarrow> (\<exists>tx \<in> set txs. tx_operations tx = bs ! j \<and>
      (\<exists>a k. hz_submit hz tx (i + j) a k = Inr (br_txHash (rs ! j)))))"
proof (induction bs arbitrary: i st rs txs)
  case (Cons b bs)
  obtain x txs1 st1 where b: "run_batch hz opts p c i b (po_maxBadSeqRetries opts) 0 st = (x, txs1, st1)"
    by (metis prod_cases3)
  obtain y txs2 st2 where bs: "run_batches hz opts p c (i + 1) bs st1 = (y, txs2, st2)" by (metis prod_cases3)
  obtain r rs' where r: "x = Inr r" "y = Inr rs'" "rs = r # rs'" "txs = txs1 @ txs2" "st2 = st'"
    using Cons.prems b bs by (auto split: sum.splits)
  note one = run_batch_spec [OF b [unfolded r(1)]]
  note rest = Cons.IH [OF bs [unfolded r(2,5)]]
  have "\<exists>j < length (b # bs). tx_operations tx = (b # bs) ! j \<and> tx_memo tx = buildPayoutMemo c (i + j)"
    if "tx \<in> set txs" for tx
  proof (cases "tx \<in> set txs1")
    case True
    with one show ?thesis by (intro exI [of _ 0]) simp
  next
    case False
    with that r(4) rest obtain j where "j < length bs" "tx_operations tx = bs ! j"
      "tx_memo tx = buildPayoutMemo c (i + 1 + j)" by auto
    then show ?thesis by (intro exI [of _ "Suc j"]) simp
  qed
  moreover have "\<exists>tx \<in> set txs. tx_operations tx = (b # bs) ! j \<and>
      (\<exists>a k. hz_submit hz tx (i + j) a k = Inr (br_txHash (rs ! j)))"
    if "j < length (b # bs)" "br_success (rs ! j)" for j
  proof (cases j)
    case 0
    with that one r show ?thesis by auto
  next
    case (Suc m)
    with that rest r have "\<exists>tx \<in> set txs2. tx_operations tx = bs ! m \<and>
      (\<exists>a k. hz_submit hz tx (i + 1 + m) a k = Inr (br_txHash (rs' ! m)))" by simp
    with r Suc show ?thesis by auto
  qed
  ultimately show ?case using one rest r by simp
qed simp

text \<open>Whether or not the run is cut short by an exception, every transaction it handed to Horizon pays
  recipients that passed validation.\<close>

lemma run_batch_txs: "tx \<in> set (fst (snd (run_batch hz opts p c i batch left a st))) \<Longrightarrow> tx_operations tx = batch"
proof (induction left arbitrary: a st)
  case 0
  obtain x txs1 st1 where a: "attempt_batch hz opts p c i a batch st = (x, txs1, st1)" by (metis prod_cases3)
  show ?case using 0 attempt_batch_spec(2) [OF a] unfolding run_batch.simps [of hz opts p c i batch 0] a
    by (cases x) auto
next
  case (Suc left)
  obtain x txs1 st1 where a: "attempt_batch hz opts p c i a batch st = (x, txs1, st1)" by (metis prod_cases3)
  note unf = Suc.prems [unfolded run_batch.simps [of hz opts p c i batch "Suc left"] a]
  show ?case
  proof (cases "tx \<in> set txs1")
    case True
    with attempt_batch_spec(2) [OF a] show ?thesis by blast
  next
    case False
    then obtain st2 where "tx \<in> set (fst (snd (run_batch hz opts p c i batch left (a + 1) st2)))"
      using unf by (auto simp: case_prod_beta split: sum.splits if_splits)
    then show ?thesis by (rule Suc.IH)
  qed
qed

lemma run_batches_txs:
  "tx \<in> set (fst (snd (run_batches hz opts p c i bs st))) \<Longrightarrow> tx_operations tx \<in> set bs"
proof (induction bs arbitrary: i st)
  case (Cons b bs)
  obtain x txs1 st1 where b: "run_batch hz opts p c i b (po_maxBadSeqRetries opts) 0 st = (x, txs1, st1)"
    by (metis prod_cases3)
  obtain y txs2 st2 where bs: "run_batches hz opts p c (i + 1) bs st1 = (y, txs2, st2)" by (metis prod_cases3)
  have "tx_operations tx = b" if "tx \<in> set txs1"
    using run_batch_txs [of tx hz opts p c i b "po_maxBadSeqRetries opts" 0 st] that by (simp add: b)
  moreover have "tx_operations tx \<in> set bs" if "tx \<in> set txs2"
    using Cons.IH [of "i + 1" st1, unfolded bs] that by simp
  ultimately show ?case using Cons.prems [unfolded run_batches.simps b prod.case bs] by (auto split: sum.splits)
qed simp

lemma submitBatchPayout_txs:
  assumes "tx \<in> set (fst (snd (submitBatchPayout hz opts n pk c rs st)))" and "rc \<in> set (tx_operations tx)"
  shows "rc \<in> set rs \<and> getInvalidRecipientReason rc = None"
proof -
  let ?v = "filter (\<lambda>r. getInvalidRecipientReason r = None) rs"
  have "tx_operations tx \<in> set (chunkArray ?v MAX_OPS_PER_TX)"
    using assms(1) by (auto simp: submitBatchPayout_def Let_def split: if_splits dest: run_batches_txs)
  then have "rc \<in> set (concat (chunkArray ?v MAX_OPS_PER_TX))" using assms(2) by auto
  then show ?thesis by (simp add: chunkArray_def concat_chunk_from MAX_OPS_PER_TX_def)
qed

section \<open>Properties\<close>

text \<open>(C30) A batch payout reports every valid recipient in exactly one batch, in order, and no other:
  the batches of the results concatenate to the valid recipients, each has between one and fifty
  payments, every transaction handed to Horizon pays exactly one of them under a memo of at most 28
  bytes, at most one transaction more per batch is built than bad-sequence retries are allowed, and a
  batch reported as successful carries the hash of a transaction for that batch that Horizon
  accepted.\<close>

theorem batch_payout_partition:
  assumes "submitBatchPayout hz opts network publicKey challengeId recipients st = (Inr rs, txs, st')"
  shows "concat (map br_recipients rs) = filter (\<lambda>r. getInvalidRecipientReason r = None) recipients \<and>
    (\<forall>r \<in> set rs. br_recipients r \<noteq> [] \<and> length (br_recipients r) \<le> 50) \<and>
    (\<forall>tx \<in> set txs. \<exists>r \<in> set rs. tx_operations tx = br_recipients r) \<and>
    (length recipients \<le> 500000 \<longrightarrow> (\<forall>tx \<in> set txs. length (tx_memo tx) \<le> 28)) \<and>
    length txs \<le> (po_maxBadSeqRetries opts + 1) * length rs \<and>
    (\<forall>r \<in> set rs. br_success r \<longrightarrow> (\<exists>tx \<in> set txs. tx_operations tx = br_recipients r \<and>
       (\<exists>i a k. hz_submit hz tx i a k = Inr (br_txHash r))))"
proof -
  let ?v = "filter (\<lambda>r. getInvalidRecipientReason r = None) recipients"
  let ?c = "chunkArray ?v MAX_OPS_PER_TX"
  show ?thesis
  proof (cases "?v = []")
    case True
    then show ?thesis using assms unfolding submitBatchPayout_def Let_def by simp
  next
    case False
    then have "run_batches hz opts (buildSequenceKeyPrefix network publicKey) challengeId 0 ?c st = (Inr rs, txs, st')"
      using assms by (cases "recipients = []") (auto simp: submitBatchPayout_def Let_def)
    note run = run_batches_spec [OF this]
    have rs: "map br_recipients rs = ?c" using run by blast
    have len: "length rs = length ?c" using arg_cong [OF rs, of length] by simp
    have nth: "br_recipients (rs ! j) = ?c ! j" if "j < length ?c" for j
      using that rs len by (metis nth_map)
    have "concat ?c = ?v" by (simp add: chunkArray_def concat_chunk_from MAX_OPS_PER_TX_def)
    moreover have "c \<noteq> [] \<and> length c \<le> 50" if "c \<in> set ?c" for c
      using that chunk_from_sizes [of c ?v 50 0] by (simp add: chunkArray_def MAX_OPS_PER_TX_def)
    then have "\<forall>r \<in> set rs. br_recipients r \<noteq> [] \<and> length (br_recipients r) \<le> 50"
      unfolding rs [symmetric] by simp
    moreover have "\<forall>tx \<in> set txs. \<exists>r \<in> set rs. tx_operations tx = br_recipients r"
    proof
      fix tx assume "tx \<in> set txs"
      with run obtain j where "j < length ?c" "tx_operations tx = ?c ! j" by blast
      with nth len show "\<exists>r \<in> set rs. tx_operations tx = br_recipients r" by (metis nth_mem)
    qed
    moreover have "length ?c < 10001" if "length recipients \<le> 500000"
    proof -
      have "length ?v \<le> 500000" using that length_filter_le [of _ recipients] order_trans by blast
      with length_chunk_from [of 50 ?v 0] show ?thesis by (simp add: chunkArray_def MAX_OPS_PER_TX_def)
    qed
    then have "length recipients \<le> 500000 \<longrightarrow> (\<forall>tx \<in> set txs. length (tx_memo tx) \<le> 28)"
      using run length_buildPayoutMemo by fastforce
    moreover have "\<exists>tx \<in> set txs. tx_operations tx = br_recipients r \<and>
       (\<exists>i a k. hz_submit hz tx i a k = Inr (br_txHash r))" if "r \<in> set rs" "br_success r" for r
    proof -
      obtain j where "j < length ?c" "r = rs ! j" using \<open>r \<in> set rs\<close> len by (metis in_set_conv_nth)
      with run nth that(2) show ?thesis by fastforce
    qed
    ultimately show ?thesis using run rs len by simp
  qed
qed


definition demo_recipients :: "recipient list" where
  "demo_recipients = [\<lparr>rc_address = ''GA'', rc_amount = ''10.5''\<rparr>, \<lparr>rc_address = [], rc_amount = ''3''\<rparr>,
     \<lparr>rc_address = ''GB'', rc_amount = ''0''\<rparr>, \<lparr>rc_address = ''GC'', rc_amount = ''2''\<rparr>]"

definition demo_horizon :: horizon where
  "demo_horizon = \<lparr>hz_load = (\<lambda>_ _. Inr 41), hz_reload = (\<lambda>_ _. Inr 57), hz_build = (\<lambda>_. None),
     hz_submit = (\<lambda>tx _ a _. if a = 0
        then Inl \<lparr>se_message = ''failed'', se_status = Some 400, se_txCode = Some ''tx_bad_seq'',
                  se_code = None, se_name = None, se_retryExhausted = False\<rparr>
        else Inr (''h'' @ string_of_int (tx_accountSequence tx)))\<rparr>"

definition demo_payout :: "(stellar_err + batch_result list) \<times> stellar_tx list \<times> rstore" where
  "demo_payout = submitBatchPayout demo_horizon \<lparr>po_sequenceStore = True, po_maxBadSeqRetries = 1\<rparr>
     ''testnet'' ''GH'' ''c-1'' demo_recipients Map.empty"

definition demo_batch :: "recipient list" where
  "demo_batch = [\<lparr>rc_address = ''GA'', rc_amount = ''10.5''\<rparr>, \<lparr>rc_address = ''GC'', rc_amount = ''2''\<rparr>]"

definition demo_result :: batch_result where
  "demo_result = \<lparr>br_txHash = ''h57'', br_recipients = demo_batch, br_success = True, br_error = None\<rparr>"

definition demo_txs :: "stellar_tx list" where
  "demo_txs = [\<lparr>tx_accountSequence = 41, tx_memo = ''bb-c1-0'', tx_operations = demo_batch\<rparr>,
     \<lparr>tx_accountSequence = 57, tx_memo = ''bb-c1-0'', tx_operations = demo_batch\<rparr>]"

lemma demo_payout_run: "fst demo_payout = Inr [demo_result]" "fst (snd demo_payout) = demo_txs"
  by code_simp+

theorem batch_payout_partition_witness:
  "fst demo_payout = Inr [demo_result] \<and>
   concat (map br_recipients [demo_result]) =
     filter (\<lambda>r. getInvalidRecipientReason r = None) demo_recipients \<and>
   list_all (\<lambda>tx. length (tx_memo tx) \<le> 28) demo_txs"
proof -
  have "demo_payout = (Inr [demo_result], demo_txs, snd (snd demo_payout))"
    using demo_payout_run by (metis prod.collapse)
  note p = batch_payout_partition [OF trans [OF demo_payout_def [symmetric] this]]
  have "length demo_recipients \<le> 500000" by (simp add: demo_recipients_def)
  with p demo_payout_run(1) show ?thesis unfolding list_all_iff by blast
qed


lemma decimal_value_stroops:
  assumes "length f \<le> 7"
  shows "decimal_value w f * 10000000 =
    of_nat (nat_of_string w * 10000000 + nat_of_string (padEnd 7 CHR ''0'' f))"
proof -
  have "(10 :: rat) ^ 7 = 10 ^ length f * 10 ^ (7 - length f)" using assms by (simp flip: power_add)
  then have e: "(10000000 :: rat) / 10 ^ length f = 10 ^ (7 - length f)" by (simp add: field_simps)
  have "decimal_value w f * 10000000 = of_nat (nat_of_string (w @ f)) * (10000000 / 10 ^ length f)"
    by (simp add: decimal_value_def)
  also have "\<dots> = of_nat (nat_of_string w) * (10 ^ length f * 10 ^ (7 - length f))
      + of_nat (nat_of_string f * 10 ^ (7 - length f))"
    unfolding e by (simp add: nat_of_string_append algebra_simps)
  also have "(10 :: rat) ^ length f * 10 ^ (7 - length f) = 10000000"
    using \<open>10 ^ 7 = _\<close> by simp
  finally show ?thesis by (simp add: nat_of_string_padEnd)
qed

text \<open>Both roundings together move the product by less than one.\<close>

lemma two_roundings:
  assumes "x * 10000000 = of_nat k" and "k < 2 ^ 51"
  shows "\<bar>nmult (fl x) 10000000 - of_nat k\<bar> < 1" "fl x \<le> 2 * of_nat k"
proof -
  have x: "0 \<le> x" using assms(1) by (metis of_nat_0_le_iff zero_le_mult_iff zero_less_numeral not_less le_less)
  let ?K = "of_nat k :: rat" and ?y = "fl x * 10000000"
  have k: "?K < 2 ^ 51" using assms(2) by (metis of_nat_less_iff of_nat_numeral of_nat_power)
  have e1: "\<bar>?y - ?K\<bar> \<le> ?K / 2 ^ 53"
  proof -
    have "\<bar>?y - ?K\<bar> = \<bar>fl x - x\<bar> * 10000000" using assms(1) by (simp add: abs_if algebra_simps)
    also have "\<dots> \<le> x / 2 ^ 53 * 10000000" using fl_error [OF x] by (rule mult_right_mono) simp
    finally show ?thesis using assms(1) by simp
  qed
  have y: "0 \<le> ?y" by simp
  have e2: "\<bar>fl ?y - ?y\<bar> \<le> ?y / 2 ^ 53" by (rule fl_error [OF y])
  have "?K / 2 ^ 53 \<le> ?K" by simp
  then have "?y \<le> 2 * ?K" using e1 by linarith
  then have "?y / 2 ^ 53 \<le> 2 * ?K / 2 ^ 53" by (rule divide_right_mono) simp
  with e1 e2 have "\<bar>fl ?y - ?K\<bar> \<le> 3 * ?K / 2 ^ 53" by linarith
  also have "\<dots> < 1" using k by simp
  finally show "\<bar>nmult (fl x) 10000000 - ?K\<bar> < 1" by (simp add: nmult_def)
  show "fl x \<le> 2 * ?K" using \<open>?y \<le> 2 * ?K\<close> fl_nonneg [of x] by simp
qed

text \<open>The two conversions from USDC to stroops agree up to one stroop: for every decimal with at
  most seven places below \<open>2 ^ 51\<close> stroops, the float conversion of the Stellar package returns the
  exact amount or one stroop less.\<close>

theorem conversions_agree:
  assumes "match_decimal (trim a) = Some (False, w, f)" and "length f \<le> 7"
    and "k = nat_of_string w * 10000000 + nat_of_string (padEnd 7 CHR ''0'' f)" and "k < 2 ^ 51"
  shows "usdcToStroops (trim a) = Inr (string_of_nat k) \<and>
    (stellar_usdcToStroops a = Inr (int k) \<or> stellar_usdcToStroops a = Inr (int k - 1))"
proof -
  have "decimal_value w f * 10000000 = of_nat k" using decimal_value_stroops [OF assms(2)] assms(3) by simp
  note r = two_roundings [OF this assms(4)]
  let ?s = "nmult (fl (decimal_value w f)) 10000000"
  have k: "(of_nat k :: rat) < 2 ^ 51" using assms(4) by (metis of_nat_less_iff of_nat_numeral of_nat_power)
  have fl: "\<lfloor>?s\<rfloor> = int k \<or> \<lfloor>?s\<rfloor> = int k - 1"
  proof (cases "of_nat k \<le> ?s")
    case True
    then have "\<lfloor>?s\<rfloor> = int k" using r(1) by (intro floor_unique) (simp_all add: abs_less_iff)
    then show ?thesis ..
  next
    case False
    then have "\<lfloor>?s\<rfloor> = int k - 1" using r(1) by (intro floor_unique) (simp_all add: abs_less_iff)
    then show ?thesis ..
  qed
  have big: "\<not> 2 ^ 1024 \<le> \<lfloor>fl (decimal_value w f)\<rfloor>" "\<not> 2 ^ 1024 \<le> \<lfloor>?s\<rfloor>"
    using r k by (simp_all add: le_floor_iff abs_less_iff)
  have small: "\<not> MAX_SUPPLY_STROOPS < \<lfloor>?s\<rfloor>" 
  proof -
    have "k < 2251799813685248" using assms(4) by simp
    with fl show ?thesis unfolding MAX_SUPPLY_STROOPS_def by (elim disjE) linarith+
  qed
  have ne: "trim a \<noteq> []" using assms(1) by (auto simp: match_decimal_def)
  have "stellar_usdcToStroops a = Inr \<lfloor>?s\<rfloor>"
    unfolding stellar_usdcToStroops_def Let_def assms(1) using big small ne by simp
  moreover have "match_usdc (trim a) = Some (w, f)"
    using assms(1,2) by (auto simp: match_decimal_def match_usdc_def Let_def simp del: dropWhile_eq_Nil_conv
        split: if_splits list.splits)
  then have "usdcToStroops (trim a) = Inr (string_of_nat k)"
    using assms(3) string_of_int_of_nat [of k] by (simp add: usdcToStroops_def Let_def STROOPS_PER_USDC_def)
  ultimately show ?thesis using fl by auto
qed

theorem conversions_agree_witness:
  "usdcToStroops (trim '' 19.99'') = Inr (string_of_nat 199900000) \<and>
   stellar_usdcToStroops '' 19.99'' = Inr 199899999 \<and>
   (stellar_usdcToStroops '' 19.99'' = Inr (int 199900000) \<or> stellar_usdcToStroops '' 19.99'' = Inr (int 199900000 - 1))"
proof -
  have m: "match_decimal (trim '' 19.99'') = Some (False, ''19'', ''99'')" by code_simp
  have "padEnd 7 CHR ''0'' ''99'' = ''9900000''" by (simp add: padEnd_def numeral_eq_Suc)
  then have k: "199900000 = nat_of_string ''19'' * 10000000 + nat_of_string (padEnd 7 CHR ''0'' ''99'')"
    by (simp add: nat_of_string_def digit_val_def)
  have "length ''99'' \<le> 7" "(199900000 :: nat) < 2 ^ 51" by simp_all
  note agree = conversions_agree [OF m this(1) k this(2)]
  have d: "decimal_value ''19'' ''99'' = 1999 / 100"
    by (simp add: decimal_value_def nat_of_string_def digit_val_def)
  have e: "\<lfloor>fl (1999 / 100)\<rfloor> = 19" "\<lfloor>nmult (fl (1999 / 100)) 10000000\<rfloor> = 199899999"
    and t: "trim '' 19.99'' \<noteq> []" by code_simp+
  have "stellar_usdcToStroops '' 19.99'' = Inr 199899999"
    unfolding stellar_usdcToStroops_def Let_def m option.case prod.case d e MAX_SUPPLY_STROOPS_def
    using t by simp
  with agree show ?thesis by blast
qed

end
