(* ===== verification/Money_Db.thy ===== *)
theory Money_Db
  imports Notifications Stellar_Payout
begin

text \<open>
  The tables behind payouts and their statements: \<open>payouts\<close> (\<open>db/queries/payouts.ts\<close>),
  \<open>referrals\<close> and \<open>referral_payouts\<close> (\<open>db/queries/referrals.ts\<close>, \<open>referral-payouts.ts\<close>),
  challenge licences (\<open>challenge-licenses.ts\<close>), the status of a challenge (\<open>challenges.ts\<close>) and a
  user's earnings (\<open>users.ts\<close>), with the job queues the services add to. The state \<open>bank\<close> holds
  the game service's state and these tables. The trigger of migration 031 rejects a payout for a
  flagged session.
\<close>

datatype payout_status =
  PPending | PProcessing | PSent | PConfirmed | PFailed | PFeeBumpPending | PFeeBumpFailed | PCompleted

record payout_row =
  pw_id :: string
  pw_challenge :: string
  pw_user :: string
  pw_address :: string
  pw_amount :: int
  pw_tx :: "string option"
  pw_error :: "string option"
  pw_status :: payout_status
  pw_created :: int
  pw_bumps :: nat
  pw_bump_fee :: "int option"
  pw_original_tx :: "string option"

record referral_row =
  rf_id :: string
  rf_referrer :: string
  rf_referred :: string
  rf_rewarded :: bool

record referral_payout_row =
  rp_id :: string
  rp_referral :: string
  rp_challenge :: "string option"
  rp_referrer :: string
  rp_referred :: string
  rp_referrer_address :: "string option"
  rp_referred_address :: "string option"
  rp_referrer_amount :: int
  rp_referred_amount :: int
  rp_status :: payout_status
  rp_tx :: "string option"
  rp_error :: string

record license_row =
  li_id :: string
  li_licensor :: string
  li_fee_bps :: int

text \<open>Beside the tables: \<open>challenge_license\<close> and \<open>brand_owner\<close> are the columns
  \<open>challenges.challenge_license_id\<close> and \<open>brands.owner_user_id\<close>, \<open>tier_pool\<close> is
  \<open>challenge_tiers.prize_pool_stroops\<close>, \<open>earned\<close> is \<open>users.total_earned_usdc\<close> in stroops,
  \<open>preferences\<close> is \<open>notification_preferences\<close>, \<open>referral_code\<close> and
  \<open>vanity_slug\<close> are the columns of \<open>users\<close>. \<open>submitted\<close> are the transactions handed to Horizon.\<close>

record bank =
  game :: app
  payouts :: "payout_row list"
  referrals :: "referral_row list"
  referral_payouts :: "referral_payout_row list"
  licenses :: "license_row list"
  challenge_license :: "string \<Rightarrow> string option"
  brand_owner :: "string \<Rightarrow> string option"
  tier_pool :: "string \<Rightarrow> int"
  earned :: "string \<Rightarrow> int"
  preferences :: "string \<Rightarrow> string \<Rightarrow> bool option"
  referral_code :: "string \<Rightarrow> string option"
  vanity_slug :: "string \<Rightarrow> string option"
  payout_jobs :: "string list"
  refresh_jobs :: "string list"
  bonus_jobs :: "string list"
  submitted :: "stellar_tx list"

definition blank_bank :: "app \<Rightarrow> bank" where
  "blank_bank a = \<lparr>game = a, payouts = [], referrals = [], referral_payouts = [], licenses = [],
     challenge_license = (\<lambda>_. None), brand_owner = (\<lambda>_. None), tier_pool = (\<lambda>_. 0), earned = (\<lambda>_. 0),
     preferences = (\<lambda>_ _. None), referral_code = (\<lambda>_. None), vanity_slug = (\<lambda>_. None), payout_jobs = [], refresh_jobs = [],
     bonus_jobs = [], submitted = []\<rparr>"

section \<open>Payouts\<close>

definition FRAUD_BLOCK_SENTINEL :: string where "FRAUD_BLOCK_SENTINEL = ''FRAUD_BLOCKED_PAYOUT''"

definition isFraudBlockError :: "exn \<Rightarrow> bool" where
  "isFraudBlockError e \<longleftrightarrow> includes_at (err_message e) FRAUD_BLOCK_SENTINEL"

definition fraud_block :: "bank \<Rightarrow> string \<Rightarrow> string \<Rightarrow> bool" where
  "fraud_block b cid uid \<longleftrightarrow> (\<exists>s \<in> set (sessions (game b)). same_slot uid cid s \<and> gs_flagged s)"

definition payout_slot :: "string \<Rightarrow> string \<Rightarrow> payout_row \<Rightarrow> bool" where
  "payout_slot cid uid p \<longleftrightarrow> pw_challenge p = cid \<and> pw_user p = uid"

text \<open>The amount is given in stroops or as a USDC decimal; the row is inserted, or the existing one
  of the same challenge and user updated: a failed payout becomes pending again, every other status
  stays.\<close>

definition createPayout ::
  "string \<Rightarrow> int \<Rightarrow> string \<Rightarrow> string \<Rightarrow> string \<Rightarrow> int option \<Rightarrow> string option \<Rightarrow> bank \<Rightarrow>
     (exn + payout_row) \<times> bank" where
  "createPayout fresh now cid uid address stroops usdc b =
     (case (case stroops of
              Some n \<Rightarrow> Inr n
            | None \<Rightarrow> (case usdc of
                 None \<Rightarrow> Inl (js_error ''Payout amount is required'')
               | Some s \<Rightarrow> bind_r (usdcToStroops s) (\<lambda>t. Inr (int (nat_of_string t))))) of
        Inl e \<Rightarrow> (Inl e, b)
      | Inr amount \<Rightarrow>
          if fraud_block b cid uid
          then (Inl ((js_error (FRAUD_BLOCK_SENTINEL @ '': session flagged for challenge '' @ cid @ '' user '' @ uid))
                      \<lparr>err_code := Some ''P0001''\<rparr>), b)
          else case find_row (payout_slot cid uid) (payouts b) of
            None \<Rightarrow>
              let row = \<lparr>pw_id = fresh, pw_challenge = cid, pw_user = uid, pw_address = address, pw_amount = amount,
                         pw_tx = None, pw_error = None, pw_status = PPending, pw_created = now, pw_bumps = 0,
                         pw_bump_fee = None, pw_original_tx = None\<rparr>
              in (Inr row, b\<lparr>payouts := payouts b @ [row]\<rparr>)
          | Some old \<Rightarrow>
              let upd = (\<lambda>p. p\<lparr>pw_address := address, pw_amount := amount, pw_error := None,
                        pw_status := (if pw_status p = PFailed then PPending else pw_status p)\<rparr>)
              in (Inr (upd old), b\<lparr>payouts := update_where (payout_slot cid uid) upd (payouts b)\<rparr>))"

definition updatePayoutStatus ::
  "string \<Rightarrow> payout_status \<Rightarrow> string option \<Rightarrow> string option \<Rightarrow> bank \<Rightarrow> bank" where
  "updatePayoutStatus pid status txHash errorMessage b =
     (let t = (case txHash of Some h \<Rightarrow> h \<noteq> [] | None \<Rightarrow> False);
          e = (case errorMessage of Some m \<Rightarrow> m \<noteq> [] | None \<Rightarrow> False)
      in b\<lparr>payouts := update_where (\<lambda>p. pw_id p = pid)
             (\<lambda>p. p\<lparr>pw_status := status, pw_tx := (if t then txHash else pw_tx p),
                    pw_error := (if e then errorMessage else pw_error p)\<rparr>) (payouts b)\<rparr>)"

definition failPayoutsForChallenge :: "string \<Rightarrow> string \<Rightarrow> bank \<Rightarrow> bank" where
  "failPayoutsForChallenge cid errorMessage b =
     b\<lparr>payouts := update_where (\<lambda>p. pw_challenge p = cid \<and> pw_status p \<in> {PPending, PProcessing})
        (\<lambda>p. p\<lparr>pw_status := PFailed, pw_error := Some errorMessage\<rparr>) (payouts b)\<rparr>"

definition getPendingPayouts :: "bank \<Rightarrow> string \<Rightarrow> nat \<Rightarrow> payout_row list" where
  "getPendingPayouts b cid limit =
     take limit (sort_key pw_created (filter (\<lambda>p. pw_challenge p = cid \<and> pw_status p = PPending) (payouts b)))"

definition findPayoutByTxHash :: "bank \<Rightarrow> string \<Rightarrow> payout_row option" where
  "findPayoutByTxHash b h = find_row (\<lambda>p. pw_tx p = Some h) (payouts b)"

definition updatePayoutFeeBumpStatus ::
  "string \<Rightarrow> payout_status \<Rightarrow> int \<Rightarrow> string option \<Rightarrow> bank \<Rightarrow> bank" where
  "updatePayoutFeeBumpStatus pid status feeBumpMaxFee originalTxHash b =
     b\<lparr>payouts := update_where (\<lambda>p. pw_id p = pid)
        (\<lambda>p. p\<lparr>pw_status := status, pw_bumps := pw_bumps p + 1, pw_bump_fee := Some feeBumpMaxFee,
               pw_original_tx := (case pw_original_tx p of None \<Rightarrow> originalTxHash | t \<Rightarrow> t)\<rparr>) (payouts b)\<rparr>"

definition getStuckPayouts :: "bank \<Rightarrow> nat \<Rightarrow> payout_row list" where
  "getStuckPayouts b limit =
     take limit (sort_key pw_created
       (filter (\<lambda>p. pw_status p \<in> {PFailed, PFeeBumpFailed} \<and> pw_bumps p < 3) (payouts b)))"

section \<open>Challenges, licences, earnings and preferences\<close>

definition updateChallengeStatus ::
  "string \<Rightarrow> challenge_status \<Rightarrow> string option \<Rightarrow> string list option \<Rightarrow> bank \<Rightarrow> bank" where
  "updateChallengeStatus cid status depositTx payoutTxHashes b =
     b\<lparr>game := (game b)\<lparr>challenges := update_where (\<lambda>c. ch_id c = cid)
        (\<lambda>c. c\<lparr>ch_status := status,
               ch_deposit_tx := (case depositTx of Some (x # xs) \<Rightarrow> Some (x # xs) | _ \<Rightarrow> ch_deposit_tx c),
               ch_payout_tx := (case depositTx of Some (x # xs) \<Rightarrow> ch_payout_tx c
                                | _ \<Rightarrow> (case payoutTxHashes of Some hs \<Rightarrow> Some hs | None \<Rightarrow> ch_payout_tx c))\<rparr>)
        (challenges (game b))\<rparr>\<rparr>"

definition getEndedBatchedChallenges :: "bank \<Rightarrow> challenge list" where
  "getEndedBatchedChallenges b =
     sort_key ch_created (filter (\<lambda>c. ch_status c = CEnded \<and> ch_batched c \<and> ch_deleted_at c = None)
       (challenges (game b)))"

text \<open>The join of challenge, licence, licensor brand and its owner.\<close>

record license_terms =
  lt_fee_bps :: int
  lt_user :: string
  lt_address :: "string option"

definition getLicensePayoutTerms :: "bank \<Rightarrow> string \<Rightarrow> license_terms option" where
  "getLicensePayoutTerms b cid =
     (if find_row (\<lambda>c. ch_id c = cid) (challenges (game b)) = None then None
      else case challenge_license b cid of
        None \<Rightarrow> None
      | Some lid \<Rightarrow> (case find_row (\<lambda>l. li_id l = lid) (licenses b) of
          None \<Rightarrow> None
        | Some l \<Rightarrow> (case brand_owner b (li_licensor l) of
            None \<Rightarrow> None
          | Some uid \<Rightarrow> (case find_row (\<lambda>u. u_id u = uid) (users (game b)) of
              None \<Rightarrow> None
            | Some u \<Rightarrow> Some \<lparr>lt_fee_bps = li_fee_bps l, lt_user = uid, lt_address = u_stellar_address u\<rparr>))))"

text \<open>The amount is printed by \<open>stroopsToUsdc\<close>, so the cast to \<open>numeric\<close> cannot fail.\<close>

definition incrementUserEarnings :: "string \<Rightarrow> string \<Rightarrow> bank \<Rightarrow> bank" where
  "incrementUserEarnings uid amountUsdc b =
     (case usdcToStroops amountUsdc of
        Inl _ \<Rightarrow> b
      | Inr s \<Rightarrow> if find_row (\<lambda>u. u_id u = uid) (users (game b)) = None then b
                 else b\<lparr>earned := (earned b)(uid := earned b uid + int (nat_of_string s))\<rparr>)"

definition isNotificationCategoryEnabled :: "bank \<Rightarrow> string \<Rightarrow> string \<Rightarrow> bool" where
  "isNotificationCategoryEnabled b uid category =
     (case preferences b uid category of Some e \<Rightarrow> e | None \<Rightarrow> True)"

definition incrementDepositConfirmations ::
  "string \<Rightarrow> int \<Rightarrow> bank \<Rightarrow> (exn + int \<times> bool) \<times> bank" where
  "incrementDepositConfirmations cid required b =
     (let P = (\<lambda>c. ch_id c = cid \<and> ch_status c \<in> {CPendingDeposit, CActive});
          upd = (\<lambda>c. c\<lparr>ch_confirmations := min (ch_confirmations c + 1) required,
                       ch_status := (if required \<le> ch_confirmations c + 1 \<and> ch_status c = CPendingDeposit
                                     then CActive else ch_status c)\<rparr>)
      in case find_row P (challenges (game b)) of
           None \<Rightarrow> (Inl (js_error (''Challenge '' @ cid @ '' not found or not in pending/active status'')), b)
         | Some c \<Rightarrow>
             (Inr (ch_confirmations (upd c), ch_status (upd c) = CActive \<and> required \<le> ch_confirmations (upd c)),
              b\<lparr>game := (game b)\<lparr>challenges := update_where P upd (challenges (game b))\<rparr>\<rparr>))"

section \<open>Referrals\<close>

definition findReferralByReferredId :: "bank \<Rightarrow> string \<Rightarrow> referral_row option" where
  "findReferralByReferredId b uid = find_row (\<lambda>r. rf_referred r = uid) (referrals b)"

definition findReferralByReferrerAndReferred :: "bank \<Rightarrow> string \<Rightarrow> string \<Rightarrow> referral_row option" where
  "findReferralByReferrerAndReferred b referrer referred =
     find_row (\<lambda>r. rf_referrer r = referrer \<and> rf_referred r = referred) (referrals b)"

definition createReferral :: "string \<Rightarrow> string \<Rightarrow> string \<Rightarrow> bank \<Rightarrow> referral_row \<times> bank" where
  "createReferral fresh referrer referred b =
     (case findReferralByReferredId b referred of
        Some r \<Rightarrow> (r, b)
      | None \<Rightarrow>
          let row = \<lparr>rf_id = fresh, rf_referrer = referrer, rf_referred = referred, rf_rewarded = False\<rparr>
          in (row, b\<lparr>referrals := referrals b @ [row]\<rparr>))"

definition markReferralRewarded :: "string \<Rightarrow> bank \<Rightarrow> bank" where
  "markReferralRewarded rid b =
     b\<lparr>referrals := update_where (\<lambda>r. rf_id r = rid) (\<lambda>r. r\<lparr>rf_rewarded := True\<rparr>) (referrals b)\<rparr>"

definition live_user :: "bank \<Rightarrow> string \<Rightarrow> bool" where
  "live_user b uid \<longleftrightarrow> findUserById (game b) uid \<noteq> None"

definition countReferralInvites :: "bank \<Rightarrow> string \<Rightarrow> nat" where
  "countReferralInvites b uid = count_where (\<lambda>r. rf_referrer r = uid \<and> live_user b (rf_referred r)) (referrals b)"

definition countReferralConversions :: "bank \<Rightarrow> string \<Rightarrow> nat" where
  "countReferralConversions b uid =
     count_where (\<lambda>r. rf_referrer r = uid \<and> rf_rewarded r \<and> live_user b (rf_referred r)) (referrals b)"

definition getReferralNetworkUserIds :: "bank \<Rightarrow> string \<Rightarrow> string list" where
  "getReferralNetworkUserIds b uid =
     filter (live_user b) (remdups
       (map rf_referred (filter (\<lambda>r. rf_referrer r = uid) (referrals b)) @
        map rf_referrer (filter (\<lambda>r. rf_referred r = uid) (referrals b))))"

definition createReferralPayout :: "string \<Rightarrow> referral_payout_row \<Rightarrow> bank \<Rightarrow> referral_payout_row \<times> bank" where
  "createReferralPayout fresh data b =
     (case find_row (\<lambda>p. rp_referral p = rp_referral data) (referral_payouts b) of
        Some p \<Rightarrow> (p, b)
      | None \<Rightarrow>
          let row = data\<lparr>rp_id := fresh, rp_status := PPending, rp_tx := None, rp_error := []\<rparr>
          in (row, b\<lparr>referral_payouts := referral_payouts b @ [row]\<rparr>))"

definition findReferralPayoutByReferralId :: "bank \<Rightarrow> string \<Rightarrow> referral_payout_row option" where
  "findReferralPayoutByReferralId b rid = find_row (\<lambda>p. rp_referral p = rid) (referral_payouts b)"

definition findReferralPayoutById :: "bank \<Rightarrow> string \<Rightarrow> referral_payout_row option" where
  "findReferralPayoutById b pid = find_row (\<lambda>p. rp_id p = pid) (referral_payouts b)"

definition findPendingReferralPayoutById :: "bank \<Rightarrow> string \<Rightarrow> referral_payout_row option" where
  "findPendingReferralPayoutById b pid =
     find_row (\<lambda>p. rp_id p = pid \<and> rp_status p = PPending) (referral_payouts b)"

definition updateReferralPayoutStatus ::
  "string \<Rightarrow> payout_status \<Rightarrow> string option \<Rightarrow> string option \<Rightarrow> bank \<Rightarrow> bank" where
  "updateReferralPayoutStatus pid status txHash errorMessage b =
     b\<lparr>referral_payouts := update_where (\<lambda>p. rp_id p = pid)
        (\<lambda>p. p\<lparr>rp_status := status, rp_tx := txHash,
               rp_error := (case errorMessage of Some m \<Rightarrow> m | None \<Rightarrow> [])\<rparr>) (referral_payouts b)\<rparr>"

definition getReferralPayoutTotalsForUser :: "bank \<Rightarrow> string \<Rightarrow> int \<times> int" where
  "getReferralPayoutTotalsForUser b uid =
     (let rows = filter (\<lambda>p. rp_status p \<in> {PPending, PSent}) (referral_payouts b)
      in (\<Sum>p\<leftarrow>filter (\<lambda>p. rp_referrer p = uid) rows. rp_referrer_amount p,
          \<Sum>p\<leftarrow>filter (\<lambda>p. rp_referred p = uid) rows. rp_referred_amount p))"

section \<open>The hot wallet\<close>

text \<open>\<open>submitBatchPayout\<close> with the service's sequence store, which is Redis, and one bad-sequence
  retry. When Redis is down every reservation throws, so every batch fails before it is submitted.\<close>

definition failed_batch :: "recipient list \<Rightarrow> batch_result" where
  "failed_batch rs = \<lparr>br_txHash = [], br_recipients = rs, br_success = False,
     br_error = Some (err_message redis_error)\<rparr>"

definition submit_payouts ::
  "horizon \<Rightarrow> string \<Rightarrow> string \<Rightarrow> string \<Rightarrow> recipient list \<Rightarrow> bank \<Rightarrow> (stellar_err + batch_result list) \<times> bank" where
  "submit_payouts hz network publicKey memoId rs b =
     (if redis_up (game b) then
        (case submitBatchPayout hz \<lparr>po_sequenceStore = True, po_maxBadSeqRetries = 1\<rparr> network publicKey memoId rs
                (redis_kv (game b)) of
           (r, txs, st) \<Rightarrow> (r, b\<lparr>game := (game b)\<lparr>redis_kv := st\<rparr>, submitted := submitted b @ txs\<rparr>))
      else (Inr (map failed_batch
              (chunkArray (filter (\<lambda>r. getInvalidRecipientReason r = None) rs) MAX_OPS_PER_TX)), b))"

section \<open>Lemmas\<close>

lemma unique_slot: "unique_by (\<lambda>p. (pw_challenge p, pw_user p)) ps \<Longrightarrow> p \<in> set ps \<Longrightarrow> q \<in> set ps \<Longrightarrow>
    payout_slot cid uid p \<Longrightarrow> payout_slot cid uid q \<Longrightarrow> p = q"
  by (auto simp: payout_slot_def dest: unique_byD)

text \<open>The upsert keeps one payout per challenge and user, and never takes a payout back from
  \<open>sent\<close> or \<open>confirmed\<close>.\<close>

lemma createPayout_unique:
  assumes "unique_by (\<lambda>p. (pw_challenge p, pw_user p)) (payouts b)"
  shows "unique_by (\<lambda>p. (pw_challenge p, pw_user p)) (payouts (snd (createPayout f now c u a s d b)))"
proof (cases "find_row (payout_slot c u) (payouts b)")
  case None
  then have "find_row (\<lambda>p. (pw_challenge p, pw_user p) = (c, u)) (payouts b) = None"
    by (simp add: find_row_None payout_slot_def)
  with None assms show ?thesis
    by (simp add: createPayout_def Let_def unique_by_snoc split: sum.splits option.splits)
next
  case (Some p)
  with assms show ?thesis
    by (simp add: createPayout_def Let_def unique_by_update split: sum.splits option.splits)
qed

lemma createPayout_Inr:
  assumes "createPayout f now c u a s d b = (Inr row, b')"
  shows "pw_user row = u \<and> pw_challenge row = c \<and> pw_address row = a \<and>
    (s = Some n \<longrightarrow> pw_amount row = n) \<and> \<not> fraud_block b c u \<and>
    game b' = game b \<and> referrals b' = referrals b \<and> earned b' = earned b \<and>
    (case find_row (payout_slot c u) (payouts b) of
       None \<Rightarrow> pw_status row = PPending \<and> pw_id row = f \<and> payouts b' = payouts b @ [row]
     | Some p \<Rightarrow> pw_id row = pw_id p \<and> pw_status row = (if pw_status p = PFailed then PPending else pw_status p))"
  using assms find_row_Some [of "payout_slot c u" "payouts b"]
  by (auto simp: createPayout_def Let_def payout_slot_def split: sum.splits option.splits if_splits)

end
