(* ===== verification/Leaderboard.thy ===== *)
theory Leaderboard
  imports Money_Db "HOL-Library.Product_Lexorder"
begin

text \<open>
  Leaderboards: the paged standings of a challenge and the CSV export
  (\<open>db/queries/sessions.ts\<close>, \<open>routes/leaderboard.ts\<close>). \<open>ORDER BY\<close> is a sort by a
  lexicographic key, a keyset cursor is the key of the last row sent. An opaque cursor text stands
  for its values; a text that does not decode counts as absent, as in \<open>decodeCursorSafe\<close>. The
  locale \<open>keyset\<close> states what a paged query promises and that following its cursors lists every row
  exactly once, in order.
\<close>

section \<open>Keyset pagination\<close>

text \<open>A paged query on a state: it reads \<open>rows\<close>, sorts them by \<open>key\<close>, and \<open>fetch s n c\<close> is the page of
  \<open>n\<close> rows after the cursor \<open>c\<close>, which stands at the key \<open>pos c\<close>. The laws hold for well-formed states.\<close>

locale keyset_pages =
  fixes key :: "'r \<Rightarrow> 'k :: linorder"
    and pos :: "'c \<Rightarrow> 'k"
    and rows :: "'s \<Rightarrow> 'r list"
    and fetch :: "'s \<Rightarrow> nat \<Rightarrow> 'c option \<Rightarrow> 'r list \<times> 'c option"
    and wf :: "'s \<Rightarrow> bool"
  assumes keys_distinct: "wf s \<Longrightarrow> distinct (map key (rows s))"
    and fetch_first: "fst (fetch s n None) = take n (sort_key key (rows s))"
    and fetch_after: "wf s \<Longrightarrow> r \<in> set (rows s) \<Longrightarrow> pos c = key r \<Longrightarrow>
      fst (fetch s n (Some c)) = take n (filter (\<lambda>r'. pos c < key r') (sort_key key (rows s)))"
begin

lemma distinct_rows: "wf s \<Longrightarrow> distinct (map key (sort_key key (rows s)))"
  using keys_distinct by (metis distinct_map mset_sort mset_map mset_eq_imp_distinct_iff)

text \<open>The rows after the last one of a page are the rest of the list.\<close>

lemma rest_after:
  assumes "wf s" and "sort_key key (rows s) = pre @ suf" and "pre \<noteq> []"
  shows "filter (\<lambda>r. key (last pre) < key r) (sort_key key (rows s)) = suf"
proof -
  have srt: "sorted (map key pre @ map key suf)" and d: "distinct (map key pre @ map key suf)"
    using sorted_sort_key [of key "rows s"] distinct_rows [OF assms(1)] unfolding assms(2) by simp_all
  obtain ys y where pre: "pre = ys @ [y]" using assms(3) by (metis append_butlast_last_id)
  have "\<not> key y < key r" if "r \<in> set pre" for r
    using srt that unfolding pre by (auto simp: sorted_append not_less)
  moreover have "key y < key r" if "r \<in> set suf" for r
  proof -
    have "key y \<le> key r" "key y \<noteq> key r" using srt d that unfolding pre by (auto simp: sorted_append)
    then show ?thesis by simp
  qed
  ultimately have "filter (\<lambda>r. key y < key r) pre = []" "filter (\<lambda>r. key y < key r) suf = suf"
    by (simp_all add: filter_empty_conv filter_id_conv)
  then show ?thesis unfolding assms(2) by (simp add: pre)
qed

text \<open>A cursor is at the end of a prefix of the sorted rows when it is absent and the prefix is empty,
  or it stands at the prefix's last row. The page fetched there is what follows the prefix.\<close>

definition at_end :: "'r list \<Rightarrow> 'c option \<Rightarrow> bool" where
  "at_end pre c \<longleftrightarrow> (case c of None \<Rightarrow> pre = [] | Some k \<Rightarrow> pre \<noteq> [] \<and> pos k = key (last pre))"

lemma fetch_suffix:
  assumes "wf s" and "sort_key key (rows s) = pre @ suf" and "at_end pre c"
  shows "fst (fetch s n c) = take n suf"
proof (cases c)
  case None
  with assms fetch_first show ?thesis by (simp add: at_end_def)
next
  case (Some k)
  then have k: "pre \<noteq> []" "pos k = key (last pre)" using assms(3) by (simp_all add: at_end_def)
  have "last pre \<in> set (sort_key key (rows s))" using assms(2) k(1) by simp
  then have "last pre \<in> set (rows s)" by simp
  from fetch_after [OF assms(1) this k(2)] rest_after [OF assms(1,2) k(1)] k Some show ?thesis by simp
qed

end

text \<open>A full page comes with a cursor, even if it is the last one.\<close>

locale keyset = keyset_pages key pos rows fetch wf
  for key :: "'r \<Rightarrow> 'k :: linorder" and pos :: "'c \<Rightarrow> 'k" and rows :: "'s \<Rightarrow> 'r list"
    and fetch :: "'s \<Rightarrow> nat \<Rightarrow> 'c option \<Rightarrow> 'r list \<times> 'c option" and wf :: "'s \<Rightarrow> bool" +
  assumes fetch_next: "0 < n \<Longrightarrow> (if length (fst (fetch s n oc)) = n
      then \<exists>k. snd (fetch s n oc) = Some k \<and> pos k = key (last (fst (fetch s n oc)))
      else snd (fetch s n oc) = None)"
begin

lemma fetch_advance:
  assumes "wf s" and "sort_key key (rows s) = pre @ suf" and "at_end pre c" and "0 < n"
  shows "if n \<le> length suf
    then \<exists>k. fetch s n c = (take n suf, Some k) \<and> at_end (pre @ take n suf) (Some k)
    else fetch s n c = (suf, None)"
proof -
  have p: "fst (fetch s n c) = take n suf" using fetch_suffix [OF assms(1-3)] .
  show ?thesis
  proof (cases "n \<le> length suf")
    case True
    then have "take n suf \<noteq> []" using assms(4) by auto
    moreover obtain k where "snd (fetch s n c) = Some k" "pos k = key (last (take n suf))"
      using fetch_next [OF assms(4), of s c] p True by auto
    ultimately have "fetch s n c = (take n suf, Some k) \<and> at_end (pre @ take n suf) (Some k)"
      using p by (simp add: at_end_def prod_eq_iff)
    with True show ?thesis by auto
  next
    case False
    then show ?thesis using fetch_next [OF assms(4), of s c] p by (simp add: prod_eq_iff)
  qed
qed

end

text \<open>The statement asks for one row more than the page to see whether there is a next one.\<close>

locale keyset_probe = keyset_pages key pos rows fetch wf
  for key :: "'r \<Rightarrow> 'k :: linorder" and pos :: "'c \<Rightarrow> 'k" and rows :: "'s \<Rightarrow> 'r list"
    and fetch :: "'s \<Rightarrow> nat \<Rightarrow> 'c option \<Rightarrow> 'r list \<times> 'c option" and wf :: "'s \<Rightarrow> bool" +
  assumes fetch_more: "0 < n \<Longrightarrow> (if n < length (fst (fetch s (Suc n) oc))
      then \<exists>k. snd (fetch s n oc) = Some k \<and> pos k = key (last (fst (fetch s n oc)))
      else snd (fetch s n oc) = None)"
begin

lemma probe_advance:
  assumes "wf s" and "sort_key key (rows s) = pre @ suf" and "at_end pre c" and "0 < n"
  shows "if n < length suf
    then \<exists>k. fetch s n c = (take n suf, Some k) \<and> at_end (pre @ take n suf) (Some k)
    else fetch s n c = (suf, None)"
proof -
  have p: "fst (fetch s m c) = take m suf" for m using fetch_suffix [OF assms(1-3)] .
  show ?thesis
  proof (cases "n < length suf")
    case True
    then have "take n suf \<noteq> []" using assms(4) by auto
    moreover obtain k where "snd (fetch s n c) = Some k" "pos k = key (last (take n suf))"
      using fetch_more [OF assms(4), of s c] p True by auto
    ultimately have "fetch s n c = (take n suf, Some k) \<and> at_end (pre @ take n suf) (Some k)"
      using p by (simp add: at_end_def prod_eq_iff)
    with True show ?thesis by auto
  next
    case False
    then show ?thesis using fetch_more [OF assms(4), of s c] p by (simp add: prod_eq_iff)
  qed
qed

text \<open>Following the cursors from page to page.\<close>

primrec follow :: "nat \<Rightarrow> 's \<Rightarrow> nat \<Rightarrow> 'c option \<Rightarrow> 'r list option" where
  "follow 0 s n c = None"
| "follow (Suc fuel) s n c =
     (case fetch s n c of (page, None) \<Rightarrow> Some page | (page, Some k) \<Rightarrow> map_option (append page) (follow fuel s n (Some k)))"

lemma follow_suffix:
  assumes "wf s" and "0 < n"
  shows "sort_key key (rows s) = pre @ suf \<Longrightarrow> at_end pre c \<Longrightarrow> length suf \<le> n * fuel \<Longrightarrow> 0 < fuel \<Longrightarrow> follow fuel s n c = Some suf"
proof (induction fuel arbitrary: pre suf c)
  case (Suc fuel)
  note adv = probe_advance [OF assms(1) Suc.prems(1,2) assms(2)]
  show ?case
  proof (cases "n < length suf")
    case True
    then obtain k where k: "fetch s n c = (take n suf, Some k)" "at_end (pre @ take n suf) (Some k)" using adv by auto
    have "sort_key key (rows s) = (pre @ take n suf) @ drop n suf" using Suc.prems(1) by simp
    moreover have "length (drop n suf) \<le> n * fuel" using Suc.prems(3) by simp
    moreover have "0 < fuel" using True Suc.prems(3) by (cases fuel) auto
    ultimately have "follow fuel s n (Some k) = Some (drop n suf)" using Suc.IH k(2) by blast
    then show ?thesis using k(1) by simp
  next
    case False
    then show ?thesis using adv by simp
  qed
qed simp

end

section \<open>Standings\<close>

datatype lb_sort = SortScore | SortRank | SortCreatedAt

datatype lb_window = WDaily | WWeekly | WAllTime

definition nulls_last :: "int option \<Rightarrow> bool \<times> int" where
  "nulls_last t = (case t of None \<Rightarrow> (True, 0) | Some x \<Rightarrow> (False, x))"

type_synonym lb_key = "int \<times> (bool \<times> int) \<times> string"

text \<open>\<open>total_score DESC, completed_at ASC, id ASC\<close> and \<open>created_at DESC, total_score DESC, id ASC\<close>.\<close>

definition standing_key :: "game_session \<Rightarrow> lb_key" where
  "standing_key s = (- gs_total s, nulls_last (gs_completed s), gs_id s)"

definition leaderboardOrderBy :: "lb_sort \<Rightarrow> game_session \<Rightarrow> lb_key" where
  "leaderboardOrderBy sortBy s =
     (case sortBy of
        SortCreatedAt \<Rightarrow> (- gs_created s, (False, - gs_total s), gs_id s)
      | _ \<Rightarrow> standing_key s)"

record cursor =
  cu_score :: int
  cu_completed :: "int option"
  cu_id :: string

text \<open>The cursor's condition, a comparison with \<open>NULL\<close> being unknown and so not true.\<close>

definition after_cursor :: "(int \<Rightarrow> int \<Rightarrow> bool) \<Rightarrow> cursor \<Rightarrow> game_session \<Rightarrow> bool" where
  "after_cursor scoreOp c s \<longleftrightarrow>
     scoreOp (gs_total s) (cu_score c) \<or>
     (gs_total s = cu_score c \<and>
      (case (gs_completed s, cu_completed c) of
         (Some t, Some t') \<Rightarrow> t' < t \<or> (t = t' \<and> cu_id c < gs_id s)
       | _ \<Rightarrow> False))"

definition cursor_of :: "game_session \<Rightarrow> cursor" where
  "cursor_of s = \<lparr>cu_score = gs_total s, cu_completed = gs_completed s, cu_id = gs_id s\<rparr>"

record lb_query =
  lq_limit :: nat
  lq_cursor :: "cursor option"
  lq_sort :: lb_sort
  lq_friends :: "string list"
  lq_window :: lb_window
  lq_tier :: "string option"
  lq_viewer :: "string option"

definition on_board :: "string \<Rightarrow> game_session \<times> user \<Rightarrow> bool" where
  "on_board cid = (\<lambda>(s, u). gs_challenge s = cid \<and> \<not> gs_flagged s \<and> \<not> gs_practice s \<and>
     gs_status s = SCompleted \<and> u_deleted_at u = None)"

definition joined :: "app \<Rightarrow> (game_session \<times> user) list" where
  "joined a = concat (map (\<lambda>s. map (Pair s) (filter (\<lambda>u. u_id u = gs_user s) (users a))) (sessions a))"

text \<open>\<open>COALESCE(NULLIF(embedded_wallet_address, ''), NULLIF(stellar_address, ''))\<close>.\<close>

definition nullif_empty :: "string option \<Rightarrow> string option" where
  "nullif_empty v = (case v of Some [] \<Rightarrow> None | _ \<Rightarrow> v)"

definition board_address :: "user \<Rightarrow> string option" where
  "board_address u = (case nullif_empty (u_embedded_wallet u) of
     Some x \<Rightarrow> Some x | None \<Rightarrow> nullif_empty (u_stellar_address u))"

text \<open>The optional filters: friends, time window, tier, and players who block or are blocked by the
  viewer. \<open>blocks\<close> is the table \<open>user_blocks\<close>.\<close>

definition board_filter :: "int \<Rightarrow> (string \<times> string) list \<Rightarrow> lb_query \<Rightarrow> game_session \<Rightarrow> bool" where
  "board_filter now blocks q s \<longleftrightarrow>
     (lq_friends q = [] \<or> gs_user s \<in> set (lq_friends q)) \<and>
     (case lq_window q of
        WAllTime \<Rightarrow> True
      | w \<Rightarrow> (case gs_completed s of
                Some t \<Rightarrow> now - (if w = WDaily then 1 else 7) * 86400000 \<le> t
              | None \<Rightarrow> False)) \<and>
     (case lq_tier q of Some (x # xs) \<Rightarrow> gs_tier s = Some (x # xs) | _ \<Rightarrow> True) \<and>
     (case lq_viewer q of
        Some (x # xs) \<Rightarrow> (x # xs, gs_user s) \<notin> set blocks \<and> (gs_user s, x # xs) \<notin> set blocks
      | _ \<Rightarrow> True)"

definition getLeaderboard ::
  "int \<Rightarrow> (string \<times> string) list \<Rightarrow> app \<Rightarrow> string \<Rightarrow> lb_query \<Rightarrow>
     (game_session \<times> user) list \<times> cursor option" where
  "getLeaderboard now blocks a cid q =
     (let scoreOp = (if lq_sort q = SortScore then (<) else (>));
          rows = take (lq_limit q) (sort_key (\<lambda>(s, u). leaderboardOrderBy (lq_sort q) s)
            (filter (\<lambda>(s, u). on_board cid (s, u) \<and> board_filter now blocks q s \<and>
               (case lq_cursor q of Some c \<Rightarrow> after_cursor scoreOp c s | None \<Rightarrow> True)) (joined a)))
      in (rows, if length rows = lq_limit q then Some (cursor_of (fst (last rows))) else None))"

section \<open>CSV export\<close>

text \<open>\<open>LEFT JOIN payouts\<close>: the amount of the payout as a decimal, or \<open>'0'\<close>.\<close>

definition payout_text :: "bank \<Rightarrow> game_session \<Rightarrow> string" where
  "payout_text b s = (case find_row (payout_slot (gs_challenge s) (gs_user s)) (payouts b) of
     Some p \<Rightarrow> stroopsToUsdc (pw_amount p) | None \<Rightarrow> ''0'')"

definition getLeaderboardForCsvExport ::
  "bank \<Rightarrow> string \<Rightarrow> nat \<Rightarrow> cursor option \<Rightarrow> (game_session \<times> user) list \<times> cursor option" where
  "getLeaderboardForCsvExport b cid limit c =
     (let rows = take limit (sort_key (\<lambda>(s, u). standing_key s)
            (filter (\<lambda>(s, u). on_board cid (s, u) \<and>
               (case c of Some k \<Rightarrow> after_cursor (<) k s | None \<Rightarrow> True)) (joined (game b))))
      in (rows, if length rows = limit then Some (cursor_of (fst (last rows))) else None))"

definition QUOTE :: char where "QUOTE = CHR 0x22"

definition escapeCsv :: "string \<Rightarrow> string" where
  "escapeCsv str =
     (if CHR '','' \<in> set str \<or> QUOTE \<in> set str \<or> CHR 0x0A \<in> set str \<or> CHR 0x0D \<in> set str
      then [QUOTE] @ concat (map (\<lambda>c. if c = QUOTE then [QUOTE, QUOTE] else [c]) str) @ [QUOTE]
      else str)"

text \<open>\<open>names\<close> gives the username and the display name of a user; an empty one counts as missing.\<close>

definition csv_name :: "(string \<Rightarrow> string \<times> string) \<Rightarrow> string \<Rightarrow> string" where
  "csv_name names uid = (case names uid of (username, displayName) \<Rightarrow>
     if username \<noteq> [] then username else if displayName \<noteq> [] then displayName else ''Anonymous'')"

definition csv_line :: "(string \<Rightarrow> string \<times> string) \<Rightarrow> bank \<Rightarrow> nat \<Rightarrow> game_session \<Rightarrow> string" where
  "csv_line names b rnk s =
     string_of_nat rnk @ '','' @ escapeCsv (csv_name names (gs_user s)) @ '','' @
     string_of_int (gs_total s) @ '','' @ escapeCsv (payout_text b s) @ [CHR 0x0A]"

fun csv_lines :: "(string \<Rightarrow> string \<times> string) \<Rightarrow> bank \<Rightarrow> nat \<Rightarrow> (game_session \<times> user) list \<Rightarrow> string list" where
  "csv_lines names b rnk [] = []"
| "csv_lines names b rnk ((s, u) # rows) = csv_line names b rnk s # csv_lines names b (rnk + 1) rows"

text \<open>The \<open>while\<close> loop of the export with a bound on its iterations: \<open>None\<close> means that the bound was
  reached. The table is read once per iteration and does not change here.\<close>

fun export_loop ::
  "nat \<Rightarrow> (string \<Rightarrow> string \<times> string) \<Rightarrow> bank \<Rightarrow> string \<Rightarrow> nat \<Rightarrow> cursor option \<Rightarrow> nat \<Rightarrow> string list option" where
  "export_loop 0 names b cid batchSize c rnk = None"
| "export_loop (Suc fuel) names b cid batchSize c rnk =
     (case getLeaderboardForCsvExport b cid batchSize c of
        (rows, nextCursor) \<Rightarrow>
          if rows = [] then Some []
          else if nextCursor = None \<or> length rows < batchSize then Some (csv_lines names b rnk rows)
          else map_option ((@) (csv_lines names b rnk rows))
                 (export_loop fuel names b cid batchSize nextCursor (rnk + length rows)))"

definition export_csv :: "nat \<Rightarrow> (string \<Rightarrow> string \<times> string) \<Rightarrow> bank \<Rightarrow> string \<Rightarrow> string list option" where
  "export_csv fuel names b cid =
     map_option ((#) (''rank,username,score,payout_amount_usdc'' @ [CHR 0x0A]))
       (export_loop fuel names b cid 500 None 1)"

section \<open>The queries are keyset pages\<close>

definition cursor_key :: "cursor \<Rightarrow> lb_key" where
  "cursor_key c = (- cu_score c, nulls_last (cu_completed c), cu_id c)"

lemma cursor_key_of: "cursor_key (cursor_of s) = standing_key s"
  by (simp add: cursor_key_def cursor_of_def standing_key_def)

text \<open>What the tables guarantee: unique ids, and a completion time on every completed session.\<close>

definition board_wf :: "app \<Rightarrow> bool" where
  "board_wf a \<longleftrightarrow> unique_by gs_id (sessions a) \<and> unique_by u_id (users a) \<and>
     (\<forall>s \<in> set (sessions a). gs_status s = SCompleted \<longrightarrow> gs_completed s \<noteq> None)"

lemma after_cursor_key:
  assumes "gs_completed s \<noteq> None" and "cu_completed c \<noteq> None"
  shows "after_cursor (<) c s \<longleftrightarrow> cursor_key c < standing_key s"
  using assms by (auto simp: after_cursor_def cursor_key_def standing_key_def nulls_last_def)

lemma in_joined: "(s, u) \<in> set (joined a) \<longleftrightarrow> s \<in> set (sessions a) \<and> u \<in> set (users a) \<and> u_id u = gs_user s"
  by (auto simp: joined_def)

lemma distinct_joined:
  assumes "board_wf a"
  shows "distinct (map (\<lambda>(s, u). standing_key s) (filter P (joined a)))"
proof -
  have one: "length (filter (\<lambda>u. u_id u = x) us) \<le> 1" if "unique_by u_id us" for us x
    using that by (induction us) (auto simp: unique_by_def filter_empty_conv image_iff)
  have "distinct (map (\<lambda>(s, u). gs_id s) (concat (map (\<lambda>s. map (Pair s) (filter (\<lambda>u. u_id u = gs_user s) us)) ss)))"
    if "unique_by gs_id ss" "unique_by u_id us" for ss :: "game_session list" and us :: "user list"
    using that
  proof (induction ss)
    case (Cons s ss)
    have "distinct (map (\<lambda>u. gs_id s) (filter (\<lambda>u. u_id u = gs_user s) us))"
      using one [OF Cons.prems(2), of "gs_user s"]
      by (cases "filter (\<lambda>u. u_id u = gs_user s) us" rule: remdups_adj.cases) auto
    with Cons show ?case by (auto simp: unique_by_def comp_def image_iff)
  qed simp
  then have "distinct (map (\<lambda>(s, u). gs_id s) (joined a))" using assms by (simp add: board_wf_def joined_def)
  then have "distinct (map (\<lambda>(s, u). gs_id s) (filter P (joined a)))" by (rule distinct_map_filter)
  then show ?thesis by (auto simp: distinct_map inj_on_def standing_key_def)
qed

lemma standing_completed:
  "board_wf a \<Longrightarrow> r \<in> set (joined a) \<Longrightarrow> on_board cid r \<Longrightarrow> gs_completed (fst r) \<noteq> None"
  by (cases r) (auto simp: board_wf_def in_joined on_board_def)

text \<open>A cursor at the key of a standing has a completion time, so its condition is the key order.\<close>

lemma filter_after_cursor:
  assumes "board_wf a" and "r \<in> set (joined a)" and "on_board cid r" and "cursor_key c = standing_key (fst r)"
  shows "filter (\<lambda>(s, u). on_board cid (s, u) \<and> Q s \<and> after_cursor (<) c s) (joined a) =
    filter (\<lambda>r'. cursor_key c < standing_key (fst r')) (filter (\<lambda>(s, u). on_board cid (s, u) \<and> Q s) (joined a))"
proof -
  have "cu_completed c \<noteq> None"
    using standing_completed [OF assms(1-3)] assms(4)
    by (auto simp: cursor_key_def standing_key_def nulls_last_def split: option.splits)
  then have "after_cursor (<) c s \<longleftrightarrow> cursor_key c < standing_key s"
    if "(s, u) \<in> set (joined a)" "on_board cid (s, u)" for s u
    using after_cursor_key standing_completed [OF assms(1) that] by simp
  then show ?thesis unfolding filter_filter by (intro filter_cong) auto
qed

definition csv_rows :: "bank \<times> string \<Rightarrow> (game_session \<times> user) list" where
  "csv_rows = (\<lambda>(b, cid). filter (on_board cid) (joined (game b)))"

interpretation csv: keyset "\<lambda>(s, u). standing_key s" cursor_key csv_rows
  "\<lambda>(b, cid). getLeaderboardForCsvExport b cid" "\<lambda>(b, cid). board_wf (game b)"
proof unfold_locales
  fix s :: "bank \<times> string" and n :: nat and r :: "game_session \<times> user" and c :: cursor and oc :: "cursor option"
  obtain b cid where s: "s = (b, cid)" by fastforce
  show "fst ((case s of (b, cid) \<Rightarrow> getLeaderboardForCsvExport b cid) n None) =
    take n (sort_key (\<lambda>(s, u). standing_key s) (csv_rows s))"
    by (simp add: s getLeaderboardForCsvExport_def csv_rows_def Let_def)
  show "if length (fst ((case s of (b, cid) \<Rightarrow> getLeaderboardForCsvExport b cid) n oc)) = n
    then \<exists>k. snd ((case s of (b, cid) \<Rightarrow> getLeaderboardForCsvExport b cid) n oc) = Some k \<and>
      cursor_key k = (case last (fst ((case s of (b, cid) \<Rightarrow> getLeaderboardForCsvExport b cid) n oc)) of (s, u) \<Rightarrow> standing_key s)
    else snd ((case s of (b, cid) \<Rightarrow> getLeaderboardForCsvExport b cid) n oc) = None"
    by (simp add: s getLeaderboardForCsvExport_def Let_def cursor_key_of case_prod_beta)
  assume wf: "case s of (b, cid) \<Rightarrow> board_wf (game b)"
  then show "distinct (map (\<lambda>(s, u). standing_key s) (csv_rows s))"
    by (simp add: s csv_rows_def distinct_joined)
  assume r: "r \<in> set (csv_rows s)" and c: "cursor_key c = (case r of (s, u) \<Rightarrow> standing_key s)"
  have "filter (\<lambda>(s, u). on_board cid (s, u) \<and> after_cursor (<) c s) (joined (game b)) =
    filter (\<lambda>r'. cursor_key c < standing_key (fst r')) (filter (on_board cid) (joined (game b)))"
    using filter_after_cursor [of "game b" r cid c "\<lambda>_. True"] wf r c by (simp add: s csv_rows_def case_prod_beta)
  then show "fst ((case s of (b, cid) \<Rightarrow> getLeaderboardForCsvExport b cid) n (Some c)) =
    take n (filter (\<lambda>r'. cursor_key c < (case r' of (s, u) \<Rightarrow> standing_key s))
      (sort_key (\<lambda>(s, u). standing_key s) (csv_rows s)))"
    by (simp add: s getLeaderboardForCsvExport_def csv_rows_def Let_def filter_sort case_prod_beta)
qed

text \<open>The paged leaderboard in score order, with its filters; \<open>limit\<close> and \<open>cursor\<close> are the page.\<close>

definition board_rows :: "int \<times> (string \<times> string) list \<times> app \<times> string \<times> lb_query \<Rightarrow> (game_session \<times> user) list" where
  "board_rows = (\<lambda>(now, blocks, a, cid, q).
     filter (\<lambda>(s, u). on_board cid (s, u) \<and> board_filter now blocks q s) (joined a))"

definition board_page ::
  "int \<times> (string \<times> string) list \<times> app \<times> string \<times> lb_query \<Rightarrow> nat \<Rightarrow> cursor option \<Rightarrow>
     (game_session \<times> user) list \<times> cursor option" where
  "board_page = (\<lambda>(now, blocks, a, cid, q) n c.
     getLeaderboard now blocks a cid (q\<lparr>lq_limit := n, lq_cursor := c, lq_sort := SortScore\<rparr>))"

lemma board_filter_page [simp]:
  "board_filter now blocks (q\<lparr>lq_limit := n, lq_cursor := c, lq_sort := so\<rparr>) = board_filter now blocks q"
  by (simp add: board_filter_def fun_eq_iff)

interpretation board: keyset "\<lambda>(s, u). standing_key s" cursor_key board_rows board_page
  "\<lambda>(now, blocks, a, cid, q). board_wf a"
proof unfold_locales
  fix s :: "int \<times> (string \<times> string) list \<times> app \<times> string \<times> lb_query" and n :: nat
    and r :: "game_session \<times> user" and c :: cursor and oc :: "cursor option"
  obtain now blocks a cid q where s: "s = (now, blocks, a, cid, q)" by (metis prod_cases5)
  show "fst (board_page s n None) = take n (sort_key (\<lambda>(s, u). standing_key s) (board_rows s))"
    by (simp add: s board_page_def getLeaderboard_def board_rows_def leaderboardOrderBy_def Let_def)
  show "if length (fst (board_page s n oc)) = n
    then \<exists>k. snd (board_page s n oc) = Some k \<and>
      cursor_key k = (case last (fst (board_page s n oc)) of (s, u) \<Rightarrow> standing_key s)
    else snd (board_page s n oc) = None"
    by (simp add: s board_page_def getLeaderboard_def Let_def cursor_key_of case_prod_beta)
  assume wf: "case s of (now, blocks, a, cid, q) \<Rightarrow> board_wf a"
  then show "distinct (map (\<lambda>(s, u). standing_key s) (board_rows s))"
    by (simp add: s board_rows_def distinct_joined)
  assume r: "r \<in> set (board_rows s)" and c: "cursor_key c = (case r of (s, u) \<Rightarrow> standing_key s)"
  have "filter (\<lambda>(s, u). on_board cid (s, u) \<and> board_filter now blocks q s \<and> after_cursor (<) c s) (joined a) =
    filter (\<lambda>r'. cursor_key c < standing_key (fst r'))
      (filter (\<lambda>(s, u). on_board cid (s, u) \<and> board_filter now blocks q s) (joined a))"
    using wf r c by (intro filter_after_cursor [of a r]) (auto simp: s board_rows_def)
  then show "fst (board_page s n (Some c)) =
    take n (filter (\<lambda>r'. cursor_key c < (case r' of (s, u) \<Rightarrow> standing_key s))
      (sort_key (\<lambda>(s, u). standing_key s) (board_rows s)))"
    by (simp add: s board_page_def getLeaderboard_def board_rows_def leaderboardOrderBy_def Let_def
        filter_sort case_prod_beta)
qed

section \<open>The export\<close>

lemma csv_lines_append:
  "csv_lines names b rnk (xs @ ys) = csv_lines names b rnk xs @ csv_lines names b (rnk + length xs) ys"
  by (induction names b rnk xs rule: csv_lines.induct) simp_all

lemma export_loop_suffix:
  assumes "board_wf (game b)"
  shows "sort_key (\<lambda>(s, u). standing_key s) (csv_rows (b, cid)) = pre @ suf \<Longrightarrow> csv.at_end pre c \<Longrightarrow>
    length suf < 500 * fuel \<Longrightarrow> export_loop fuel names b cid 500 c rnk = Some (csv_lines names b rnk suf)"
proof (induction fuel arbitrary: pre suf c rnk)
  case (Suc fuel)
  note page = csv.fetch_advance [of "(b, cid)" pre suf c 500, simplified, OF assms Suc.prems(1,2)]
  show ?case
  proof (cases "500 \<le> length suf")
    case True
    then obtain k where k: "getLeaderboardForCsvExport b cid 500 c = (take 500 suf, Some k)"
      "csv.at_end (pre @ take 500 suf) (Some k)" using page by auto
    have "export_loop fuel names b cid 500 (Some k) (rnk + 500) = Some (csv_lines names b (rnk + 500) (drop 500 suf))"
      using Suc.prems k(2) True by (intro Suc.IH [where pre = "pre @ take 500 suf"]) simp_all
    moreover have "csv_lines names b rnk suf =
      csv_lines names b rnk (take 500 suf) @ csv_lines names b (rnk + 500) (drop 500 suf)"
      using csv_lines_append [of names b rnk "take 500 suf" "drop 500 suf"] True by simp
    ultimately show ?thesis using k True by auto
  next
    case False
    then show ?thesis using page by (simp split: if_splits)
  qed
qed simp

text \<open>Reading a field back: a quoted field ends at the first quote that is not doubled, an unquoted
  one before the next separator.\<close>

fun read_quoted :: "string \<Rightarrow> string \<times> string" where
  "read_quoted [] = ([], [])"
| "read_quoted [c] = (if c = QUOTE then ([], []) else ([c], []))"
| "read_quoted (c # d # cs) =
     (if c = QUOTE then if d = QUOTE then apfst (Cons QUOTE) (read_quoted cs) else ([], d # cs)
      else apfst (Cons c) (read_quoted (d # cs)))"

definition read_field :: "string \<Rightarrow> string \<times> string" where
  "read_field s =
     (if s \<noteq> [] \<and> hd s = QUOTE then read_quoted (tl s)
      else (takeWhile (\<lambda>c. c \<notin> {CHR '','', CHR 0x0A}) s, dropWhile (\<lambda>c. c \<notin> {CHR '','', CHR 0x0A}) s))"

lemma read_plain: "c \<noteq> QUOTE \<Longrightarrow> read_quoted (c # cs) = apfst (Cons c) (read_quoted cs)"
  by (cases cs) simp_all

lemma read_quoted_escape:
  "sep \<noteq> QUOTE \<Longrightarrow>
   read_quoted (concat (map (\<lambda>c. if c = QUOTE then [QUOTE, QUOTE] else [c]) s) @ QUOTE # sep # rest) = (s, sep # rest)"
proof (induction s)
  case (Cons c s)
  then show ?case by (cases "c = QUOTE") (simp_all add: read_plain)
qed simp

lemma read_field_escape:
  assumes "sep \<in> {CHR '','', CHR 0x0A}"
  shows "read_field (escapeCsv s @ sep # rest) = (s, sep # rest)"
proof (cases "CHR '','' \<in> set s \<or> QUOTE \<in> set s \<or> CHR 0x0A \<in> set s \<or> CHR 0x0D \<in> set s")
  case True
  have "sep \<noteq> QUOTE" using assms by (auto simp: QUOTE_def)
  with True read_quoted_escape show ?thesis by (simp add: escapeCsv_def read_field_def)
next
  case False
  then have "takeWhile (\<lambda>c. c \<notin> {CHR '','', CHR 0x0A}) (s @ sep # rest) = s"
    "dropWhile (\<lambda>c. c \<notin> {CHR '','', CHR 0x0A}) (s @ sep # rest) = sep # rest"
    using assms by (induction s) auto
  moreover have "\<not> (s @ sep # rest \<noteq> [] \<and> hd (s @ sep # rest) = QUOTE)"
    using False assms by (cases s) (auto simp: QUOTE_def)
  ultimately show ?thesis using False by (simp add: escapeCsv_def read_field_def)
qed

section \<open>Properties\<close>

text \<open>The CSV export ends and lists every standing of the challenge exactly once: with more
  iterations allowed than the table has pages it produces the header and then one line per unflagged,
  non-practice, completed session of a live user, in leaderboard order, ranked from 1 without gap.\<close>

theorem csv_export_complete:
  assumes "board_wf (game b)" and "length (sessions (game b)) < 500 * fuel"
  shows "\<exists>rows. export_csv fuel names b cid =
      Some ((''rank,username,score,payout_amount_usdc'' @ [CHR 0x0A]) # csv_lines names b 1 rows) \<and>
    mset rows = mset (filter (on_board cid) (joined (game b))) \<and>
    sorted (map (\<lambda>(s, u). standing_key s) rows) \<and> distinct (map (\<lambda>(s, u). gs_id s) rows)"
proof -
  let ?rows = "sort_key (\<lambda>(s, u). standing_key s) (csv_rows (b, cid))"
  have "length (joined a) \<le> length (sessions a)" if "board_wf a" for a
  proof -
    have "distinct (map (\<lambda>(s, u). standing_key s) (joined a))"
      using distinct_joined [OF that, of "\<lambda>_. True"] by simp
    then have "length (joined a) = card ((\<lambda>(s, u). standing_key s) ` set (joined a))"
      by (metis distinct_card length_map set_map)
    also have "\<dots> \<le> card (standing_key ` set (sessions a))"
      by (intro card_mono) (auto simp: in_joined)
    also have "\<dots> \<le> length (sessions a)" by (metis card_length length_map set_map)
    finally show ?thesis .
  qed
  moreover have "length ?rows \<le> length (joined (game b))" by (simp add: csv_rows_def)
  ultimately have "length ?rows < 500 * fuel" using assms by fastforce
  then have "export_loop fuel names b cid 500 None 1 = Some (csv_lines names b 1 ?rows)"
    by (intro export_loop_suffix [OF assms(1), where pre = "[]"]) (simp_all add: csv.at_end_def)
  moreover have "distinct (map (\<lambda>(s, u). gs_id s) ?rows)"
  proof -
    have "inj_on (\<lambda>(s, u). gs_id s) (set (csv_rows (b, cid)))"
    proof (intro inj_onI, clarify)
      fix s1 u1 s2 u2
      assume m: "(s1, u1) \<in> set (csv_rows (b, cid))" "(s2, u2) \<in> set (csv_rows (b, cid))" "gs_id s1 = gs_id s2"
      have "s1 = s2" using m assms(1)
        by (intro unique_byD [of gs_id "sessions (game b)"]) (simp_all add: csv_rows_def in_joined board_wf_def)
      moreover have "u1 = u2" using m assms(1) \<open>s1 = s2\<close>
        by (intro unique_byD [of u_id "users (game b)"]) (simp_all add: csv_rows_def in_joined board_wf_def)
      ultimately show "s1 = s2 \<and> u1 = u2" by simp
    qed
    moreover have "distinct ?rows" using csv.distinct_rows [of "(b, cid)"] assms(1) by (simp add: distinct_map)
    ultimately show ?thesis by (simp add: distinct_map)
  qed
  ultimately show ?thesis
    by (intro exI [of _ ?rows]) (simp add: export_csv_def csv_rows_def)
qed

text \<open>Following the cursors of the paged leaderboard in score order neither skips nor repeats a
  standing: after the standings of \<open>pre\<close>, of which the last one's cursor is sent, the next page holds
  the standings that follow, and a next cursor is offered exactly when the page is full.\<close>

theorem leaderboard_pages:
  assumes "board_wf a" and "0 < n" and "lq_sort q = SortScore" and "lq_limit q = n"
    and "sort_key (\<lambda>(s, u). standing_key s)
      (filter (\<lambda>(s, u). on_board cid (s, u) \<and> board_filter now blocks q s) (joined a)) = pre @ suf"
    and "lq_cursor q = (if pre = [] then None else Some (cursor_of (fst (last pre))))"
  shows "fst (getLeaderboard now blocks a cid q) = take n suf \<and>
    (snd (getLeaderboard now blocks a cid q) \<noteq> None \<longleftrightarrow> n \<le> length suf) \<and>
    (n \<le> length suf \<longrightarrow> snd (getLeaderboard now blocks a cid q) = Some (cursor_of (fst (last (take n suf)))))"
proof -
  have q: "board_page (now, blocks, a, cid, q) n (lq_cursor q) = getLeaderboard now blocks a cid q"
    using assms(3,4) by (cases q) (simp add: board_page_def)
  have "board.at_end pre (lq_cursor q)"
    using assms(6) by (simp add: board.at_end_def cursor_key_of case_prod_beta)
  from board.fetch_suffix [OF _ _ this, of "(now, blocks, a, cid, q)" suf n] assms(1,5)
  have p: "fst (getLeaderboard now blocks a cid q) = take n suf" unfolding q by (simp add: board_rows_def)
  moreover have "snd (getLeaderboard now blocks a cid q) = (if length (fst (getLeaderboard now blocks a cid q)) = n
      then Some (cursor_of (fst (last (fst (getLeaderboard now blocks a cid q))))) else None)"
    using assms(4) by (simp add: getLeaderboard_def Let_def)
  ultimately show ?thesis unfolding p by (simp add: min_def)
qed

text \<open>A challenge with two standings, an abandoned session and a practice game.\<close>

definition demo_session :: "string \<Rightarrow> string \<Rightarrow> session_status \<Rightarrow> bool \<Rightarrow> int \<Rightarrow> int \<Rightarrow> game_session" where
  "demo_session i u st pr score t = (new_session i u ''c1'' None pr None None 0)
     \<lparr>gs_status := st, gs_total := score, gs_completed := Some t\<rparr>"

definition demo_board :: app where
  "demo_board = blank_app\<lparr>users := [new_user ''ana'', new_user ''bob'', new_user ''cyd''],
     sessions := [demo_session ''s1'' ''ana'' SCompleted False 300 50, demo_session ''s2'' ''bob'' SCompleted False 410 70,
                  demo_session ''s3'' ''cyd'' SAbandoned False 0 90]\<rparr>"

lemma demo_board_wf: "board_wf demo_board"
  by (simp add: board_wf_def demo_board_def demo_session_def new_session_def new_user_def unique_by_def blank_app_def)

lemma demo_board_rows:
  "filter (on_board ''c1'') (joined demo_board) =
   [(demo_session ''s1'' ''ana'' SCompleted False 300 50, new_user ''ana''),
    (demo_session ''s2'' ''bob'' SCompleted False 410 70, new_user ''bob'')]"
  by (simp add: joined_def demo_board_def demo_session_def new_session_def new_user_def blank_app_def on_board_def)

theorem csv_export_complete_witness:
  "\<exists>rows. export_csv 1 (\<lambda>u. (u, u)) (blank_bank demo_board) ''c1'' =
      Some ((''rank,username,score,payout_amount_usdc'' @ [CHR 0x0A]) #
        csv_lines (\<lambda>u. (u, u)) (blank_bank demo_board) 1 rows) \<and>
    mset rows = mset (filter (on_board ''c1'') (joined (game (blank_bank demo_board)))) \<and>
    sorted (map (\<lambda>(s, u). standing_key s) rows) \<and> distinct (map (\<lambda>(s, u). gs_id s) rows)"
  by (rule csv_export_complete) (simp_all add: blank_bank_def demo_board_wf, simp add: demo_board_def)

theorem leaderboard_pages_witness:
  "fst (getLeaderboard 100 [] demo_board ''c1''
     \<lparr>lq_limit = 1, lq_cursor = Some (cursor_of (demo_session ''s2'' ''bob'' SCompleted False 410 70)),
      lq_sort = SortScore, lq_friends = [], lq_window = WAllTime, lq_tier = None, lq_viewer = None\<rparr>) =
   [(demo_session ''s1'' ''ana'' SCompleted False 300 50, new_user ''ana'')]"
proof -
  let ?s1 = "(demo_session ''s1'' ''ana'' SCompleted False 300 50, new_user ''ana'')"
    and ?s2 = "(demo_session ''s2'' ''bob'' SCompleted False 410 70, new_user ''bob'')"
  let ?q = "\<lparr>lq_limit = 1, lq_cursor = Some (cursor_of (fst ?s2)), lq_sort = SortScore, lq_friends = [],
      lq_window = WAllTime, lq_tier = None, lq_viewer = None\<rparr>"
  have "filter (\<lambda>(s, u). on_board ''c1'' (s, u) \<and> board_filter 100 [] ?q s) (joined demo_board) = [?s1, ?s2]"
    using demo_board_rows by (simp add: board_filter_def)
  moreover have "sort_key (\<lambda>(s, u). standing_key s) [?s1, ?s2] = [?s2] @ [?s1]"
    by (simp add: standing_key_def demo_session_def new_session_def)
  ultimately show ?thesis
    using leaderboard_pages [of demo_board 1 ?q "''c1''" 100 "[]" "[?s2]" "[?s1]"] demo_board_wf by simp
qed

text \<open>A field of the export is read back unchanged, whatever characters a username contains:
  separators, line breaks and quotes inside it cannot end the field or the line.\<close>

theorem csv_field_roundtrip:
  "read_field (escapeCsv s @ '','' @ rest) = (s, '','' @ rest) \<and>
   read_field (escapeCsv s @ [CHR 0x0A] @ rest) = (s, [CHR 0x0A] @ rest)"
  using read_field_escape by simp

end
