(* ===== verification/Teams.thy ===== *)
theory Teams
  imports Leaderboard
begin

text \<open>
  Team mode (\<open>db/queries/challenge-teams.ts\<close>): teams and their members, the team leaderboard, and
  the split of a team's prize among its members; \<open>calculateTeamPayoutAllocations\<close> of
  \<open>services/payout.ts\<close> combines the last two.
\<close>

record team_row =
  tm_id :: string
  tm_challenge :: string
  tm_name :: string
  tm_created_by :: string
  tm_created :: int

record member_row =
  mb_team :: string
  mb_challenge :: string
  mb_user :: string
  mb_joined :: int

record team_db =
  teams :: "team_row list"
  members :: "member_row list"

section \<open>Membership\<close>

text \<open>\<open>ON CONFLICT (challenge_id, user_id) DO UPDATE SET team_id, joined_at\<close>.\<close>

definition upsert_member :: "int \<Rightarrow> string \<Rightarrow> string \<Rightarrow> string \<Rightarrow> member_row list \<Rightarrow> member_row list" where
  "upsert_member now tid cid uid rows =
     (let P = (\<lambda>m. mb_challenge m = cid \<and> mb_user m = uid)
      in if find_row P rows = None
         then rows @ [\<lparr>mb_team = tid, mb_challenge = cid, mb_user = uid, mb_joined = now\<rparr>]
         else update_where P (\<lambda>m. m\<lparr>mb_team := tid, mb_joined := now\<rparr>) rows)"

definition createChallengeTeam ::
  "string \<Rightarrow> int \<Rightarrow> string \<Rightarrow> string \<Rightarrow> string \<Rightarrow> team_db \<Rightarrow> (exn + team_row) \<times> team_db" where
  "createChallengeTeam fresh now cid name uid d =
     (let trimmed = trim name in
      if trimmed = [] then (Inl (js_error ''Team name cannot be empty''), d)
      else if find_row (\<lambda>t. tm_challenge t = cid \<and> tm_name t = trimmed) (teams d) \<noteq> None
      then (Inl ((js_error ''duplicate key'')\<lparr>err_code := Some ''23505''\<rparr>), d)
      else
        let team = \<lparr>tm_id = fresh, tm_challenge = cid, tm_name = trimmed, tm_created_by = uid, tm_created = now\<rparr>
        in (Inr team, d\<lparr>teams := teams d @ [team], members := upsert_member now fresh cid uid (members d)\<rparr>))"

definition joinChallengeTeam ::
  "int \<Rightarrow> string \<Rightarrow> string \<Rightarrow> string \<Rightarrow> team_db \<Rightarrow> (exn + team_row) \<times> team_db" where
  "joinChallengeTeam now cid tid uid d =
     (case find_row (\<lambda>t. tm_id t = tid \<and> tm_challenge t = cid) (teams d) of
        None \<Rightarrow> (Inl (js_error ''Team not found for this challenge''), d)
      | Some team \<Rightarrow> (Inr team, d\<lparr>members := upsert_member now tid cid uid (members d)\<rparr>))"

definition leaveChallengeTeam :: "string \<Rightarrow> string \<Rightarrow> team_db \<Rightarrow> bool \<times> team_db" where
  "leaveChallengeTeam cid uid d =
     (let P = (\<lambda>m. mb_challenge m = cid \<and> mb_user m = uid)
      in (0 < count_where P (members d), d\<lparr>members := delete_where P (members d)\<rparr>))"

definition getUserChallengeTeam :: "team_db \<Rightarrow> string \<Rightarrow> string \<Rightarrow> team_row option" where
  "getUserChallengeTeam d cid uid =
     find_row (\<lambda>t. tm_challenge t = cid \<and> (\<exists>m \<in> set (members d). mb_team m = tm_id t \<and> mb_user m = uid)) (teams d)"

section \<open>The team leaderboard\<close>

definition user_challenge_score :: "app \<Rightarrow> string \<Rightarrow> string \<Rightarrow> int" where
  "user_challenge_score a cid uid =
     (case map gs_total (filter (\<lambda>s. gs_challenge s = cid \<and> gs_user s = uid \<and> \<not> gs_flagged s \<and>
             gs_completed s \<noteq> None) (sessions a)) of
        [] \<Rightarrow> 0 | x # xs \<Rightarrow> fold max xs x)"

record team_entry =
  te_rank :: nat
  te_id :: string
  te_name :: string
  te_challenge :: string
  te_count :: nat
  te_total :: int
  te_avg :: rat
  te_members :: "(string \<times> int) list"

definition team_members :: "app \<Rightarrow> team_db \<Rightarrow> string \<Rightarrow> team_row \<Rightarrow> (string \<times> int) list" where
  "team_members a d cid t =
     sort_key (\<lambda>(u, score). - score)
       (map (\<lambda>m. (mb_user m, user_challenge_score a cid (mb_user m)))
         (filter (\<lambda>m. mb_team m = tm_id t \<and> find_row (\<lambda>u. u_id u = mb_user m) (users a) \<noteq> None) (members d)))"

definition team_total :: "(string \<times> int) list \<Rightarrow> int" where
  "team_total ms = (\<Sum>(u, score)\<leftarrow>ms. score)"

text \<open>\<open>ROUND(AVG(score), 2)\<close> of non-negative scores.\<close>

definition team_avg :: "(string \<times> int) list \<Rightarrow> rat" where
  "team_avg ms = of_int \<lfloor>(of_int (team_total ms) / of_nat (length ms) * 100 + 1 / 2 :: rat)\<rfloor> / 100"

definition getChallengeTeamLeaderboard :: "app \<Rightarrow> team_db \<Rightarrow> string \<Rightarrow> nat \<Rightarrow> team_entry list" where
  "getChallengeTeamLeaderboard a d cid limit =
     (let rows = take limit (sort_key (\<lambda>(t, ms). (- team_total ms, - int (length ms)))
            (filter (\<lambda>(t, ms). ms \<noteq> [])
              (map (\<lambda>t. (t, team_members a d cid t)) (filter (\<lambda>t. tm_challenge t = cid) (teams d)))))
      in map (\<lambda>(idx, t, ms). \<lparr>te_rank = idx + 1, te_id = tm_id t, te_name = tm_name t, te_challenge = tm_challenge t,
                te_count = length ms, te_total = team_total ms, te_avg = team_avg ms, te_members = ms\<rparr>)
           (zip [0..<length rows] rows))"

section \<open>Splitting a prize\<close>

record split_member =
  sm_user :: string
  sm_address :: string
  sm_score :: "int option"

record allocation =
  al_user :: string
  al_address :: string
  al_amount :: int

definition alloc :: "split_member \<Rightarrow> int \<Rightarrow> allocation" where
  "alloc m n = \<lparr>al_user = sm_user m, al_address = sm_address m, al_amount = n\<rparr>"

definition points :: "split_member \<Rightarrow> int" where
  "points m = (case sm_score m of Some n \<Rightarrow> n | None \<Rightarrow> 0)"

text \<open>The two loops, \<open>allocated\<close> being the sum given out so far: the last member gets the remainder.\<close>

fun split_proportional :: "int \<Rightarrow> int \<Rightarrow> int \<Rightarrow> split_member list \<Rightarrow> allocation list" where
  "split_proportional tot pts allocated [] = []"
| "split_proportional tot pts allocated [m] = (if 0 < tot - allocated then [alloc m (tot - allocated)] else [])"
| "split_proportional tot pts allocated (m # ms) =
     (let share = calculatePayoutShareStroops (points m) pts tot
      in alloc m share # split_proportional tot pts (allocated + share) ms)"

fun split_equal :: "int \<Rightarrow> int \<Rightarrow> int \<Rightarrow> split_member list \<Rightarrow> allocation list" where
  "split_equal tot per allocated [] = []"
| "split_equal tot per allocated [m] = [alloc m (tot - allocated)]"
| "split_equal tot per allocated (m # ms) = alloc m per # split_equal tot per (allocated + per) ms"

definition payable :: "split_member \<Rightarrow> bool" where
  "payable m \<longleftrightarrow> trim (sm_address m) \<noteq> []"

definition splitTeamPayout :: "int \<Rightarrow> split_member list \<Rightarrow> allocation list" where
  "splitTeamPayout teamTotalStroops ms =
     (let eligible = filter payable ms in
      if eligible = [] \<or> teamTotalStroops \<le> 0 then []
      else
        let totalPoints = foldl (\<lambda>acc m. acc + points m) 0 eligible in
        if 0 < totalPoints
        then filter (\<lambda>al. 0 < al_amount al) (split_proportional teamTotalStroops totalPoints 0 eligible)
        else
          let perMember = jdiv teamTotalStroops (int (length eligible)) in
          if perMember \<le> 0 then []
          else filter (\<lambda>al. 0 < al_amount al) (split_equal teamTotalStroops perMember 0 eligible))"

text \<open>\<open>addressMap\<close> holds the address of every member of a team of the challenge, so a member without
  one gets the empty address.\<close>

definition team_address :: "app \<Rightarrow> team_db \<Rightarrow> string \<Rightarrow> string \<Rightarrow> string" where
  "team_address a d cid uid =
     (if find_row (\<lambda>m. mb_challenge m = cid \<and> mb_user m = uid) (members d) = None then []
      else case find_row (\<lambda>u. u_id u = uid) (users a) of
        Some u \<Rightarrow> (case u_stellar_address u of Some x \<Rightarrow> x | None \<Rightarrow> []) | None \<Rightarrow> [])"

definition team_allocations :: "app \<Rightarrow> team_db \<Rightarrow> string \<Rightarrow> int \<Rightarrow> int \<Rightarrow> team_entry \<Rightarrow> (string \<times> allocation) list" where
  "team_allocations a d cid totalPoints pool t =
     (if te_total t \<le> 0 then []
      else
        let teamStroops = calculatePayoutShareStroops (te_total t) totalPoints pool in
        if teamStroops \<le> 0 then []
        else map (Pair (te_id t)) (splitTeamPayout teamStroops
               (map (\<lambda>(u, score). \<lparr>sm_user = u, sm_address = team_address a d cid u, sm_score = Some score\<rparr>)
                 (te_members t))))"

definition calculateTeamPayoutAllocations :: "app \<Rightarrow> team_db \<Rightarrow> string \<Rightarrow> int \<Rightarrow> (string \<times> allocation) list" where
  "calculateTeamPayoutAllocations a d cid playerPoolStroops =
     (let teamEntries = getChallengeTeamLeaderboard a d cid 100 in
      if teamEntries = [] \<or> playerPoolStroops \<le> 0 then []
      else
        let totalPoints = foldl (\<lambda>acc t. acc + te_total t) 0 teamEntries in
        if totalPoints \<le> 0 then []
        else concat (map (team_allocations a d cid totalPoints playerPoolStroops) teamEntries))"

section \<open>Lemmas\<close>

abbreviation amounts :: "allocation list \<Rightarrow> int" where
  "amounts als \<equiv> \<Sum>al\<leftarrow>als. al_amount al"

lemma alloc_simps [simp]: "al_amount (alloc m n) = n" "al_user (alloc m n) = sm_user m" "al_address (alloc m n) = sm_address m"
  by (simp_all add: alloc_def)

text \<open>Dropping the empty allocations does not change the sum when none is negative.\<close>

lemma amounts_positive:
  "list_all (\<lambda>al. 0 \<le> al_amount al) als \<Longrightarrow> amounts (filter (\<lambda>al. 0 < al_amount al) als) = amounts als"
  by (induction als) auto

lemma split_proportional_sum:
  assumes "0 \<le> tot" and "\<And>m. m \<in> set ms \<Longrightarrow> 0 \<le> points m" and "0 < pts"
    and "allocated * pts + tot * (\<Sum>m\<leftarrow>ms. points m) \<le> tot * pts" and "ms \<noteq> []"
  shows "amounts (split_proportional tot pts allocated ms) = tot - allocated \<and>
    list_all (\<lambda>al. 0 \<le> al_amount al) (split_proportional tot pts allocated ms)"
  using assms
proof (induction tot pts allocated ms rule: split_proportional.induct)
  case (2 tot pts allocated m)
  have "0 \<le> tot * points m" using 2 by simp
  then have "allocated * pts \<le> tot * pts" using 2(4) by simp
  then have "allocated \<le> tot" using 2(3) by simp
  then show ?case by simp
next
  case (3 tot pts allocated m m' ms)
  let ?share = "calculatePayoutShareStroops (points m) pts tot"
  have "0 \<le> points m" using 3(3) by simp
  then have sh: "?share = (tot * points m) div pts" "0 \<le> ?share"
    using 3(2,4) by (simp add: share_div, intro share_nonneg) simp_all
  have "?share * pts \<le> tot * points m"
    unfolding sh(1) using minus_mod_eq_div_mult [of "tot * points m" pts] pos_mod_sign [OF 3(4), of "tot * points m"]
    by linarith
  then have "(allocated + ?share) * pts + tot * (\<Sum>m\<leftarrow>m' # ms. points m) \<le> tot * pts"
    using 3(5) by (simp add: algebra_simps)
  from 3(1) [OF refl 3(2) _ 3(4) this] 3(3) sh(2) show ?case by (auto simp: Let_def)
qed simp

lemma split_equal_sum:
  assumes "0 \<le> per" and "allocated + per * int (length ms) \<le> tot" and "ms \<noteq> []"
  shows "amounts (split_equal tot per allocated ms) = tot - allocated \<and>
    list_all (\<lambda>al. 0 \<le> al_amount al) (split_equal tot per allocated ms)"
  using assms by (induction tot per allocated ms rule: split_equal.induct) (auto simp: algebra_simps)

lemma split_proportional_from:
  "al \<in> set (split_proportional tot pts allocated ms) \<Longrightarrow> \<exists>m \<in> set ms. al_user al = sm_user m \<and> al_address al = sm_address m"
  by (induction tot pts allocated ms rule: split_proportional.induct) (auto simp: Let_def split: if_splits)

lemma split_equal_from:
  "al \<in> set (split_equal tot per allocated ms) \<Longrightarrow> \<exists>m \<in> set ms. al_user al = sm_user m \<and> al_address al = sm_address m"
  by (induction tot per allocated ms rule: split_equal.induct) auto

lemma splitTeamPayout_from:
  assumes "al \<in> set (splitTeamPayout n ms)"
  shows "0 < al_amount al \<and> (\<exists>m \<in> set ms. payable m \<and> al_user al = sm_user m \<and> al_address al = sm_address m)"
  using assms split_proportional_from [of al n _ 0 "filter payable ms"] split_equal_from [of al n _ 0 "filter payable ms"]
  by (fastforce simp: splitTeamPayout_def Let_def split: if_splits)

lemma splitTeamPayout_sum:
  assumes "\<And>m. m \<in> set ms \<Longrightarrow> 0 \<le> points m"
  shows "amounts (splitTeamPayout n ms) =
    (if 0 < n \<and> filter payable ms \<noteq> [] \<and>
        (0 < (\<Sum>m\<leftarrow>filter payable ms. points m) \<or> int (length (filter payable ms)) \<le> n) then n else 0)"
proof (cases "0 < n \<and> filter payable ms \<noteq> []")
  case True
  let ?el = "filter payable ms" and ?pts = "\<Sum>m\<leftarrow>filter payable ms. points m"
  have tp: "foldl (\<lambda>acc m. acc + points m) 0 ?el = ?pts" by (simp add: foldl_plus_eq_sum_list)
  have pos: "0 < int (length ?el)" using True by simp
  have nn: "0 \<le> ?pts" using assms by (intro sum_list_nonneg_int) simp
  show ?thesis
  proof (cases "0 < ?pts")
    case pts: True
    have "amounts (split_proportional n ?pts 0 ?el) = n - 0 \<and>
      list_all (\<lambda>al. 0 \<le> al_amount al) (split_proportional n ?pts 0 ?el)"
      using True pts assms by (intro split_proportional_sum) simp_all
    with True pts show ?thesis by (simp add: splitTeamPayout_def Let_def tp amounts_positive)
  next
    case zero: False
    have per: "jdiv n (int (length ?el)) = n div int (length ?el)" using True pos by simp
    show ?thesis
    proof (cases "int (length ?el) \<le> n")
      case le: True
      let ?per = "n div int (length ?el)"
      have p: "0 < ?per" using le pos by (simp add: pos_imp_zdiv_pos_iff)
      have "?per * int (length ?el) \<le> n"
        using minus_mod_eq_div_mult [of n "int (length ?el)"] pos_mod_sign [OF pos, of n] by linarith
      then have "amounts (split_equal n ?per 0 ?el) = n - 0 \<and>
        list_all (\<lambda>al. 0 \<le> al_amount al) (split_equal n ?per 0 ?el)"
        using True p by (intro split_equal_sum) simp_all
      with True zero le p per show ?thesis
        by (simp add: splitTeamPayout_def Let_def tp amounts_positive)
    next
      case small: False
      then have "n div int (length ?el) = 0" using True by simp
      with True zero small per show ?thesis by (simp add: splitTeamPayout_def Let_def tp)
    qed
  qed
qed (auto simp: splitTeamPayout_def Let_def)

section \<open>Membership as a state machine\<close>

definition team_inv :: "team_db \<Rightarrow> bool" where
  "team_inv d \<longleftrightarrow>
     unique_by tm_id (teams d) \<and> unique_by (\<lambda>t. (tm_challenge t, tm_name t)) (teams d) \<and>
     unique_by (\<lambda>m. (mb_challenge m, mb_user m)) (members d) \<and>
     (\<forall>m \<in> set (members d). \<exists>t \<in> set (teams d). tm_id t = mb_team m \<and> tm_challenge t = mb_challenge m)"

inductive team_step :: "team_db \<Rightarrow> team_db \<Rightarrow> bool" where
  create: "fresh \<notin> tm_id ` set (teams d) \<Longrightarrow> team_step d (snd (createChallengeTeam fresh now cid name uid d))"
| join: "team_step d (snd (joinChallengeTeam now cid tid uid d))"
| leave: "team_step d (snd (leaveChallengeTeam cid uid d))"

lemma upsert_member_unique:
  assumes "unique_by (\<lambda>m. (mb_challenge m, mb_user m)) rows"
  shows "unique_by (\<lambda>m. (mb_challenge m, mb_user m)) (upsert_member now tid cid uid rows)"
proof (cases "find_row (\<lambda>m. mb_challenge m = cid \<and> mb_user m = uid) rows")
  case None
  then have "find_row (\<lambda>m. (mb_challenge m, mb_user m) = (cid, uid)) rows = None" by simp
  with None assms show ?thesis by (simp add: upsert_member_def Let_def unique_by_snoc)
next
  case (Some m)
  with assms show ?thesis by (simp add: upsert_member_def Let_def unique_by_update)
qed

lemma upsert_member_in:
  "m \<in> set (upsert_member now tid cid uid rows) \<Longrightarrow>
   (mb_team m = tid \<and> mb_challenge m = cid \<and> mb_user m = uid) \<or>
   (m \<in> set rows \<and> \<not> (mb_challenge m = cid \<and> mb_user m = uid))"
  by (auto simp: upsert_member_def Let_def find_row_None update_where_def split: if_splits)

lemma upsert_member_there:
  "\<exists>m \<in> set (upsert_member now tid cid uid rows). mb_team m = tid \<and> mb_challenge m = cid \<and> mb_user m = uid"
proof (cases "find_row (\<lambda>m. mb_challenge m = cid \<and> mb_user m = uid) rows")
  case (Some m)
  with find_row_Some [OF Some] show ?thesis
    by (auto simp: upsert_member_def Let_def set_update_where intro!: bexI [of _ "m\<lparr>mb_team := tid, mb_joined := now\<rparr>"])
qed (simp add: upsert_member_def Let_def)

lemma team_inv_upsert:
  assumes "team_inv d" and "t \<in> set (teams d)" and "tm_id t = tid" and "tm_challenge t = cid"
  shows "team_inv (d\<lparr>members := upsert_member now tid cid uid (members d)\<rparr>)"
  using assms upsert_member_in [of _ now tid cid uid "members d"]
  by (fastforce simp: team_inv_def upsert_member_unique)

lemma team_inv_step: "team_inv d \<Longrightarrow> team_step d d' \<Longrightarrow> team_inv d'"
proof (erule team_step.cases)
  fix fresh d0 now cid name uid
  assume inv: "team_inv d" and d: "d = d0" "d' = snd (createChallengeTeam fresh now cid name uid d0)"
    and fresh: "fresh \<notin> tm_id ` set (teams d0)"
  let ?t = "\<lparr>tm_id = fresh, tm_challenge = cid, tm_name = trim name, tm_created_by = uid, tm_created = now\<rparr>"
  show "team_inv d'"
  proof (cases "trim name = [] \<or> find_row (\<lambda>t. tm_challenge t = cid \<and> tm_name t = trim name) (teams d0) \<noteq> None")
    case False
    then have "find_row (\<lambda>t. (tm_challenge t, tm_name t) = (cid, trim name)) (teams d0) = None" by simp
    then have "team_inv (d0\<lparr>teams := teams d0 @ [?t]\<rparr>)"
      using inv d(1) fresh by (auto simp: team_inv_def unique_by_snoc find_row_None)
    then have "team_inv (d0\<lparr>teams := teams d0 @ [?t], members := upsert_member now fresh cid uid (members d0)\<rparr>)"
      using team_inv_upsert [of "d0\<lparr>teams := teams d0 @ [?t]\<rparr>" ?t fresh cid now uid] by simp
    with False d(2) show ?thesis by (auto simp: createChallengeTeam_def Let_def)
  qed (use inv d in \<open>auto simp: createChallengeTeam_def Let_def\<close>)
next
  fix d0 now cid tid uid
  assume inv: "team_inv d" and d: "d = d0" "d' = snd (joinChallengeTeam now cid tid uid d0)"
  show "team_inv d'"
  proof (cases "find_row (\<lambda>t. tm_id t = tid \<and> tm_challenge t = cid) (teams d0)")
    case (Some t)
    with find_row_Some [OF Some] team_inv_upsert [of d0 t tid cid now uid] inv d show ?thesis
      by (simp add: joinChallengeTeam_def)
  qed (use inv d in \<open>simp add: joinChallengeTeam_def\<close>)
next
  fix d0 cid uid
  assume "team_inv d" and "d = d0" and "d' = snd (leaveChallengeTeam cid uid d0)"
  then show "team_inv d'"
    by (auto simp: team_inv_def leaveChallengeTeam_def Let_def unique_by_delete set_delete_where)
qed

interpretation membership: transition_system
  "\<lambda>d. d = \<lparr>teams = [], members = []\<rparr>" team_step team_inv
  by unfold_locales (simp add: team_inv_def, rule team_inv_step)

lemma user_team_unique:
  assumes "team_inv d" and "t \<in> set (teams d)" and "m \<in> set (members d)" and "mb_team m = tm_id t"
    and "mb_challenge m = tm_challenge t"
  shows "getUserChallengeTeam d (tm_challenge t) (mb_user m) = Some t"
proof -
  have "x = t" if x: "x \<in> set (teams d)" "tm_challenge x = tm_challenge t" "m' \<in> set (members d)"
    "mb_team m' = tm_id x" "mb_user m' = mb_user m" for x m'
  proof -
    obtain y where y: "y \<in> set (teams d)" "tm_id y = mb_team m'" "tm_challenge y = mb_challenge m'"
      using assms(1) x(3) unfolding team_inv_def by blast
    have ids: "unique_by tm_id (teams d)" and one: "unique_by (\<lambda>m. (mb_challenge m, mb_user m)) (members d)"
      using assms(1) by (simp_all add: team_inv_def)
    have "y = x" using y(2) x(4) by (intro unique_byD [OF ids y(1) x(1)]) simp
    then have "m' = m" using y(3) x(2,5) assms(5) by (intro unique_byD [OF one x(3) assms(3)]) simp
    then show ?thesis using assms(4) x(4) by (intro unique_byD [OF ids x(1) assms(2)]) simp
  qed
  moreover obtain x where x: "getUserChallengeTeam d (tm_challenge t) (mb_user m) = Some x"
    using assms(2-4) by (cases "getUserChallengeTeam d (tm_challenge t) (mb_user m)")
      (auto simp: getUserChallengeTeam_def find_row_None)
  ultimately have "x = t" using find_row_Some [OF x [unfolded getUserChallengeTeam_def]] by blast
  with x show ?thesis by simp
qed

section \<open>Properties\<close>

text \<open>In every state reached by creating, joining and leaving teams, a player is in at most one
  team of a challenge, and joining a team of the challenge makes it the player's team, whatever team
  the player was in before.\<close>

theorem join_switches_team:
  assumes "team_step\<^sup>*\<^sup>* \<lparr>teams = [], members = []\<rparr> d"
    and "joinChallengeTeam now cid tid uid d = (Inr t, d')"
  shows "distinct (map (\<lambda>m. (mb_challenge m, mb_user m)) (members d')) \<and>
    getUserChallengeTeam d' cid uid = Some t \<and> tm_id t = tid"
proof -
  have inv: "team_inv d" using membership.inv_reachable [OF refl assms(1)] .
  have t: "t \<in> set (teams d)" "tm_id t = tid" "tm_challenge t = cid"
    and d': "d' = d\<lparr>members := upsert_member now tid cid uid (members d)\<rparr>"
    using assms(2) by (auto simp: joinChallengeTeam_def split: option.splits dest: find_row_Some)
  have inv': "team_inv d'" using team_inv_upsert [OF inv t] d' by simp
  obtain m where "m \<in> set (members d')" "mb_team m = tid" "mb_challenge m = cid" "mb_user m = uid"
    using upsert_member_there [of now tid cid uid "members d"] d' by auto
  with user_team_unique [OF inv', of t m] t d' have "getUserChallengeTeam d' cid uid = Some t" by auto
  with inv' t show ?thesis by (simp add: team_inv_def unique_by_def)
qed

theorem join_switches_team_witness:
  "getUserChallengeTeam (snd (joinChallengeTeam 7 ''c1'' ''t1'' ''bob''
     (snd (createChallengeTeam ''t1'' 5 ''c1'' '' Red '' ''ana'' \<lparr>teams = [], members = []\<rparr>)))) ''c1'' ''bob'' =
   Some \<lparr>tm_id = ''t1'', tm_challenge = ''c1'', tm_name = ''Red'', tm_created_by = ''ana'', tm_created = 5\<rparr>"
proof -
  let ?d0 = "\<lparr>teams = [], members = []\<rparr>" and ?t = "\<lparr>tm_id = ''t1'', tm_challenge = ''c1'', tm_name = ''Red'',
    tm_created_by = ''ana'', tm_created = 5\<rparr>"
  let ?d1 = "snd (createChallengeTeam ''t1'' 5 ''c1'' '' Red '' ''ana'' ?d0)"
  have "team_step\<^sup>*\<^sup>* ?d0 ?d1" by (rule r_into_rtranclp, rule team_step.create) simp
  moreover have "fst (joinChallengeTeam 7 ''c1'' ''t1'' ''bob'' ?d1) = Inr ?t" by code_simp
  then have "joinChallengeTeam 7 ''c1'' ''t1'' ''bob'' ?d1 = (Inr ?t, snd (joinChallengeTeam 7 ''c1'' ''t1'' ''bob'' ?d1))"
    by (simp add: prod_eq_iff)
  ultimately show ?thesis using join_switches_team by blast
qed

text \<open>A team's prize is split without loss: when some member with an address scored, or the
  prize has a stroop for each of them, the allocations add up to exactly the prize, and otherwise
  nothing is allocated; every allocation is positive and goes to a member with an address.\<close>

theorem team_split_exact:
  assumes "\<forall>m \<in> set ms. 0 \<le> points m"
  shows "(\<Sum>al\<leftarrow>splitTeamPayout n ms. al_amount al) =
    (if 0 < n \<and> filter payable ms \<noteq> [] \<and>
        (0 < (\<Sum>m\<leftarrow>filter payable ms. points m) \<or> int (length (filter payable ms)) \<le> n) then n else 0) \<and>
    list_all (\<lambda>al. 0 < al_amount al \<and> (\<exists>m \<in> set ms. payable m \<and> al_user al = sm_user m \<and> al_address al = sm_address m))
      (splitTeamPayout n ms)"
  using splitTeamPayout_sum [of ms n] splitTeamPayout_from [of _ n ms] assms unfolding list_all_iff by blast

theorem team_split_exact_witness:
  "(\<Sum>al\<leftarrow>splitTeamPayout 1000 [\<lparr>sm_user = ''a'', sm_address = ''GA'', sm_score = Some 300\<rparr>,
      \<lparr>sm_user = ''b'', sm_address = '' '', sm_score = Some 100\<rparr>,
      \<lparr>sm_user = ''c'', sm_address = ''GC'', sm_score = Some 141\<rparr>]. al_amount al) = 1000"
proof -
  let ?ms = "[\<lparr>sm_user = ''a'', sm_address = ''GA'', sm_score = Some 300\<rparr>,
      \<lparr>sm_user = ''b'', sm_address = '' '', sm_score = Some 100\<rparr>,
      \<lparr>sm_user = ''c'', sm_address = ''GC'', sm_score = Some 141\<rparr>]"
  have "\<forall>m \<in> set ?ms. 0 \<le> points m" by (simp add: points_def)
  from team_split_exact [OF this, of 1000] show ?thesis
    by (simp add: payable_def points_def trim_def is_space_def)
qed

lemma user_score_nonneg:
  assumes "\<And>s. s \<in> set (sessions a) \<Longrightarrow> 0 \<le> gs_total s"
  shows "0 \<le> user_challenge_score a cid uid"
proof -
  have "0 \<le> fold max xs x" if "0 \<le> x" for xs and x :: int
    using that by (induction xs arbitrary: x) simp_all
  moreover have "0 \<le> x" if "map gs_total (filter P (sessions a)) = x # xs" for P x xs
  proof -
    have "x \<in> set (map gs_total (filter P (sessions a)))" unfolding that by simp
    then show ?thesis using assms by auto
  qed
  ultimately show ?thesis by (simp add: user_challenge_score_def split: list.split)
qed

lemma sum_concat_map: "(\<Sum>x\<leftarrow>concat (map f xs). (g x :: int)) = (\<Sum>y\<leftarrow>xs. \<Sum>x\<leftarrow>f y. g x)"
  by (induction xs) simp_all

lemma team_members_nonneg:
  assumes "\<And>s. s \<in> set (sessions a) \<Longrightarrow> 0 \<le> gs_total s" and "(u, n) \<in> set (team_members a d cid t)"
  shows "0 \<le> n"
  using assms user_score_nonneg by (auto simp: team_members_def)

lemma board_entry:
  assumes "t \<in> set (getChallengeTeamLeaderboard a d cid limit)"
  shows "te_total t = team_total (te_members t) \<and> (\<exists>row \<in> set (teams d). te_members t = team_members a d cid row)"
  using assms
  by (auto simp: getChallengeTeamLeaderboard_def Let_def dest!: set_zip_rightD in_set_takeD)

lemma team_allocations_le:
  assumes "\<And>u n. (u, n) \<in> set (te_members t) \<Longrightarrow> 0 \<le> n" and "te_total t \<le> pts" and "0 \<le> pool"
  shows "(\<Sum>(tid, al)\<leftarrow>team_allocations a d cid pts pool t. al_amount al) \<le>
    (if te_total t \<le> 0 then 0 else calculatePayoutShareStroops (te_total t) pts pool)"
proof -
  let ?ms = "map (\<lambda>(u, score). \<lparr>sm_user = u, sm_address = team_address a d cid u, sm_score = Some score\<rparr>) (te_members t)"
  let ?n = "calculatePayoutShareStroops (te_total t) pts pool"
  have "amounts (splitTeamPayout ?n ?ms) \<le> max 0 ?n"
    using assms(1) by (subst splitTeamPayout_sum) (auto simp: points_def)
  moreover have "0 \<le> ?n" if "0 < te_total t" using that assms(2,3) by (intro share_nonneg) simp_all
  ultimately show ?thesis by (auto simp: team_allocations_def Let_def comp_def)
qed



end
