(* ===== verification/Referrals.thy ===== *)
theory Referrals
  imports Money_Db Session_Routes
begin

text \<open>
  Referrals (\<open>services/referrals.ts\<close>) and the referral bonus job
  (\<open>queues/processors/referral-bonus.processor.ts\<close>): code generation, attribution of a new user to
  a referrer, the bonus queued when the referred user wins, and its payment. Random bytes, the hash
  and Horizon are parameters; loops with a fixed number of attempts count them down.
\<close>

section \<open>Codes\<close>

definition CODE_ALPHABET :: string where "CODE_ALPHABET = ''ABCDEFGHJKLMNPQRSTUVWXYZ23456789''"
definition CODE_LENGTH :: nat where "CODE_LENGTH = 6"

definition normalizeCode :: "string \<Rightarrow> string" where
  "normalizeCode code = toUpperCase (trim code)"

definition isValidCode :: "string \<Rightarrow> bool" where
  "isValidCode code \<longleftrightarrow> length code = 6 \<and>
     list_all (\<lambda>c. let n = (of_char c :: nat) in (65 \<le> n \<and> n \<le> 90) \<or> (48 \<le> n \<and> n \<le> 57)) code"

definition findUserByReferralCode :: "bank \<Rightarrow> string \<Rightarrow> user option" where
  "findUserByReferralCode b code =
     find_row (\<lambda>u. (referral_code b (u_id u) = Some code \<or> vanity_slug b (u_id u) = Some code) \<and>
       u_deleted_at u = None) (users (game b))"

definition getUserReferralCode :: "bank \<Rightarrow> string \<Rightarrow> string option" where
  "getUserReferralCode b uid = (if live_user b uid then referral_code b uid else None)"

text \<open>\<open>UPDATE ... WHERE referral_code IS NULL\<close>; the column is unique over all users, deleted or not.\<close>

definition setUserReferralCode :: "string \<Rightarrow> string \<Rightarrow> bank \<Rightarrow> (exn + unit) \<times> bank" where
  "setUserReferralCode uid code b =
     (if find_row (\<lambda>u. u_id u = uid) (users (game b)) = None \<or> referral_code b uid \<noteq> None then (Inr (), b)
      else if find_row (\<lambda>u. u_id u \<noteq> uid \<and> referral_code b (u_id u) = Some code) (users (game b)) \<noteq> None
      then (Inl ((js_error ''duplicate key'')\<lparr>err_code := Some ''23505''\<rparr>), b)
      else (Inr (), b\<lparr>referral_code := (referral_code b)(uid := Some code)\<rparr>))"

definition code_of_bytes :: "(nat \<Rightarrow> nat) \<Rightarrow> string" where
  "code_of_bytes bytes = map (\<lambda>i. CODE_ALPHABET ! (bytes i mod length CODE_ALPHABET)) [0..<CODE_LENGTH]"

fun generate_attempts :: "nat \<Rightarrow> (nat \<Rightarrow> nat \<Rightarrow> nat) \<Rightarrow> nat \<Rightarrow> bank \<Rightarrow> exn + string" where
  "generate_attempts 0 rnd attempt b = Inl (js_error ''Unable to generate unique referral code'')"
| "generate_attempts (Suc left) rnd attempt b =
     (let code = code_of_bytes (rnd attempt)
      in if findUserByReferralCode b code = None then Inr code
         else generate_attempts left rnd (attempt + 1) b)"

definition generateUniqueReferralCode :: "(nat \<Rightarrow> nat \<Rightarrow> nat) \<Rightarrow> bank \<Rightarrow> exn + string" where
  "generateUniqueReferralCode rnd b = generate_attempts 20 rnd 0 b"

fun ensure_attempts ::
  "nat \<Rightarrow> (nat \<Rightarrow> nat \<Rightarrow> nat \<Rightarrow> nat) \<Rightarrow> nat \<Rightarrow> string \<Rightarrow> bank \<Rightarrow> (exn + string) \<times> bank" where
  "ensure_attempts 0 rnd attempt uid b = (Inl (js_error ''Unable to assign referral code''), b)"
| "ensure_attempts (Suc left) rnd attempt uid b =
     (case generateUniqueReferralCode (rnd attempt) b of
        Inl e \<Rightarrow> (Inl e, b)
      | Inr code \<Rightarrow>
          (case setUserReferralCode uid code b of
             (Inl e, b1) \<Rightarrow> if err_code e = Some ''23505'' then ensure_attempts left rnd (attempt + 1) uid b1 else (Inl e, b1)
           | (Inr _, b1) \<Rightarrow>
               (case getUserReferralCode b1 uid of
                  Some c \<Rightarrow> if c \<noteq> [] then (Inr c, b1) else ensure_attempts left rnd (attempt + 1) uid b1
                | None \<Rightarrow> ensure_attempts left rnd (attempt + 1) uid b1)))"

definition ensureUserReferralCode :: "(nat \<Rightarrow> nat \<Rightarrow> nat \<Rightarrow> nat) \<Rightarrow> string \<Rightarrow> bank \<Rightarrow> (exn + string) \<times> bank" where
  "ensureUserReferralCode rnd uid b =
     (case given (getUserReferralCode b uid) of
        Some c \<Rightarrow> (Inr c, b)
      | None \<Rightarrow> ensure_attempts 10 rnd 0 uid b)"

section \<open>Attribution\<close>

definition fingerprintKey :: "string \<Rightarrow> string" where "fingerprintKey fp = ''referral:fingerprint:'' @ fp"
definition pendingReferralKey :: "string \<Rightarrow> string" where "pendingReferralKey fp = ''referral:pending:'' @ fp"

definition on_game :: "(app \<Rightarrow> (exn + 'a) \<times> app) \<Rightarrow> bank \<Rightarrow> (exn + 'a) \<times> bank" where
  "on_game f b = (case f (game b) of (r, a) \<Rightarrow> (r, b\<lparr>game := a\<rparr>))"

definition referral_fingerprint :: "(string \<Rightarrow> string) \<Rightarrow> request \<Rightarrow> string" where
  "referral_fingerprint sha256 req = computeFingerprint sha256 (rq_visitor req) (rq_device req) (rq_ip req) (rq_ua req)"

definition recordReferralFingerprint ::
  "(string \<Rightarrow> string) \<Rightarrow> int \<Rightarrow> string \<Rightarrow> request \<Rightarrow> bank \<Rightarrow> (exn + unit) \<times> bank" where
  "recordReferralFingerprint sha256 now uid req b =
     on_game (redis_write (\<lambda>st. r_set_ex now st (fingerprintKey (referral_fingerprint sha256 req)) (RStr uid)
       (365 * 24 * 60 * 60))) b"

text \<open>The query parameter \<open>ref\<close> and the cookie \<open>ref\<close>, when they are strings.\<close>

definition readReferralCode :: "string option \<Rightarrow> string option \<Rightarrow> string option" where
  "readReferralCode queryRef cookieRef =
     (case queryRef of
        Some q \<Rightarrow> if trim q \<noteq> [] then Some (trim q)
                   else (case cookieRef of Some c \<Rightarrow> if trim c \<noteq> [] then Some (trim c) else None | None \<Rightarrow> None)
      | None \<Rightarrow> (case cookieRef of Some c \<Rightarrow> if trim c \<noteq> [] then Some (trim c) else None | None \<Rightarrow> None))"

definition redis_text :: "int \<Rightarrow> string \<Rightarrow> bank \<Rightarrow> (exn + string option) \<times> bank" where
  "redis_text now k b = on_game (redis_do (\<lambda>st. (case r_get now st k of Some (RStr s) \<Rightarrow> Some s | _ \<Rightarrow> None, st))) b"

definition attribute_to ::
  "(string \<Rightarrow> string) \<Rightarrow> int \<Rightarrow> string \<Rightarrow> string \<Rightarrow> request \<Rightarrow> user \<Rightarrow> bank \<Rightarrow> (exn + unit) \<times> bank" where
  "attribute_to sha256 now fresh uid req referrer b =
     (if u_id referrer = uid then (Inl (createError ''Self-referrals are not allowed'' 409 None), b)
      else and_then (redis_text now (fingerprintKey (referral_fingerprint sha256 req)) b) (\<lambda>owner b1.
        if given owner \<noteq> None \<and> owner \<noteq> Some uid
        then (Inl (createError ''Referral attribution rejected for this device'' 409 None), b1)
        else if findReferralByReferrerAndReferred b1 uid (u_id referrer) \<noteq> None
        then (Inl (createError ''Referral cycle detected'' 409 None), b1)
        else if findReferralByReferredId b1 uid \<noteq> None then recordReferralFingerprint sha256 now uid req b1
        else
          let b2 = snd (createReferral fresh (u_id referrer) uid b1)
          in and_then (on_game (redis_write (\<lambda>st. r_del st (pendingReferralKey (referral_fingerprint sha256 req)))) b2)
               (\<lambda>_ b3. recordReferralFingerprint sha256 now uid req b3)))"

definition consumePendingReferralAttribution ::
  "(string \<Rightarrow> string) \<Rightarrow> int \<Rightarrow> string \<Rightarrow> string option \<Rightarrow> string option \<Rightarrow> string \<Rightarrow> request \<Rightarrow> bank \<Rightarrow>
     (exn + unit) \<times> bank" where
  "consumePendingReferralAttribution sha256 now fresh queryRef cookieRef uid req b =
     and_then
       (case readReferralCode queryRef cookieRef of
          Some c \<Rightarrow> (Inr (Some c), b)
        | None \<Rightarrow> redis_text now (pendingReferralKey (referral_fingerprint sha256 req)) b)
       (\<lambda>found b1.
          let code = normalizeCode (or_empty found) in
          if \<not> isValidCode code then recordReferralFingerprint sha256 now uid req b1
          else case findUserByReferralCode b1 code of
            None \<Rightarrow> recordReferralFingerprint sha256 now uid req b1
          | Some referrer \<Rightarrow> attribute_to sha256 now fresh uid req referrer b1)"

section \<open>The bonus\<close>

record referral_stats =
  st_code :: "string option"
  st_invites :: nat
  st_conversions :: nat
  st_earned :: int

definition getReferralStats :: "bank \<Rightarrow> string \<Rightarrow> referral_stats" where
  "getReferralStats b uid =
     (let (r, d) = getReferralPayoutTotalsForUser b uid
      in \<lparr>st_code = getUserReferralCode b uid, st_invites = countReferralInvites b uid,
          st_conversions = countReferralConversions b uid, st_earned = r + d\<rparr>)"

definition isFraudSession :: "bank \<Rightarrow> string \<Rightarrow> bool" where
  "isFraudSession b sid \<longleftrightarrow> (\<exists>f \<in> set (fraud_flags (game b)). ff_session f = sid)"

definition findReferralSessionId :: "bank \<Rightarrow> string \<Rightarrow> string option \<Rightarrow> string option" where
  "findReferralSessionId b uid cid =
     (case given cid of None \<Rightarrow> None | Some c \<Rightarrow> map_option gs_id (getSession (game b) uid c))"

definition auditReferralBonusSkipped :: "string \<Rightarrow> bank \<Rightarrow> bank" where
  "auditReferralBonusSkipped sid b =
     b\<lparr>game := (game b)\<lparr>audit_log := audit_log (game b) @
        [\<lparr>au_actor = [], au_action = ''referral_bonus_skipped'', au_entity = ''game_sessions'', au_key = sid\<rparr>]\<rparr>\<rparr>"

definition trimmed_or :: "string option \<Rightarrow> string option" where
  "trimmed_or v = (case v of Some s \<Rightarrow> if trim s \<noteq> [] then Some (trim s) else None | None \<Rightarrow> None)"

definition resolvePayoutAddress :: "user option \<Rightarrow> string option" where
  "resolvePayoutAddress u = (case u of
     None \<Rightarrow> None
   | Some v \<Rightarrow> (case trimmed_or (u_embedded_wallet v) of Some x \<Rightarrow> Some x | None \<Rightarrow> trimmed_or (u_stellar_address v)))"

text \<open>The job is added to the queue, which lives in Redis; a failure there is logged and swallowed.\<close>

definition enqueueReferralBonus :: "string \<Rightarrow> bank \<Rightarrow> bank" where
  "enqueueReferralBonus pid b = (if redis_up (game b) then b\<lparr>bonus_jobs := bonus_jobs b @ [pid]\<rparr> else b)"

definition queue_bonus :: "string \<Rightarrow> string option \<Rightarrow> int \<Rightarrow> referral_row \<Rightarrow> bank \<Rightarrow> bank" where
  "queue_bonus fresh cid winStroops referral b =
     (let referrerAddress = resolvePayoutAddress (findUserById (game b) (rf_referrer referral));
          referredAddress = resolvePayoutAddress (findUserById (game b) (rf_referred referral));
          referrerAmount = jdiv winStroops 10;
          capped = (if 50000000 < referrerAmount then 50000000 else referrerAmount)
      in if referrerAddress = None \<or> referredAddress = None \<or> capped < 1 then b
         else
           let (payout, b1) = createReferralPayout fresh
                 \<lparr>rp_id = [], rp_referral = rf_id referral, rp_challenge = cid, rp_referrer = rf_referrer referral,
                  rp_referred = rf_referred referral, rp_referrer_address = referrerAddress,
                  rp_referred_address = referredAddress, rp_referrer_amount = capped,
                  rp_referred_amount = 10000000, rp_status = PPending, rp_tx = None, rp_error = []\<rparr> b
           in if rp_status payout \<noteq> PPending then b1
              else enqueueReferralBonus (rp_id payout) (markReferralRewarded (rf_id referral) b1))"

definition queueReferralBonusForPayout :: "string \<Rightarrow> string \<Rightarrow> string option \<Rightarrow> int \<Rightarrow> bank \<Rightarrow> bank" where
  "queueReferralBonusForPayout fresh uid cid winStroops b =
     (case findReferralByReferredId b uid of
        None \<Rightarrow> b
      | Some referral \<Rightarrow>
          if rf_rewarded referral then b
          else case findReferralSessionId b uid cid of
            Some sid \<Rightarrow> if isFraudSession b sid then auditReferralBonusSkipped sid b
                        else queue_bonus fresh cid winStroops referral b
          | None \<Rightarrow> queue_bonus fresh cid winStroops referral b)"

text \<open>The job's body: nothing, a skip that is audited, a failure, or the submission of both amounts.
  The row's stroop counts are passed as they are, although the field is an amount in USDC.\<close>

definition bonus_recipients :: "referral_payout_row \<Rightarrow> recipient list" where
  "bonus_recipients p =
     [\<lparr>rc_address = or_empty (rp_referrer_address p), rc_amount = string_of_int (rp_referrer_amount p)\<rparr>,
      \<lparr>rc_address = or_empty (rp_referred_address p), rc_amount = string_of_int (rp_referred_amount p)\<rparr>]"

definition bonus_fraud :: "bank \<Rightarrow> referral_payout_row \<Rightarrow> string option" where
  "bonus_fraud b p =
     (case given (rp_challenge p) of
        None \<Rightarrow> None
      | Some cid \<Rightarrow> (case getSession (game b) (rp_referred p) cid of
          Some s \<Rightarrow> if isFraudSession b (gs_id s) then Some (gs_id s) else None
        | None \<Rightarrow> None))"

definition processReferralBonusJob ::
  "horizon \<Rightarrow> string \<Rightarrow> string \<Rightarrow> string \<Rightarrow> bank \<Rightarrow> (stellar_err + unit) \<times> bank" where
  "processReferralBonusJob hz network publicKey pid b =
     (case findReferralPayoutById b pid of
        None \<Rightarrow> (Inr (), b)
      | Some p \<Rightarrow>
          if rp_status p \<noteq> PPending then (Inr (), b)
          else case bonus_fraud b p of
            Some sid \<Rightarrow>
              (Inr (), auditReferralBonusSkipped sid (updateReferralPayoutStatus (rp_id p) PFailed None
                 (Some ''Referral bonus skipped because session was flagged as fraud'') b))
          | None \<Rightarrow>
              if given (rp_referrer_address p) = None \<or> given (rp_referred_address p) = None
              then (Inr (), updateReferralPayoutStatus (rp_id p) PFailed None
                     (Some ''Missing Stellar address for referral bonus payout'') b)
              else
                (case submit_payouts hz network publicKey (''referral-'' @ rp_id p) (bonus_recipients p) b of
                   (Inl e, b1) \<Rightarrow> (Inl e, b1)
                 | (Inr [], b1) \<Rightarrow> (Inr (), updateReferralPayoutStatus (rp_id p) PFailed None (Some ''No Stellar response'') b1)
                 | (Inr (r # _), b1) \<Rightarrow>
                     if br_success r
                     then (Inr (), updateReferralPayoutStatus (rp_id p) PSent (Some (br_txHash r)) None b1)
                     else (Inr (), updateReferralPayoutStatus (rp_id p) PFailed None
                            (case br_error r of Some m \<Rightarrow> Some m | None \<Rightarrow> Some ''Referral bonus payout failed'') b1)))"

section \<open>What the operations keep\<close>

lemma on_game_keeps [simp]:
  "referrals (snd (on_game f b)) = referrals b" "referral_payouts (snd (on_game f b)) = referral_payouts b"
  "bonus_jobs (snd (on_game f b)) = bonus_jobs b"
  by (simp_all add: on_game_def split: prod.split)

lemma attribution_keeps [simp]:
  "referrals (snd (recordReferralFingerprint sha now u req b)) = referrals b"
  "referrals (snd (redis_text now k b)) = referrals b"
  by (simp_all add: recordReferralFingerprint_def redis_text_def)

lemma submit_payouts_keeps [simp]:
  "referral_payouts (snd (submit_payouts hz n pk m rs b)) = referral_payouts b"
  "referrals (snd (submit_payouts hz n pk m rs b)) = referrals b"
  "payouts (snd (submit_payouts hz n pk m rs b)) = payouts b"
  "users (game (snd (submit_payouts hz n pk m rs b))) = users (game b)"
  "sessions (game (snd (submit_payouts hz n pk m rs b))) = sessions (game b)"
  by (simp_all add: submit_payouts_def split: prod.split)

text \<open>The referral graph: one referrer per user, nobody refers themselves, and no two users refer each
  other.\<close>

definition referral_inv :: "bank \<Rightarrow> bool" where
  "referral_inv b \<longleftrightarrow>
     unique_by rf_referred (referrals b) \<and>
     (\<forall>r \<in> set (referrals b). rf_referrer r \<noteq> rf_referred r) \<and>
     (\<forall>r \<in> set (referrals b). \<forall>s \<in> set (referrals b).
        \<not> (rf_referrer r = rf_referred s \<and> rf_referred r = rf_referrer s))"

lemma referral_inv_cong: "referrals b' = referrals b \<Longrightarrow> referral_inv b \<Longrightarrow> referral_inv b'"
  by (simp add: referral_inv_def)

lemma referral_inv_keeps [simp]:
  "referral_inv (snd (on_game f b)) = referral_inv b"
  "referral_inv (snd (recordReferralFingerprint sha now u req b)) = referral_inv b"
  "referral_inv (snd (redis_text now k b)) = referral_inv b"
  by (simp_all add: referral_inv_def)

lemma referral_inv_create:
  assumes "referral_inv b" and "x \<noteq> uid" and "findReferralByReferrerAndReferred b uid x = None"
    and "findReferralByReferredId b uid = None"
  shows "referral_inv (snd (createReferral fresh x uid b))"
proof -
  have eq: "referrals (snd (createReferral fresh x uid b)) =
      referrals b @ [\<lparr>rf_id = fresh, rf_referrer = x, rf_referred = uid, rf_rewarded = False\<rparr>]"
    using assms(4) by (simp add: createReferral_def Let_def)
  have none: "find_row (\<lambda>r. rf_referred r = uid) (referrals b) = None"
    and "\<forall>r \<in> set (referrals b). \<not> (rf_referrer r = uid \<and> rf_referred r = x)"
    using assms(3,4) by (simp_all add: findReferralByReferredId_def findReferralByReferrerAndReferred_def find_row_None)
  then show ?thesis
    using assms(1,2) unfolding referral_inv_def eq by (auto simp: unique_by_snoc)
qed

lemma attribute_to_inv:
  assumes "referral_inv b"
  shows "referral_inv (snd (attribute_to sha now fresh uid req referrer b))"
proof (cases "u_id referrer = uid")
  case False
  obtain r b1 where m: "redis_text now (fingerprintKey (referral_fingerprint sha req)) b = (r, b1)" by fastforce
  have b1: "referral_inv b1" using assms referral_inv_keeps(3) [of now _ b] m by (metis snd_conv)
  show ?thesis
  proof (cases r)
    case (Inr owner)
    show ?thesis
    proof (cases "findReferralByReferrerAndReferred b1 uid (u_id referrer) = None \<and> findReferralByReferredId b1 uid = None")
      case True
      let ?b2 = "snd (createReferral fresh (u_id referrer) uid b1)"
      have "referral_inv ?b2" using referral_inv_create [OF b1 False] True by blast
      then have "referral_inv (snd (and_then (on_game f ?b2) (\<lambda>_ b3. recordReferralFingerprint sha now uid req b3)))"
        for f :: "app \<Rightarrow> (exn + unit) \<times> app"
        by (intro and_then_keeps [where P = referral_inv]) simp_all
      with b1 m Inr False True show ?thesis by (simp add: attribute_to_def Let_def)
    qed (use b1 m Inr False in \<open>auto simp: attribute_to_def\<close>)
  qed (use b1 m False in \<open>simp add: attribute_to_def\<close>)
qed (use assms in \<open>simp add: attribute_to_def\<close>)

lemma consume_inv:
  assumes "referral_inv b"
  shows "referral_inv (snd (consumePendingReferralAttribution sha now fresh q c uid req b))"
  unfolding consumePendingReferralAttribution_def
proof (rule and_then_keeps [where P = referral_inv])
  show "referral_inv (snd (case readReferralCode q c of Some c \<Rightarrow> (Inr (Some c), b)
    | None \<Rightarrow> redis_text now (pendingReferralKey (referral_fingerprint sha req)) b))"
    using assms by (simp split: option.split)
  fix found b1 assume "referral_inv b1"
  then show "referral_inv (snd (let code = normalizeCode (or_empty found) in
    if \<not> isValidCode code then recordReferralFingerprint sha now uid req b1
    else case findUserByReferralCode b1 code of None \<Rightarrow> recordReferralFingerprint sha now uid req b1
      | Some referrer \<Rightarrow> attribute_to sha now fresh uid req referrer b1))"
    by (simp add: Let_def attribute_to_inv split: option.split)
qed

lemma queue_bonus_referrals:
  "referrals (queue_bonus fresh cid win rf b) \<in> {referrals b, referrals (markReferralRewarded (rf_id rf) b)}"
  by (auto simp: queue_bonus_def Let_def createReferralPayout_def markReferralRewarded_def
      enqueueReferralBonus_def split: option.splits prod.splits)

lemma referral_inv_rewarded: "referral_inv b \<Longrightarrow> referral_inv (markReferralRewarded rid b)"
  by (auto simp: referral_inv_def markReferralRewarded_def unique_by_update ball_update_where)

lemma queue_inv:
  assumes "referral_inv b"
  shows "referral_inv (queueReferralBonusForPayout fresh uid cid win b)"
proof -
  have "referrals (queueReferralBonusForPayout fresh uid cid win b) \<in>
    {referrals b} \<union> {referrals (markReferralRewarded rid b) | rid. True}"
    using queue_bonus_referrals [of fresh cid win _ b]
    by (auto simp: queueReferralBonusForPayout_def auditReferralBonusSkipped_def split: option.splits)
  with assms referral_inv_rewarded [OF assms] show ?thesis by (auto simp: referral_inv_def)
qed

inductive referral_step :: "bank \<Rightarrow> bank \<Rightarrow> bool" where
  attribution: "referral_step b (snd (consumePendingReferralAttribution sha now fresh q c uid req b))"
| win: "referral_step b (queueReferralBonusForPayout fresh uid cid win b)"
| bonus: "referral_step b (snd (processReferralBonusJob hz network publicKey pid b))"
| code: "referral_step b (snd (ensureUserReferralCode rnd uid b))"

lemma job_referrals [simp]: "referrals (snd (processReferralBonusJob hz n pk pid b)) = referrals b"
proof -
  have "referrals b1 = referrals b" if "submit_payouts hz n pk m rs b = (r, b1)" for m rs r b1
    using submit_payouts_keeps(2) [of hz n pk m rs b] that by simp
  then show ?thesis
    by (auto simp: processReferralBonusJob_def auditReferralBonusSkipped_def updateReferralPayoutStatus_def
        split: option.splits prod.splits sum.splits list.splits)
qed

lemma ensure_referrals: "referrals (snd (ensure_attempts left rnd k uid b)) = referrals b"
proof (induction left arbitrary: k b)
  case (Suc left)
  have "referrals b1 = referrals b" if "setUserReferralCode uid code b = (r, b1)" for code r b1
    using that by (auto simp: setUserReferralCode_def split: if_splits)
  with Suc show ?case by (auto split: sum.splits prod.splits option.splits)
qed simp

interpretation referral_graph: transition_system "\<lambda>b. referrals b = []" referral_step referral_inv
proof unfold_locales
  show "referral_inv b" if "referrals b = []" for b using that by (simp add: referral_inv_def)
  show "referral_inv t" if inv: "referral_inv s" and step: "referral_step s t" for s t
    using step
  proof cases
    case (code rnd uid)
    have "referrals t = referrals s"
      unfolding code by (simp add: ensureUserReferralCode_def ensure_referrals split: option.split)
    with inv show ?thesis by (rule referral_inv_cong [rotated])
  next
    case (bonus hz network publicKey pid)
    with inv show ?thesis by (simp add: referral_inv_def)
  qed (use inv in \<open>simp_all add: consume_inv queue_inv\<close>)
qed

section \<open>The bonus is paid once\<close>

lemma queue_bonus_jobs:
  assumes "bonus_jobs (queue_bonus fresh cid win rf b) \<noteq> bonus_jobs b"
  shows "referrals (queue_bonus fresh cid win rf b) = referrals (markReferralRewarded (rf_id rf) b) \<and>
    (\<exists>p \<in> set (referral_payouts (queue_bonus fresh cid win rf b)). rp_referral p = rf_id rf \<and>
      bonus_jobs (queue_bonus fresh cid win rf b) = bonus_jobs b @ [rp_id p] \<and> rp_status p = PPending \<and>
      (find_row (\<lambda>p. rp_referral p = rf_id rf) (referral_payouts b) = None \<longrightarrow>
        rp_referrer_amount p = min 50000000 (jdiv win 10) \<and> 1 \<le> rp_referrer_amount p \<and> rp_referred_amount p = 10000000))"
  using assms find_row_Some [of "\<lambda>p. rp_referral p = rf_id rf" "referral_payouts b"]
  by (auto simp: queue_bonus_def Let_def createReferralPayout_def markReferralRewarded_def
      enqueueReferralBonus_def min_def split: option.splits prod.splits if_splits)

lemma rewarded_found:
  assumes "findReferralByReferredId b uid = Some rf"
  shows "\<exists>rf'. find_row (\<lambda>r. rf_referred r = uid) (referrals (markReferralRewarded (rf_id rf) b)) = Some rf' \<and> rf_rewarded rf'"
proof -
  have "\<exists>rf'. find_row (\<lambda>r. rf_referred r = uid)
      (update_where (\<lambda>r. rf_id r = rf_id rf) (\<lambda>r. r\<lparr>rf_rewarded := True\<rparr>) rows) = Some rf' \<and> rf_rewarded rf'"
    if "find_row (\<lambda>r. rf_referred r = uid) rows = Some rf" for rows
    using that by (induction rows) (auto simp: update_where_def split: if_splits)
  with assms show ?thesis by (simp add: findReferralByReferredId_def markReferralRewarded_def)
qed

lemma queue_bonus_once:
  assumes "bonus_jobs (queueReferralBonusForPayout fresh uid cid win b) \<noteq> bonus_jobs b"
  shows "queueReferralBonusForPayout fresh' uid cid' win' (queueReferralBonusForPayout fresh uid cid win b) =
    queueReferralBonusForPayout fresh uid cid win b"
proof -
  obtain rf where rf: "findReferralByReferredId b uid = Some rf"
    and q: "queueReferralBonusForPayout fresh uid cid win b = queue_bonus fresh cid win rf b"
    using assms by (auto simp: queueReferralBonusForPayout_def auditReferralBonusSkipped_def
        split: option.splits if_splits)
  have "referrals (queue_bonus fresh cid win rf b) = referrals (markReferralRewarded (rf_id rf) b)"
    using queue_bonus_jobs [of fresh cid win rf b] assms q by simp
  with rewarded_found [OF rf] obtain rf' where
    "findReferralByReferredId (queueReferralBonusForPayout fresh uid cid win b) uid = Some rf'" "rf_rewarded rf'"
    unfolding findReferralByReferredId_def q by auto
  then show ?thesis by (simp add: queueReferralBonusForPayout_def)
qed

lemma settled_status:
  assumes "findReferralPayoutById b pid = Some p" and "referral_payouts b1 = referral_payouts b" and "st \<noteq> PPending"
  shows "\<exists>p'. findReferralPayoutById (updateReferralPayoutStatus (rp_id p) st t e b1) pid = Some p' \<and> rp_status p' \<noteq> PPending"
proof -
  have "rp_id p = pid" using find_row_Some [of _ _ p] assms(1) by (auto simp: findReferralPayoutById_def)
  have "\<exists>p'. find_row (\<lambda>p. rp_id p = pid) (update_where (\<lambda>p. rp_id p = pid)
      (\<lambda>p. p\<lparr>rp_status := st, rp_tx := t, rp_error := x\<rparr>) rows) = Some p' \<and> rp_status p' = st"
    if "find_row (\<lambda>p. rp_id p = pid) rows = Some p" for rows x
    using that by (induction rows) (auto simp: update_where_def split: if_splits)
  with assms \<open>rp_id p = pid\<close> show ?thesis
    unfolding findReferralPayoutById_def updateReferralPayoutStatus_def by fastforce
qed

lemma status_settled:
  assumes "findReferralPayoutById b pid = Some p" and "referral_payouts b1 = referral_payouts b" and "st \<noteq> PPending"
  shows "processReferralBonusJob hz n pk pid (updateReferralPayoutStatus (rp_id p) st t e b1) =
    (Inr (), updateReferralPayoutStatus (rp_id p) st t e b1)"
  using settled_status [OF assms, of t e] by (auto simp: processReferralBonusJob_def)

lemma job_settles:
  assumes "findReferralPayoutById b pid \<noteq> None" and "processReferralBonusJob hz n pk pid b = (Inr (), b')"
  shows "processReferralBonusJob hz' n' pk' pid b' = (Inr (), b')"
proof -
  obtain p where p: "findReferralPayoutById b pid = Some p" using assms(1) by blast
  note run = assms(2) [unfolded processReferralBonusJob_def p option.case]
  show ?thesis
  proof (cases "rp_status p = PPending")
    case False
    with run have "b' = b" by simp
    with p False show ?thesis by (simp add: processReferralBonusJob_def)
  next
    case pending: True
    have audit: "processReferralBonusJob hz' n' pk' pid (auditReferralBonusSkipped sid c) = (Inr (), auditReferralBonusSkipped sid c)"
      if "\<exists>p'. findReferralPayoutById c pid = Some p' \<and> rp_status p' \<noteq> PPending" for sid c
      using that by (auto simp: processReferralBonusJob_def auditReferralBonusSkipped_def findReferralPayoutById_def)
    obtain r b1 where s: "submit_payouts hz n pk (''referral-'' @ rp_id p) (bonus_recipients p) b = (r, b1)" by fastforce
    have keep: "referral_payouts b1 = referral_payouts b" using submit_payouts_keeps(1) s by (metis snd_conv)
    show ?thesis
    proof (cases "bonus_fraud b p")
      case (Some sid)
      have "\<exists>p'. findReferralPayoutById (updateReferralPayoutStatus (rp_id p) PFailed t e b) pid = Some p' \<and>
          rp_status p' \<noteq> PPending" for t e
        using settled_status [OF p refl, of PFailed t e] by simp
      with run pending Some audit show ?thesis by auto
    next
      case None
      then show ?thesis
        using run pending s status_settled [OF p refl, of PFailed hz' n' pk'] status_settled [OF p keep, of _ hz' n' pk']
        by (auto split: if_splits sum.splits list.splits)
    qed
  qed
qed

lemma usdcToStroops_whole: "usdcToStroops (string_of_nat n) = Inr (string_of_nat (n * 10000000))"
proof -
  have "list_all is_digit (string_of_nat n)" by (rule string_of_nat_digits)
  then have "match_usdc (string_of_nat n) = Some (string_of_nat n, [])"
    by (simp add: match_usdc_def list_all_iff takeWhile_eq_all_conv [THEN iffD2] dropWhile_eq_Nil_conv [THEN iffD2])
  then have "usdcToStroops (string_of_nat n) = Inr (string_of_int (int (n * 10000000)))"
    by (simp add: usdcToStroops_def Let_def STROOPS_PER_USDC_def padEnd_def)
  then show ?thesis by (simp only: string_of_int_of_nat)
qed

section \<open>Properties\<close>

text \<open>(C29) The referral graph stays sound in every state reached from no referrals by attributions,
  wins, bonus jobs and code assignments, in any order and with Redis failing at any time: a user has at
  most one referrer, nobody refers themselves, and no two users refer each other.\<close>

theorem referral_graph_sound:
  assumes "referrals b0 = []" and "referral_step\<^sup>*\<^sup>* b0 b"
  shows "distinct (map rf_referred (referrals b)) \<and>
    list_all (\<lambda>r. rf_referrer r \<noteq> rf_referred r \<and>
      list_all (\<lambda>s. \<not> (rf_referrer r = rf_referred s \<and> rf_referred r = rf_referrer s)) (referrals b)) (referrals b)"
  using referral_graph.inv_reachable [OF assms] by (simp add: referral_inv_def unique_by_def list_all_iff)

text \<open>A win of a referred user queues at most one bonus: when a win queued it, later wins of the
  same user change nothing, and the first bonus of a referral is a tenth of the win capped at 5 USDC for
  the referrer and 1 USDC for the referred user.\<close>

theorem bonus_queued_once:
  assumes "bonus_jobs (queueReferralBonusForPayout fresh uid cid win b) \<noteq> bonus_jobs b"
    and "referral_payouts b = []" and "0 \<le> win"
  shows "queueReferralBonusForPayout fresh' uid cid' win' (queueReferralBonusForPayout fresh uid cid win b) =
      queueReferralBonusForPayout fresh uid cid win b \<and>
    (\<exists>p. referral_payouts (queueReferralBonusForPayout fresh uid cid win b) = [p] \<and>
      bonus_jobs (queueReferralBonusForPayout fresh uid cid win b) = bonus_jobs b @ [rp_id p] \<and>
      rp_referrer_amount p = min 50000000 (win div 10) \<and> rp_referred_amount p = 10000000 \<and> 10 \<le> win)"
proof -
  obtain rf where q: "queueReferralBonusForPayout fresh uid cid win b = queue_bonus fresh cid win rf b"
    using assms(1) by (auto simp: queueReferralBonusForPayout_def auditReferralBonusSkipped_def
        split: option.splits if_splits)
  have "length (referral_payouts (queue_bonus fresh cid win rf b)) \<le> 1" using assms(2)
    by (auto simp: queue_bonus_def Let_def createReferralPayout_def markReferralRewarded_def enqueueReferralBonus_def
        split: option.splits prod.splits)
  moreover obtain p where p: "p \<in> set (referral_payouts (queue_bonus fresh cid win rf b))"
    "bonus_jobs (queue_bonus fresh cid win rf b) = bonus_jobs b @ [rp_id p]"
    "rp_referrer_amount p = min 50000000 (win div 10)" "1 \<le> rp_referrer_amount p" "rp_referred_amount p = 10000000"
    using queue_bonus_jobs [of fresh cid win rf b] assms q by auto
  ultimately have "referral_payouts (queue_bonus fresh cid win rf b) = [p]"
    by (cases "referral_payouts (queue_bonus fresh cid win rf b)") auto
  moreover have "10 \<le> win" using p(3,4) by linarith
  ultimately show ?thesis using queue_bonus_once [OF assms(1)] p(2,3,5) q by auto
qed

text \<open>A bonus job that finished without an exception never submits that bonus again, whatever
  Horizon answers later: running it a second time changes nothing.\<close>

theorem bonus_job_once:
  assumes "findReferralPayoutById b pid \<noteq> None" and "processReferralBonusJob hz n pk pid b = (Inr (), b')"
  shows "processReferralBonusJob hz' n' pk' pid b' = (Inr (), b')"
  by (rule job_settles [OF assms])

text \<open>The bonus job hands Horizon ten million times the amount it owes: it passes the stroop counts
  of the row where an amount in USDC is expected.\<close>

theorem bonus_amount_unit:
  assumes "0 \<le> rp_referrer_amount p" and "0 \<le> rp_referred_amount p"
  shows "map (\<lambda>r. usdcToStroops (rc_amount r)) (bonus_recipients p) =
    [Inr (string_of_int (10000000 * rp_referrer_amount p)), Inr (string_of_int (10000000 * rp_referred_amount p))]"
proof -
  have "usdcToStroops (string_of_int i) = Inr (string_of_int (10000000 * i))" if "0 \<le> i" for i
  proof -
    define n where "n = nat i"
    then have i: "i = int n" using that by simp
    have "10000000 * int n = int (n * 10000000)" by simp
    then show ?thesis unfolding i by (simp only: string_of_int_of_nat usdcToStroops_whole)
  qed
  with assms show ?thesis by (simp add: bonus_recipients_def)
qed

text \<open>A referrer and a new user, both with an address, and a referral between them.\<close>

definition demo_bank :: bank where
  "demo_bank = (blank_bank (blank_app\<lparr>users :=
      [(new_user ''ana'')\<lparr>u_stellar_address := Some ''GA''\<rparr>, (new_user ''bob'')\<lparr>u_stellar_address := Some ''GB''\<rparr>]\<rparr>))
      \<lparr>referral_code := (\<lambda>u. if u = ''ana'' then Some ''ABC234'' else None)\<rparr>"

definition demo_signup :: "string \<Rightarrow> bank \<Rightarrow> bank" where
  "demo_signup uid b = snd (consumePendingReferralAttribution (\<lambda>s. s) 0 ''r1'' (Some '' abc234 '') None uid plain_req b)"

definition demo_referred :: bank where
  "demo_referred = demo_bank\<lparr>referrals := [\<lparr>rf_id = ''r1'', rf_referrer = ''ana'', rf_referred = ''bob'', rf_rewarded = False\<rparr>]\<rparr>"

lemma demo_signup_run: "map (\<lambda>r. (rf_referrer r, rf_referred r)) (referrals (demo_signup ''bob'' demo_bank)) = [(''ana'', ''bob'')]"
  by code_simp

theorem referral_graph_sound_witness:
  "map (\<lambda>r. (rf_referrer r, rf_referred r)) (referrals (demo_signup ''bob'' demo_bank)) = [(''ana'', ''bob'')] \<and>
   distinct (map rf_referred (referrals (demo_signup ''bob'' demo_bank)))"
proof -
  have "referrals demo_bank = []" by (simp add: demo_bank_def blank_bank_def)
  moreover have "referral_step\<^sup>*\<^sup>* demo_bank (demo_signup ''bob'' demo_bank)"
    unfolding demo_signup_def by (rule r_into_rtranclp, rule referral_step.attribution)
  ultimately show ?thesis using referral_graph_sound demo_signup_run by blast
qed

theorem bonus_queued_once_witness:
  "bonus_jobs (queueReferralBonusForPayout ''p1'' ''bob'' None 700000000 demo_referred) = [''p1''] \<and>
   queueReferralBonusForPayout ''p2'' ''bob'' None 30 (queueReferralBonusForPayout ''p1'' ''bob'' None 700000000 demo_referred) =
     queueReferralBonusForPayout ''p1'' ''bob'' None 700000000 demo_referred \<and>
   (\<exists>p. referral_payouts (queueReferralBonusForPayout ''p1'' ''bob'' None 700000000 demo_referred) = [p] \<and>
      rp_referrer_amount p = 50000000)"
proof -
  have jobs: "bonus_jobs (queueReferralBonusForPayout ''p1'' ''bob'' None 700000000 demo_referred) = [''p1'']" by code_simp
  then have "bonus_jobs (queueReferralBonusForPayout ''p1'' ''bob'' None 700000000 demo_referred) \<noteq> bonus_jobs demo_referred"
    and "referral_payouts demo_referred = []"
    by (simp_all add: demo_referred_def demo_bank_def blank_bank_def)
  from bonus_queued_once [OF this, of "''p2''" None 30] jobs show ?thesis by auto
qed

definition demo_pending :: bank where
  "demo_pending = demo_bank\<lparr>referral_payouts := [\<lparr>rp_id = ''p1'', rp_referral = ''r1'', rp_challenge = None,
      rp_referrer = ''ana'', rp_referred = ''bob'', rp_referrer_address = Some ''GA'', rp_referred_address = None,
      rp_referrer_amount = 5, rp_referred_amount = 5, rp_status = PPending, rp_tx = None, rp_error = []\<rparr>]\<rparr>"

theorem bonus_job_once_witness:
  "map rp_status (referral_payouts (snd (processReferralBonusJob demo_horizon ''testnet'' ''GH'' ''p1'' demo_pending))) = [PFailed] \<and>
   processReferralBonusJob demo_horizon ''testnet'' ''GH'' ''p1''
     (snd (processReferralBonusJob demo_horizon ''testnet'' ''GH'' ''p1'' demo_pending)) =
   (Inr (), snd (processReferralBonusJob demo_horizon ''testnet'' ''GH'' ''p1'' demo_pending))"
proof -
  let ?r = "processReferralBonusJob demo_horizon ''testnet'' ''GH'' ''p1'' demo_pending"
  have f: "findReferralPayoutById demo_pending ''p1'' \<noteq> None"
    by (simp add: findReferralPayoutById_def demo_pending_def)
  have "?r = (Inr (), snd ?r)"
    by (simp add: processReferralBonusJob_def findReferralPayoutById_def demo_pending_def bonus_fraud_def given_def)
  from bonus_job_once [OF f this] have "processReferralBonusJob demo_horizon ''testnet'' ''GH'' ''p1'' (snd ?r) = (Inr (), snd ?r)" .
  moreover have "map rp_status (referral_payouts (snd ?r)) = [PFailed]" by code_simp
  ultimately show ?thesis by blast
qed

theorem bonus_amount_unit_witness:
  "map (\<lambda>r. usdcToStroops (rc_amount r)) (bonus_recipients \<lparr>rp_id = ''p'', rp_referral = ''r'', rp_challenge = None,
      rp_referrer = ''ana'', rp_referred = ''bob'', rp_referrer_address = Some ''GA'', rp_referred_address = Some ''GB'',
      rp_referrer_amount = 50000000, rp_referred_amount = 10000000, rp_status = PPending, rp_tx = None, rp_error = []\<rparr>) =
   [Inr (string_of_int 500000000000000), Inr (string_of_int 100000000000000)]"
  using bonus_amount_unit [of "\<lparr>rp_id = ''p'', rp_referral = ''r'', rp_challenge = None,
      rp_referrer = ''ana'', rp_referred = ''bob'', rp_referrer_address = Some ''GA'', rp_referred_address = Some ''GB'',
      rp_referrer_amount = 50000000, rp_referred_amount = 10000000, rp_status = PPending, rp_tx = None, rp_error = []\<rparr>"]
  by (simp del: string_of_nat.simps)

end
