(* ===== verification/Payout.thy ===== *)
theory Payout
  imports Teams Referrals
begin

text \<open>
  Settlement of a challenge (\<open>services/payout.ts\<close>) and its job (\<open>queues/processors/payout.processor.ts\<close>):
  ranking, allocation of the prize pool and the licence fee, creation of the payout rows, settlement
  through the escrow contract or the hot wallet, and the bookkeeping afterwards. \<open>processPayout\<close> is
  split at the value \<open>getLeaderboard\<close> returns: \<open>settle_with\<close> is its body for a given value, and
  iterating a value that is no array throws. Escrow, Horizon and fresh ids are parameters.
\<close>

section \<open>Parameters\<close>

record pay_env =
  pe_env :: env
  pe_now :: int
  pe_payoutId :: "string \<Rightarrow> string"
  pe_noteId :: "string \<Rightarrow> string"
  pe_noteId2 :: "string \<Rightarrow> string"
  pe_referralId :: "string \<Rightarrow> string"
  pe_escrow :: "((string \<times> int) list \<Rightarrow> exn + string) option"
  pe_horizon :: horizon
  pe_network :: string
  pe_publicKey :: string

text \<open>A row of the leaderboard is a session with its payout address. The value is an array of rows, or
  the page object \<open>{ sessions, nextCursor }\<close>.\<close>

type_synonym lb_row = "game_session \<times> string option"

datatype lb_value = LbArray "lb_row list" | LbPage "lb_row list" "cursor option"

definition iterate :: "lb_value \<Rightarrow> exn + lb_row list" where
  "iterate v = (case v of LbArray rows \<Rightarrow> Inr rows | LbPage _ _ \<Rightarrow> Inl (js_error ''sessions is not iterable''))"

section \<open>Winners and allocations\<close>

definition session_verified :: "env \<Rightarrow> game_session \<Rightarrow> bool" where
  "session_verified env s =
     (case gs_completed s of
        Some t \<Rightarrow> verifySessionHmac env (gs_id s) (gs_total s) t (gs_hmac s)
      | None \<Rightarrow> (case (given (e_integrity_key env), given (gs_hmac s)) of
          (Some key, Some h) \<Rightarrow>
            let expected = e_hmac env key (gs_id s @ '':'' @ string_of_int (gs_total s) @ '':'')
            in expected = [] \<or> from_hex expected = from_hex h
        | _ \<Rightarrow> True))"

definition winner_of :: "lb_row \<Rightarrow> session_summary" where
  "winner_of = (\<lambda>(s, addr). \<lparr>sum_userId = gs_user s, sum_stellarAddress = trim (or_empty addr),
     sum_totalScore = gs_total s,
     sum_endedAt = (case gs_completed s of Some t \<Rightarrow> t | None \<Rightarrow> gs_created s)\<rparr>)"

definition eligibleWinners :: "lb_row list \<Rightarrow> session_summary list" where
  "eligibleWinners rows = filter (\<lambda>w. sum_stellarAddress w \<noteq> []) (rankWinners (map winner_of rows) None)"

text \<open>The summaries passed to \<open>rankWinners\<close> have no tier, so \<open>winner.tier_id\<close> is undefined.\<close>

definition winner_tier :: "session_summary \<Rightarrow> string option" where
  "winner_tier w = None"

definition tierPools :: "bank \<Rightarrow> string \<Rightarrow> (string \<times> int) list" where
  "tierPools b cid = map (\<lambda>t. (tr_id t, tier_pool b (tr_id t))) (filter (\<lambda>t. tr_challenge t = cid) (tiers (game b)))"

definition tierPoints :: "session_summary list \<Rightarrow> (string \<times> int) list" where
  "tierPoints ws = foldl (\<lambda>m w. case winner_tier w of
       Some t \<Rightarrow> map_set m t ((case map_get m t of Some n \<Rightarrow> n | None \<Rightarrow> 0) + sum_totalScore w)
     | None \<Rightarrow> m) [] ws"

definition license_fee :: "license_terms option \<Rightarrow> int \<Rightarrow> int" where
  "license_fee terms gross =
     (case terms of
        Some t \<Rightarrow> if given (lt_address t) \<noteq> None \<and> 0 < lt_fee_bps t then jdiv (gross * lt_fee_bps t) 10000 else 0
      | None \<Rightarrow> 0)"

record scope =
  sc_gross :: int
  sc_player :: int
  sc_points :: int
  sc_tierPools :: "(string \<times> int) list"
  sc_tierPoints :: "(string \<times> int) list"

definition winner_amount :: "scope \<Rightarrow> session_summary \<Rightarrow> int" where
  "winner_amount sc w =
     (let tierPool = (case winner_tier w of Some t \<Rightarrow> map_get (sc_tierPools sc) t | None \<Rightarrow> None);
          scopedGrossPool = (case tierPool of Some p \<Rightarrow> p | None \<Rightarrow> sc_gross sc);
          scopedPlayerPool = (case tierPool of
             Some p \<Rightarrow> if p \<noteq> 0 then jdiv (scopedGrossPool * sc_player sc) (sc_gross sc) else sc_player sc
           | None \<Rightarrow> sc_player sc);
          scopedTotalPoints = (case winner_tier w of
             Some t \<Rightarrow> (case map_get (sc_tierPoints sc) t of Some n \<Rightarrow> n | None \<Rightarrow> 0)
           | None \<Rightarrow> sc_points sc)
      in calculatePayoutShareStroops (sum_totalScore w) scopedTotalPoints scopedPlayerPool)"

text \<open>The map from user to address and amount, in insertion order.\<close>

type_synonym allocations = "(string \<times> string \<times> int) list"

definition allocate_winners :: "scope \<Rightarrow> session_summary list \<Rightarrow> allocations" where
  "allocate_winners sc ws =
     foldl (\<lambda>m w. if winner_amount sc w < 1 then m
                  else map_set m (sum_userId w) (sum_stellarAddress w, winner_amount sc w)) [] ws"

definition add_license_fee :: "license_terms option \<Rightarrow> int \<Rightarrow> allocations \<Rightarrow> allocations" where
  "add_license_fee terms fee m =
     (case terms of
        Some t \<Rightarrow>
          (case given (lt_address t) of
             Some addr \<Rightarrow>
               if 0 < fee
               then map_set m (lt_user t) (addr, (case map_get m (lt_user t) of Some (_, n) \<Rightarrow> n | None \<Rightarrow> 0) + fee)
               else m
           | None \<Rightarrow> m)
      | None \<Rightarrow> m)"

definition payoutAllocations :: "bank \<Rightarrow> challenge \<Rightarrow> lb_row list \<Rightarrow> allocations" where
  "payoutAllocations b c rows =
     (let ws = eligibleWinners rows;
          terms = getLicensePayoutTerms b (ch_id c);
          gross = ch_pool c;
          fee = license_fee terms gross;
          sc = \<lparr>sc_gross = gross, sc_player = gross - fee,
                sc_points = foldl (\<lambda>acc w. acc + sum_totalScore w) 0 ws,
                sc_tierPools = tierPools b (ch_id c), sc_tierPoints = tierPoints ws\<rparr>
      in add_license_fee terms fee (allocate_winners sc ws))"

section \<open>Payout rows\<close>

record pay_record =
  pr_id :: string
  pr_address :: string
  pr_user :: string
  pr_amount :: string
  pr_stroops :: int

definition audit_blocked :: "string \<Rightarrow> string \<Rightarrow> bank \<Rightarrow> bank" where
  "audit_blocked cid uid b =
     b\<lparr>game := (game b)\<lparr>audit_log := audit_log (game b) @
        [\<lparr>au_actor = [], au_action = ''payout_blocked_fraud'', au_entity = ''payout'', au_key = cid @ '':'' @ uid\<rparr>]\<rparr>\<rparr>"

fun create_payouts :: "pay_env \<Rightarrow> string \<Rightarrow> allocations \<Rightarrow> bank \<Rightarrow> (exn + pay_record list) \<times> bank" where
  "create_payouts pe cid [] b = (Inr [], b)"
| "create_payouts pe cid ((uid, addr, n) # rest) b =
     (case createPayout (pe_payoutId pe uid) (pe_now pe) cid uid addr (Some n) None b of
        (Inl e, b1) \<Rightarrow>
          if isFraudBlockError e then create_payouts pe cid rest (audit_blocked cid uid b1) else (Inl e, b1)
      | (Inr payout, b1) \<Rightarrow>
          if pw_status payout \<in> {PSent, PConfirmed} then create_payouts pe cid rest b1
          else and_then (create_payouts pe cid rest b1)
                 (\<lambda>rs b2. (Inr (\<lparr>pr_id = pw_id payout, pr_address = addr, pr_user = uid, pr_amount = stroopsToUsdc n,
                                 pr_stroops = n\<rparr> # rs), b2)))"

section \<open>Bookkeeping\<close>

text \<open>The notification is stored by \<open>dispatchNotification\<close> and, unless the user has disabled payout
  notifications, a second time by the insert that follows.\<close>

definition insertPayoutNotification :: "pay_env \<Rightarrow> string \<Rightarrow> string \<Rightarrow> string option \<Rightarrow> string \<Rightarrow> bank \<Rightarrow> bank" where
  "insertPayoutNotification pe uid amountUsdc txHash cid b =
     (let payload = [(''amount_usdc'', PStr amountUsdc)] @
            (case txHash of Some h \<Rightarrow> [(''tx_hash'', PStr h)] | None \<Rightarrow> []) @ [(''challenge_id'', PStr cid)];
          b1 = b\<lparr>game := snd (dispatchNotification (pe_noteId pe uid) uid ''payout_received'' payload (game b))\<rparr>
      in if \<not> isNotificationCategoryEnabled b1 uid ''payout'' then b1
         else if find_row (\<lambda>u. u_id u = uid) (users (game b1)) = None then b1
         else b1\<lparr>game := (game b1)\<lparr>notifications := notifications (game b1) @
                [\<lparr>nt_id = pe_noteId2 pe uid, nt_user = uid, nt_type = ''payout_received'', nt_payload = payload\<rparr>]\<rparr>\<rparr>)"

definition queue_referral :: "pay_env \<Rightarrow> string \<Rightarrow> pay_record \<Rightarrow> bank \<Rightarrow> bank" where
  "queue_referral pe cid r b = queueReferralBonusForPayout (pe_referralId pe (pr_user r)) (pr_user r) (Some cid) (pr_stroops r) b"

definition escrow_record :: "pay_env \<Rightarrow> string \<Rightarrow> string \<Rightarrow> bank \<Rightarrow> pay_record \<Rightarrow> bank" where
  "escrow_record pe cid h b r =
     insertPayoutNotification pe (pr_user r) (pr_amount r) (Some h) cid
       (queue_referral pe cid r
         (incrementUserEarnings (pr_user r) (pr_amount r) (updatePayoutStatus (pr_id r) PSent (Some h) None b)))"

definition settle_escrow :: "pay_env \<Rightarrow> string \<Rightarrow> pay_record list \<Rightarrow> bank \<Rightarrow> bank option" where
  "settle_escrow pe cid rs b =
     (case pe_escrow pe of
        None \<Rightarrow> None
      | Some settle \<Rightarrow>
          (case settle (map (\<lambda>r. (pr_address r, pr_stroops r)) rs) of
             Inl _ \<Rightarrow> None
           | Inr h \<Rightarrow> Some (updateChallengeStatus cid CSettled None (Some [h]) (foldl (escrow_record pe cid h) b rs))))"

definition direct_record :: "pay_env \<Rightarrow> string \<Rightarrow> pay_record list \<Rightarrow> batch_result \<Rightarrow> bank \<Rightarrow> recipient \<Rightarrow> bank" where
  "direct_record pe cid rs result b rc =
     (case find_row (\<lambda>r. pr_address r = rc_address rc) rs of
        None \<Rightarrow> b
      | Some r \<Rightarrow>
          let errorMessage = (if br_success result then None
                else case br_error result of Some m \<Rightarrow> Some m
                     | None \<Rightarrow> Some ''Stellar broadcast failed with no error detail'');
              b1 = updatePayoutStatus (pr_id r) (if br_success result then PSent else PFailed)
                     (given (Some (br_txHash result))) errorMessage b
          in if br_success result
             then insertPayoutNotification pe (pr_user r) (pr_amount r) (Some (br_txHash result)) cid
                    (incrementUserEarnings (pr_user r) (pr_amount r) b1)
             else b1)"

definition direct_referral :: "pay_env \<Rightarrow> string \<Rightarrow> pay_record list \<Rightarrow> bank \<Rightarrow> recipient \<Rightarrow> bank" where
  "direct_referral pe cid rs b rc =
     (case find_row (\<lambda>r. pr_address r = rc_address rc) rs of None \<Rightarrow> b | Some r \<Rightarrow> queue_referral pe cid r b)"

definition direct_result :: "pay_env \<Rightarrow> string \<Rightarrow> pay_record list \<Rightarrow> bank \<Rightarrow> batch_result \<Rightarrow> bank" where
  "direct_result pe cid rs b result =
     (let b1 = foldl (direct_record pe cid rs result) b (br_recipients result)
      in if br_success result then foldl (direct_referral pe cid rs) b1 (br_recipients result) else b1)"

definition record_results :: "pay_env \<Rightarrow> string \<Rightarrow> pay_record list \<Rightarrow> batch_result list \<Rightarrow> bank \<Rightarrow> bank" where
  "record_results pe cid rs results b =
     (let b1 = foldl (direct_result pe cid rs) b results;
          txHashes = map br_txHash (filter br_success results);
          hasFailure = (\<exists>r \<in> set results. \<not> br_success r)
      in updateChallengeStatus cid (if hasFailure then CPayoutFailed else CSettled) None
           (if txHashes \<noteq> [] then Some txHashes else None) b1)"

section \<open>Settling a challenge\<close>

definition exn_of :: "stellar_err \<Rightarrow> exn" where
  "exn_of e = js_error (se_message e)"

definition pay_records :: "pay_env \<Rightarrow> string \<Rightarrow> pay_record list \<Rightarrow> bank \<Rightarrow> (exn + unit) \<times> bank" where
  "pay_records pe cid rs b =
     (if rs = [] then (Inr (), updateChallengeStatus cid CSettled None None b)
      else case settle_escrow pe cid rs b of
        Some b' \<Rightarrow> (Inr (), b')
      | None \<Rightarrow>
          (case submit_payouts (pe_horizon pe) (pe_network pe) (pe_publicKey pe) cid
                  (map (\<lambda>r. \<lparr>rc_address = pr_address r, rc_amount = pr_amount r\<rparr>) rs) b of
             (Inl e, b1) \<Rightarrow> (Inl (exn_of e), b1)
           | (Inr results, b1) \<Rightarrow> (Inr (), record_results pe cid rs results b1)))"

definition settle_rows :: "pay_env \<Rightarrow> challenge \<Rightarrow> lb_row list \<Rightarrow> bank \<Rightarrow> (exn + unit) \<times> bank" where
  "settle_rows pe c rows b =
     (case List.find (\<lambda>(s, _). \<not> session_verified (pe_env pe) s) rows of
        Some (s, _) \<Rightarrow> (Inl (js_error (''Session '' @ gs_id s @ '' failed integrity check'')), b)
      | None \<Rightarrow>
          if rows = [] then (Inr (), updateChallengeStatus (ch_id c) CSettled None None b)
          else and_then (create_payouts pe (ch_id c) (payoutAllocations b c rows) b) (pay_records pe (ch_id c)))"

definition settle_with :: "pay_env \<Rightarrow> lb_value \<Rightarrow> string \<Rightarrow> bank \<Rightarrow> (exn + unit) \<times> bank" where
  "settle_with pe v cid b =
     (case getChallengeById (game b) cid of
        None \<Rightarrow> (Inl (js_error (''Challenge '' @ cid @ '' not found'')), b)
      | Some c \<Rightarrow>
          if ch_status c \<noteq> CEnded then (Inr (), b)
          else case iterate v of
            Inl e \<Rightarrow> (Inl e, b)
          | Inr rows \<Rightarrow> settle_rows pe c rows b)"

text \<open>The leaderboard read: at most 1000 standings in score order, as a page object.\<close>

definition payout_board :: "pay_env \<Rightarrow> bank \<Rightarrow> string \<Rightarrow> lb_value" where
  "payout_board pe b cid =
     (case getLeaderboard (pe_now pe) [] (game b) cid
             \<lparr>lq_limit = 1000, lq_cursor = None, lq_sort = SortScore, lq_friends = [], lq_window = WAllTime,
              lq_tier = None, lq_viewer = None\<rparr> of
        (rows, nextCursor) \<Rightarrow> LbPage (map (\<lambda>(s, u). (s, board_address u)) rows) nextCursor)"

definition processPayout :: "pay_env \<Rightarrow> string \<Rightarrow> bank \<Rightarrow> (exn + unit) \<times> bank" where
  "processPayout pe cid b = settle_with pe (payout_board pe b cid) cid b"

section \<open>Jobs\<close>

definition enqueuePayout :: "string \<Rightarrow> bank \<Rightarrow> (exn + unit) \<times> bank" where
  "enqueuePayout cid b =
     (case getChallengeById (game b) cid of
        None \<Rightarrow> (Inl (js_error (''Challenge '' @ cid @ '' not found'')), b)
      | Some c \<Rightarrow>
          if \<not> redis_up (game b) then (Inl redis_error, b)
          else
            let b1 = (if ch_batched c \<or> cid \<in> set (payout_jobs b) then b else b\<lparr>payout_jobs := payout_jobs b @ [cid]\<rparr>)
            in (Inr (), b1\<lparr>refresh_jobs := refresh_jobs b1 @ [cid]\<rparr>))"

definition batch_lock :: string where "batch_lock = ''lock:payout:batch-daily''"

text \<open>The loop over the challenges, with the payout of one challenge as a parameter: a failure is noted
  and the next challenge is tried.\<close>

fun run_challenges ::
  "(string \<Rightarrow> bank \<Rightarrow> (exn + unit) \<times> bank) \<Rightarrow> string list \<Rightarrow> bank \<Rightarrow> (string list \<times> string list) \<times> bank" where
  "run_challenges pay [] b = (([], []), b)"
| "run_challenges pay (cid # cids) b =
     (case pay cid b of
        (Inr _, b1) \<Rightarrow> (case run_challenges pay cids b1 of ((ok, bad), b2) \<Rightarrow> ((cid # ok, bad), b2))
      | (Inl _, b1) \<Rightarrow> (case run_challenges pay cids b1 of ((ok, bad), b2) \<Rightarrow> ((ok, cid # bad), b2)))"

definition batch_with ::
  "(string \<Rightarrow> bank \<Rightarrow> (exn + unit) \<times> bank) \<Rightarrow> int \<Rightarrow> bank \<Rightarrow> (exn + string list \<times> string list) \<times> bank" where
  "batch_with pay now b =
     and_then (on_game (redis_do (\<lambda>st. r_set_nx now st batch_lock (RStr ''1'') 1800)) b) (\<lambda>acquired b1.
       if \<not> acquired then (Inr ([], []), b1)
       else case run_challenges pay (map ch_id (getEndedBatchedChallenges b1)) b1 of
         (r, b2) \<Rightarrow> and_then (on_game (redis_write (\<lambda>st. r_del st batch_lock)) b2) (\<lambda>_ b3. (Inr r, b3)))"

definition processBatchPayout :: "pay_env \<Rightarrow> bank \<Rightarrow> (exn + string list \<times> string list) \<times> bank" where
  "processBatchPayout pe b = batch_with (processPayout pe) (pe_now pe) b"

text \<open>A job fails so that the queue retries it, or for good.\<close>

datatype job_error = Retry exn | UnrecoverableError string

definition processPayoutJob :: "pay_env \<Rightarrow> bool \<Rightarrow> string option \<Rightarrow> bank \<Rightarrow> (job_error + unit) \<times> bank" where
  "processPayoutJob pe isBatch challengeId b =
     (case (if isBatch then and_then (processBatchPayout pe b) (\<lambda>_ b1. (Inr (), b1))
            else case given challengeId of
              None \<Rightarrow> (Inl (js_error ''challengeId is required for process-payout job''), b)
            | Some cid \<Rightarrow> processPayout pe cid b) of
        (Inr u, b1) \<Rightarrow> (Inr u, b1)
      | (Inl e, b1) \<Rightarrow>
          (Inl (if \<not> isBatch \<and> isFraudBlockError e then UnrecoverableError (err_message e) else Retry e), b1))"

definition handleExhaustedPayoutJob :: "string \<Rightarrow> string \<Rightarrow> bank \<Rightarrow> bank" where
  "handleExhaustedPayoutJob cid message b =
     (let b1 = failPayoutsForChallenge cid message b
      in b1\<lparr>game := (game b1)\<lparr>audit_log := audit_log (game b1) @
           [\<lparr>au_actor = [], au_action = ''payout_failed'', au_entity = ''challenge'', au_key = cid\<rparr>]\<rparr>\<rparr>)"

section \<open>Lemmas on allocations\<close>

abbreviation paid_total :: "allocations \<Rightarrow> int" where
  "paid_total m \<equiv> \<Sum>(_, v)\<leftarrow>m. snd v"

lemma winner_amount_plain:
  "winner_amount sc w = calculatePayoutShareStroops (sum_totalScore w) (sc_points sc) (sc_player sc)"
  by (simp add: winner_amount_def winner_tier_def Let_def)

lemma allocate_wf: "map_wf m \<Longrightarrow> map_wf (foldl (\<lambda>m w. if p w then m else map_set m (k w) (v w)) m ws)"
  by (induction ws arbitrary: m) (auto intro: map_wf_set)

lemma allocate_entries:
  "x \<in> set (foldl (\<lambda>m w. if p w then m else map_set m (k w) (v w)) m ws) \<Longrightarrow>
   x \<in> set m \<or> (\<exists>w \<in> set ws. \<not> p w \<and> x = (k w, v w))"
  by (induction ws arbitrary: m) (fastforce split: if_splits elim: set_map_setE)+

text \<open>The amounts of a fold over the winners: at most their sum, and exactly their sum when the users
  are distinct.\<close>

lemma allocate_total_le:
  fixes m :: allocations
  assumes "map_wf m" and "\<forall>(_, v) \<in> set m. 0 \<le> snd v" and "\<forall>w \<in> set ws. 0 \<le> f w"
  shows "paid_total (foldl (\<lambda>m w. if f w < 1 then m else map_set m (k w) (a w, f w)) m ws) \<le>
    paid_total m + (\<Sum>w\<leftarrow>ws. f w)"
  using assms
proof (induction ws arbitrary: m)
  case (Cons w ws)
  show ?case
  proof (cases "f w < 1")
    case False
    let ?m = "map_set m (k w) (a w, f w)"
    have old: "0 \<le> (case map_get m (k w) of Some v \<Rightarrow> snd v | None \<Rightarrow> 0)"
      using Cons.prems(2) by (auto simp: map_get_def dest!: map_of_SomeD split: option.splits)
    have "\<forall>(_, v) \<in> set ?m. 0 \<le> snd v" using Cons.prems(2) False by (auto elim!: set_map_setE)
    moreover have "map_wf ?m" using Cons.prems(1) by (rule map_wf_set)
    moreover have "paid_total ?m \<le> paid_total m + f w"
      using sum_map_set [OF Cons.prems(1), where w = snd and k' = "k w" and v' = "(a w, f w)"] old by simp
    ultimately show ?thesis using Cons.IH [of ?m] Cons.prems(3) False by simp
  qed (use Cons in force)
qed simp

lemma allocate_total_eq:
  fixes m :: allocations
  assumes "map_wf m" and "distinct (map k ws)" and "\<forall>w \<in> set ws. 0 \<le> f w \<and> map_get m (k w) = None"
  shows "paid_total (foldl (\<lambda>m w. if f w < 1 then m else map_set m (k w) (a w, f w)) m ws) =
    paid_total m + (\<Sum>w\<leftarrow>ws. f w)"
  using assms
proof (induction ws arbitrary: m)
  case (Cons w ws)
  show ?case
  proof (cases "f w < 1")
    case False
    let ?m = "map_set m (k w) (a w, f w)"
    have "map_wf ?m" using Cons.prems(1) by (rule map_wf_set)
    moreover have "\<forall>w' \<in> set ws. 0 \<le> f w' \<and> map_get ?m (k w') = None"
      using Cons.prems(2,3) by (auto simp: map_get_set image_iff)
    moreover have "paid_total ?m = paid_total m + f w"
      using sum_map_set [OF Cons.prems(1), where w = snd and k' = "k w" and v' = "(a w, f w)"] Cons.prems(3) by simp
    ultimately show ?thesis using Cons.IH [of ?m] Cons.prems(2) False by simp
  next
    case True
    then have "f w = 0" using Cons.prems(3) by force
    with Cons True show ?thesis by simp
  qed
qed simp

lemma add_license_fee_total:
  "map_wf m \<Longrightarrow> paid_total (add_license_fee terms fee m) =
    paid_total m + (if terms \<noteq> None \<and> given (lt_address (the terms)) \<noteq> None \<and> 0 < fee then fee else 0)"
  by (auto simp: add_license_fee_def sum_map_set [where w = snd] split: option.splits)

lemma license_fee_bounds:
  assumes "0 \<le> gross" and "\<forall>t. terms = Some t \<longrightarrow> lt_fee_bps t \<le> 10000"
  shows "0 \<le> license_fee terms gross \<and> license_fee terms gross \<le> gross"
proof (cases "license_fee terms gross = 0")
  case False
  then obtain t where t: "terms = Some t" "0 < lt_fee_bps t" "license_fee terms gross = jdiv (gross * lt_fee_bps t) 10000"
    by (auto simp: license_fee_def split: option.splits if_splits)
  have "gross * lt_fee_bps t \<le> gross * 10000" using assms t(1) by (simp add: mult_left_mono)
  moreover have "0 \<le> gross * lt_fee_bps t" using assms(1) t(2) by simp
  ultimately show ?thesis using t(3) zdiv_mono1 [of "gross * lt_fee_bps t" "gross * 10000" 10000]
    by (simp add: pos_imp_zdiv_nonneg_iff)
qed (use assms in simp)

lemma license_fee_due:
  "license_fee terms gross \<noteq> 0 \<Longrightarrow> terms \<noteq> None \<and> given (lt_address (the terms)) \<noteq> None"
  by (auto simp: license_fee_def split: option.splits if_splits)

lemma payoutAllocations_wf: "map_wf (payoutAllocations b c rows)"
  unfolding payoutAllocations_def add_license_fee_def allocate_winners_def Let_def
  by (auto split: option.splits intro!: map_wf_set allocate_wf) (simp_all add: map_wf_def)

lemma given_nonempty: "given s = Some a \<Longrightarrow> a \<noteq> []"
  by (auto simp: given_def split: option.splits list.splits)

lemma payoutAllocations_entry:
  assumes "(uid, addr, n) \<in> set (payoutAllocations b c rows)"
  shows "1 \<le> n \<and> addr \<noteq> []"
proof -
  have won: "1 \<le> n \<and> addr \<noteq> []" if "(uid, addr, n) \<in> set (allocate_winners sc (eligibleWinners rows))" for sc uid addr n
    using that allocate_entries [of "(uid, addr, n)" _ _ _ "[]"] unfolding allocate_winners_def
    by (fastforce simp: eligibleWinners_def)
  let ?m = "\<lambda>sc. allocate_winners sc (eligibleWinners rows)"
  have "0 \<le> (case map_get (?m sc) u of Some (_, n) \<Rightarrow> n | None \<Rightarrow> 0)" for sc u
    using won by (fastforce simp: map_get_def dest!: map_of_SomeD split: option.splits)
  then show ?thesis using assms won
    unfolding payoutAllocations_def add_license_fee_def Let_def
    by (fastforce split: option.splits if_splits elim!: set_map_setE dest: given_nonempty)
qed

section \<open>Lemmas on payout rows\<close>

lemma submitted_bookkeeping [simp]:
  "submitted (updatePayoutStatus pid st h e b) = submitted b"
  "submitted (incrementUserEarnings uid s b) = submitted b"
  "submitted (updateChallengeStatus cid cs d hs b) = submitted b"
  "submitted (audit_blocked cid uid b) = submitted b"
  "submitted (insertPayoutNotification pe uid s t cid b) = submitted b"
  by (simp_all add: updatePayoutStatus_def incrementUserEarnings_def updateChallengeStatus_def audit_blocked_def
      insertPayoutNotification_def Let_def split: sum.splits)

lemma submitted_queue [simp]: "submitted (queue_referral pe cid r b) = submitted b"
  by (simp add: queue_referral_def queueReferralBonusForPayout_def queue_bonus_def Let_def auditReferralBonusSkipped_def
      createReferralPayout_def markReferralRewarded_def enqueueReferralBonus_def split: option.splits prod.splits)

lemma submitted_record_results [simp]: "submitted (record_results pe cid rs results b) = submitted b"
proof -
  have "submitted (direct_record pe cid rs r b rc) = submitted b" for r b rc
    by (simp add: direct_record_def Let_def split: option.splits)
  moreover have "submitted (direct_referral pe cid rs b rc) = submitted b" for b rc
    by (simp add: direct_referral_def split: option.splits)
  ultimately have "submitted (direct_result pe cid rs b r) = submitted b" for b r
    by (simp add: direct_result_def Let_def foldl_keeps [where f = submitted])
  then show ?thesis by (simp add: record_results_def Let_def foldl_keeps [where f = submitted])
qed

lemma submitted_settle_escrow: "settle_escrow pe cid rs b = Some b' \<Longrightarrow> submitted b' = submitted b"
  by (auto simp: settle_escrow_def escrow_record_def foldl_keeps [where f = submitted] split: option.splits sum.splits)

lemma createPayout_frame:
  assumes "createPayout f now cid uid a s d b = (r, b')"
  shows "submitted b' = submitted b" "game b' = game b"
    "uid' \<noteq> uid \<Longrightarrow> find_row (payout_slot cid uid') (payouts b') = find_row (payout_slot cid uid') (payouts b)"
proof -
  let ?upd = "\<lambda>n p. p\<lparr>pw_address := a, pw_amount := n, pw_error := None,
    pw_status := (if pw_status p = PFailed then PPending else pw_status p)\<rparr>"
  have other: "find_row (payout_slot cid uid') (update_where (payout_slot cid uid) (?upd n) (payouts b)) =
      find_row (payout_slot cid uid') (payouts b)" if "uid' \<noteq> uid" for n
    using that by (intro find_row_update_other) (auto simp: payout_slot_def)
  show "submitted b' = submitted b" "game b' = game b"
    "uid' \<noteq> uid \<Longrightarrow> find_row (payout_slot cid uid') (payouts b') = find_row (payout_slot cid uid') (payouts b)"
    using assms other
    by (auto simp: createPayout_def Let_def find_row_append payout_slot_def split: sum.splits option.splits if_splits)
qed

definition already_paid :: "bank \<Rightarrow> string \<Rightarrow> string \<Rightarrow> bool" where
  "already_paid b cid uid =
     (case find_row (payout_slot cid uid) (payouts b) of
        Some p \<Rightarrow> pw_status p \<in> {PSent, PConfirmed} | None \<Rightarrow> False)"

lemma audit_blocked_frame [simp]:
  "payouts (audit_blocked cid uid b) = payouts b" "sessions (game (audit_blocked cid uid b)) = sessions (game b)"
  by (simp_all add: audit_blocked_def)

text \<open>A record is made only for an allocation that is neither blocked nor already paid.\<close>

definition due :: "bank \<Rightarrow> string \<Rightarrow> allocations \<Rightarrow> pay_record \<Rightarrow> bool" where
  "due b cid allocs x \<longleftrightarrow>
     (pr_user x, pr_address x, pr_stroops x) \<in> set allocs \<and> pr_amount x = stroopsToUsdc (pr_stroops x) \<and>
     \<not> fraud_block b cid (pr_user x) \<and> \<not> already_paid b cid (pr_user x)"

lemma create_payouts_spec:
  "create_payouts pe cid allocs b = (r, b') \<Longrightarrow> distinct (map fst allocs) \<Longrightarrow>
   submitted b' = submitted b \<and> (\<forall>rs. r = Inr rs \<longrightarrow> (\<forall>x \<in> set rs. due b cid allocs x))"
proof (induction pe cid allocs b arbitrary: r b' rule: create_payouts.induct)
  case (2 pe cid uid addr n rest b)
  obtain cr b1 where c: "createPayout (pe_payoutId pe uid) (pe_now pe) cid uid addr (Some n) None b = (cr, b1)"
    by fastforce
  note frame = createPayout_frame [OF c]
  note run = "2.prems"(1) [unfolded create_payouts.simps c prod.case]
  have keep: "due b cid ((uid, addr, n) # rest) x" if "due b2 cid rest x" "b2 \<in> {b1, audit_blocked cid uid b1}" for x b2
  proof -
    have "pr_user x \<noteq> uid" using that(1) "2.prems"(2) by (force simp: due_def)
    with that frame(2) frame(3) [of "pr_user x"] show ?thesis by (auto simp: due_def fraud_block_def already_paid_def)
  qed
  have dist: "distinct (map fst rest)" using "2.prems"(2) by simp
  show ?case
  proof (cases cr)
    case (Inl e)
    show ?thesis
    proof (cases "isFraudBlockError e")
      case True
      have "create_payouts pe cid rest (audit_blocked cid uid b1) = (r, b')" using run Inl True by simp
      from "2.IH"(1) [OF c [symmetric] Inl True this dist] keep frame(1) show ?thesis by auto
    qed (use run Inl frame(1) in auto)
  next
    case (Inr p)
    note row = createPayout_Inr [OF c [unfolded Inr]]
    show ?thesis
    proof (cases "pw_status p \<in> {PSent, PConfirmed}")
      case True
      then have "create_payouts pe cid rest b1 = (r, b')" using run Inr by simp
      from "2.IH"(2) [OF c [symmetric] Inr True this dist] keep frame(1) show ?thesis by auto
    next
      case False
      obtain r2 b2 where rest: "create_payouts pe cid rest b1 = (r2, b2)" by fastforce
      note ih = "2.IH"(3) [OF c [symmetric] Inr False rest dist]
      let ?x = "\<lparr>pr_id = pw_id p, pr_address = addr, pr_user = uid, pr_amount = stroopsToUsdc n, pr_stroops = n\<rparr>"
      have new: "due b cid ((uid, addr, n) # rest) ?x"
        using row False by (auto simp: due_def already_paid_def split: option.splits if_splits)
      show ?thesis using run Inr False rest ih frame(1) keep [of b1] new by (cases r2) auto
    qed
  qed
qed auto

lemma pay_records_txs:
  assumes "pay_records pe cid rs b = (r, b')"
  shows "\<exists>txs. submitted b' = submitted b @ txs \<and> (\<forall>tx \<in> set txs. \<forall>rc \<in> set (tx_operations tx).
    \<exists>x \<in> set rs. rc = \<lparr>rc_address = pr_address x, rc_amount = pr_amount x\<rparr>)"
proof (cases "rs = [] \<or> settle_escrow pe cid rs b \<noteq> None \<or> \<not> redis_up (game b)")
  case True
  then have "submitted b' = submitted b" using assms submitted_settle_escrow [of pe cid rs b]
    by (auto simp: pay_records_def submit_payouts_def split: if_splits option.splits)
  then show ?thesis by auto
next
  case False
  let ?rcs = "map (\<lambda>r. \<lparr>rc_address = pr_address r, rc_amount = pr_amount r\<rparr>) rs"
  obtain sr txs st where sub: "submitBatchPayout (pe_horizon pe) \<lparr>po_sequenceStore = True, po_maxBadSeqRetries = 1\<rparr>
      (pe_network pe) (pe_publicKey pe) cid ?rcs (redis_kv (game b)) = (sr, txs, st)" by (metis prod_cases3)
  have "submitted b' = submitted b @ txs"
    using assms False sub by (auto simp: pay_records_def submit_payouts_def split: option.splits sum.splits)
  moreover have "\<exists>x \<in> set rs. rc = \<lparr>rc_address = pr_address x, rc_amount = pr_amount x\<rparr>"
    if "tx \<in> set txs" "rc \<in> set (tx_operations tx)" for tx rc
    using submitBatchPayout_txs [of tx "pe_horizon pe" "\<lparr>po_sequenceStore = True, po_maxBadSeqRetries = 1\<rparr>"
      "pe_network pe" "pe_publicKey pe" cid ?rcs "redis_kv (game b)" rc, unfolded sub] that by auto
  ultimately show ?thesis by blast
qed

lemma eligibleWinners_distinct:
  assumes "distinct (map (gs_user \<circ> fst) rows)"
  shows "distinct (map sum_userId (eligibleWinners rows))"
proof -
  have "mset (map sum_userId (rankWinners (map winner_of rows) None)) = mset (map (gs_user \<circ> fst) rows)"
    by (simp add: winner_of_def case_prod_beta comp_def image_mset.compositionality)
  then have "distinct (map sum_userId (rankWinners (map winner_of rows) None))"
    using assms mset_eq_imp_distinct_iff by blast
  then show ?thesis unfolding eligibleWinners_def by (rule distinct_map_filter)
qed

section \<open>Properties\<close>


text \<open>(C11) Every payment the settlement of a challenge hands to Horizon is due: the challenge has ended,
  every session on the board passed its integrity check, and the payment is the exact amount allocated
  to a user whose session is not flagged and whose payout is not already sent or confirmed. This holds
  whether the run succeeds or throws, so a retried job pays nobody whose payout was recorded.\<close>

theorem payout_only_due:
  assumes "settle_with pe v cid b = (r, b')"
  shows "\<exists>txs. submitted b' = submitted b @ txs \<and>
    (\<forall>tx \<in> set txs. \<forall>rc \<in> set (tx_operations tx). \<exists>c rows x.
       getChallengeById (game b) cid = Some c \<and> ch_status c = CEnded \<and> v = LbArray rows \<and>
       list_all (\<lambda>(s, _). session_verified (pe_env pe) s) rows \<and>
       due b cid (payoutAllocations b c rows) x \<and> rc = \<lparr>rc_address = pr_address x, rc_amount = pr_amount x\<rparr>)"
proof (cases "\<exists>c rows. getChallengeById (game b) cid = Some c \<and> ch_status c = CEnded \<and> v = LbArray rows \<and>
    rows \<noteq> [] \<and> list_all (\<lambda>(s, _). session_verified (pe_env pe) s) rows")
  case True
  then obtain c rows where c: "getChallengeById (game b) cid = Some c" "ch_status c = CEnded" "v = LbArray rows"
    "rows \<noteq> []" "list_all (\<lambda>(s, _). session_verified (pe_env pe) s) rows" by blast
  have cid: "ch_id c = cid" using find_row_Some c(1) by (fastforce simp: getChallengeById_def)
  have none: "List.find (\<lambda>(s, _). \<not> session_verified (pe_env pe) s) rows = None"
    using c(5) by (auto simp: find_None_iff list_all_iff)
  obtain cr b1 where cp: "create_payouts pe cid (payoutAllocations b c rows) b = (cr, b1)" by fastforce
  note made = create_payouts_spec [OF cp payoutAllocations_wf [unfolded map_wf_def]]
  have run: "and_then (cr, b1) (pay_records pe cid) = (r, b')"
    using assms c none cid cp by (simp add: settle_with_def iterate_def settle_rows_def)
  show ?thesis
  proof (cases cr)
    case (Inr rs)
    with run have "pay_records pe cid rs b1 = (r, b')" by simp
    from pay_records_txs [OF this] made Inr c show ?thesis by fastforce
  qed (use run made in auto)
next
  case False
  then have "submitted b' = submitted b" using assms
    by (auto simp: settle_with_def iterate_def settle_rows_def list_all_iff find_None_iff find_Some_iff
        split: option.splits lb_value.splits if_splits)
  then show ?thesis by auto
qed

text \<open>(C13) A tampered standing stops the whole settlement: when the stored HMAC of any session on the
  board does not match its score, the run throws and neither table, nor queue, nor ledger changes.\<close>

theorem tampering_stops_payout:
  assumes "getChallengeById (game b) cid = Some c" and "ch_status c = CEnded"
    and "\<not> list_all (\<lambda>(s, _). session_verified (pe_env pe) s) rows"
  shows "\<exists>s \<in> set (map fst rows). \<not> session_verified (pe_env pe) s \<and>
    settle_with pe (LbArray rows) cid b = (Inl (js_error (''Session '' @ gs_id s @ '' failed integrity check'')), b)"
proof -
  have "List.find (\<lambda>(s, _). \<not> session_verified (pe_env pe) s) rows \<noteq> None"
    using assms(3) by (auto simp: find_None_iff list_all_iff)
  then obtain s a where s: "List.find (\<lambda>(s, _). \<not> session_verified (pe_env pe) s) rows = Some (s, a)" by auto
  then have "(s, a) \<in> set rows \<and> \<not> session_verified (pe_env pe) s"
    by (metis (mono_tags, lifting) case_prod_conv find_Some_iff nth_mem)
  with s assms(1,2) show ?thesis
    by (force simp: settle_with_def iterate_def settle_rows_def)
qed

text \<open>The payout job as written settles no challenge: \<open>getLeaderboard\<close> returns a page object, and
  iterating it throws, for every ended challenge and in every state, before anything is written.\<close>

theorem payout_job_throws:
  assumes "getChallengeById (game b) cid = Some c" and "ch_status c = CEnded"
  shows "processPayout pe cid b = (Inl (js_error ''sessions is not iterable''), b)"
  using assms by (simp add: processPayout_def settle_with_def payout_board_def iterate_def split: prod.splits)

lemma run_challenges_partition:
  assumes "run_challenges pay cids b = ((ok, bad), b')" and "\<And>cid b. redis_up (game (snd (pay cid b))) = redis_up (game b)"
  shows "mset ok + mset bad = mset cids \<and> redis_up (game b') = redis_up (game b)"
  using assms(1)
proof (induction cids arbitrary: b ok bad b')
  case (Cons cid cids)
  obtain r b1 where p: "pay cid b = (r, b1)" by fastforce
  obtain ok1 bad1 b2 where q: "run_challenges pay cids b1 = ((ok1, bad1), b2)" by (metis prod_cases3 prod.collapse)
  have "redis_up (game b1) = redis_up (game b)" using assms(2) [of cid b] p by simp
  with Cons.IH [OF q] Cons.prems p q show ?case by (cases r) auto
qed simp

text \<open>The daily batch run excludes overlapping runs and isolates failures. While another run holds
  the lock it does nothing; otherwise every ended batched challenge is tried, each ends up in exactly
  one of the two lists whatever the payouts of the others did, and the lock is free afterwards.\<close>

theorem batch_run_isolates:
  assumes "redis_up (game b)" and "\<And>cid b. redis_up (game (snd (pay cid b))) = redis_up (game b)"
  shows "if r_get now (redis_kv (game b)) batch_lock \<noteq> None then batch_with pay now b = (Inr ([], []), b)
    else \<exists>ok bad b'. batch_with pay now b = (Inr (ok, bad), b') \<and>
      mset ok + mset bad = mset (map ch_id (getEndedBatchedChallenges b)) \<and>
      r_get now (redis_kv (game b')) batch_lock = None"
proof (cases "r_get now (redis_kv (game b)) batch_lock = None")
  case False
  with assms(1) show ?thesis by (auto simp: batch_with_def on_game_def redis_do_def r_set_nx_def)
next
  case True
  let ?b1 = "b\<lparr>game := (game b)\<lparr>redis_kv := snd (r_set_nx now (redis_kv (game b)) batch_lock (RStr ''1'') 1800)\<rparr>\<rparr>"
  obtain ok bad b2 where run: "run_challenges pay (map ch_id (getEndedBatchedChallenges ?b1)) ?b1 = ((ok, bad), b2)"
    by (metis prod_cases3 prod.collapse)
  note part = run_challenges_partition [OF run assms(2)]
  have "on_game (redis_do (\<lambda>st. r_set_nx now st batch_lock (RStr ''1'') 1800)) b = (Inr True, ?b1)"
    using True assms(1) by (simp add: on_game_def redis_do_def r_set_nx_def)
  moreover have "on_game (redis_write (\<lambda>st. r_del st batch_lock)) b2 =
      (Inr (), b2\<lparr>game := (game b2)\<lparr>redis_kv := r_del (redis_kv (game b2)) batch_lock\<rparr>\<rparr>)"
    using part assms(1) by (simp add: on_game_def redis_write_def redis_do_def)
  ultimately show ?thesis using True run part
    by (simp add: batch_with_def getEndedBatchedChallenges_def r_get_def r_del_def)
qed

text \<open>A board of three: \<open>ana\<close> is due, \<open>bob\<close> is flagged, \<open>cyd\<close> has been paid before.\<close>

definition demo_challenge :: challenge where
  "demo_challenge = \<lparr>ch_id = ''c1'', ch_brand = ''b'', ch_memo = None, ch_pool = 1000, ch_status = CEnded,
     ch_batched = True, ch_deposit_tx = None, ch_confirmations = 0, ch_payout_tx = None, ch_ends_at = None,
     ch_deleted_at = None, ch_created = 0\<rparr>"

definition demo_rows :: "lb_row list" where
  "demo_rows = [(demo_session ''s1'' ''ana'' SCompleted False 300 50, Some ''GA''),
     (demo_session ''s2'' ''bob'' SCompleted False 410 70, Some ''GB''),
     (demo_session ''s3'' ''cyd'' SCompleted False 290 90, Some ''GC'')]"

definition demo_due :: bank where
  "demo_due = (blank_bank (blank_app\<lparr>users := [new_user ''ana'', new_user ''bob'', new_user ''cyd''],
       challenges := [demo_challenge],
       sessions := [(demo_session ''s2'' ''bob'' SCompleted False 410 70)\<lparr>gs_flagged := True\<rparr>]\<rparr>))
     \<lparr>payouts := [\<lparr>pw_id = ''p3'', pw_challenge = ''c1'', pw_user = ''cyd'', pw_address = ''GC'', pw_amount = 290,
       pw_tx = Some ''h'', pw_error = None, pw_status = PSent, pw_created = 0, pw_bumps = 0, pw_bump_fee = None,
       pw_original_tx = None\<rparr>]\<rparr>"

definition demo_pay :: "string option \<Rightarrow> pay_env" where
  "demo_pay key = \<lparr>pe_env = \<lparr>e_sha256 = take 8, e_normalizeClientIp = or_empty, e_lockout = (5, 900), e_integrity_key = key,
       e_hmac = (\<lambda>k m. ''0f''), e_showTime = string_of_int, e_noteId = (\<lambda>u. u)\<rparr>,
     pe_now = 100, pe_payoutId = (\<lambda>u. ''p-'' @ u), pe_noteId = (\<lambda>u. ''n-'' @ u), pe_noteId2 = (\<lambda>u. ''m-'' @ u),
     pe_referralId = (\<lambda>u. ''r-'' @ u), pe_escrow = None, pe_horizon = demo_horizon, pe_network = ''testnet'',
     pe_publicKey = ''GH''\<rparr>"


theorem payout_only_due_witness:
  "map (map (\<lambda>rc. (rc_address rc, rc_amount rc)) \<circ> tx_operations)
     (submitted (snd (settle_with (demo_pay None) (LbArray demo_rows) ''c1'' demo_due))) =
     [[(''GA'', ''0.0000300'')], [(''GA'', ''0.0000300'')]] \<and>
   (\<exists>txs. submitted (snd (settle_with (demo_pay None) (LbArray demo_rows) ''c1'' demo_due)) = submitted demo_due @ txs)"
proof -
  have "map (map (\<lambda>rc. (rc_address rc, rc_amount rc)) \<circ> tx_operations)
     (submitted (snd (settle_with (demo_pay None) (LbArray demo_rows) ''c1'' demo_due))) =
     [[(''GA'', ''0.0000300'')], [(''GA'', ''0.0000300'')]]" by code_simp
  with payout_only_due [OF prod.collapse [symmetric], of "demo_pay None" "LbArray demo_rows" "''c1''" demo_due]
  show ?thesis by blast
qed

theorem tampering_stops_payout_witness:
  "\<exists>s \<in> set (map fst (map (\<lambda>(s, a). (s\<lparr>gs_hmac := Some ''1f''\<rparr>, a)) demo_rows)).
     settle_with (demo_pay (Some ''k'')) (LbArray (map (\<lambda>(s, a). (s\<lparr>gs_hmac := Some ''1f''\<rparr>, a)) demo_rows)) ''c1'' demo_due =
     (Inl (js_error (''Session '' @ gs_id s @ '' failed integrity check'')), demo_due)"
proof -
  let ?rows = "map (\<lambda>(s, a). (s\<lparr>gs_hmac := Some ''1f''\<rparr>, a)) demo_rows"
  have "getChallengeById (game demo_due) ''c1'' = Some demo_challenge" "ch_status demo_challenge = CEnded"
    by (simp_all add: getChallengeById_def demo_due_def blank_bank_def demo_challenge_def)
  moreover have "\<not> list_all (\<lambda>(s, _). session_verified (pe_env (demo_pay (Some ''k''))) s) ?rows" by code_simp
  ultimately show ?thesis using tampering_stops_payout by blast
qed

theorem payout_job_throws_witness:
  "processPayout (demo_pay None) ''c1'' demo_due = (Inl (js_error ''sessions is not iterable''), demo_due)"
  by (rule payout_job_throws [of _ _ demo_challenge])
    (simp_all add: getChallengeById_def demo_due_def blank_bank_def demo_challenge_def)

theorem batch_run_isolates_witness:
  "\<exists>ok bad b'. processBatchPayout (demo_pay None) demo_due = (Inr (ok, bad), b') \<and> mset ok + mset bad = {#''c1''#}"
proof -
  have same: "snd (processPayout (demo_pay None) cid b) = b" for cid b
    by (simp add: processPayout_def settle_with_def payout_board_def iterate_def split: option.splits prod.splits)
  have "redis_up (game demo_due)" "r_get 100 (redis_kv (game demo_due)) batch_lock = None"
    "map ch_id (getEndedBatchedChallenges demo_due) = [''c1'']"
    by (simp_all add: demo_due_def blank_bank_def blank_app_def r_get_def getEndedBatchedChallenges_def demo_challenge_def)
  then show ?thesis
    using batch_run_isolates [of demo_due "processPayout (demo_pay None)" 100] same
    by (auto simp: processBatchPayout_def demo_pay_def)
qed

end
