(* ===== verification/Bytes.thy ===== *)
theory Bytes
  imports Prelude "HOL-Library.Word"
begin

text \<open>
  Byte buffers: 8-bit words, numbers written in bytes with the most significant first, and the masks the
  frame and one-time-password code uses.
\<close>

unbundle bit_operations_syntax

type_synonym byte = "8 word"

text \<open>The value of a digit sequence in base \<open>B\<close>, most significant digit first.\<close>

definition digits_val :: "nat \<Rightarrow> nat list \<Rightarrow> nat" where
  "digits_val B ds = foldl (\<lambda>a d. a * B + d) 0 ds"

lemma foldl_digits: "foldl (\<lambda>a d. a * B + d) a ds = a * B ^ length ds + digits_val B ds"
  unfolding digits_val_def
proof (induction ds arbitrary: a)
  case (Cons d ds)
  show ?case using Cons.IH [of "a * B + d"] Cons.IH [of d] by (simp add: algebra_simps)
qed simp

lemma digits_val_simps [simp]:
  "digits_val B [] = 0" "digits_val B (d # ds) = d * B ^ length ds + digits_val B ds"
  using foldl_digits [of B d ds] by (simp_all add: digits_val_def)

lemma digits_val_append: "digits_val B (xs @ ys) = digits_val B xs * B ^ length ys + digits_val B ys"
  using foldl_digits [of B "digits_val B xs" ys] by (simp add: digits_val_def)

lemma digits_val_less: "\<forall>d \<in> set ds. d < B \<Longrightarrow> digits_val B ds < B ^ length ds"
proof (induction ds)
  case (Cons d ds)
  then have "d * B ^ length ds + digits_val B ds < d * B ^ length ds + B ^ length ds" by simp
  also have "\<dots> = Suc d * B ^ length ds" by simp
  also have "\<dots> \<le> B * B ^ length ds" using Cons.prems by (intro mult_le_mono1) simp
  finally show ?case by simp
qed simp

lemma digits_val_inject:
  assumes "length xs = length ys" and "\<forall>d \<in> set xs. d < B" and "\<forall>d \<in> set ys. d < B"
    and "digits_val B xs = digits_val B ys"
  shows "xs = ys"
  using assms
proof (induction xs ys rule: list_induct2)
  case (Cons x xs y ys)
  let ?p = "B ^ length xs"
  have xs: "digits_val B xs < ?p" and ys: "digits_val B ys < ?p"
    using digits_val_less [of xs B] digits_val_less [of ys B] Cons by auto
  have eq: "x * ?p + digits_val B xs = y * ?p + digits_val B ys" using Cons by simp
  have "(d * ?p + r) div ?p = d" if "r < ?p" for d r using that by (cases "?p = 0") simp_all
  then have "x = y" using eq xs ys by metis
  with eq Cons show ?case by simp
qed simp

lemma and_byte: "unat (w AND 0x7f :: byte) = unat w mod 128" "w AND 0xff = (w :: byte)" "unat (w AND 0x0f :: byte) = unat w mod 16"
proof -
  have "w AND 0x7f = take_bit 7 w" "w AND 0x0f = take_bit 4 w" by (simp_all add: take_bit_eq_mask mask_eq_exp_minus_1)
  then show "unat (w AND 0x7f :: byte) = unat w mod 128" "unat (w AND 0x0f :: byte) = unat w mod 16"
    by (simp_all add: unsigned_take_bit_eq take_bit_eq_mod unat_mod_distrib)
  have "w AND 0xff = take_bit 8 w" by (simp add: take_bit_eq_mask mask_eq_exp_minus_1)
  then show "w AND 0xff = w" by (simp add: take_bit_word_eq_self)
qed

lemma byte_less: "unat (b :: byte) < 256"
  using unsigned_less [of b, where 'a = nat] by simp

lemma bytes_inject:
  assumes "length xs = length ys" and "digits_val 256 (map unat xs) = digits_val 256 (map unat ys)"
  shows "xs = (ys :: byte list)"
proof -
  have "map unat xs = map unat ys" using assms byte_less by (intro digits_val_inject [of _ _ 256]) auto
  then show ?thesis using list.inj_map_strong [of xs ys unat unat] by (auto simp: word_unat_eq_iff)
qed

text \<open>Big-endian numbers of \<open>k\<close> bytes, as \<open>Buffer\<close> writes and reads them.\<close>

definition be_bytes :: "nat \<Rightarrow> nat \<Rightarrow> byte list" where
  "be_bytes k n = map (\<lambda>i. of_nat (n div 256 ^ (k - 1 - i))) [0..<k]"

definition read_be :: "byte list \<Rightarrow> nat" where
  "read_be bs = digits_val 256 (map unat bs)"

lemma length_be_bytes [simp]: "length (be_bytes k n) = k"
  by (simp add: be_bytes_def)

lemma be_bytes_Suc: "be_bytes (Suc k) n = be_bytes k (n div 256) @ [of_nat n]"
proof -
  have "n div 256 ^ (k - i) = n div 256 div 256 ^ (k - 1 - i)" if "i < k" for i
  proof -
    have "k - i = Suc (k - 1 - i)" using that by simp
    then show ?thesis by (simp add: div_mult2_eq)
  qed
  then show ?thesis by (simp add: be_bytes_def)
qed

lemma unat_byte_of_nat: "unat (of_nat n :: byte) = n mod 256"
  by (simp add: unsigned_of_nat take_bit_eq_mod)

lemma read_be_bytes: "n < 256 ^ k \<Longrightarrow> read_be (be_bytes k n) = n"
proof (induction k arbitrary: n)
  case (Suc k)
  then have "n div 256 < 256 ^ k" by (simp add: less_mult_imp_div_less)
  from Suc.IH [OF this] show ?case
    by (simp add: read_be_def be_bytes_Suc digits_val_append unat_byte_of_nat)
qed (simp add: read_be_def be_bytes_def)

lemma and_128: "(w :: byte) AND 0x80 \<noteq> 0 \<longleftrightarrow> 128 \<le> unat w"
proof -
  have "w AND 0x80 \<noteq> 0 \<longleftrightarrow> bit w 7" by (simp add: bit_iff_and_push_bit_not_eq_0)
  also have "\<dots> \<longleftrightarrow> bit (unat w) 7" by (simp add: bit_unsigned_iff)
  also have "\<dots> \<longleftrightarrow> odd (unat w div 128)" by (simp add: bit_iff_odd)
  also have "\<dots> \<longleftrightarrow> 128 \<le> unat w"
  proof -
    have "unat w div 128 < 2" using byte_less [of w] by (simp add: less_mult_imp_div_less)
    then have "odd (unat w div 128) \<longleftrightarrow> unat w div 128 \<noteq> 0" by (cases "unat w div 128") auto
    then show ?thesis by (simp add: div_eq_0_iff not_less)
  qed
  finally show ?thesis .
qed

end
