(* ===== verification/Totp.thy ===== *)
theory Totp
  imports Errors Bytes
begin

text \<open>
  The pure part of two-factor authentication (\<open>db/queries/totp.ts\<close>): base32 coding, the time-based
  one-time password of RFC 6238 and backup codes. JavaScript's bit operators work on 32-bit integers, so
  the accumulators of the base32 loops are \<open>32 word\<close> values, which overflow from the fifth byte on.
  HMAC-SHA1 and random bytes are parameters. Lemmas: coding is lossless in spite of the overflow, and the
  code computed is the truncation the RFC prescribes.
\<close>

unbundle bit_operations_syntax

section \<open>Base32\<close>

definition BASE32 :: string where "BASE32 = ''ABCDEFGHIJKLMNOPQRSTUVWXYZ234567''"

fun indexOf :: "'a list \<Rightarrow> 'a \<Rightarrow> nat option" where
  "indexOf [] c = None"
| "indexOf (x # xs) c = (if x = c then Some 0 else map_option Suc (indexOf xs c))"

text \<open>The \<open>for\<close> loop of the decoder, with the bytes written from here on.\<close>

fun decode_from :: "32 word \<Rightarrow> nat \<Rightarrow> string \<Rightarrow> exn + byte list" where
  "decode_from value bits [] = Inr []"
| "decode_from value bits (c # cs) =
     (case indexOf BASE32 c of
        None \<Rightarrow> Inl (js_error (''Invalid base32 character: '' @ [c]))
      | Some i \<Rightarrow>
          let value' = push_bit 5 value OR of_nat i; bits' = bits + 5
          in if 8 \<le> bits'
             then bind_r (decode_from value' (bits' - 8) cs)
                    (\<lambda>out. Inr (ucast (drop_bit (bits' - 8) value' AND 0xff) # out))
             else decode_from value' bits' cs)"

definition strip_padding :: "string \<Rightarrow> string" where
  "strip_padding s = rev (dropWhile (\<lambda>c. c = CHR ''='') (rev s))"

definition base32Decode :: "string \<Rightarrow> exn + byte list" where
  "base32Decode encoded = decode_from 0 0 (strip_padding (toUpperCase encoded))"

text \<open>The \<open>while\<close> loop of the encoder: the characters it appends and the bits left.\<close>

fun emit5 :: "32 word \<Rightarrow> nat \<Rightarrow> string \<times> nat" where
  "emit5 value bits =
     (if 5 \<le> bits
      then (case emit5 value (bits - 5) of (s, k) \<Rightarrow> (BASE32 ! unat (drop_bit (bits - 5) value AND 31) # s, k))
      else ([], bits))"

declare emit5.simps [simp del]

fun encode_from :: "32 word \<Rightarrow> nat \<Rightarrow> byte list \<Rightarrow> string" where
  "encode_from value bits [] = (if 0 < bits then [BASE32 ! unat (push_bit (5 - bits) value AND 31)] else [])"
| "encode_from value bits (b # bs) =
     (let value' = push_bit 8 value OR ucast b
      in case emit5 value' (bits + 8) of (s, k) \<Rightarrow> s @ encode_from value' k bs)"

definition base32Encode :: "byte list \<Rightarrow> string" where
  "base32Encode buf = encode_from 0 0 buf"

text \<open>The argument is the result of \<open>randomBytes(20)\<close>.\<close>

definition generateTotpSecret :: "byte list \<Rightarrow> string" where
  "generateTotpSecret random = base32Encode random"

section \<open>One-time passwords\<close>

text \<open>\<open>Buffer.writeUInt32BE\<close> throws outside the range of 32 bits.\<close>

definition writeUInt32BE :: "int \<Rightarrow> exn + byte list" where
  "writeUInt32BE n =
     (if 0 \<le> n \<and> n < 2 ^ 32 then Inr (map (\<lambda>k. word_of_int (n div 2 ^ k)) [24, 16, 8, 0])
      else Inl (js_error ''The value of value is out of range''))"

text \<open>Reading past the end gives \<open>undefined\<close>, which a bit operator turns into 0.\<close>

definition byte_at :: "byte list \<Rightarrow> nat \<Rightarrow> byte" where
  "byte_at h i = (if i < length h then h ! i else 0)"

definition dynamic_truncation :: "byte list \<Rightarrow> 32 word" where
  "dynamic_truncation hmac =
     (let offset = unat (byte_at hmac (length hmac - 1) AND 0x0f)
      in push_bit 24 (ucast (byte_at hmac offset AND 0x7f)) OR
         push_bit 16 (ucast (byte_at hmac (offset + 1) AND 0xff)) OR
         push_bit 8 (ucast (byte_at hmac (offset + 2) AND 0xff)) OR
         ucast (byte_at hmac (offset + 3) AND 0xff))"

definition computeTotp :: "(byte list \<Rightarrow> byte list \<Rightarrow> byte list) \<Rightarrow> string \<Rightarrow> int \<Rightarrow> exn + string" where
  "computeTotp hmacSha1 secret step =
     bind_r (writeUInt32BE (step div 2 ^ 32)) (\<lambda>high.
     bind_r (writeUInt32BE (step mod 2 ^ 32)) (\<lambda>low.
     bind_r (base32Decode secret) (\<lambda>keyBytes.
       Inr (padStart 6 CHR ''0'' (string_of_nat (unat (dynamic_truncation (hmacSha1 keyBytes (high @ low))) mod 1000000))))))"

text \<open>The current step is \<open>Math.floor(Date.now() / 1000 / 30)\<close>, which for the range of \<open>Date\<close> is the
  exact quotient of the milliseconds.\<close>

definition current_step :: "int \<Rightarrow> int" where "current_step now = now div 30000"

fun try_steps ::
  "(byte list \<Rightarrow> byte list \<Rightarrow> byte list) \<Rightarrow> string \<Rightarrow> string \<Rightarrow> int list \<Rightarrow> exn + bool" where
  "try_steps hmacSha1 token secret [] = Inr False"
| "try_steps hmacSha1 token secret (step # steps) =
     bind_r (computeTotp hmacSha1 secret step)
       (\<lambda>code. if code = token then Inr True else try_steps hmacSha1 token secret steps)"

definition verifyTotp ::
  "(byte list \<Rightarrow> byte list \<Rightarrow> byte list) \<Rightarrow> int \<Rightarrow> string \<Rightarrow> string \<Rightarrow> exn + bool" where
  "verifyTotp hmacSha1 now token secret =
     try_steps hmacSha1 token secret (map (\<lambda>delta. current_step now + delta) [-1, 0, 1])"

section \<open>Backup codes\<close>

definition BACKUP_CODE_CHARS :: string where "BACKUP_CODE_CHARS = ''ABCDEFGHJKLMNPQRSTUVWXYZ23456789''"

definition code_half :: "byte list \<Rightarrow> nat \<Rightarrow> string" where
  "code_half bytes offset =
     map (\<lambda>i. BACKUP_CODE_CHARS ! (unat (byte_at bytes (offset + i)) mod length BACKUP_CODE_CHARS)) [0..<5]"

definition generateBackupCode :: "byte list \<Rightarrow> string" where
  "generateBackupCode bytes = code_half bytes 0 @ ''-'' @ code_half bytes 5"

section \<open>Lemmas on base32\<close>

text \<open>The pending bits of an accumulator, and how the operators of the loops move them.\<close>

abbreviation low_bits :: "nat \<Rightarrow> 32 word \<Rightarrow> nat" where
  "low_bits k v \<equiv> unat (take_bit k v)"

lemma low_bits_nat: "low_bits k v = take_bit k (unat v)"
  by (rule unsigned_take_bit_eq)

lemma low_bits_push:
  assumes "k + n \<le> 32" and "unat d < 2 ^ n"
  shows "low_bits (k + n) (push_bit n v OR d) = low_bits k v * 2 ^ n + unat d"
proof -
  have "(2 :: nat) ^ n \<le> 2 ^ (k + n)" by (rule power_increasing) simp_all
  then have "unat d < 2 ^ (k + n)" using assms(2) by linarith
  then have d: "take_bit (k + n) (unat d) = unat d" by (simp add: take_bit_nat_eq_self_iff)
  have "unat (push_bit n v) = take_bit 32 (push_bit n (unat v))"
    by (simp add: unsigned_push_bit_eq)
  then have "take_bit (k + n) (unat (push_bit n v)) = take_bit (k + n) (push_bit n (unat v))"
    using assms(1) by (simp add: min_def)
  also have "\<dots> = push_bit n (take_bit k (unat v))" by (simp add: take_bit_push_bit)
  finally have "low_bits (k + n) (push_bit n v OR d) = push_bit n (take_bit k (unat v)) OR unat d"
    unfolding low_bits_nat unsigned_or_eq take_bit_or d by simp
  also have "\<dots> = push_bit n (take_bit k (unat v)) + unat d"
  proof (rule disjunctive_add [symmetric])
    fix i
    have "take_bit n (unat d) = unat d" using assms(2) by (simp add: take_bit_nat_eq_self_iff)
    then have "bit (unat d) i \<Longrightarrow> i < n" by (metis bit_take_bit_iff)
    then show "\<not> bit (push_bit n (take_bit k (unat v))) i \<or> \<not> bit (unat d) i"
      by (auto simp: bit_push_bit_iff)
  qed
  finally show ?thesis unfolding low_bits_nat by (simp add: push_bit_eq_mult)
qed

lemma and_31: "unat (w AND 31) = take_bit 5 (unat (w :: 32 word))"
proof -
  have "w AND 31 = take_bit 5 w" by (simp add: take_bit_eq_mask mask_eq_exp_minus_1)
  then show ?thesis by (simp only: low_bits_nat)
qed

lemma low_bits_split:
  assumes "j \<le> k" and "k \<le> 32"
  shows "low_bits k v = (low_bits k v div 2 ^ j) * 2 ^ j + low_bits j v"
    "low_bits k v div 2 ^ j = take_bit (k - j) (unat (drop_bit j v))"
proof -
  have "take_bit j (take_bit k (unat v)) = take_bit j (unat v)" using assms by simp
  then have "low_bits k v mod 2 ^ j = low_bits j v" unfolding low_bits_nat by (simp only: take_bit_eq_mod)
  then show "low_bits k v = (low_bits k v div 2 ^ j) * 2 ^ j + low_bits j v" by (metis div_mult_mod_eq)
  show "low_bits k v div 2 ^ j = take_bit (k - j) (unat (drop_bit j v))"
    using assms unfolding low_bits_nat unsigned_drop_bit_eq
    by (simp add: drop_bit_take_bit flip: drop_bit_eq_div)
qed

lemma unat_ucast_byte: "unat (ucast (b :: byte) :: 32 word) = unat b"
proof -
  have "unat b < 2 ^ 8" using unsigned_less [of b, where 'a = nat] by simp
  then have "unat b < 2 ^ 32" by simp
  then show ?thesis by (simp add: unsigned_ucast_eq take_bit_nat_eq_self_iff)
qed

lemma emit5_spec:
  assumes "emit5 v k = (s, k')" and "k \<le> 32"
  shows "\<exists>ds. s = map ((!) BASE32) ds \<and> (\<forall>d \<in> set ds. d < 32) \<and> k' < 5 \<and> k = 5 * length ds + k' \<and>
    low_bits k v = digits_val 32 ds * 2 ^ k' + low_bits k' v"
  using assms
proof (induction v k arbitrary: s rule: emit5.induct)
  case (1 v k)
  show ?case
  proof (cases "5 \<le> k")
    case True
    obtain s1 where s1: "emit5 v (k - 5) = (s1, k')" "s = BASE32 ! unat (drop_bit (k - 5) v AND 31) # s1"
      using "1.prems"(1) True by (auto simp: emit5.simps [of v k] split: prod.splits)
    have "k - 5 \<le> 32" using "1.prems"(2) by simp
    from "1.IH" [OF True s1(1) this] obtain ds where ds: "s1 = map ((!) BASE32) ds" "\<forall>d \<in> set ds. d < 32"
      "k' < 5" "k - 5 = 5 * length ds + k'" "low_bits (k - 5) v = digits_val 32 ds * 2 ^ k' + low_bits k' v" by blast
    let ?d = "low_bits k v div 2 ^ (k - 5)"
    have "?d = take_bit 5 (unat (drop_bit (k - 5) v))"
      using low_bits_split(2) [of "k - 5" k v] True "1.prems"(2) by simp
    then have d: "?d = unat (drop_bit (k - 5) v AND 31)" "?d < 32" by (simp_all add: and_31 take_bit_eq_mod)
    have "(2 :: nat) ^ (k - 5) = 32 ^ length ds * 2 ^ k'"
      unfolding ds(4) by (simp add: power_add power_mult)
    then have "low_bits k v = digits_val 32 (?d # ds) * 2 ^ k' + low_bits k' v"
      using low_bits_split(1) [of "k - 5" k v] True "1.prems"(2) ds(5) by (simp add: algebra_simps)
    then show ?thesis using ds d s1(2) True by (intro exI [of _ "?d # ds"]) auto
  next
    case False
    then show ?thesis using "1.prems" by (simp add: emit5.simps [of v k])
  qed
qed

lemma encode_from_spec:
  "k < 5 \<Longrightarrow> \<exists>ds pad. encode_from v k bs = map ((!) BASE32) ds \<and> (\<forall>d \<in> set ds. d < 32) \<and> pad < 5 \<and>
     5 * length ds = k + 8 * length bs + pad \<and>
     digits_val 32 ds = (low_bits k v * 256 ^ length bs + digits_val 256 (map unat bs)) * 2 ^ pad"
proof (induction bs arbitrary: v k)
  case Nil
  show ?case
  proof (cases "k = 0")
    case False
    let ?d = "unat (push_bit (5 - k) v AND 31)"
    have "?d = take_bit 5 (push_bit (5 - k) (unat v))"
      by (simp add: and_31 unsigned_push_bit_eq min_def)
    also have "\<dots> = push_bit (5 - k) (take_bit k (unat v))" using Nil by (simp add: take_bit_push_bit)
    finally have d: "?d = low_bits k v * 2 ^ (5 - k)" unfolding low_bits_nat by (simp add: push_bit_eq_mult)
    moreover have "?d < 32" by (simp add: and_31 take_bit_eq_mod)
    ultimately show ?thesis using False Nil by (intro exI [of _ "[?d]"] exI [of _ "5 - k"]) simp
  qed (intro exI [of _ "[]"] exI [of _ 0], simp)
next
  case (Cons b bs)
  let ?v = "push_bit 8 v OR ucast b :: 32 word"
  obtain s k' where e: "emit5 ?v (k + 8) = (s, k')" by fastforce
  from emit5_spec [OF e] Cons.prems obtain es where es: "s = map ((!) BASE32) es" "\<forall>d \<in> set es. d < 32" "k' < 5"
    "k + 8 = 5 * length es + k'" "low_bits (k + 8) ?v = digits_val 32 es * 2 ^ k' + low_bits k' ?v" by auto
  have new: "low_bits (k + 8) ?v = low_bits k v * 256 + unat b"
    using low_bits_push [of k 8 "ucast b" v] Cons.prems unsigned_less [of b, where 'a = nat] by (simp add: unat_ucast_byte)
  from Cons.IH [OF es(3), of ?v] obtain ds pad where ds: "encode_from ?v k' bs = map ((!) BASE32) ds"
    "\<forall>d \<in> set ds. d < 32" "pad < 5" "5 * length ds = k' + 8 * length bs + pad"
    "digits_val 32 ds = (low_bits k' ?v * 256 ^ length bs + digits_val 256 (map unat bs)) * 2 ^ pad" by blast
  have "(32 :: nat) ^ length ds = 2 ^ (5 * length ds)" by (simp add: power_mult)
  also have "\<dots> = 2 ^ k' * 256 ^ length bs * 2 ^ pad" unfolding ds(4) by (simp add: power_add power_mult)
  finally have "digits_val 32 (es @ ds) =
      ((digits_val 32 es * 2 ^ k' + low_bits k' ?v) * 256 ^ length bs + digits_val 256 (map unat bs)) * 2 ^ pad"
    using ds(5) by (simp add: digits_val_append algebra_simps)
  also have "digits_val 32 es * 2 ^ k' + low_bits k' ?v = low_bits k v * 256 + unat b" using es(5) new by simp
  finally have "digits_val 32 (es @ ds) =
      (low_bits k v * 256 ^ length (b # bs) + digits_val 256 (map unat (b # bs))) * 2 ^ pad"
    by (simp add: algebra_simps)
  then show ?case using e es ds by (intro exI [of _ "es @ ds"] exI [of _ pad]) auto
qed

lemma indexOf_nth: "distinct xs \<Longrightarrow> i < length xs \<Longrightarrow> indexOf xs (xs ! i) = Some i"
proof (induction xs arbitrary: i)
  case (Cons x xs)
  then show ?case by (cases i) auto
qed simp

lemma indexOf_BASE32: "i < 32 \<Longrightarrow> indexOf BASE32 (BASE32 ! i) = Some i"
  by (rule indexOf_nth) (simp_all add: BASE32_def)

lemma low_byte: "unat (ucast (w AND 0xff :: 32 word) :: byte) = take_bit 8 (unat w)"
proof -
  have "w AND 0xff = take_bit 8 w" by (simp add: take_bit_eq_mask mask_eq_exp_minus_1)
  then have "unat (w AND 0xff) = take_bit 8 (unat w)" by (simp only: low_bits_nat)
  moreover have "unat (ucast (w AND 0xff) :: byte) = take_bit 8 (unat (w AND 0xff))"
    by (simp add: unsigned_ucast_eq)
  ultimately show ?thesis by simp
qed

lemma decode_from_spec:
  "k < 8 \<Longrightarrow> \<forall>d \<in> set ds. d < 32 \<Longrightarrow>
   \<exists>out r rest. decode_from v k (map ((!) BASE32) ds) = Inr out \<and> r < 8 \<and> rest < 2 ^ r \<and>
     k + 5 * length ds = 8 * length out + r \<and>
     low_bits k v * 32 ^ length ds + digits_val 32 ds = digits_val 256 (map unat out) * 2 ^ r + rest"
proof (induction ds arbitrary: v k)
  case Nil
  have "low_bits k v < 2 ^ k" unfolding low_bits_nat by simp
  then show ?case using Nil by (intro exI [of _ "[]"] exI [of _ k] exI [of _ "low_bits k v"]) simp
next
  case (Cons d ds)
  let ?v = "push_bit 5 v OR of_nat d :: 32 word"
  have digits: "\<forall>d \<in> set ds. d < 32" and less: "k + 5 - 8 < 8" using Cons.prems by simp_all
  have d: "unat (of_nat d :: 32 word) = d" using Cons.prems(2) by (simp add: unsigned_of_nat take_bit_nat_eq_self_iff)
  have new: "low_bits (k + 5) ?v = low_bits k v * 32 + d"
    using low_bits_push [of k 5 "of_nat d" v] Cons.prems d by simp
  show ?case
  proof (cases "8 \<le> k + 5")
    case True
    let ?b = "ucast (drop_bit (k + 5 - 8) ?v AND 0xff) :: byte"
    have b: "unat ?b = low_bits (k + 5) ?v div 2 ^ (k + 5 - 8)"
      using low_bits_split(2) [of "k + 5 - 8" "k + 5" ?v] True Cons.prems(1) by (simp add: low_byte)
    obtain out r rest where o: "decode_from ?v (k + 5 - 8) (map ((!) BASE32) ds) = Inr out" "r < 8" "rest < 2 ^ r"
      "k + 5 - 8 + 5 * length ds = 8 * length out + r"
      "low_bits (k + 5 - 8) ?v * 32 ^ length ds + digits_val 32 ds = digits_val 256 (map unat out) * 2 ^ r + rest"
      using Cons.IH [OF less digits, of ?v] by blast
    have "(2 :: nat) ^ (k + 5 - 8) * 32 ^ length ds = 2 ^ (k + 5 - 8 + 5 * length ds)"
      by (simp add: power_add power_mult)
    also have "\<dots> = 256 ^ length out * 2 ^ r" unfolding o(4) by (simp add: power_add power_mult)
    finally have p: "(2 :: nat) ^ (k + 5 - 8) * 32 ^ length ds = 256 ^ length out * 2 ^ r" .
    have "(low_bits k v * 32 + d) * 32 ^ length ds + digits_val 32 ds =
      (unat ?b * 2 ^ (k + 5 - 8) + low_bits (k + 5 - 8) ?v) * 32 ^ length ds + digits_val 32 ds"
      using low_bits_split(1) [of "k + 5 - 8" "k + 5" ?v] Cons.prems(1) new b by simp
    also have "\<dots> = unat ?b * (2 ^ (k + 5 - 8) * 32 ^ length ds) +
        (low_bits (k + 5 - 8) ?v * 32 ^ length ds + digits_val 32 ds)"
      by (simp add: algebra_simps)
    also have "\<dots> = digits_val 256 (map unat (?b # out)) * 2 ^ r + rest"
      unfolding p o(5) by (simp add: algebra_simps)
    finally show ?thesis using o True Cons.prems(2) indexOf_BASE32 [of d]
      by (intro exI [of _ "?b # out"] exI [of _ r] exI [of _ rest]) (simp add: Let_def algebra_simps)
  next
    case False
    then obtain out r rest where "decode_from ?v (k + 5) (map ((!) BASE32) ds) = Inr out" "r < 8" "rest < 2 ^ r"
      "k + 5 + 5 * length ds = 8 * length out + r"
      "low_bits (k + 5) ?v * 32 ^ length ds + digits_val 32 ds = digits_val 256 (map unat out) * 2 ^ r + rest"
      using Cons.IH [OF _ digits, of "k + 5" ?v] by (metis not_le)
    then show ?thesis using False Cons.prems(2) indexOf_BASE32 [of d] new
      by (intro exI [of _ out] exI [of _ r] exI [of _ rest]) (simp add: Let_def algebra_simps)
  qed
qed

lemma BASE32_clean: "i < 32 \<Longrightarrow> toUpperCase [BASE32 ! i] = [BASE32 ! i] \<and> BASE32 ! i \<noteq> CHR ''=''"
proof -
  have "list_all (\<lambda>c. toUpperCase [c] = [c] \<and> c \<noteq> CHR ''='') BASE32" by code_simp
  then show "i < 32 \<Longrightarrow> ?thesis" by (simp add: list_all_length BASE32_def)
qed

lemma clean_encoded:
  assumes "\<forall>d \<in> set ds. d < 32"
  shows "strip_padding (toUpperCase (map ((!) BASE32) ds)) = map ((!) BASE32) ds"
proof -
  have "toUpperCase (map ((!) BASE32) ds) = map ((!) BASE32) ds"
    using assms BASE32_clean by (induction ds) (simp_all add: toUpperCase_def)
  moreover have "dropWhile (\<lambda>c. c = CHR ''='') (rev (map ((!) BASE32) ds)) = rev (map ((!) BASE32) ds)"
    using assms BASE32_clean by (cases ds rule: rev_cases) auto
  ultimately show ?thesis by (simp add: strip_padding_def)
qed

section \<open>Lemmas on one-time passwords\<close>

lemma low_bits_push8:
  "m = k + 8 \<Longrightarrow> m \<le> 32 \<Longrightarrow> unat d < 256 \<Longrightarrow> low_bits m (push_bit 8 v OR d) = low_bits k v * 256 + unat d"
  using low_bits_push [of k 8 d v] by simp

lemma pack4:
  fixes a b c d :: "32 word"
  assumes "unat a < 256" "unat b < 256" "unat c < 256" "unat d < 256"
  shows "unat (push_bit 24 a OR push_bit 16 b OR push_bit 8 c OR d) = digits_val 256 [unat a, unat b, unat c, unat d]"
proof -
  define x where "x = push_bit 8 a OR b"
  define y where "y = push_bit 8 x OR c"
  define z where "z = push_bit 8 y OR d"
  have z: "push_bit 24 a OR push_bit 16 b OR push_bit 8 c OR d = z"
    by (simp add: x_def y_def z_def push_bit_or ac_simps)
  have "unat z = low_bits 32 z"
    unfolding low_bits_nat using unsigned_less [of z, where 'a = nat] by (simp add: take_bit_nat_eq_self)
  also have "\<dots> = low_bits 24 y * 256 + unat d" unfolding z_def using assms by (intro low_bits_push8) simp_all
  also have "low_bits 24 y = low_bits 16 x * 256 + unat c" unfolding y_def using assms by (intro low_bits_push8) simp_all
  also have "low_bits 16 x = low_bits 8 a * 256 + unat b" unfolding x_def using assms by (intro low_bits_push8) simp_all
  also have "low_bits 8 a = unat a" unfolding low_bits_nat using assms by (simp add: take_bit_nat_eq_self)
  finally show ?thesis unfolding z by simp
qed

lemma mod_31: "n < 2 ^ 24 \<Longrightarrow> (x * 2 ^ 24 + n) mod 2 ^ 31 = (x mod 128) * 2 ^ 24 + (n :: nat)"
  using mod_mult2_eq [of "x * 2 ^ 24 + n" "2 ^ 24" 128] by simp

text \<open>The bytes of a 32-bit number, most significant first.\<close>

lemma bytes_of_u32:
  assumes "0 \<le> n" and "n < 2 ^ 32"
  shows "digits_val 256 (map unat (map (\<lambda>k. word_of_int (n div 2 ^ k) :: byte) [24, 16, 8, 0])) = nat n"
proof -
  define m where "m = nat n"
  have n: "n = int m" using assms(1) by (simp add: m_def)
  have byte: "unat (word_of_int (int q) :: byte) = q mod 256" for q by (simp add: unsigned_of_nat take_bit_eq_mod)
  have "n div 2 ^ k = int (m div 2 ^ k)" for k by (simp add: n zdiv_int)
  then have "digits_val 256 (map unat (map (\<lambda>k. word_of_int (n div 2 ^ k) :: byte) [24, 16, 8, 0])) =
      (m div 2 ^ 24 mod 256) * 256 ^ 3 + ((m div 2 ^ 16 mod 256) * 256 ^ 2 + ((m div 2 ^ 8 mod 256) * 256 + m mod 256))"
    by (simp only: list.map byte) simp
  also have "m div 2 ^ 24 = m div 256 div 256 div 256" by (simp add: div_mult2_eq [symmetric])
  also have "m div 2 ^ 16 = m div 256 div 256" by (simp add: div_mult2_eq [symmetric])
  also have "m div 2 ^ 8 = m div 256" by simp
  also have "(m div 256 div 256 div 256 mod 256) * 256 ^ 3 +
      ((m div 256 div 256 mod 256) * 256 ^ 2 + ((m div 256 mod 256) * 256 + m mod 256)) = m"
  proof -
    have "m div 256 div 256 div 256 < 256" using assms(2) n by (simp add: div_mult2_eq [symmetric] less_mult_imp_div_less)
    then have "m div 256 div 256 div 256 mod 256 = m div 256 div 256 div 256" by simp
    moreover have "q * 256 ^ 3 + (r * 256 ^ 2 + (r' * 256 + r'')) = m"
      if "q * 256 + r = q'" "q' * 256 + r' = q''" "q'' * 256 + r'' = m" for q q' q'' r r' r'' :: nat
      using that by auto
    ultimately show ?thesis by (metis div_mult_mod_eq)
  qed
  finally show ?thesis by (simp add: m_def)
qed

lemma take4: "n + 3 < length h \<Longrightarrow> take 4 (drop n h) = [h ! n, h ! (n + 1), h ! (n + 2), h ! (n + 3)]"
  by (simp add: eval_nat_numeral flip: Cons_nth_drop_Suc)

text \<open>The truncation of RFC 4226: four bytes from the offset in the last nibble, read as a big-endian
  number without its top bit.\<close>

lemma dynamic_truncation_spec:
  assumes "length h = 20"
  shows "unat (dynamic_truncation h) = digits_val 256 (map unat (take 4 (drop (unat (last h) mod 16) h))) mod 2 ^ 31"
proof -
  let ?o = "unat (last h) mod 16"
  have last: "byte_at h (length h - 1) = last h" using assms by (cases h rule: rev_cases) (auto simp: byte_at_def nth_append)
  have o: "?o + 3 < length h" using assms by simp
  have tk: "take 4 (drop ?o h) = [h ! ?o, h ! (?o + 1), h ! (?o + 2), h ! (?o + 3)]"
    using o by (rule take4)
  let ?n = "digits_val 256 [unat (h ! (?o + 1)), unat (h ! (?o + 2)), unat (h ! (?o + 3))]"
  have n: "?n < 2 ^ 24" using digits_val_less [of "[unat (h ! (?o + 1)), unat (h ! (?o + 2)), unat (h ! (?o + 3))]" 256] byte_less
    by simp
  have "unat (dynamic_truncation h) =
      digits_val 256 [unat (h ! ?o) mod 128, unat (h ! (?o + 1)), unat (h ! (?o + 2)), unat (h ! (?o + 3))]"
    unfolding dynamic_truncation_def Let_def last and_byte(3)
    using o by (subst pack4) (simp_all add: unat_ucast_byte and_byte byte_at_def byte_less)
  also have "\<dots> = (unat (h ! ?o) mod 128) * 2 ^ 24 + ?n" by simp
  also have "\<dots> = (unat (h ! ?o) * 2 ^ 24 + ?n) mod 2 ^ 31" using mod_31 [OF n] by simp
  finally show ?thesis by (simp add: tk)
qed

lemma try_steps_iff:
  assumes "\<forall>n \<in> set steps. \<exists>c. computeTotp hmac secret n = Inr c"
  shows "try_steps hmac token secret steps = Inr (\<exists>n \<in> set steps. computeTotp hmac secret n = Inr token)"
  using assms by (induction steps) auto

text \<open>A token is accepted exactly when it is the code of the current step or one of its neighbours.\<close>

lemma verifyTotp_iff:
  assumes "\<And>n. n \<in> {current_step now - 1, current_step now, current_step now + 1} \<Longrightarrow> \<exists>c. computeTotp hmac secret n = Inr c"
  shows "verifyTotp hmac now token secret =
    Inr (\<exists>n \<in> {current_step now - 1, current_step now, current_step now + 1}. computeTotp hmac secret n = Inr token)"
  unfolding verifyTotp_def by (subst try_steps_iff) (use assms in auto)

lemma length_generateBackupCode: "length (generateBackupCode bytes) = 11"
  by (simp add: generateBackupCode_def code_half_def)

section \<open>Properties\<close>

text \<open>Base32 coding is lossless: decoding an encoded buffer gives it back, for every byte sequence.
  The accumulators of both loops are 32-bit integers that are never masked, so they overflow from the
  fifth byte on; the bits lost are never read.\<close>

theorem base32_roundtrip:
  "base32Decode (base32Encode bs) = Inr bs"
proof -
  obtain ds pad where e: "base32Encode bs = map ((!) BASE32) ds" "\<forall>d \<in> set ds. d < 32" "pad < 5"
    "5 * length ds = 8 * length bs + pad" "digits_val 32 ds = digits_val 256 (map unat bs) * 2 ^ pad"
    using encode_from_spec [of 0 0 bs] by (auto simp: base32Encode_def)
  obtain out r rest where d: "decode_from 0 0 (map ((!) BASE32) ds) = Inr out" "r < 8" "rest < 2 ^ r"
    "5 * length ds = 8 * length out + r" "digits_val 32 ds = digits_val 256 (map unat out) * 2 ^ r + rest"
    using decode_from_spec [of 0 ds 0] e(2) by auto
  have len: "length out = length bs" using e(3,4) d(2,4) by linarith
  then have r: "r = pad" using e(4) d(4) by simp
  have eq: "digits_val 256 (map unat bs) * 2 ^ r = digits_val 256 (map unat out) * 2 ^ r + rest"
    using e(5) d(5) r by simp
  have "digits_val 256 (map unat bs) = digits_val 256 (map unat out)"
    using arg_cong [OF eq, of "\<lambda>n. n div 2 ^ r"] d(3) by simp
  then have "bs = out" using len by (intro bytes_inject) simp_all
  then show ?thesis using d(1) clean_encoded [OF e(2)] e(1) by (simp add: base32Decode_def)
qed



end
