(* ===== verification/Auth.thy ===== *)
theory Auth
  imports Payout Totp
begin

text \<open>
  Authentication: tokens and their Redis revocation lists (\<open>lib/tokens.ts\<close>), the middleware
  (\<open>middleware/authenticate.ts\<close>, \<open>api-key-auth.ts\<close>), the login, refresh and logout routes
  (\<open>routes/auth.ts\<close>), two-factor authentication (\<open>routes/auth.2fa.ts\<close>, the statements of
  \<open>db/queries/totp.ts\<close>) and personal API keys (\<open>routes/users.ts\<close>). The JWT library, bcrypt, pgcrypto
  and the digests are parameters. Rate limiting is left out.
\<close>

section \<open>State and environment\<close>

text \<open>What the tokens carry; \<open>jc_exp\<close> is in seconds.\<close>

record claims =
  jc_sub :: string
  jc_email :: string
  jc_role :: "string option"
  jc_type :: "string option"
  jc_jti :: string
  jc_iss :: "string option"
  jc_aud :: "string option"
  jc_exp :: int
  jc_impersonated :: bool

text \<open>\<open>ae_sign\<close> is \<open>jwt.sign(claims, secret)\<close>, and \<open>ae_verify now token secret\<close> the claims of a token
  whose signature is right and which has not expired, or \<open>None\<close> when \<open>jwt.verify\<close> throws.\<close>

record auth_env =
  ae_sign :: "claims \<Rightarrow> string \<Rightarrow> string"
  ae_verify :: "int \<Rightarrow> string \<Rightarrow> string \<Rightarrow> claims option"
  ae_secret :: string
  ae_refreshSecret :: "string option"
  ae_previousSecret :: "string option"
  ae_issuer :: string
  ae_audience :: string
  ae_integrityKey :: "string option"
  ae_sha256 :: "string \<Rightarrow> string"
  ae_hmacSha1 :: "byte list \<Rightarrow> byte list \<Rightarrow> byte list"
  ae_encrypt :: "string \<Rightarrow> string \<Rightarrow> string"
  ae_decrypt :: "string \<Rightarrow> string \<Rightarrow> exn + string"
  ae_bcryptHash :: "string \<Rightarrow> string"
  ae_bcryptCompare :: "string \<Rightarrow> string \<Rightarrow> bool"

record totp_row =
  tt_user :: string
  tt_encrypted :: string
  tt_confirmed :: bool

record backup_row =
  bc_id :: string
  bc_user :: string
  bc_hash :: string
  bc_used :: bool

record api_key_row =
  ak_id :: string
  ak_user :: string
  ak_name :: string
  ak_hash :: string
  ak_revoked :: "int option"

text \<open>\<open>as_keyCache\<close> is the part of Redis under \<open>apikey:hash:\<close>, which holds the JSON of a key row
  until the given time. \<open>as_email\<close>, \<open>as_role\<close> and \<open>as_lastLogin\<close> are columns of \<open>users\<close>.\<close>

record auth_st =
  as_bank :: bank
  as_email :: "string \<Rightarrow> string"
  as_role :: "string \<Rightarrow> string option"
  as_lastLogin :: "string \<Rightarrow> int option"
  as_totp :: "totp_row list"
  as_backup :: "backup_row list"
  as_keys :: "api_key_row list"
  as_keyCache :: "string \<Rightarrow> (api_key_row \<times> int) option"

abbreviation as_app :: "auth_st \<Rightarrow> app" where "as_app s \<equiv> game (as_bank s)"

definition on_bank :: "(bank \<Rightarrow> (exn + 'a) \<times> bank) \<Rightarrow> auth_st \<Rightarrow> (exn + 'a) \<times> auth_st" where
  "on_bank f s = (case f (as_bank s) of (r, b) \<Rightarrow> (r, s\<lparr>as_bank := b\<rparr>))"

definition on_redis :: "(rstore \<Rightarrow> 'a \<times> rstore) \<Rightarrow> auth_st \<Rightarrow> (exn + 'a) \<times> auth_st" where
  "on_redis f s = on_bank (on_game (redis_do f)) s"

definition write_audit :: "string \<Rightarrow> string \<Rightarrow> auth_st \<Rightarrow> auth_st" where
  "write_audit uid action s =
     s\<lparr>as_bank := (as_bank s)\<lparr>game := (as_app s)\<lparr>audit_log := audit_log (as_app s) @
        [\<lparr>au_actor = uid, au_action = action, au_entity = ''user'', au_key = uid\<rparr>]\<rparr>\<rparr>\<rparr>"

section \<open>Tokens\<close>

definition ACCESS_TOKEN_TTL :: int where "ACCESS_TOKEN_TTL = 15 * 60"
definition REFRESH_TTL_SECONDS :: int where "REFRESH_TTL_SECONDS = 30 * 24 * 60 * 60"

definition refreshSecret :: "auth_env \<Rightarrow> string" where
  "refreshSecret ae = (case ae_refreshSecret ae of Some k \<Rightarrow> k | None \<Rightarrow> ae_secret ae)"

text \<open>\<open>jti\<close> is the random UUID of the token.\<close>

definition signAccessToken :: "auth_env \<Rightarrow> int \<Rightarrow> string \<Rightarrow> auth_st \<Rightarrow> string \<Rightarrow> string" where
  "signAccessToken ae now jti s uid =
     ae_sign ae \<lparr>jc_sub = uid, jc_email = as_email s uid,
       jc_role = Some (case as_role s uid of Some r \<Rightarrow> r | None \<Rightarrow> ''player''), jc_type = None, jc_jti = jti,
       jc_iss = Some (ae_issuer ae), jc_aud = Some (ae_audience ae), jc_exp = now div 1000 + ACCESS_TOKEN_TTL,
       jc_impersonated = False\<rparr> (ae_secret ae)"

definition signRefreshToken :: "auth_env \<Rightarrow> int \<Rightarrow> string \<Rightarrow> auth_st \<Rightarrow> string \<Rightarrow> string" where
  "signRefreshToken ae now jti s uid =
     ae_sign ae \<lparr>jc_sub = uid, jc_email = as_email s uid, jc_role = None, jc_type = Some ''refresh'', jc_jti = jti,
       jc_iss = None, jc_aud = None, jc_exp = now div 1000 + REFRESH_TTL_SECONDS, jc_impersonated = False\<rparr>
       (refreshSecret ae)"

definition verifyAccessToken :: "auth_env \<Rightarrow> int \<Rightarrow> string \<Rightarrow> claims option" where
  "verifyAccessToken ae now tok =
     (case ae_verify ae now tok (ae_secret ae) of
        Some c \<Rightarrow> Some c
      | None \<Rightarrow> (case given (ae_previousSecret ae) of Some prev \<Rightarrow> ae_verify ae now tok prev | None \<Rightarrow> None))"

definition verifyRefreshToken :: "auth_env \<Rightarrow> int \<Rightarrow> string \<Rightarrow> exn + claims" where
  "verifyRefreshToken ae now tok =
     (case ae_verify ae now tok (refreshSecret ae) of
        None \<Rightarrow> Inl (js_error ''invalid token'')
      | Some p \<Rightarrow> if jc_type p \<noteq> Some ''refresh'' then Inl (js_error ''Not a refresh token'') else Inr p)"

definition jtiKey :: "string \<Rightarrow> string" where "jtiKey jti = ''jti:'' @ jti"
definition userRefreshSetKey :: "string \<Rightarrow> string" where "userRefreshSetKey uid = ''user_refresh_jtis:'' @ uid"

text \<open>The result says whether the token was used before.\<close>

definition markJtiUsed :: "int \<Rightarrow> string \<Rightarrow> auth_st \<Rightarrow> (exn + bool) \<times> auth_st" where
  "markJtiUsed now jti s =
     on_redis (\<lambda>st. case r_set_nx now st (jtiKey jti) (RStr ''used'') REFRESH_TTL_SECONDS of (ok, st1) \<Rightarrow> (\<not> ok, st1)) s"

definition registerRefreshJti :: "int \<Rightarrow> string \<Rightarrow> string \<Rightarrow> auth_st \<Rightarrow> (exn + unit) \<times> auth_st" where
  "registerRefreshJti now uid jti s =
     on_redis (\<lambda>st. ((), r_expire now (r_sadd now st (userRefreshSetKey uid) jti) (userRefreshSetKey uid) REFRESH_TTL_SECONDS)) s"

definition revokeAllUserRefreshTokens :: "int \<Rightarrow> string \<Rightarrow> auth_st \<Rightarrow> (exn + unit) \<times> auth_st" where
  "revokeAllUserRefreshTokens now uid s =
     on_redis (\<lambda>st. let k = userRefreshSetKey uid; jtis = r_smembers now st k
       in ((), if jtis = [] then st
               else r_del (foldl (\<lambda>st jti. r_set_ex now st (jtiKey jti) (RStr ''revoked'') REFRESH_TTL_SECONDS) st jtis) k)) s"

definition isJtiRevoked :: "int \<Rightarrow> string \<Rightarrow> auth_st \<Rightarrow> (exn + bool) \<times> auth_st" where
  "isJtiRevoked now jti s = on_redis (\<lambda>st. (r_get now st (jtiKey jti) \<noteq> None, st)) s"

text \<open>Both tokens of a new session, the refresh token registered.\<close>

definition issue_tokens :: "auth_env \<Rightarrow> int \<Rightarrow> string \<times> string \<Rightarrow> string \<Rightarrow> auth_st \<Rightarrow> (exn + string \<times> string) \<times> auth_st" where
  "issue_tokens ae now jtis uid s =
     (let accessToken = signAccessToken ae now (fst jtis) s uid;
          refreshToken = signRefreshToken ae now (snd jtis) s uid
      in case verifyRefreshToken ae now refreshToken of
           Inl e \<Rightarrow> (Inl e, s)
         | Inr payload \<Rightarrow> and_then (registerRefreshJti now uid (jc_jti payload) s)
             (\<lambda>_ s1. (Inr (accessToken, refreshToken), s1)))"

section \<open>Middleware\<close>

record http_req =
  hr_method :: string
  hr_path :: string
  hr_authorization :: "string option"
  hr_apiKey :: "string option"

text \<open>What a request is authenticated as; \<open>ap_apiKey\<close> is the id of the personal key used.\<close>

record auth_payload =
  ap_sub :: string
  ap_role :: "string option"
  ap_exp :: int
  ap_impersonated :: bool
  ap_apiKey :: "string option"

datatype auth_outcome = Rejected nat string "string option" | Passed auth_payload

definition read_methods :: "string list" where "read_methods = [''GET'', ''HEAD'', ''OPTIONS'']"

definition startsWith :: "string \<Rightarrow> string \<Rightarrow> bool" where
  "startsWith s p \<longleftrightarrow> take (length p) s = p"

definition endsWith :: "string \<Rightarrow> string \<Rightarrow> bool" where
  "endsWith s p \<longleftrightarrow> length p \<le> length s \<and> drop (length s - length p) s = p"

definition extractApiKey :: "http_req \<Rightarrow> string option" where
  "extractApiKey req =
     (case hr_apiKey req of
        Some h \<Rightarrow> if trim h \<noteq> [] then Some (trim h)
                  else (case hr_authorization req of
                    Some a \<Rightarrow> if startsWith a ''Bearer bb_'' then Some (trim (drop 7 a)) else None | None \<Rightarrow> None)
      | None \<Rightarrow> (case hr_authorization req of
          Some a \<Rightarrow> if startsWith a ''Bearer bb_'' then Some (trim (drop 7 a)) else None | None \<Rightarrow> None))"

definition cached_key :: "int \<Rightarrow> string \<Rightarrow> auth_st \<Rightarrow> api_key_row option" where
  "cached_key now hash s =
     (if \<not> redis_up (as_app s) then None
      else case as_keyCache s hash of Some (row, until) \<Rightarrow> if now < until then Some row else None | None \<Rightarrow> None)"

definition authenticateApiKey :: "auth_env \<Rightarrow> int \<Rightarrow> string \<Rightarrow> http_req \<Rightarrow> auth_st \<Rightarrow> auth_outcome \<times> auth_st" where
  "authenticateApiKey ae now apiKey req s =
     (if hr_method req \<notin> set read_methods
      then (Rejected 403 ''Personal API keys are restricted to read-only endpoints'' (Some ''API_KEY_READ_ONLY''), s)
      else
        let hash = ae_sha256 ae apiKey;
            pass = (\<lambda>row. Passed \<lparr>ap_sub = ak_user row, ap_role = Some ''user'', ap_exp = now div 1000 + 3600,
                      ap_impersonated = False, ap_apiKey = Some (ak_id row)\<rparr>)
        in case cached_key now hash s of
             Some row \<Rightarrow> (pass row, s)
           | None \<Rightarrow>
               (case find_row (\<lambda>k. ak_hash k = hash \<and> ak_revoked k = None) (as_keys s) of
                  None \<Rightarrow> (Rejected 401 ''Invalid or revoked API key'' (Some ''INVALID_API_KEY''), s)
                | Some row \<Rightarrow>
                    (pass row, if redis_up (as_app s)
                               then s\<lparr>as_keyCache := (as_keyCache s)(hash \<mapsto> (row, now + 300 * 1000))\<rparr> else s)))"

definition bearer :: "http_req \<Rightarrow> string option" where
  "bearer req = (case hr_authorization req of
     Some a \<Rightarrow> if startsWith a ''Bearer '' then given (Some (drop 7 a)) else None | None \<Rightarrow> None)"

definition authenticate :: "auth_env \<Rightarrow> int \<Rightarrow> http_req \<Rightarrow> auth_st \<Rightarrow> auth_outcome \<times> auth_st" where
  "authenticate ae now req s =
     (case extractApiKey req of
        Some apiKey \<Rightarrow> authenticateApiKey ae now apiKey req s
      | None \<Rightarrow>
     (case bearer req of
        None \<Rightarrow> (Rejected 401 ''No token provided'' None, s)
      | Some tok \<Rightarrow>
     (case ae_verify ae now tok (ae_secret ae) of
        None \<Rightarrow> (Rejected 401 ''Invalid or expired token'' None, s)
      | Some payload \<Rightarrow>
          if jc_iss payload \<noteq> Some (ae_issuer ae) \<or> jc_aud payload \<noteq> Some (ae_audience ae)
          then (Rejected 401 ''Invalid or expired token'' None, s)
          else if \<not> redis_up (as_app s) then (Rejected 401 ''Invalid or expired token'' None, s)
          else if r_get now (redis_kv (as_app s)) (tokenRevocationKey tok) \<noteq> None
          then (Rejected 401 ''Invalid or expired token'' None, s)
          else if jc_impersonated payload \<and> hr_method req \<notin> set read_methods \<and>
                  \<not> endsWith (hr_path req) ''/impersonate-exit''
          then (Rejected 403 ''Impersonated sessions cannot perform mutating actions (read-only mode)''
                  (Some ''IMPERSONATION_READ_ONLY''), s)
          else (Passed \<lparr>ap_sub = jc_sub payload, ap_role = jc_role payload, ap_exp = jc_exp payload,
                  ap_impersonated = jc_impersonated payload, ap_apiKey = None\<rparr>, s))))"

text \<open>Optional authentication: the request goes on without a user where \<open>authenticate\<close> would reject it;
  only a refused API key is answered.\<close>

definition optionalAuth :: "auth_env \<Rightarrow> int \<Rightarrow> http_req \<Rightarrow> auth_st \<Rightarrow> auth_outcome option \<times> auth_st" where
  "optionalAuth ae now req s =
     (case extractApiKey req of
        Some apiKey \<Rightarrow> (case authenticateApiKey ae now apiKey req s of (r, s1) \<Rightarrow> (Some r, s1))
      | None \<Rightarrow>
     (case bearer req of
        None \<Rightarrow> (None, s)
      | Some tok \<Rightarrow>
     (case ae_verify ae now tok (ae_secret ae) of
        None \<Rightarrow> (None, s)
      | Some payload \<Rightarrow>
          if jc_iss payload \<noteq> Some (ae_issuer ae) \<or> jc_aud payload \<noteq> Some (ae_audience ae) \<or>
             \<not> redis_up (as_app s) \<or> r_get now (redis_kv (as_app s)) (tokenRevocationKey tok) \<noteq> None
          then (None, s)
          else (Some (Passed \<lparr>ap_sub = jc_sub payload, ap_role = jc_role payload, ap_exp = jc_exp payload,
                  ap_impersonated = jc_impersonated payload, ap_apiKey = None\<rparr>), s))))"

section \<open>Two-factor statements\<close>

definition upsertTotpSecret :: "auth_env \<Rightarrow> string \<Rightarrow> string \<Rightarrow> string \<Rightarrow> auth_st \<Rightarrow> auth_st" where
  "upsertTotpSecret ae uid plaintextSecret key s =
     (let c = ae_encrypt ae plaintextSecret key
      in if find_row (\<lambda>r. tt_user r = uid) (as_totp s) = None
         then s\<lparr>as_totp := as_totp s @ [\<lparr>tt_user = uid, tt_encrypted = c, tt_confirmed = False\<rparr>]\<rparr>
         else s\<lparr>as_totp := update_where (\<lambda>r. tt_user r = uid)
                  (\<lambda>r. r\<lparr>tt_encrypted := c, tt_confirmed := False\<rparr>) (as_totp s)\<rparr>)"

definition confirmTotpEnrollment :: "string \<Rightarrow> auth_st \<Rightarrow> auth_st" where
  "confirmTotpEnrollment uid s =
     s\<lparr>as_totp := update_where (\<lambda>r. tt_user r = uid) (\<lambda>r. r\<lparr>tt_confirmed := True\<rparr>) (as_totp s)\<rparr>"

definition getTotpSecret :: "auth_env \<Rightarrow> string \<Rightarrow> string \<Rightarrow> auth_st \<Rightarrow> exn + (string \<times> bool) option" where
  "getTotpSecret ae uid key s =
     (case find_row (\<lambda>r. tt_user r = uid) (as_totp s) of
        None \<Rightarrow> Inr None
      | Some r \<Rightarrow> bind_r (ae_decrypt ae (tt_encrypted r) key) (\<lambda>secret. Inr (Some (secret, tt_confirmed r))))"

text \<open>The backup codes refer to the user, not to the secret, so they stay.\<close>

definition deleteTotpSecret :: "string \<Rightarrow> auth_st \<Rightarrow> auth_st" where
  "deleteTotpSecret uid s = s\<lparr>as_totp := delete_where (\<lambda>r. tt_user r = uid) (as_totp s)\<rparr>"

definition hasTotpEnabled :: "string \<Rightarrow> auth_st \<Rightarrow> bool" where
  "hasTotpEnabled uid s = (case find_row (\<lambda>r. tt_user r = uid) (as_totp s) of Some r \<Rightarrow> tt_confirmed r | None \<Rightarrow> False)"

text \<open>\<open>random\<close> gives the bytes and the row id of each of the ten codes.\<close>

definition generateAndStoreBackupCodes ::
  "auth_env \<Rightarrow> (nat \<Rightarrow> byte list \<times> string) \<Rightarrow> string \<Rightarrow> auth_st \<Rightarrow> string list \<times> auth_st" where
  "generateAndStoreBackupCodes ae random uid s =
     (let codes = map (\<lambda>i. generateBackupCode (fst (random i))) [0..<10]
      in (codes, s\<lparr>as_backup := delete_where (\<lambda>r. bc_user r = uid) (as_backup s) @
           map (\<lambda>i. \<lparr>bc_id = snd (random i), bc_user = uid,
                     bc_hash = ae_bcryptHash ae (generateBackupCode (fst (random i))), bc_used = False\<rparr>) [0..<10]\<rparr>))"

definition consumeBackupCode :: "auth_env \<Rightarrow> string \<Rightarrow> string \<Rightarrow> auth_st \<Rightarrow> bool \<times> auth_st" where
  "consumeBackupCode ae uid code s =
     (case find_row (\<lambda>r. bc_user r = uid \<and> \<not> bc_used r \<and> ae_bcryptCompare ae code (bc_hash r)) (as_backup s) of
        None \<Rightarrow> (False, s)
      | Some row \<Rightarrow>
          (True, s\<lparr>as_backup := update_where (\<lambda>r. bc_id r = bc_id row) (\<lambda>r. r\<lparr>bc_used := True\<rparr>) (as_backup s)\<rparr>))"

section \<open>Two-factor routes\<close>

definition encryptionKey :: "auth_env \<Rightarrow> string" where
  "encryptionKey ae = (case ae_integrityKey ae of Some k \<Rightarrow> k | None \<Rightarrow> ae_secret ae)"

definition PENDING_TOTP_TTL :: int where "PENDING_TOTP_TTL = 5 * 60"

definition pending_claims :: "auth_env \<Rightarrow> int \<Rightarrow> string \<Rightarrow> auth_st \<Rightarrow> string \<Rightarrow> claims" where
  "pending_claims ae now jti s uid =
     \<lparr>jc_sub = uid, jc_email = as_email s uid, jc_role = None, jc_type = Some ''pending_totp'', jc_jti = jti,
      jc_iss = Some (ae_issuer ae), jc_aud = Some (ae_audience ae), jc_exp = now div 1000 + PENDING_TOTP_TTL,
      jc_impersonated = False\<rparr>"

definition signPendingTotpToken :: "auth_env \<Rightarrow> int \<Rightarrow> string \<Rightarrow> auth_st \<Rightarrow> string \<Rightarrow> string" where
  "signPendingTotpToken ae now jti s uid = ae_sign ae (pending_claims ae now jti s uid) (ae_secret ae)"

definition verifyPendingTotpToken :: "auth_env \<Rightarrow> int \<Rightarrow> string \<Rightarrow> exn + claims" where
  "verifyPendingTotpToken ae now tok =
     (case ae_verify ae now tok (ae_secret ae) of
        None \<Rightarrow> Inl (js_error ''invalid token'')
      | Some p \<Rightarrow>
          if jc_iss p \<noteq> Some (ae_issuer ae) then Inl (js_error ''jwt issuer invalid'')
          else if jc_aud p \<noteq> Some (ae_audience ae) then Inl (js_error ''jwt audience invalid'')
          else if jc_type p \<noteq> Some ''pending_totp'' then Inl (js_error ''Not a pending TOTP token'')
          else Inr p)"

text \<open>The schema of a code: a string of six to eight characters.\<close>

definition parse_code :: "string option \<Rightarrow> exn + string" where
  "parse_code code = (case code of
     Some c \<Rightarrow> if 6 \<le> length c \<and> length c \<le> 8 then Inr c else Inl zod_error | None \<Rightarrow> Inl zod_error)"

definition is_ws :: "char \<Rightarrow> bool" where
  "is_ws c \<longleftrightarrow> (let n = (of_char c :: nat) in n \<in> {9, 10, 11, 12, 13, 32, 160})"

definition normalise_code :: "string \<Rightarrow> string" where
  "normalise_code code = toUpperCase (filter (\<lambda>c. \<not> is_ws c) code)"

text \<open>The secret of a user with two-factor authentication switched on.\<close>

definition enabled_secret :: "auth_env \<Rightarrow> string \<Rightarrow> auth_st \<Rightarrow> exn + string" where
  "enabled_secret ae uid s =
     bind_r (getTotpSecret ae uid (encryptionKey ae) s) (\<lambda>record.
       case record of
         Some (secret, True) \<Rightarrow> Inr secret
       | _ \<Rightarrow> Inl (createError ''2FA is not enabled for this account'' 400 (Some ''TOTP_NOT_ENABLED'')))"

text \<open>A valid one-time password, or else an unused backup code, which is spent; the result says which.\<close>

definition check_second_factor ::
  "auth_env \<Rightarrow> int \<Rightarrow> string \<Rightarrow> string \<Rightarrow> string \<Rightarrow> string \<Rightarrow> auth_st \<Rightarrow> (exn + bool) \<times> auth_st" where
  "check_second_factor ae now uid secret code failure s =
     (case verifyTotp (ae_hmacSha1 ae) now code secret of
        Inl e \<Rightarrow> (Inl e, s)
      | Inr True \<Rightarrow> (Inr True, s)
      | Inr False \<Rightarrow>
          (case consumeBackupCode ae uid (normalise_code code) s of
             (False, s1) \<Rightarrow> (Inl (createError failure 401 (Some ''INVALID_TOTP_CODE'')), s1)
           | (True, s1) \<Rightarrow> (Inr False, s1)))"

definition post_enroll :: "auth_env \<Rightarrow> byte list \<Rightarrow> string \<Rightarrow> auth_st \<Rightarrow> (exn + string) \<times> auth_st" where
  "post_enroll ae random uid s =
     (case findUserById (as_app s) uid of
        None \<Rightarrow> (Inl (createError ''User not found'' 404 None), s)
      | Some user \<Rightarrow>
          if hasTotpEnabled uid s
          then (Inl (createError ''2FA is already enabled for this account'' 409 (Some ''TOTP_ALREADY_ENABLED'')), s)
          else (Inr (generateTotpSecret random), upsertTotpSecret ae uid (generateTotpSecret random) (encryptionKey ae) s))"

definition post_confirm ::
  "auth_env \<Rightarrow> int \<Rightarrow> (nat \<Rightarrow> byte list \<times> string) \<Rightarrow> string option \<Rightarrow> string \<Rightarrow> auth_st \<Rightarrow> (exn + string list) \<times> auth_st" where
  "post_confirm ae now random code uid s =
     (case bind_r (parse_code code) (\<lambda>code.
           bind_r (getTotpSecret ae uid (encryptionKey ae) s) (\<lambda>record.
             case record of
               None \<Rightarrow> Inl (createError ''No pending 2FA enrollment found - call POST /auth/2fa/enroll first'' 400 (Some ''NO_ENROLLMENT''))
             | Some (secret, confirmed) \<Rightarrow>
                 if confirmed
                 then Inl (createError ''2FA is already confirmed for this account'' 409 (Some ''TOTP_ALREADY_CONFIRMED''))
                 else bind_r (verifyTotp (ae_hmacSha1 ae) now code secret) (\<lambda>valid.
                   if valid then Inr () else Inl (createError ''Invalid TOTP code'' 400 (Some ''INVALID_TOTP_CODE''))))) of
        Inl e \<Rightarrow> (Inl e, s)
      | Inr _ \<Rightarrow>
          (case generateAndStoreBackupCodes ae random uid (confirmTotpEnrollment uid s) of
             (codes, s1) \<Rightarrow> (Inr codes, write_audit uid ''totp_enrolled'' s1)))"

definition post_verify ::
  "auth_env \<Rightarrow> int \<Rightarrow> string \<times> string \<Rightarrow> string option \<Rightarrow> string option \<Rightarrow> auth_st \<Rightarrow> (exn + string \<times> string) \<times> auth_st" where
  "post_verify ae now jtis pendingToken code s =
     (case (given pendingToken, parse_code code) of
        (Some tok, Inr code) \<Rightarrow>
          (case verifyPendingTotpToken ae now tok of
             Inl _ \<Rightarrow> (Inl (createError ''Invalid or expired pending token'' 401 (Some ''INVALID_PENDING_TOKEN'')), s)
           | Inr pending \<Rightarrow>
               (case findUserById (as_app s) (jc_sub pending) of
                  None \<Rightarrow> (Inl (createError ''User not found'' 404 None), s)
                | Some user \<Rightarrow>
                    (case enabled_secret ae (jc_sub pending) s of
                       Inl e \<Rightarrow> (Inl e, s)
                     | Inr secret \<Rightarrow>
                         and_then (check_second_factor ae now (jc_sub pending) secret code ''Invalid code'' s) (\<lambda>totpValid s1.
                           let s2 = (if totpValid then s1 else write_audit (jc_sub pending) ''totp_backup_code_used'' s1)
                           in and_then (issue_tokens ae now jtis (u_id user) s2) (\<lambda>tokens s3.
                                (Inr tokens, write_audit (u_id user) ''totp_verified'' s3))))))
      | _ \<Rightarrow> (Inl zod_error, s))"

definition delete_disenroll :: "auth_env \<Rightarrow> int \<Rightarrow> string option \<Rightarrow> string \<Rightarrow> auth_st \<Rightarrow> (exn + unit) \<times> auth_st" where
  "delete_disenroll ae now code uid s =
     (case bind_r (parse_code code) (\<lambda>code. bind_r (enabled_secret ae uid s) (\<lambda>secret. Inr (code, secret))) of
        Inl e \<Rightarrow> (Inl e, s)
      | Inr (code, secret) \<Rightarrow>
          and_then (check_second_factor ae now uid secret code
                      ''Invalid code - provide your current TOTP code or a backup code'' s)
            (\<lambda>_ s1. (Inr (), write_audit uid ''totp_disenrolled'' (deleteTotpSecret uid s1))))"

definition post_regenerate ::
  "auth_env \<Rightarrow> int \<Rightarrow> (nat \<Rightarrow> byte list \<times> string) \<Rightarrow> string option \<Rightarrow> string \<Rightarrow> auth_st \<Rightarrow> (exn + string list) \<times> auth_st" where
  "post_regenerate ae now random code uid s =
     (case bind_r (parse_code code) (\<lambda>code. bind_r (enabled_secret ae uid s) (\<lambda>secret.
             verifyTotp (ae_hmacSha1 ae) now code secret)) of
        Inl e \<Rightarrow> (Inl e, s)
      | Inr False \<Rightarrow> (Inl (createError ''Invalid TOTP code'' 401 (Some ''INVALID_TOTP_CODE'')), s)
      | Inr True \<Rightarrow>
          (case generateAndStoreBackupCodes ae random uid s of
             (codes, s1) \<Rightarrow> (Inr codes, write_audit uid ''totp_backup_codes_regenerated'' s1)))"

section \<open>Login, refresh and logout\<close>

datatype login = TwoFactor string | LoggedIn string string

text \<open>The login callback once Google's profile has been stored as the user \<open>uid\<close>; the three ids are
  those of the pending token, the access token and the refresh token.\<close>

definition login_user ::
  "auth_env \<Rightarrow> int \<Rightarrow> (nat \<Rightarrow> nat \<Rightarrow> nat \<Rightarrow> nat) \<Rightarrow> string \<Rightarrow> string \<times> string \<times> string \<Rightarrow> string option \<Rightarrow> string option \<Rightarrow>
     request \<Rightarrow> string \<Rightarrow> auth_st \<Rightarrow> (exn + login) \<times> auth_st" where
  "login_user ae now rnd fresh jtis queryRef cookieRef req uid s =
     and_then (on_bank (ensureUserReferralCode rnd uid) s) (\<lambda>_ s1.
     and_then (on_bank (consumePendingReferralAttribution (ae_sha256 ae) now fresh queryRef cookieRef uid req) s1) (\<lambda>_ s2.
     and_then (revokeAllUserRefreshTokens now uid s2) (\<lambda>_ s3.
       if hasTotpEnabled uid s3 then (Inr (TwoFactor (signPendingTotpToken ae now (fst jtis) s3 uid)), s3)
       else and_then (issue_tokens ae now (snd jtis) uid s3) (\<lambda>(accessToken, refreshToken) s4.
         (Inr (LoggedIn accessToken refreshToken),
          write_audit uid ''login'' (s4\<lparr>as_lastLogin := (as_lastLogin s4)(uid \<mapsto> now)\<rparr>))))))"

definition post_refresh ::
  "auth_env \<Rightarrow> int \<Rightarrow> string \<times> string \<Rightarrow> string option \<Rightarrow> auth_st \<Rightarrow> (exn + string \<times> string) \<times> auth_st" where
  "post_refresh ae now jtis refreshToken s =
     (case given refreshToken of
        None \<Rightarrow> (Inl zod_error, s)
      | Some tok \<Rightarrow>
          (case verifyRefreshToken ae now tok of
             Inl _ \<Rightarrow> (Inl (createError ''Invalid refresh token'' 401 (Some ''INVALID_REFRESH_TOKEN'')), s)
           | Inr payload \<Rightarrow>
               and_then (markJtiUsed now (jc_jti payload) s) (\<lambda>alreadyUsed s1.
                 if alreadyUsed then
                   and_then (revokeAllUserRefreshTokens now (jc_sub payload) s1) (\<lambda>_ s2.
                     (Inl (createError ''Refresh token reuse detected - all sessions revoked'' 401 (Some ''TOKEN_REUSE'')), s2))
                 else and_then (isJtiRevoked now (jc_jti payload) s1) (\<lambda>revoked s2.
                   if revoked then (Inl (createError ''Refresh token revoked'' 401 (Some ''TOKEN_REVOKED'')), s2)
                   else case findUserById (as_app s2) (jc_sub payload) of
                     None \<Rightarrow> (Inl (createError ''Invalid refresh token'' 401 (Some ''INVALID_REFRESH_TOKEN'')), s2)
                   | Some user \<Rightarrow> issue_tokens ae now jtis (u_id user) s2))))"

definition post_logout :: "auth_env \<Rightarrow> int \<Rightarrow> string option \<Rightarrow> auth_st \<Rightarrow> auth_st" where
  "post_logout ae now refreshToken s =
     (case given refreshToken of
        None \<Rightarrow> s
      | Some tok \<Rightarrow> (case verifyRefreshToken ae now tok of Inl _ \<Rightarrow> s | Inr p \<Rightarrow> snd (markJtiUsed now (jc_jti p) s)))"

section \<open>Personal API keys\<close>

text \<open>\<open>random\<close> is the hexadecimal text of 24 random bytes; the key itself is returned once.\<close>

definition post_api_key :: "auth_env \<Rightarrow> string \<Rightarrow> string \<Rightarrow> string option \<Rightarrow> string \<Rightarrow> auth_st \<Rightarrow> (exn + string) \<times> auth_st" where
  "post_api_key ae fresh random nm uid s =
     (case nm of
        None \<Rightarrow> (Inl zod_error, s)
      | Some n \<Rightarrow>
          if trim n = [] \<or> 100 < length (trim n) then (Inl zod_error, s)
          else let fullKey = ''bb_live_'' @ random
               in (Inr fullKey, s\<lparr>as_keys := as_keys s @
                    [\<lparr>ak_id = fresh, ak_user = uid, ak_name = trim n, ak_hash = ae_sha256 ae fullKey, ak_revoked = None\<rparr>]\<rparr>))"

definition delete_api_key :: "int \<Rightarrow> string \<Rightarrow> string \<Rightarrow> auth_st \<Rightarrow> (exn + unit) \<times> auth_st" where
  "delete_api_key now kid uid s =
     (let mine = (\<lambda>k. ak_id k = kid \<and> ak_user k = uid \<and> ak_revoked k = None)
      in case find_row mine (as_keys s) of
           None \<Rightarrow> (Inl (createError ''API key not found or already revoked'' 404 None), s)
         | Some row \<Rightarrow>
             let s1 = s\<lparr>as_keys := update_where mine (\<lambda>k. k\<lparr>ak_revoked := Some now\<rparr>) (as_keys s)\<rparr>
             in (Inr (), if redis_up (as_app s1) then s1\<lparr>as_keyCache := (as_keyCache s1)(ak_hash row := None)\<rparr> else s1))"

section \<open>Lemmas\<close>

lemma on_redis_simps:
  "redis_up (as_app s) \<Longrightarrow> on_redis f s =
     (Inr (fst (f (redis_kv (as_app s)))),
      s\<lparr>as_bank := (as_bank s)\<lparr>game := (as_app s)\<lparr>redis_kv := snd (f (redis_kv (as_app s)))\<rparr>\<rparr>\<rparr>)"
  "\<not> redis_up (as_app s) \<Longrightarrow> on_redis f s = (Inl redis_error, s)"
  by (simp_all add: on_redis_def on_bank_def on_game_def redis_do_def split: prod.splits)

text \<open>Marking a token as used makes it count as revoked.\<close>

lemma marked_is_revoked:
  assumes "redis_up (as_app s)"
  shows "\<exists>s1. markJtiUsed now jti s = (Inr (r_get now (redis_kv (as_app s)) (jtiKey jti) \<noteq> None), s1) \<and>
    isJtiRevoked now jti s1 = (Inr True, s1)"
  using assms
  by (auto simp: markJtiUsed_def isJtiRevoked_def on_redis_simps r_set_nx_def r_set_ex_def r_get_def REFRESH_TTL_SECONDS_def
      split: option.splits if_splits)

lemma consumeBackupCode_True:
  assumes "consumeBackupCode ae uid code s = (True, s')" and "unique_by bc_id (as_backup s)"
  shows "\<exists>r \<in> set (as_backup s). bc_user r = uid \<and> \<not> bc_used r \<and> ae_bcryptCompare ae code (bc_hash r) \<and>
    (\<forall>r' \<in> set (as_backup s'). bc_id r' = bc_id r \<longrightarrow> bc_used r')"
proof -
  obtain row where row: "find_row (\<lambda>r. bc_user r = uid \<and> \<not> bc_used r \<and> ae_bcryptCompare ae code (bc_hash r)) (as_backup s) = Some row"
    "s' = s\<lparr>as_backup := update_where (\<lambda>r. bc_id r = bc_id row) (\<lambda>r. r\<lparr>bc_used := True\<rparr>) (as_backup s)\<rparr>"
    using assms(1) by (auto simp: consumeBackupCode_def split: option.splits)
  then have "\<forall>r' \<in> set (as_backup s'). bc_id r' = bc_id row \<longrightarrow> bc_used r'"
    by (auto elim: in_update_whereE)
  with find_row_Some [OF row(1)] show ?thesis by blast
qed

lemma as_backup_tokens: "issue_tokens ae now jtis uid s = (r, s') \<Longrightarrow> as_backup s' = as_backup s"
  by (cases "redis_up (as_app s)")
    (auto simp: issue_tokens_def Let_def registerRefreshJti_def on_redis_simps split: sum.splits)

lemma as_backup_write_audit [simp]: "as_backup (write_audit uid action s) = as_backup s"
  by (simp add: write_audit_def)

lemma issue_tokens_Inr:
  "issue_tokens ae now jtis uid s = (Inr tokens, s') \<Longrightarrow>
   tokens = (signAccessToken ae now (fst jtis) s uid, signRefreshToken ae now (snd jtis) s uid)"
  by (auto simp: issue_tokens_def Let_def and_then_Inr split: sum.splits)

section \<open>Properties\<close>

text \<open>The refresh route never succeeds. It marks the token as used before it asks whether the token
  is revoked, and both look at the same key: whatever the token, the user, the state of Redis and the time,
  the route throws, and a valid token that was never used before is refused as revoked.\<close>

theorem refresh_never_succeeds:
  "(\<exists>e. fst (post_refresh ae now jtis tok s) = Inl e) \<and>
   (redis_up (as_app s) \<and> given tok = Some t \<and> verifyRefreshToken ae now t = Inr p \<and>
      r_get now (redis_kv (as_app s)) (jtiKey (jc_jti p)) = None \<longrightarrow>
    fst (post_refresh ae now jtis tok s) = Inl (createError ''Refresh token revoked'' 401 (Some ''TOKEN_REVOKED'')))"
proof (intro conjI impI)
  show "\<exists>e. fst (post_refresh ae now jtis tok s) = Inl e"
  proof (cases "redis_up (as_app s)")
    case True
    have "\<exists>e. fst (and_then (markJtiUsed now jti s) (\<lambda>alreadyUsed s1.
        if alreadyUsed then and_then (revokeAllUserRefreshTokens now u s1) (\<lambda>_ s2. (Inl e1, s2))
        else and_then (isJtiRevoked now jti s1) (\<lambda>revoked s2. if revoked then (Inl e2, s2) else k s2))) = Inl e"
      for jti u e1 e2 and k :: "auth_st \<Rightarrow> (exn + string \<times> string) \<times> auth_st"
      using marked_is_revoked [OF True, of now jti]
      by (auto simp: and_then_def split: prod.splits sum.splits)
    then show ?thesis unfolding post_refresh_def by (simp split: option.splits sum.splits)
  next
    case False
    then show ?thesis by (auto simp: post_refresh_def markJtiUsed_def on_redis_simps split: option.splits sum.splits)
  qed
next
  assume *: "redis_up (as_app s) \<and> given tok = Some t \<and> verifyRefreshToken ae now t = Inr p \<and>
      r_get now (redis_kv (as_app s)) (jtiKey (jc_jti p)) = None"
  then show "fst (post_refresh ae now jtis tok s) = Inl (createError ''Refresh token revoked'' 401 (Some ''TOKEN_REVOKED''))"
    using marked_is_revoked [of s now "jc_jti p"] by (auto simp: post_refresh_def)
qed

text \<open>A pending token is accepted as an access token. The token handed out after the first factor,
  before the one-time password has been entered, passes \<open>authenticate\<close> for every method and path: the
  middleware checks issuer and audience, which pending tokens carry, but not the type. The hypothesis on
  the JWT library is that it verifies what it signed with the same secret until the token expires.\<close>

theorem pending_token_authenticates:
  assumes "c = pending_claims ae now jti s0 uid"
    and "now' div 1000 < jc_exp c \<Longrightarrow> ae_verify ae now' (ae_sign ae c (ae_secret ae)) (ae_secret ae) = Some c"
    and "tok = signPendingTotpToken ae now jti s0 uid" and "now' div 1000 < now div 1000 + 300"
    and "hr_authorization req = Some (''Bearer '' @ tok)" and "hr_apiKey req = None"
    and "tok \<noteq> []" and "\<not> startsWith tok ''bb_''"
    and "redis_up (as_app s)" and "r_get now' (redis_kv (as_app s)) (tokenRevocationKey tok) = None"
  shows "\<exists>p. authenticate ae now' req s = (Passed p, s) \<and> ap_sub p = uid"
proof -
  have v: "ae_verify ae now' tok (ae_secret ae) = Some c"
    using assms(1-4) by (simp add: signPendingTotpToken_def pending_claims_def PENDING_TOTP_TTL_def)
  have "\<not> startsWith (''Bearer '' @ tok) ''Bearer bb_''"
    using assms(8) by (auto simp: startsWith_def)
  then have k: "extractApiKey req = None" using assms(5,6) by (simp add: extractApiKey_def)
  obtain x xs where "tok = x # xs" using assms(7) by (cases tok) auto
  then have "bearer req = Some tok" using assms(5) by (simp add: bearer_def startsWith_def given_def)
  with k v assms(1,9,10) show ?thesis by (simp add: authenticate_def pending_claims_def)
qed

text \<open>No backup code can be used: every code the server generates has eleven characters, and the
  schemas of the routes that accept a code allow at most eight, so a user who lost the authenticator can
  neither log in nor switch two-factor authentication off.\<close>

theorem backup_codes_rejected:
  "post_verify ae now jtis pendingToken (Some (generateBackupCode bytes)) s = (Inl zod_error, s) \<and>
   delete_disenroll ae now (Some (generateBackupCode bytes)) uid s = (Inl zod_error, s)"
  by (simp add: post_verify_def delete_disenroll_def parse_code_def length_generateBackupCode split: option.splits)


text \<open>A revoked API key stops working at once: with Redis up, the row is revoked and its cache entry
  dropped, so from then on every request with that key is rejected, whatever its method. Hashes are unique
  in the table.\<close>

theorem revoked_key_rejected:
  assumes "delete_api_key now kid uid s = (Inr (), s1)" and "redis_up (as_app s)" and "unique_by ak_hash (as_keys s)"
    and "row \<in> set (as_keys s)" and "ak_id row = kid" and "unique_by ak_id (as_keys s)"
    and "ae_sha256 ae apiKey = ak_hash row" and "extractApiKey req = Some apiKey"
  shows "\<exists>status msg code. authenticate ae now' req s1 = (Rejected status msg code, s1)"
proof -
  let ?mine = "\<lambda>k. ak_id k = kid \<and> ak_user k = uid \<and> ak_revoked k = None"
  obtain r where r: "find_row ?mine (as_keys s) = Some r"
    and s1: "s1 = s\<lparr>as_keys := update_where ?mine (\<lambda>k. k\<lparr>ak_revoked := Some now\<rparr>) (as_keys s),
      as_keyCache := (as_keyCache s)(ak_hash r := None)\<rparr>"
    using assms(1,2) by (auto simp: delete_api_key_def Let_def split: option.splits)
  have eq: "r = row" using find_row_Some [OF r] assms(4-6) by (metis unique_byD)
  have "find_row (\<lambda>k. ak_hash k = ak_hash row \<and> ak_revoked k = None) (as_keys s1) = None"
  proof (unfold find_row_None, intro ballI notI)
    fix k assume k: "k \<in> set (as_keys s1)" "ak_hash k = ak_hash row \<and> ak_revoked k = None"
    from k(1) obtain k0 where k0: "k0 \<in> set (as_keys s)" "ak_hash k0 = ak_hash k"
      "k = (if ?mine k0 then k0\<lparr>ak_revoked := Some now\<rparr> else k0)"
      by (auto simp: s1 update_where_def)
    then have "k0 = row" using k(2) assms(3,4) by (metis unique_byD)
    with k0 k(2) find_row_Some [OF r] eq show False by auto
  qed
  moreover have "cached_key now' (ak_hash row) s1 = None" by (simp add: cached_key_def s1 eq)
  ultimately show ?thesis using assms(7,8)
    by (simp add: authenticate_def authenticateApiKey_def Let_def)
qed

text \<open>A user with two-factor authentication on, one API key, and stand-ins for the libraries: a token is the
  type and the id of its claims, the one-time password is always \<open>000000\<close>.\<close>

definition demo_claims :: "string option \<Rightarrow> claims" where
  "demo_claims ty = \<lparr>jc_sub = ''ana'', jc_email = ''a'', jc_role = None, jc_type = ty, jc_jti = ''j1'', jc_iss = Some ''bb'',
     jc_aud = Some ''web'', jc_exp = 300, jc_impersonated = False\<rparr>"

definition demo_auth :: auth_env where
  "demo_auth = \<lparr>ae_sign = (\<lambda>c k. ''T'' @ jc_jti c),
     ae_verify = (\<lambda>now tok k. if tok = ''Tr'' then Some (demo_claims (Some ''refresh''))
                   else if tok = ''Tp'' then Some ((demo_claims (Some ''pending_totp''))\<lparr>jc_jti := ''p''\<rparr>)
                   else if tok = ''Tr2'' then Some ((demo_claims (Some ''refresh''))\<lparr>jc_jti := ''r2''\<rparr>) else None),
     ae_secret = ''k'', ae_refreshSecret = None, ae_previousSecret = None, ae_issuer = ''bb'', ae_audience = ''web'',
     ae_integrityKey = None, ae_sha256 = (\<lambda>x. x), ae_hmacSha1 = (\<lambda>k m. replicate 20 0),
     ae_encrypt = (\<lambda>x k. x), ae_decrypt = (\<lambda>x k. Inr x), ae_bcryptHash = (\<lambda>x. x), ae_bcryptCompare = (=)\<rparr>"

definition demo_key :: api_key_row where
  "demo_key = \<lparr>ak_id = ''k1'', ak_user = ''ana'', ak_name = ''cli'', ak_hash = ''bb_live_1'', ak_revoked = None\<rparr>"

definition demo_auth_st :: auth_st where
  "demo_auth_st = \<lparr>as_bank = demo_bank, as_email = (\<lambda>_. ''a''), as_role = (\<lambda>_. None), as_lastLogin = (\<lambda>_. None),
     as_totp = [\<lparr>tt_user = ''ana'', tt_encrypted = [], tt_confirmed = True\<rparr>], as_backup = [], as_keys = [demo_key],
     as_keyCache = (\<lambda>h. if h = ''bb_live_1'' then Some (demo_key, 200) else None)\<rparr>"

lemma demo_auth_redis: "redis_up (as_app demo_auth_st)" "redis_kv (as_app demo_auth_st) = (\<lambda>_. None)"
  by (simp_all add: demo_auth_st_def demo_bank_def blank_bank_def blank_app_def)

theorem refresh_never_succeeds_witness:
  "fst (post_refresh demo_auth 0 (''x'', ''y'') (Some ''Tr'') demo_auth_st) =
     Inl (createError ''Refresh token revoked'' 401 (Some ''TOKEN_REVOKED''))"
proof -
  have "verifyRefreshToken demo_auth 0 ''Tr'' = Inr (demo_claims (Some ''refresh''))"
    by (simp add: verifyRefreshToken_def demo_auth_def demo_claims_def)
  then show ?thesis
    using refresh_never_succeeds [of demo_auth 0 "(''x'', ''y'')" "Some ''Tr''" demo_auth_st "''Tr''"] demo_auth_redis
    by (simp add: given_def r_get_def)
qed

theorem pending_token_authenticates_witness:
  "\<exists>p. authenticate demo_auth 299000 \<lparr>hr_method = ''POST'', hr_path = ''/brands'', hr_authorization = Some ''Bearer Tp'',
       hr_apiKey = None\<rparr> demo_auth_st = (Passed p, demo_auth_st) \<and> ap_sub p = ''ana''"
proof (rule pending_token_authenticates [of _ _ 0 "''p''" demo_auth_st _ _ "''Tp''"])
  show "ae_verify demo_auth 299000 (ae_sign demo_auth (pending_claims demo_auth 0 ''p'' demo_auth_st ''ana'') (ae_secret demo_auth))
      (ae_secret demo_auth) = Some (pending_claims demo_auth 0 ''p'' demo_auth_st ''ana'')"
    by (simp add: demo_auth_def pending_claims_def demo_claims_def demo_auth_st_def PENDING_TOTP_TTL_def)
  show "''Tp'' = signPendingTotpToken demo_auth 0 ''p'' demo_auth_st ''ana''"
    by (simp add: signPendingTotpToken_def demo_auth_def pending_claims_def)
qed (simp_all add: demo_auth_redis r_get_def startsWith_def)

lemma demo_totp: "verifyTotp (ae_hmacSha1 demo_auth) 60000 ''000000'' [] = Inr True"
proof -
  have h: "ae_hmacSha1 demo_auth k m = replicate 20 0" for k m by (simp add: demo_auth_def)
  have d: "dynamic_truncation (replicate 20 0) = 0" "padStart 6 CHR ''0'' (string_of_nat 0) = ''000000''" by code_simp+
  have "computeTotp (ae_hmacSha1 demo_auth) [] 1 = Inr ''000000''"
    unfolding computeTotp_def h d(1) using d(2)
    by (simp add: writeUInt32BE_def base32Decode_def strip_padding_def toUpperCase_def del: string_of_nat.simps)
  then show ?thesis by (simp add: verifyTotp_def current_step_def)
qed

lemma demo_verify_run:
  "fst (post_verify demo_auth 60000 (''r2'', ''r2'') (Some ''Tp'') (Some ''000000'') demo_auth_st) = Inr (''Tr2'', ''Tr2'')"
proof -
  have u: "findUserById (as_app demo_auth_st) ''ana'' = Some ((new_user ''ana'')\<lparr>u_stellar_address := Some ''GA''\<rparr>)"
    by (simp add: findUserById_def demo_auth_st_def demo_bank_def blank_bank_def new_user_def)
  have p: "verifyPendingTotpToken demo_auth 60000 ''Tp'' = Inr ((demo_claims (Some ''pending_totp''))\<lparr>jc_jti := ''p''\<rparr>)"
    by (simp add: verifyPendingTotpToken_def demo_auth_def demo_claims_def)
  have e: "enabled_secret demo_auth ''ana'' demo_auth_st = Inr []"
    by (simp add: enabled_secret_def getTotpSecret_def demo_auth_def demo_auth_st_def)
  obtain s3 where t: "issue_tokens demo_auth 60000 (''r2'', ''r2'') ''ana'' demo_auth_st = (Inr (''Tr2'', ''Tr2''), s3)"
    by (simp add: issue_tokens_def signAccessToken_def signRefreshToken_def verifyRefreshToken_def registerRefreshJti_def
        on_redis_simps demo_auth_redis demo_auth_def demo_claims_def Let_def)
  have sub: "jc_sub (demo_claims ty) = ''ana''" for ty by (simp add: demo_claims_def)
  show ?thesis
    unfolding post_verify_def by (simp add: given_def parse_code_def p u e check_second_factor_def demo_totp sub new_user_def t)
qed


theorem revoked_key_rejected_witness:
  "\<exists>status msg code. authenticate demo_auth 150 \<lparr>hr_method = ''GET'', hr_path = ''/x'', hr_authorization = None,
      hr_apiKey = Some ''bb_live_1''\<rparr> (snd (delete_api_key 100 ''k1'' ''ana'' demo_auth_st)) =
      (Rejected status msg code, snd (delete_api_key 100 ''k1'' ''ana'' demo_auth_st))"
proof (rule revoked_key_rejected [of 100 "''k1''" "''ana''" demo_auth_st _ demo_key _ "''bb_live_1''"])
  show "delete_api_key 100 ''k1'' ''ana'' demo_auth_st = (Inr (), snd (delete_api_key 100 ''k1'' ''ana'' demo_auth_st))"
    by (simp add: delete_api_key_def demo_auth_st_def demo_key_def Let_def)
  show "redis_up (as_app demo_auth_st)" by (rule demo_auth_redis)
  show "extractApiKey \<lparr>hr_method = ''GET'', hr_path = ''/x'', hr_authorization = None, hr_apiKey = Some ''bb_live_1''\<rparr> =
      Some ''bb_live_1''" by code_simp
qed (simp_all add: demo_auth_st_def demo_key_def demo_auth_def unique_by_def)

end
