(* ===== verification/Ws_Frame.thy ===== *)
theory Ws_Frame
  imports Bytes
begin

text \<open>
  WebSocket frames (\<open>lib/ws-frame.ts\<close>): the encoder for frames to the client and the decoder that cuts
  complete frames off a receive buffer. A text is its UTF-8 bytes. The properties: decoding gives back what
  was encoded, masked or not, and how the stream was cut into chunks does not matter.
\<close>

unbundle bit_operations_syntax

section \<open>Encoding\<close>

definition frame_header :: "byte \<Rightarrow> nat \<Rightarrow> byte list" where
  "frame_header opcode len =
     (if len \<le> 125 then [0x80 OR (opcode AND 0x0f), of_nat len]
      else if len \<le> 65535 then [0x80 OR (opcode AND 0x0f), 126] @ be_bytes 2 len
      else [0x80 OR (opcode AND 0x0f), 127] @ be_bytes 8 len)"

definition encodeWsFrame :: "byte list \<Rightarrow> byte \<Rightarrow> byte list" where
  "encodeWsFrame payload opcode = frame_header opcode (length payload) @ payload"

text \<open>A \<open>Buffer\<close> passed as data is no string, so its JSON text is sent.\<close>

definition ascii :: "string \<Rightarrow> byte list" where
  "ascii s = map of_char s"

fun join_commas :: "string list \<Rightarrow> string" where
  "join_commas [] = []"
| "join_commas [s] = s"
| "join_commas (s # ss) = s @ '','' @ join_commas ss"

definition DQ :: string where "DQ = [CHR 0x22]"

definition json_buffer :: "byte list \<Rightarrow> byte list" where
  "json_buffer bs = ascii (''{'' @ DQ @ ''type'' @ DQ @ '':'' @ DQ @ ''Buffer'' @ DQ @ '','' @ DQ @ ''data'' @ DQ @ '':['' @
     join_commas (map (\<lambda>b. string_of_nat (unat b)) bs) @ '']}'')"

definition encodeCloseFrame :: "nat \<Rightarrow> byte list \<Rightarrow> byte list" where
  "encodeCloseFrame code reason = encodeWsFrame (json_buffer (be_bytes 2 code @ reason)) 0x08"

definition encodePongFrame :: "byte list \<Rightarrow> byte list" where
  "encodePongFrame payload = encodeWsFrame (json_buffer payload) 0x0a"

section \<open>Decoding\<close>

record ws_frame =
  wf_opcode :: byte
  wf_payload :: "byte list"
  wf_text :: "byte list option"
  wf_isFinal :: bool

text \<open>The payload length and the size of the header, unless the header is incomplete. Beyond \<open>2 ^ 53\<close> the
  code rounds the length to a double; no buffer is that long, so the frame is incomplete either way.\<close>

definition read_length :: "byte list \<Rightarrow> (nat \<times> nat) option" where
  "read_length buf =
     (let payloadLen = unat (buf ! 1 AND 0x7f)
      in if payloadLen = 126 then (if length buf < 4 then None else Some (read_be (take 2 (drop 2 buf)), 4))
         else if payloadLen = 127 then (if length buf < 10 then None else Some (read_be (take 8 (drop 2 buf)), 10))
         else Some (payloadLen, 2))"

definition unmask :: "byte list \<Rightarrow> byte list \<Rightarrow> byte list" where
  "unmask key payload = map (\<lambda>i. payload ! i XOR key ! (i mod 4)) [0..<length payload]"

text \<open>One pass of the loop at the start of the buffer: the frame and its size, or \<open>None\<close> where the loop
  stops.\<close>

definition read_frame :: "byte list \<Rightarrow> (ws_frame \<times> nat) option" where
  "read_frame buf =
     (if length buf < 2 then None
      else case read_length buf of
        None \<Rightarrow> None
      | Some (payloadLen, headerSize) \<Rightarrow>
          let b0 = buf ! 0; isMasked = (buf ! 1 AND 0x80 \<noteq> 0);
              maskSize = (if isMasked then 4 else 0);
              totalSize = headerSize + maskSize + payloadLen
          in if length buf < totalSize then None
             else
               let raw = take payloadLen (drop (headerSize + maskSize) buf);
                   payload = (if isMasked then unmask (take 4 (drop headerSize buf)) raw else raw);
                   opcode = b0 AND 0x0f
               in Some (\<lparr>wf_opcode = opcode, wf_payload = payload,
                         wf_text = (if opcode = 1 then Some payload else None),
                         wf_isFinal = (b0 AND 0x80 \<noteq> 0)\<rparr>, totalSize))"

lemma read_length_size: "read_length buf = Some (n, h) \<Longrightarrow> 2 \<le> h"
  by (auto simp: read_length_def Let_def split: if_splits)

lemma read_frame_size: "read_frame buf = Some (f, n) \<Longrightarrow> 2 \<le> n \<and> n \<le> length buf"
  by (auto simp: read_frame_def Let_def split: if_splits option.splits dest!: read_length_size)

function decodeWsFrames :: "byte list \<Rightarrow> ws_frame list \<times> byte list" where
  "decodeWsFrames buf =
     (case read_frame buf of
        None \<Rightarrow> ([], buf)
      | Some (f, n) \<Rightarrow> (case decodeWsFrames (drop n buf) of (fs, remaining) \<Rightarrow> (f # fs, remaining)))"
  by pat_completeness auto

termination
  by (relation "measure length") (auto dest: read_frame_size)

declare decodeWsFrames.simps [simp del]

section \<open>Lemmas\<close>

lemma read_length_append: "2 \<le> length a \<Longrightarrow> read_length a = Some r \<Longrightarrow> read_length (a @ b) = Some r"
  by (auto simp: read_length_def Let_def nth_append split: if_splits)

lemma read_frame_append: "read_frame a = Some (f, n) \<Longrightarrow> read_frame (a @ b) = Some (f, n)"
  by (auto simp: read_frame_def Let_def nth_append read_length_append split: if_splits option.splits)

lemma header_byte: "(0x80 OR (op AND 0x0f)) AND 0x0f = (op AND 0x0f :: byte)" "(0x80 OR (op AND 0x0f)) AND 0x80 \<noteq> (0 :: byte)"
proof -
  show "(0x80 OR (op AND 0x0f)) AND 0x0f = (op AND 0x0f :: byte)" by (simp add: bit.conj_disj_distrib2 and.assoc)
  have "bit ((0x80 OR (op AND 0x0f)) AND 0x80 :: byte) 7" by (simp add: bit_simps)
  then show "(0x80 OR (op AND 0x0f)) AND 0x80 \<noteq> (0 :: byte)" by (metis bit_0_eq bot_apply bot_bool_def)
qed

text \<open>The frame a client sends (RFC 6455, section 5.3): the mask bit set, the masking key, the masked
  payload.\<close>

definition client_frame :: "byte list \<Rightarrow> byte \<Rightarrow> byte list \<Rightarrow> byte list" where
  "client_frame key opcode payload =
     (let h = frame_header opcode (length payload)
      in [h ! 0, 0x80 OR h ! 1] @ drop 2 h @ key @ unmask key payload)"

definition frame_of :: "byte \<Rightarrow> byte list \<Rightarrow> ws_frame" where
  "frame_of opcode payload = \<lparr>wf_opcode = opcode AND 0x0f, wf_payload = payload,
     wf_text = (if opcode AND 0x0f = 1 then Some payload else None), wf_isFinal = True\<rparr>"

text \<open>The two parts of a header: the length code in the second byte and the extended length.\<close>

definition len_code :: "nat \<Rightarrow> nat" where
  "len_code len = (if len \<le> 125 then len else if len \<le> 65535 then 126 else 127)"

definition len_ext :: "nat \<Rightarrow> byte list" where
  "len_ext len = (if len \<le> 125 then [] else if len \<le> 65535 then be_bytes 2 len else be_bytes 8 len)"

lemma frame_header_parts: "frame_header op len = [0x80 OR (op AND 0x0f), of_nat (len_code len)] @ len_ext len"
  by (simp add: frame_header_def len_code_def len_ext_def)

lemma read_length_parts:
  assumes "unat (b1 AND 0x7f) = len_code len" and "len < 2 ^ 64"
  shows "read_length ([b0, b1] @ len_ext len @ rest) = Some (len, 2 + length (len_ext len))"
  using assms read_be_bytes [of len 2] read_be_bytes [of len 8]
  by (simp add: read_length_def Let_def len_code_def len_ext_def)

lemma len_code_byte:
  "unat (of_nat (len_code len) AND 0x7f :: byte) = len_code len" "(of_nat (len_code len) :: byte) AND 0x80 = 0"
  "unat ((0x80 OR of_nat (len_code len)) AND 0x7f :: byte) = len_code len" "(0x80 OR of_nat (len_code len) :: byte) AND 0x80 \<noteq> 0"
proof -
  have c: "len_code len < 128" by (simp add: len_code_def)
  then have u: "unat (of_nat (len_code len) :: byte) = len_code len" by (simp add: unat_byte_of_nat)
  show 1: "unat (of_nat (len_code len) AND 0x7f :: byte) = len_code len" using c u by (simp add: and_byte)
  show "(of_nat (len_code len) :: byte) AND 0x80 = 0" using c u and_128 [of "of_nat (len_code len)"] by simp
  have "(0x80 OR of_nat (len_code len)) AND 0x7f = (of_nat (len_code len) AND 0x7f :: byte)"
    by (simp add: bit.conj_disj_distrib2)
  then show "unat ((0x80 OR of_nat (len_code len)) AND 0x7f :: byte) = len_code len" using 1 by simp
  have "bit ((0x80 OR of_nat (len_code len)) AND 0x80 :: byte) 7" by (simp add: bit_simps)
  then show "(0x80 OR of_nat (len_code len) :: byte) AND 0x80 \<noteq> 0" by (metis bit_0_eq bot_apply bot_bool_def)
qed

lemma unmask_unmask: "unmask key (unmask key p) = p"
  by (rule nth_equalityI) (simp_all add: unmask_def xor.assoc)

lemma read_server_frame:
  assumes "length p < 2 ^ 64"
  shows "read_frame (encodeWsFrame p op @ rest) = Some (frame_of op p, length (encodeWsFrame p op))"
proof -
  have e: "encodeWsFrame p op @ rest = [0x80 OR (op AND 0x0f), of_nat (len_code (length p))] @ len_ext (length p) @ p @ rest"
    by (simp add: encodeWsFrame_def frame_header_parts)
  have "read_length (encodeWsFrame p op @ rest) = Some (length p, 2 + length (len_ext (length p)))"
    unfolding e using len_code_byte(1) assms by (rule read_length_parts)
  moreover have "drop (2 + length (len_ext (length p))) (encodeWsFrame p op @ rest) = p @ rest"
    unfolding e by simp
  moreover have "length (encodeWsFrame p op) = 2 + length (len_ext (length p)) + length p"
    by (simp add: encodeWsFrame_def frame_header_parts)
  moreover have "(encodeWsFrame p op @ rest) ! 0 = 0x80 OR (op AND 0x0f)"
    "(encodeWsFrame p op @ rest) ! 1 = of_nat (len_code (length p))" unfolding e by simp_all
  ultimately show ?thesis
    by (simp add: read_frame_def Let_def len_code_byte(2) header_byte frame_of_def)
qed

lemma read_client_frame:
  assumes "length p < 2 ^ 64" and "length key = 4"
  shows "read_frame (client_frame key op p @ rest) = Some (frame_of op p, length (client_frame key op p))"
proof -
  let ?h = "2 + length (len_ext (length p))"
  have e: "client_frame key op p @ rest =
      [0x80 OR (op AND 0x0f), 0x80 OR of_nat (len_code (length p))] @ len_ext (length p) @ key @ unmask key p @ rest"
    by (simp add: client_frame_def frame_header_parts Let_def)
  have "read_length (client_frame key op p @ rest) = Some (length p, ?h)"
    unfolding e using len_code_byte(3) assms(1) by (rule read_length_parts)
  moreover have "drop ?h (client_frame key op p @ rest) = key @ unmask key p @ rest" unfolding e by simp
  moreover from this have "drop (?h + 4) (client_frame key op p @ rest) = unmask key p @ rest"
    using assms(2) by (metis add.commute append_eq_conv_conj drop_drop)
  moreover have "length (unmask key p) = length p" by (simp add: unmask_def)
  moreover from this have "length (client_frame key op p) = ?h + 4 + length p"
    using assms(2) by (simp add: client_frame_def frame_header_parts Let_def)
  moreover have "(client_frame key op p @ rest) ! 0 = 0x80 OR (op AND 0x0f)"
    "(client_frame key op p @ rest) ! 1 = 0x80 OR of_nat (len_code (length p))" unfolding e by simp_all
  ultimately show ?thesis
    using assms(2) by (simp add: read_frame_def Let_def len_code_byte(4) header_byte frame_of_def unmask_unmask)
qed

section \<open>Properties\<close>


text \<open>How the stream is cut into chunks does not matter: keeping the remaining bytes of one chunk and
  decoding them with the next chunk gives the frames of the whole stream, in order, and the same rest.\<close>

theorem ws_chunking:
  "decodeWsFrames (a @ b) =
     (fst (decodeWsFrames a) @ fst (decodeWsFrames (snd (decodeWsFrames a) @ b)),
      snd (decodeWsFrames (snd (decodeWsFrames a) @ b)))"
proof (induction a rule: decodeWsFrames.induct)
  case (1 a)
  show ?case
  proof (cases "read_frame a")
    case None
    then show ?thesis by (simp add: decodeWsFrames.simps [of a])
  next
    case (Some r)
    obtain f n where r: "read_frame a = Some (f, n)" using Some by (cases r) simp
    have "drop n (a @ b) = drop n a @ b" using read_frame_size [OF r] by simp
    then have "decodeWsFrames (a @ b) = (f # fst (decodeWsFrames (drop n a @ b)), snd (decodeWsFrames (drop n a @ b)))"
      using read_frame_append [OF r, of b] by (simp add: decodeWsFrames.simps [of "a @ b"] case_prod_beta)
    moreover have "decodeWsFrames a = (f # fst (decodeWsFrames (drop n a)), snd (decodeWsFrames (drop n a)))"
      using r by (simp add: decodeWsFrames.simps [of a] case_prod_beta)
    ultimately show ?thesis using "1.IH" [OF r refl] by simp
  qed
qed

text \<open>A pong never echoes the ping: the payload of the frame \<open>encodePongFrame\<close> builds is the JSON text
  of the buffer, which is longer than the payload it should repeat.\<close>

theorem pong_not_echoed:
  "encodePongFrame p = encodeWsFrame (json_buffer p) 0x0a \<and> length p < length (json_buffer p)"
proof -
  have len: "length ss \<le> length (join_commas ss)" if "\<forall>s \<in> set ss. s \<noteq> []" for ss
    using that
  proof (induction ss rule: join_commas.induct)
    case (2 s)
    then show ?case by (cases s) simp_all
  qed auto
  have "length p \<le> length (join_commas (map (\<lambda>b. string_of_nat (unat b)) p))"
    using len [of "map (\<lambda>b. string_of_nat (unat b)) p"] by (auto simp del: string_of_nat.simps)
  then show ?thesis by (simp add: encodePongFrame_def json_buffer_def ascii_def)
qed


end
