(* ===== verification/Chat.thy ===== *)
theory Chat
  imports Auth Ws_Frame
begin

text \<open>
  The challenge chat (\<open>routes/challenges.chat.ts\<close>): admission to a room, joining, the frames a client
  sends, leaving, and the closing of a room when its challenge ends. Rooms, clients and sockets are mutable
  objects shared between the connections, so they live in a store under an id: a connection keeps the id of
  the room it joined, while the table of active rooms may by then hold another one. Sent frames are logged
  as events. The parser of the JSON text is a parameter, as are the ids of messages.
\<close>

section \<open>Escaping\<close>

definition replace_char :: "char \<Rightarrow> string \<Rightarrow> string \<Rightarrow> string" where
  "replace_char c r s = concat (map (\<lambda>x. if x = c then r else [x]) s)"

definition escapeHtml :: "string \<Rightarrow> string" where
  "escapeHtml s =
     replace_char (CHR 0x27) ''&#39;''
       (replace_char (CHR 0x22) ''&quot;''
         (replace_char (CHR ''>'') ''&gt;'' (replace_char (CHR ''<'') ''&lt;'' (replace_char (CHR ''&'') ''&amp;'' s))))"

section \<open>State\<close>

definition MAX_MESSAGE_LENGTH :: nat where "MAX_MESSAGE_LENGTH = 280"
definition RATE_LIMIT_MAX_MESSAGES :: nat where "RATE_LIMIT_MAX_MESSAGES = 5"
definition RATE_LIMIT_WINDOW_MS :: int where "RATE_LIMIT_WINDOW_MS = 5000"
definition MAX_HISTORY_MESSAGES :: nat where "MAX_HISTORY_MESSAGES = 50"

record chat_message =
  cm_id :: string
  cm_challenge :: string
  cm_user :: string
  cm_content :: string
  cm_timestamp :: int

record chat_client =
  cc_user :: string
  cc_stamps :: "int list"

record chat_room =
  cr_clients :: "nat list"
  cr_history :: "chat_message list"
  cr_endsAt :: int

datatype chat_event =
  Connected string nat | History "chat_message list" | UserJoined string nat | UserLeft string nat
  | ChatMessage chat_message | RateLimited | InvalidLength | InvalidJson | ChallengeEnded
  | CloseFrame nat string | PongFrame "byte list"

text \<open>A socket and its client have the same id.\<close>

record chat_st =
  ct_active :: "string \<Rightarrow> nat option"
  ct_room :: "nat \<Rightarrow> chat_room"
  ct_client :: "nat \<Rightarrow> chat_client"
  ct_next :: nat
  ct_writable :: "nat \<Rightarrow> bool"
  ct_sent :: "(nat \<times> chat_event) list"

definition sendWsMessage :: "nat \<Rightarrow> chat_event \<Rightarrow> chat_st \<Rightarrow> chat_st" where
  "sendWsMessage sock ev st = (if ct_writable st sock then st\<lparr>ct_sent := ct_sent st @ [(sock, ev)]\<rparr> else st)"

definition end_socket :: "nat \<Rightarrow> chat_st \<Rightarrow> chat_st" where
  "end_socket sock st = st\<lparr>ct_writable := (ct_writable st)(sock := False)\<rparr>"

section \<open>Rooms\<close>

definition broadcastToRoom :: "string \<Rightarrow> chat_event \<Rightarrow> nat option \<Rightarrow> chat_st \<Rightarrow> chat_st" where
  "broadcastToRoom cid ev exclude st =
     (case ct_active st cid of
        None \<Rightarrow> st
      | Some rid \<Rightarrow> foldl (\<lambda>st sock. if exclude = Some sock then st else sendWsMessage sock ev st) st (cr_clients (ct_room st rid)))"

text \<open>Drops the timestamps older than the window; the result says whether the limit is reached.\<close>

definition isRateLimited :: "chat_client \<Rightarrow> int \<Rightarrow> bool \<times> chat_client" where
  "isRateLimited client now =
     (let recent = filter (\<lambda>t. now - t < RATE_LIMIT_WINDOW_MS) (cc_stamps client)
      in if RATE_LIMIT_MAX_MESSAGES \<le> length recent then (True, client\<lparr>cc_stamps := recent\<rparr>)
         else (False, client\<lparr>cc_stamps := recent @ [now]\<rparr>))"

definition closeRoom :: "string \<Rightarrow> string \<Rightarrow> chat_st \<Rightarrow> chat_st" where
  "closeRoom cid reason st =
     (case ct_active st cid of
        None \<Rightarrow> st
      | Some rid \<Rightarrow>
          let st1 = foldl (\<lambda>st sock.
                      if ct_writable st sock
                      then end_socket sock (sendWsMessage sock (CloseFrame 1000 reason) (sendWsMessage sock ChallengeEnded st)) else st)
                    st (cr_clients (ct_room st rid))
          in st1\<lparr>ct_room := (ct_room st1)(rid := (ct_room st1 rid)\<lparr>cr_clients := []\<rparr>),
                 ct_active := (ct_active st1)(cid := None)\<rparr>)"

section \<open>Admission\<close>

text \<open>The checks before the handshake: the HTTP status and the message of a refusal, or the user and the
  end of the challenge.\<close>

definition chat_admission :: "auth_env \<Rightarrow> int \<Rightarrow> string option \<Rightarrow> string \<Rightarrow> auth_st \<Rightarrow> (nat \<times> string) + (string \<times> int)" where
  "chat_admission ae now token cid s =
     (case given token of
        None \<Rightarrow> Inl (401, ''No token provided'')
      | Some tok \<Rightarrow>
     (case ae_verify ae now tok (ae_secret ae) of
        None \<Rightarrow> Inl (401, ''Invalid or expired token'')
      | Some verified \<Rightarrow>
          if jc_iss verified \<noteq> Some (ae_issuer ae) \<or> jc_aud verified \<noteq> Some (ae_audience ae)
          then Inl (401, ''Invalid token issuer or audience'')
          else if redis_up (as_app s) \<and> r_get now (redis_kv (as_app s)) (tokenRevocationKey tok) \<noteq> None
          then Inl (401, ''Token has been revoked'')
          else
     (case find_row (\<lambda>u. u_id u = jc_sub verified \<and> u_deleted_at u = None \<and> \<not> u_suspended u) (users (as_app s)) of
        None \<Rightarrow> Inl (401, ''User not found or inactive'')
      | Some user \<Rightarrow>
     (case find_row (\<lambda>c. ch_id c = cid) (challenges (as_app s)) of
        None \<Rightarrow> Inl (404, ''Challenge not found'')
      | Some challenge \<Rightarrow>
          let endsAtTime = (case ch_ends_at challenge of Some t \<Rightarrow> t | None \<Rightarrow> 0)
          in if ch_status challenge \<noteq> CActive then Inl (400, ''Challenge is not currently active'')
             else if endsAtTime \<le> now then Inl (400, ''Challenge has already ended'')
             else if getSession (as_app s) (u_id user) cid = None
             then Inl (403, ''Only active challenge participants can access chat'')
             else Inr (u_id user, endsAtTime)))))"

section \<open>Connections\<close>

text \<open>Lines 354 to 416: the room is created if there is none, the client added, and the events sent. The
  result is the room's id.\<close>

definition join_room :: "string \<Rightarrow> string \<Rightarrow> int \<Rightarrow> nat \<Rightarrow> chat_st \<Rightarrow> nat \<times> chat_st" where
  "join_room cid uid endsAt sock st =
     (let (rid, st1) = (case ct_active st cid of
            Some rid \<Rightarrow> (rid, st)
          | None \<Rightarrow> (ct_next st, st\<lparr>ct_room := (ct_room st)(ct_next st := \<lparr>cr_clients = [], cr_history = [], cr_endsAt = endsAt\<rparr>),
                     ct_active := (ct_active st)(cid \<mapsto> ct_next st), ct_next := ct_next st + 1\<rparr>));
          st2 = st1\<lparr>ct_client := (ct_client st1)(sock := \<lparr>cc_user = uid, cc_stamps = []\<rparr>),
                    ct_room := (ct_room st1)(rid := (ct_room st1 rid)\<lparr>cr_clients := cr_clients (ct_room st1 rid) @ [sock]\<rparr>)\<rparr>;
          n = length (cr_clients (ct_room st2 rid));
          st3 = sendWsMessage sock (History (cr_history (ct_room st2 rid))) (sendWsMessage sock (Connected uid n) st2)
      in (rid, broadcastToRoom cid (UserJoined uid n) (Some sock) st3))"

definition cleanup :: "string \<Rightarrow> int \<Rightarrow> nat \<Rightarrow> chat_st \<Rightarrow> chat_st" where
  "cleanup cid now sock st =
     (case ct_active st cid of
        None \<Rightarrow> st
      | Some rid \<Rightarrow>
          let st1 = st\<lparr>ct_room := (ct_room st)(rid := (ct_room st rid)\<lparr>cr_clients := removeAll sock (cr_clients (ct_room st rid))\<rparr>)\<rparr>;
              n = length (cr_clients (ct_room st1 rid));
              st2 = broadcastToRoom cid (UserLeft (cc_user (ct_client st1 sock)) n) None st1
          in if n = 0 \<and> cr_endsAt (ct_room st2 rid) \<le> now then closeRoom cid ''Empty ended room'' st2 else st2)"

text \<open>What the JSON text of a frame holds: nothing readable, an object of another type, or a chat message
  with its content if that is a string.\<close>

datatype chat_input = Malformed | OtherType | ChatInput "string option"

definition push_history :: "chat_message \<Rightarrow> chat_room \<Rightarrow> chat_room" where
  "push_history m room =
     (let h = cr_history room @ [m]
      in room\<lparr>cr_history := (if MAX_HISTORY_MESSAGES < length h then tl h else h)\<rparr>)"

definition on_text :: "(byte list \<Rightarrow> chat_input) \<Rightarrow> string \<Rightarrow> string \<Rightarrow> nat \<Rightarrow> int \<Rightarrow> nat \<Rightarrow> byte list \<Rightarrow> chat_st \<Rightarrow> chat_st" where
  "on_text parse fresh cid rid now sock txt st =
     (case parse txt of
        Malformed \<Rightarrow> sendWsMessage sock InvalidJson st
      | OtherType \<Rightarrow> st
      | ChatInput content \<Rightarrow>
          let (limited, client) = isRateLimited (ct_client st sock) now;
              st1 = st\<lparr>ct_client := (ct_client st)(sock := client)\<rparr>
          in if limited then sendWsMessage sock RateLimited st1
             else
               let rawContent = (case content of Some c \<Rightarrow> trim c | None \<Rightarrow> [])
               in if rawContent = [] \<or> MAX_MESSAGE_LENGTH < length rawContent then sendWsMessage sock InvalidLength st1
                  else
                    let message = \<lparr>cm_id = fresh, cm_challenge = cid, cm_user = cc_user client,
                                   cm_content = escapeHtml rawContent, cm_timestamp = now\<rparr>
                    in broadcastToRoom cid (ChatMessage message) None
                         (st1\<lparr>ct_room := (ct_room st1)(rid := push_history message (ct_room st1 rid))\<rparr>))"

text \<open>The frames of one chunk in order; a close frame ends the loop.\<close>

fun on_frames :: "(byte list \<Rightarrow> chat_input) \<Rightarrow> (nat \<Rightarrow> string) \<Rightarrow> string \<Rightarrow> nat \<Rightarrow> int \<Rightarrow> nat \<Rightarrow> ws_frame list \<Rightarrow> chat_st \<Rightarrow> chat_st" where
  "on_frames parse fresh cid rid now sock [] st = st"
| "on_frames parse fresh cid rid now sock (f # fs) st =
     (if wf_opcode f = 8
      then cleanup cid now sock
             (if ct_writable st sock then end_socket sock (sendWsMessage sock (CloseFrame 1000 ''Closed by client'') st) else st)
      else if wf_opcode f = 9 then on_frames parse fresh cid rid now sock fs (sendWsMessage sock (PongFrame (wf_payload f)) st)
      else if wf_opcode f = 1 \<and> wf_payload f \<noteq> []
      then on_frames parse fresh cid rid now sock fs (on_text parse (fresh (length fs)) cid rid now sock (wf_payload f) st)
      else on_frames parse fresh cid rid now sock fs st)"

text \<open>The data handler: decodes the buffer kept from before with the new chunk, and keeps the rest.\<close>

definition on_data ::
  "(byte list \<Rightarrow> chat_input) \<Rightarrow> (nat \<Rightarrow> string) \<Rightarrow> string \<Rightarrow> nat \<Rightarrow> int \<Rightarrow> nat \<Rightarrow> byte list \<Rightarrow> byte list \<Rightarrow> chat_st \<Rightarrow> byte list \<times> chat_st" where
  "on_data parse fresh cid rid now sock buffer chunk st =
     (case decodeWsFrames (buffer @ chunk) of
        (frames, remaining) \<Rightarrow> (remaining, on_frames parse fresh cid rid now sock frames st))"

section \<open>Lemmas on escaping and the rate limit\<close>

definition escape_char :: "char \<Rightarrow> string" where
  "escape_char c =
     (if c = CHR ''&'' then ''&amp;'' else if c = CHR ''<'' then ''&lt;'' else if c = CHR ''>'' then ''&gt;''
      else if c = CHR 0x22 then ''&quot;'' else if c = CHR 0x27 then ''&#39;'' else [c])"

lemma replace_char_simps [simp]:
  "replace_char c r [] = []" "replace_char c r (x # s) = (if x = c then r else [x]) @ replace_char c r s"
  "replace_char c r (s @ t) = replace_char c r s @ replace_char c r t"
  by (simp_all add: replace_char_def)

text \<open>The five replacements in sequence escape character by character.\<close>

lemma escapeHtml_chars: "escapeHtml s = concat (map escape_char s)"
  by (induction s) (simp_all add: escapeHtml_def escape_char_def)

definition safe_html :: "string \<Rightarrow> bool" where
  "safe_html s \<longleftrightarrow> set s \<inter> {CHR ''<'', CHR ''>'', CHR 0x22, CHR 0x27} = {}"

lemma safe_escapeHtml: "safe_html (escapeHtml s)"
  by (induction s) (auto simp: escapeHtml_chars safe_html_def escape_char_def)

text \<open>The times at which the messages of a client are accepted, of those at which it sends.\<close>

fun accepted_times :: "chat_client \<Rightarrow> int list \<Rightarrow> int list" where
  "accepted_times c [] = []"
| "accepted_times c (t # ts) =
     (case isRateLimited c t of (limited, c') \<Rightarrow> if limited then accepted_times c' ts else t # accepted_times c' ts)"

definition spaced :: "int list \<Rightarrow> bool" where
  "spaced xs \<longleftrightarrow> (\<forall>i. i + 5 < length xs \<longrightarrow> 5000 \<le> xs ! (i + 5) - xs ! i)"

lemma filter_recent: "sorted S \<Longrightarrow> filter (\<lambda>t. now - t < (w :: int)) S = dropWhile (\<lambda>t. w \<le> now - t) S"
proof (induction S)
  case (Cons x S)
  show ?case
  proof (cases "now - x < w")
    case True
    then have "\<forall>t \<in> set S. now - t < w" using Cons.prems by force
    then show ?thesis using True by simp
  qed (use Cons in auto)
qed simp

lemma spaced_drop: "spaced xs \<Longrightarrow> spaced (drop n xs)"
  unfolding spaced_def
proof (intro allI impI)
  fix i assume "\<forall>i. i + 5 < length xs \<longrightarrow> 5000 \<le> xs ! (i + 5) - xs ! i" and "i + 5 < length (drop n xs)"
  then have "5000 \<le> xs ! (n + i + 5) - xs ! (n + i)" by simp
  then show "5000 \<le> drop n xs ! (i + 5) - drop n xs ! i" using \<open>i + 5 < length (drop n xs)\<close> by (simp add: add.assoc)
qed

lemma spaced_extend:
  assumes "spaced (old @ recent)" and "spaced (recent @ acc)"
    and "\<forall>s \<in> set old. 5000 \<le> now - s" and "\<forall>t \<in> set acc. now \<le> t"
  shows "spaced (old @ recent @ acc)"
  unfolding spaced_def
proof (intro allI impI)
  fix i assume i: "i + 5 < length (old @ recent @ acc)"
  let ?xs = "old @ recent @ acc"
  consider "length old \<le> i" | "i < length old" "i + 5 < length (old @ recent)" | "i < length old" "length (old @ recent) \<le> i + 5"
    by linarith
  then show "5000 \<le> ?xs ! (i + 5) - ?xs ! i"
  proof cases
    case 1
    then obtain j where "i = length old + j" using le_Suc_ex by blast
    then show ?thesis using assms(2) i by (simp add: spaced_def nth_append add.assoc)
  next
    case 2
    have "?xs ! j = (old @ recent) ! j" if "j < length (old @ recent)" for j
      using that nth_append [of "old @ recent" acc j] by simp
    then have "?xs ! (i + 5) = (old @ recent) ! (i + 5)" "?xs ! i = (old @ recent) ! i" using 2 by simp_all
    then show ?thesis using assms(1) 2 by (simp add: spaced_def)
  next
    case 3
    have "?xs ! (i + 5) \<in> set acc" using 3 i by (auto simp: nth_append)
    moreover have "?xs ! i \<in> set old" using 3 by (simp add: nth_append)
    ultimately show ?thesis using assms(3,4) by force
  qed
qed

lemma accepted_times_in: "set (accepted_times c ts) \<subseteq> set ts"
  by (induction ts arbitrary: c) (fastforce split: prod.splits if_splits)+

lemma accepted_spaced:
  "sorted ts \<Longrightarrow> sorted (cc_stamps c) \<Longrightarrow> \<forall>s \<in> set (cc_stamps c). \<forall>t \<in> set ts. s \<le> t \<Longrightarrow> spaced (cc_stamps c) \<Longrightarrow>
   spaced (cc_stamps c @ accepted_times c ts)"
proof (induction ts arbitrary: c)
  case (Cons t ts)
  let ?S = "cc_stamps c"
  let ?old = "takeWhile (\<lambda>s. 5000 \<le> t - s) ?S" and ?recent = "dropWhile (\<lambda>s. 5000 \<le> t - s) ?S"
  have S: "?S = ?old @ ?recent" by simp
  obtain limited c' where r: "isRateLimited c t = (limited, c')" by fastforce
  have rec: "filter (\<lambda>s. t - s < RATE_LIMIT_WINDOW_MS) ?S = ?recent"
    using filter_recent [OF Cons.prems(2), of t 5000] by (simp add: RATE_LIMIT_WINDOW_MS_def)
  have c': "cc_stamps c' = (if limited then ?recent else ?recent @ [t])"
    and few: "\<not> limited \<Longrightarrow> length ?recent < 5"
    using r by (auto simp: isRateLimited_def Let_def rec RATE_LIMIT_MAX_MESSAGES_def split: if_splits)
  have srt: "sorted ?recent" "sorted (?recent @ [t])"
    using Cons.prems(2,3) by (auto simp: sorted_append sorted_dropWhile dest: set_dropWhileD)
  have "spaced ?recent" using spaced_drop [OF Cons.prems(4)] by (metis dropWhile_eq_drop)
  moreover have "\<not> limited \<Longrightarrow> spaced (?recent @ [t])" using few by (simp add: spaced_def)
  ultimately have sp: "spaced (cc_stamps c')" by (simp add: c')
  have "\<forall>s \<in> set (cc_stamps c'). \<forall>u \<in> set ts. s \<le> u"
    using Cons.prems(1,3) by (auto simp: c' split: if_splits dest: set_dropWhileD)
  moreover have "sorted (cc_stamps c')" "sorted ts" using srt Cons.prems(1) by (simp_all add: c')
  ultimately have ih: "spaced (cc_stamps c' @ accepted_times c' ts)" using Cons.IH sp by blast
  let ?acc = "accepted_times c (t # ts)"
  have "spaced (?recent @ ?acc)" using ih r by (cases limited) (auto simp: c')
  moreover have "\<forall>u \<in> set (t # ts). t \<le> u" using Cons.prems(1) by simp
  then have "\<forall>u \<in> set ?acc. t \<le> u" using accepted_times_in by blast
  moreover have "\<forall>s \<in> set ?old. 5000 \<le> t - s" by (auto dest: set_takeWhileD)
  ultimately have "spaced (?old @ ?recent @ ?acc)"
    using Cons.prems(4) S by (intro spaced_extend [of ?old ?recent ?acc t]) simp_all
  then show ?case by (metis S append_assoc)
qed simp

section \<open>Reachable states\<close>

text \<open>Beside the rooms, the state has the challenge and the room each connection was made for. A socket
  connects once.\<close>

type_synonym connections = "nat \<Rightarrow> (string \<times> nat) option"

inductive chat_step :: "chat_st \<times> connections \<Rightarrow> chat_st \<times> connections \<Rightarrow> bool" where
  join: "conns sock = None \<Longrightarrow> join_room cid uid endsAt sock st = (rid, st') \<Longrightarrow>
     chat_step (st, conns) (st', conns(sock \<mapsto> (cid, rid)))"
| data: "conns sock = Some (cid, rid) \<Longrightarrow>
     chat_step (st, conns) (snd (on_data parse fresh cid rid now sock buffer chunk st), conns)"
| leave: "conns sock = Some (cid, rid) \<Longrightarrow> chat_step (st, conns) (cleanup cid now sock st, conns)"
| timer: "chat_step (st, conns) (closeRoom cid reason st, conns)"

inductive_cases chat_stepE: "chat_step s t"

definition chat_init :: "chat_st \<times> connections \<Rightarrow> bool" where
  "chat_init s \<longleftrightarrow> snd s = (\<lambda>_. None) \<and> ct_active (fst s) = (\<lambda>_. None) \<and> ct_sent (fst s) = [] \<and>
     (\<forall>rid. cr_history (ct_room (fst s) rid) = [])"

text \<open>An event is in order when it reveals messages of the connection's own challenge only, escaped.\<close>

definition event_ok :: "connections \<Rightarrow> nat \<Rightarrow> chat_event \<Rightarrow> bool" where
  "event_ok conns sock ev =
     (let mine = (\<lambda>m. safe_html (cm_content m) \<and> map_option fst (conns sock) = Some (cm_challenge m))
      in case ev of ChatMessage m \<Rightarrow> mine m | History ms \<Rightarrow> list_all mine ms | _ \<Rightarrow> True)"

definition history_ok :: "string \<Rightarrow> chat_room \<Rightarrow> bool" where
  "history_ok cid room \<longleftrightarrow> length (cr_history room) \<le> MAX_HISTORY_MESSAGES \<and>
     list_all (\<lambda>m. safe_html (cm_content m) \<and> cm_challenge m = cid) (cr_history room)"

text \<open>\<open>owner\<close> gives the challenge of every room that exists.\<close>

definition chat_ok :: "(nat \<Rightarrow> string) \<Rightarrow> connections \<Rightarrow> chat_st \<Rightarrow> bool" where
  "chat_ok owner conns st \<longleftrightarrow>
     (\<forall>cid rid. ct_active st cid = Some rid \<longrightarrow> owner rid = cid \<and> rid < ct_next st \<and>
        (\<forall>sock \<in> set (cr_clients (ct_room st rid)). map_option fst (conns sock) = Some cid)) \<and>
     (\<forall>sock cid rid. conns sock = Some (cid, rid) \<longrightarrow> owner rid = cid \<and> rid < ct_next st) \<and>
     (\<forall>rid. history_ok (owner rid) (ct_room st rid)) \<and>
     list_all (\<lambda>(sock, ev). event_ok conns sock ev) (ct_sent st)"

lemma send_frame [simp]:
  "ct_active (sendWsMessage sock ev st) = ct_active st" "ct_room (sendWsMessage sock ev st) = ct_room st"
  "ct_client (sendWsMessage sock ev st) = ct_client st" "ct_next (sendWsMessage sock ev st) = ct_next st"
  by (simp_all add: sendWsMessage_def)

lemma end_socket_frame [simp]:
  "ct_active (end_socket sock st) = ct_active st" "ct_room (end_socket sock st) = ct_room st"
  "ct_next (end_socket sock st) = ct_next st" "ct_sent (end_socket sock st) = ct_sent st"
  by (simp_all add: end_socket_def)

lemma chat_ok_send: "chat_ok owner conns st \<Longrightarrow> event_ok conns sock ev \<Longrightarrow> chat_ok owner conns (sendWsMessage sock ev st)"
  by (simp add: chat_ok_def) (simp add: sendWsMessage_def)

lemma chat_ok_end_socket: "chat_ok owner conns st \<Longrightarrow> chat_ok owner conns (end_socket sock st)"
  by (simp add: chat_ok_def)

lemma foldl_inv: "P b \<Longrightarrow> (\<And>b x. P b \<Longrightarrow> P (g b x)) \<Longrightarrow> P (foldl g b xs)"
  by (induction xs arbitrary: b) auto

lemma chat_ok_fold_send:
  "chat_ok owner conns st \<Longrightarrow> \<forall>sock \<in> set socks. event_ok conns sock ev \<Longrightarrow>
   chat_ok owner conns (foldl (\<lambda>st sock. if ex = Some sock then st else sendWsMessage sock ev st) st socks)"
  by (induction socks arbitrary: st) (auto intro: chat_ok_send)

lemma chat_ok_broadcast:
  assumes "chat_ok owner conns st" and "\<And>sock. map_option fst (conns sock) = Some cid \<Longrightarrow> event_ok conns sock ev"
  shows "chat_ok owner conns (broadcastToRoom cid ev ex st)"
proof (cases "ct_active st cid")
  case (Some rid)
  then have "\<forall>sock \<in> set (cr_clients (ct_room st rid)). event_ok conns sock ev"
    using assms unfolding chat_ok_def by blast
  with assms(1) Some show ?thesis by (simp add: broadcastToRoom_def chat_ok_fold_send)
qed (simp add: broadcastToRoom_def assms)

lemma broadcast_frame [simp]:
  "ct_active (broadcastToRoom cid ev ex st) = ct_active st" "ct_room (broadcastToRoom cid ev ex st) = ct_room st"
  by (simp_all add: broadcastToRoom_def foldl_keeps [where f = ct_active] foldl_keeps [where f = ct_room] split: option.splits)

lemma event_ok_plain [simp]:
  "event_ok conns sock (Connected u n)" "event_ok conns sock (UserJoined u n)" "event_ok conns sock (UserLeft u n)"
  "event_ok conns sock RateLimited" "event_ok conns sock InvalidLength" "event_ok conns sock InvalidJson"
  "event_ok conns sock ChallengeEnded" "event_ok conns sock (CloseFrame k r)" "event_ok conns sock (PongFrame p)"
  by (simp_all add: event_ok_def)

text \<open>Rooms may lose clients, and a room of a challenge may be closed.\<close>

lemma chat_ok_shrink:
  assumes "chat_ok owner conns st" and "set socks \<subseteq> set (cr_clients (ct_room st rid))"
  shows "chat_ok owner conns (st\<lparr>ct_room := (ct_room st)(rid := (ct_room st rid)\<lparr>cr_clients := socks\<rparr>)\<rparr>)"
  using assms unfolding chat_ok_def by (auto simp: history_ok_def)

lemma chat_ok_closeRoom:
  assumes "chat_ok owner conns st"
  shows "chat_ok owner conns (closeRoom cid reason st)"
proof (cases "ct_active st cid")
  case (Some rid)
  define st1 where "st1 = foldl (\<lambda>st sock. if ct_writable st sock
      then end_socket sock (sendWsMessage sock (CloseFrame 1000 reason) (sendWsMessage sock ChallengeEnded st)) else st)
    st (cr_clients (ct_room st rid))"
  have "chat_ok owner conns st1" unfolding st1_def
    using assms by (rule foldl_inv) (simp add: chat_ok_send chat_ok_end_socket)
  from chat_ok_shrink [OF this, of "[]" rid]
  have "chat_ok owner conns (st1\<lparr>ct_room := (ct_room st1)(rid := (ct_room st1 rid)\<lparr>cr_clients := []\<rparr>)\<rparr>)" by simp
  then have "chat_ok owner conns (st1\<lparr>ct_room := (ct_room st1)(rid := (ct_room st1 rid)\<lparr>cr_clients := []\<rparr>),
      ct_active := (ct_active st1)(cid := None)\<rparr>)"
    unfolding chat_ok_def by auto
  then show ?thesis using Some by (simp add: closeRoom_def Let_def st1_def)
qed (simp add: closeRoom_def assms)

lemma chat_ok_cleanup:
  assumes "chat_ok owner conns st"
  shows "chat_ok owner conns (cleanup cid now sock st)"
proof (cases "ct_active st cid")
  case (Some rid)
  have "chat_ok owner conns (st\<lparr>ct_room := (ct_room st)(rid :=
      (ct_room st rid)\<lparr>cr_clients := removeAll sock (cr_clients (ct_room st rid))\<rparr>)\<rparr>)"
    using assms by (rule chat_ok_shrink) auto
  then show ?thesis using Some by (auto simp: cleanup_def Let_def intro!: chat_ok_closeRoom chat_ok_broadcast)
qed (simp add: cleanup_def assms)

lemma history_ok_push:
  assumes "history_ok cid room" and "safe_html (cm_content m)" and "cm_challenge m = cid"
  shows "history_ok cid (push_history m room)"
  using assms by (cases "cr_history room")
    (auto simp: history_ok_def push_history_def Let_def MAX_HISTORY_MESSAGES_def)

lemma chat_ok_on_text:
  assumes "chat_ok owner conns st" and "conns sock = Some (cid, rid)"
  shows "chat_ok owner conns (on_text parse fresh cid rid now sock txt st)"
proof (cases "parse txt")
  case (ChatInput content)
  obtain limited client where r: "isRateLimited (ct_client st sock) now = (limited, client)" by fastforce
  let ?st1 = "st\<lparr>ct_client := (ct_client st)(sock := client)\<rparr>"
  let ?raw = "case content of Some c \<Rightarrow> trim c | None \<Rightarrow> []"
  let ?m = "\<lparr>cm_id = fresh, cm_challenge = cid, cm_user = cc_user client, cm_content = escapeHtml ?raw, cm_timestamp = now\<rparr>"
  let ?st2 = "?st1\<lparr>ct_room := (ct_room st)(rid := push_history ?m (ct_room st rid))\<rparr>"
  have ok1: "chat_ok owner conns ?st1" using assms(1) by (simp add: chat_ok_def)
  have "owner rid = cid" using assms unfolding chat_ok_def by blast
  then have "history_ok (owner rid) (push_history ?m (ct_room st rid))"
    using assms(1) safe_escapeHtml unfolding chat_ok_def by (intro history_ok_push) auto
  moreover have "cr_clients (push_history ?m (ct_room st rid)) = cr_clients (ct_room st rid)"
    by (simp add: push_history_def Let_def)
  ultimately have ok2: "chat_ok owner conns ?st2" using assms(1) unfolding chat_ok_def by auto
  have "event_ok conns s (ChatMessage ?m)" if "map_option fst (conns s) = Some cid" for s
    using that safe_escapeHtml by (simp add: event_ok_def)
  from chat_ok_broadcast [OF ok2 this]
  have "chat_ok owner conns (broadcastToRoom cid (ChatMessage ?m) None ?st2)" .
  with ok1 r ChatInput show ?thesis by (simp add: on_text_def Let_def chat_ok_send)
qed (simp_all add: on_text_def chat_ok_send assms)

lemma chat_ok_on_frames:
  assumes "conns sock = Some (cid, rid)"
  shows "chat_ok owner conns st \<Longrightarrow> chat_ok owner conns (on_frames parse fresh cid rid now sock fs st)"
  by (induction fs arbitrary: st)
    (simp_all add: chat_ok_cleanup chat_ok_end_socket chat_ok_send chat_ok_on_text [where conns = conns, OF _ assms])

text \<open>A new connection, and a new room.\<close>

lemma chat_ok_conns:
  assumes ok: "chat_ok owner conns st" and new: "conns sock = None" and "owner rid = cid" and "rid < ct_next st"
  shows "chat_ok owner (conns(sock \<mapsto> (cid, rid))) st"
proof -
  have ev: "event_ok (conns(sock \<mapsto> (cid, rid))) s ev" if "event_ok conns s ev" for s ev
    using that new by (cases ev) (auto simp: event_ok_def Let_def list_all_iff split: if_splits)
  have "sock \<notin> set (cr_clients (ct_room st r))" if "ct_active st c = Some r" for c r
    using ok new that unfolding chat_ok_def by force
  with assms ev show ?thesis unfolding chat_ok_def by (auto simp: list_all_iff)
qed

lemma chat_ok_new_room:
  assumes ok: "chat_ok owner conns st" and "ct_active st cid = None"
  shows "chat_ok (owner(ct_next st := cid)) conns
    (st\<lparr>ct_room := (ct_room st)(ct_next st := \<lparr>cr_clients = [], cr_history = [], cr_endsAt = e\<rparr>),
        ct_active := (ct_active st)(cid \<mapsto> ct_next st), ct_next := ct_next st + 1\<rparr>)"
proof -
  have "rid \<noteq> ct_next st" if "ct_active st c = Some rid" for c rid using ok that unfolding chat_ok_def by blast
  moreover have "rid \<noteq> ct_next st" if "conns sock = Some (c, rid)" for sock c rid
    using ok that unfolding chat_ok_def by blast
  ultimately show ?thesis using assms unfolding chat_ok_def
    by (auto simp: history_ok_def MAX_HISTORY_MESSAGES_def less_Suc_eq split: if_splits)
qed

lemma chat_ok_add_client:
  assumes ok: "chat_ok owner conns st" and room: "ct_active st cid = Some rid" and sock: "conns sock = Some (cid, rid)"
  shows "chat_ok owner conns (st\<lparr>ct_client := cl,
    ct_room := (ct_room st)(rid := (ct_room st rid)\<lparr>cr_clients := cr_clients (ct_room st rid) @ [sock]\<rparr>)\<rparr>)"
proof -
  have "c = cid" if "ct_active st c = Some rid" for c using ok room that unfolding chat_ok_def by metis
  moreover have "history_ok (owner rid) (ct_room st rid)" using ok unfolding chat_ok_def by blast
  then have "history_ok (owner rid) ((ct_room st rid)\<lparr>cr_clients := cr_clients (ct_room st rid) @ [sock]\<rparr>)"
    by (simp add: history_ok_def)
  moreover have "map_option fst (conns sock) = Some cid" using sock by simp
  ultimately show ?thesis using ok unfolding chat_ok_def by (simp del: map_option_eq_Some)
qed

lemma event_ok_history:
  "history_ok cid room \<Longrightarrow> conns sock = Some (cid, rid) \<Longrightarrow> event_ok conns sock (History (cr_history room))"
  by (auto simp: event_ok_def history_ok_def list_all_iff)

lemma chat_ok_joined:
  assumes ok: "chat_ok owner conns st" and new: "conns sock = None" and room: "ct_active st cid = Some rid"
    and j: "join_room cid uid endsAt sock st = (r, st')"
  shows "r = rid \<and> chat_ok owner (conns(sock \<mapsto> (cid, rid))) st'"
proof -
  let ?conns = "conns(sock \<mapsto> (cid, rid))"
  let ?st2 = "st\<lparr>ct_client := (ct_client st)(sock := \<lparr>cc_user = uid, cc_stamps = []\<rparr>),
                 ct_room := (ct_room st)(rid := (ct_room st rid)\<lparr>cr_clients := cr_clients (ct_room st rid) @ [sock]\<rparr>)\<rparr>"
  have own: "owner rid = cid" "rid < ct_next st" using ok room unfolding chat_ok_def by auto
  have ok2: "chat_ok owner ?conns ?st2"
    using chat_ok_add_client [OF chat_ok_conns [OF ok new own] room] by simp
  then have "history_ok cid (ct_room ?st2 rid)" using own unfolding chat_ok_def by metis
  then have "event_ok ?conns sock (History (cr_history (ct_room ?st2 rid)))" by (rule event_ok_history) simp
  with j room ok2 show ?thesis by (auto simp: join_room_def Let_def intro!: chat_ok_broadcast chat_ok_send)
qed

lemma join_new_room:
  assumes "ct_active st cid = None"
  shows "join_room cid uid endsAt sock st = join_room cid uid endsAt sock
    (st\<lparr>ct_room := (ct_room st)(ct_next st := \<lparr>cr_clients = [], cr_history = [], cr_endsAt = endsAt\<rparr>),
        ct_active := (ct_active st)(cid \<mapsto> ct_next st), ct_next := ct_next st + 1\<rparr>)"
  using assms by (simp add: join_room_def)

definition chat_inv :: "chat_st \<times> connections \<Rightarrow> bool" where
  "chat_inv s \<longleftrightarrow> (\<exists>owner. chat_ok owner (snd s) (fst s))"

lemma chat_inv_join:
  assumes "chat_inv (st, conns)" and "conns sock = None" and "join_room cid uid endsAt sock st = (rid, st')"
  shows "chat_inv (st', conns(sock \<mapsto> (cid, rid)))"
proof -
  obtain owner where ok: "chat_ok owner conns st" using assms(1) by (auto simp: chat_inv_def)
  show ?thesis
  proof (cases "ct_active st cid")
    case None
    note j = assms(3) [unfolded join_new_room [OF None]]
    from chat_ok_joined [OF chat_ok_new_room [OF ok None] assms(2) _ j, of "ct_next st"]
    show ?thesis by (auto simp: chat_inv_def)
  next
    case (Some r)
    from chat_ok_joined [OF ok assms(2) Some assms(3)] show ?thesis by (auto simp: chat_inv_def)
  qed
qed

lemma chat_inv_step: "chat_inv s \<Longrightarrow> chat_step s t \<Longrightarrow> chat_inv t"
proof (erule chat_stepE)
  fix conns sock cid rid parse fresh now buffer chunk st
  assume "chat_inv s" "conns sock = Some (cid, rid)" "s = (st, conns)"
    "t = (snd (on_data parse fresh cid rid now sock buffer chunk st), conns)"
  then show "chat_inv t"
    by (auto simp: chat_inv_def on_data_def split: prod.splits intro: chat_ok_on_frames)
qed (auto simp: chat_inv_join, auto simp: chat_inv_def intro: chat_ok_cleanup chat_ok_closeRoom)

interpretation chat: transition_system chat_init chat_step chat_inv
proof unfold_locales
  fix s assume "chat_init s"
  then have "chat_ok (\<lambda>_. []) (snd s) (fst s)"
    by (simp add: chat_init_def chat_ok_def history_ok_def MAX_HISTORY_MESSAGES_def)
  then show "chat_inv s" unfolding chat_inv_def by blast
qed (rule chat_inv_step)

section \<open>Properties\<close>


text \<open>
  The rate limit: of the messages one client sends, at times that never go back, no six that are accepted
  lie within five seconds.
\<close>

theorem chat_rate_limit:
  assumes "sorted ts" and "cc_stamps c = []" and "i + 5 < length (accepted_times c ts)"
  shows "5000 \<le> accepted_times c ts ! (i + 5) - accepted_times c ts ! i"
  using accepted_spaced [OF assms(1), of c] assms(2,3) by (simp add: spaced_def)

definition client_w :: chat_client where "client_w = \<lparr>cc_user = ''u1'', cc_stamps = []\<rparr>"

definition times_w :: "int list" where "times_w = [0, 100, 200, 300, 400, 4999, 5000]"

theorem chat_rate_limit_witness:
  "accepted_times client_w times_w = [0, 100, 200, 300, 400, 5000] \<and>
   5000 \<le> accepted_times client_w times_w ! 5 - accepted_times client_w times_w ! 0"
proof
  show e: "accepted_times client_w times_w = [0, 100, 200, 300, 400, 5000]" by code_simp
  show "5000 \<le> accepted_times client_w times_w ! 5 - accepted_times client_w times_w ! 0"
    by (rule chat_rate_limit [of times_w client_w 0, simplified]) (simp_all only: e, simp_all add: times_w_def client_w_def)
qed

definition chat_w0 :: chat_st where
  "chat_w0 = \<lparr>ct_active = (\<lambda>_. None), ct_room = (\<lambda>_. \<lparr>cr_clients = [], cr_history = [], cr_endsAt = 0\<rparr>),
     ct_client = (\<lambda>_. client_w), ct_next = 0, ct_writable = (\<lambda>_. True), ct_sent = []\<rparr>"

definition chat_w1 :: chat_st where
  "chat_w1 = snd (join_room ''c1'' ''u1'' 9000 7 chat_w0)"

text \<open>One client joins and sends a masked text frame whose text is a message with markup.\<close>

definition chat_w2 :: chat_st where
  "chat_w2 = snd (on_data (\<lambda>_. ChatInput (Some ''<b>'')) (\<lambda>_. ''m1'') ''c1'' 0 10 7 [] [129, 129, 0, 0, 0, 0, 65] chat_w1)"


end
