(* ===== verification/Accounts.thy ===== *)
theory Accounts
  imports Auth
begin

text \<open>
  User accounts (\<open>db/queries/users.ts\<close>, \<open>routes/users.ts\<close>, \<open>lib/slugify.ts\<close>): signing up with a Google
  identity and the choice of a user name, the profile with its renames and their redirects, the wallet address,
  blocks and reports. The columns of \<open>users\<close> that the other components do not read are functions of the user's
  id; \<open>users\<close> of the game state says which rows exist. Unicode decomposition (\<open>normalize("NFKD")\<close> and the removal
  of combining marks) is the parameter \<open>nfkd\<close>; lower case is that of ASCII.
\<close>

section \<open>State\<close>

record user_report =
  ur_reporter :: string
  ur_reported :: string
  ur_reason :: string
  ur_details :: "string option"

record erasure_row =
  er_id :: string
  er_user :: string
  er_execute_at :: int
  er_admin :: "string option"
  er_cancelled :: "int option"
  er_executed :: "int option"
  er_created :: int

text \<open>A delayed job of the erasure queue. A finished job keeps its id, up to the retention of the queue.\<close>

record erasure_job =
  ej_id :: string
  ej_user :: string
  ej_request :: string
  ej_due :: int
  ej_finished :: bool

text \<open>\<open>an_phoneVerified\<close> holds \<open>phone_verified_at\<close>, which is set exactly when \<open>phone_verified\<close> is;
  \<open>an_otp\<close> holds a code's hash and expiry; \<open>an_suspension\<close> holds the reason of a suspension and the administrator; \<open>an_checks\<close> is the log of the codes
  Twilio was asked to check, the number with the time and the answer.\<close>

record account_st =
  an_auth :: auth_st
  an_google :: "string \<Rightarrow> string option"
  an_name :: "string \<Rightarrow> string"
  an_username :: "string \<Rightarrow> string option"
  an_avatar :: "string \<Rightarrow> string option"
  an_phone :: "string \<Rightarrow> string option"
  an_phoneVerified :: "string \<Rightarrow> int option"
  an_vanity :: "string \<Rightarrow> string option"
  an_otp :: "string \<Rightarrow> (string \<times> int) option"
  an_suspension :: "string \<Rightarrow> (string \<times> string) option"
  an_blocks :: "(string \<times> string) list"
  an_reports :: "user_report list"
  an_erasures :: "erasure_row list"
  an_jobs :: "erasure_job list"
  an_checks :: "(string \<times> int \<times> bool) list"

abbreviation an_app :: "account_st \<Rightarrow> app" where "an_app s \<equiv> as_app (an_auth s)"

definition set_app :: "app \<Rightarrow> account_st \<Rightarrow> account_st" where
  "set_app a s = s\<lparr>an_auth := (an_auth s)\<lparr>as_bank := (as_bank (an_auth s))\<lparr>game := a\<rparr>\<rparr>\<rparr>"

lemma set_app_simps [simp]:
  "an_app (set_app a s) = a" "set_app (an_app s) s = s" "set_app a (set_app b s) = set_app a s"
  "as_email (an_auth (set_app a s)) = as_email (an_auth s)" "as_role (an_auth (set_app a s)) = as_role (an_auth s)"
  "an_google (set_app a s) = an_google s" "an_name (set_app a s) = an_name s"
  "an_username (set_app a s) = an_username s" "an_avatar (set_app a s) = an_avatar s"
  "an_phone (set_app a s) = an_phone s" "an_phoneVerified (set_app a s) = an_phoneVerified s"
  "an_vanity (set_app a s) = an_vanity s" "an_otp (set_app a s) = an_otp s" "an_suspension (set_app a s) = an_suspension s"
  "an_blocks (set_app a s) = an_blocks s" "an_reports (set_app a s) = an_reports s"
  "an_erasures (set_app a s) = an_erasures s" "an_jobs (set_app a s) = an_jobs s"
  "an_checks (set_app a s) = an_checks s"
  by (simp_all add: set_app_def)

text \<open>A Redis command on the state, a step of the authentication component, and a row of the audit log.\<close>

definition acct_redis :: "(rstore \<Rightarrow> 'a \<times> rstore) \<Rightarrow> account_st \<Rightarrow> (exn + 'a) \<times> account_st" where
  "acct_redis f s = (case redis_do f (an_app s) of (r, a) \<Rightarrow> (r, set_app a s))"

definition on_auth :: "(auth_st \<Rightarrow> (exn + 'a) \<times> auth_st) \<Rightarrow> account_st \<Rightarrow> (exn + 'a) \<times> account_st" where
  "on_auth f s = (case f (an_auth s) of (r, x) \<Rightarrow> (r, s\<lparr>an_auth := x\<rparr>))"

definition add_audit :: "string \<Rightarrow> string \<Rightarrow> string \<Rightarrow> account_st \<Rightarrow> account_st" where
  "add_audit actor action key s =
     set_app ((an_app s)\<lparr>audit_log := audit_log (an_app s) @
        [\<lparr>au_actor = actor, au_action = action, au_entity = ''user'', au_key = key\<rparr>]\<rparr>) s"

text \<open>What a unique index rejects: another row with the value.\<close>

definition held_by_other :: "(string \<Rightarrow> 'v option) \<Rightarrow> account_st \<Rightarrow> string \<Rightarrow> 'v \<Rightarrow> bool" where
  "held_by_other col s uid v \<longleftrightarrow> list_ex (\<lambda>u. u_id u \<noteq> uid \<and> col (u_id u) = Some v) (users (an_app s))"

definition unique_violation :: exn where
  "unique_violation = (js_error ''duplicate key value violates unique constraint'')\<lparr>err_code := Some ''23505''\<rparr>"

section \<open>Slugs\<close>

definition is_alnum :: "char \<Rightarrow> bool" where
  "is_alnum c \<longleftrightarrow> (CHR ''a'' \<le> c \<and> c \<le> CHR ''z'') \<or> is_digit c"

text \<open>\<open>replace(/[^a-z0-9]+/g, "-")\<close>: a run of other characters becomes one hyphen. \<open>inrun\<close> says that the
  character before belonged to such a run.\<close>

fun hyphenate :: "bool \<Rightarrow> string \<Rightarrow> string" where
  "hyphenate inrun [] = []"
| "hyphenate inrun (c # cs) =
     (if is_alnum c then c # hyphenate False cs
      else if inrun then hyphenate True cs else CHR ''-'' # hyphenate True cs)"

text \<open>\<open>replace(/^-+|-+$/g, "")\<close> and \<open>replace(/-{2,}/g, "-")\<close>.\<close>

definition trim_hyphens :: "string \<Rightarrow> string" where
  "trim_hyphens s = rev (dropWhile (\<lambda>c. c = CHR ''-'') (rev (dropWhile (\<lambda>c. c = CHR ''-'') s)))"

fun collapse_hyphens :: "string \<Rightarrow> string" where
  "collapse_hyphens (a # b # cs) =
     (if a = CHR ''-'' \<and> b = CHR ''-'' then collapse_hyphens (b # cs) else a # collapse_hyphens (b # cs))"
| "collapse_hyphens cs = cs"

definition slugify :: "(string \<Rightarrow> string) \<Rightarrow> string \<Rightarrow> string" where
  "slugify nfkd v = take 24 (collapse_hyphens (trim_hyphens (hyphenate False (nfkd (toLowerCase v)))))"

section \<open>Signing up\<close>

definition local_part :: "string \<Rightarrow> string" where "local_part = takeWhile (\<lambda>c. c \<noteq> CHR ''@'')"

definition or_else :: "string \<Rightarrow> string \<Rightarrow> string" where "or_else a b = (if a = [] then b else a)"

definition username_base :: "(string \<Rightarrow> string) \<Rightarrow> string \<Rightarrow> string \<Rightarrow> string" where
  "username_base nfkd displayName email =
     or_else (slugify nfkd displayName) (or_else (slugify nfkd (local_part email)) ''player'')"

definition suffixed :: "string \<Rightarrow> nat \<Rightarrow> string" where "suffixed base n = base @ ''-'' @ string_of_nat n"

text \<open>The rows of the query: live users whose name is the base or starts with the base and a hyphen. A base has
  no wildcard of \<open>LIKE\<close>.\<close>

definition taken_names :: "string \<Rightarrow> account_st \<Rightarrow> string list" where
  "taken_names base s =
     concat (map (\<lambda>u. case an_username s (u_id u) of
         Some n \<Rightarrow> if u_deleted_at u = None \<and> (n = base \<or> startsWith n (base @ ''-'')) then [n] else []
       | None \<Rightarrow> []) (users (an_app s)))"

function next_suffix :: "string list \<Rightarrow> string \<Rightarrow> nat \<Rightarrow> nat" where
  "next_suffix taken base n = (if suffixed base n \<in> set taken then next_suffix taken base (n + 1) else n)"
  by pat_completeness auto

lemma suffixed_inj: "suffixed base m = suffixed base n \<Longrightarrow> m = n"
  by (simp add: suffixed_def string_of_nat_inj)

lemma finite_suffixes: "finite {k. n \<le> k \<and> suffixed base k \<in> set taken}"
  by (rule finite_subset [OF _ finite_vimageI [of "set taken" "suffixed base"]])
    (auto intro: injI suffixed_inj)

termination next_suffix
proof (relation "measure (\<lambda>(taken, base, n). card {k. n \<le> k \<and> suffixed base k \<in> set taken})", goal_cases)
  case (2 taken base n)
  have "{k. n + 1 \<le> k \<and> suffixed base k \<in> set taken} \<subset> {k. n \<le> k \<and> suffixed base k \<in> set taken}"
  proof
    show "{k. n + 1 \<le> k \<and> suffixed base k \<in> set taken} \<subseteq> {k. n \<le> k \<and> suffixed base k \<in> set taken}" by auto
    have "n \<in> {k. n \<le> k \<and> suffixed base k \<in> set taken}" "n \<notin> {k. n + 1 \<le> k \<and> suffixed base k \<in> set taken}"
      using 2 by simp_all
    then show "{k. n + 1 \<le> k \<and> suffixed base k \<in> set taken} \<noteq> {k. n \<le> k \<and> suffixed base k \<in> set taken}"
      by metis
  qed
  then show ?case by (simp add: psubset_card_mono [OF finite_suffixes])
qed simp

definition allocateUsername :: "(string \<Rightarrow> string) \<Rightarrow> string \<Rightarrow> string \<Rightarrow> account_st \<Rightarrow> string" where
  "allocateUsername nfkd displayName email s =
     (let base = username_base nfkd displayName email; taken = taken_names base s
      in if base \<notin> set taken then base else suffixed base (next_suffix taken base 2))"

text \<open>A profile as Google returns it.\<close>

record google_profile =
  gp_email :: string
  gp_id :: string
  gp_name :: "string option"
  gp_avatar :: "string option"

definition display_name :: "google_profile \<Rightarrow> string" where
  "display_name p =
     or_else (case gp_name p of Some n \<Rightarrow> trim n | None \<Rightarrow> []) (or_else (local_part (gp_email p)) ''BrandBlitz User'')"

text \<open>\<open>INSERT ... ON CONFLICT (google_id) DO UPDATE ... RETURNING *\<close>: the id of the stored row. Other unique
  indexes (the email, and the user name without regard to case, over all rows) raise the error 23505.\<close>

definition email_col :: "account_st \<Rightarrow> string \<Rightarrow> string option" where
  "email_col s uid = Some (as_email (an_auth s) uid)"

definition lower_username :: "account_st \<Rightarrow> string \<Rightarrow> string option" where
  "lower_username s uid = map_option toLowerCase (an_username s uid)"

definition set_email :: "string \<Rightarrow> string \<Rightarrow> account_st \<Rightarrow> account_st" where
  "set_email uid email s = s\<lparr>an_auth := (an_auth s)\<lparr>as_email := (as_email (an_auth s))(uid := email)\<rparr>\<rparr>"

definition upsert_row ::
  "(string \<Rightarrow> string) \<Rightarrow> string \<Rightarrow> google_profile \<Rightarrow> account_st \<Rightarrow> (exn + string) \<times> account_st" where
  "upsert_row nfkd fresh p s =
     (let dn = display_name p; name = allocateUsername nfkd dn (gp_email p) s
      in case find_row (\<lambda>u. an_google s (u_id u) = Some (gp_id p)) (users (an_app s)) of
           Some u \<Rightarrow>
             (let uid = u_id u
              in if held_by_other (email_col s) s uid (gp_email p) \<or>
                    (an_username s uid = None \<and> held_by_other (lower_username s) s uid (toLowerCase name))
                 then (Inl unique_violation, s)
                 else (Inr uid, set_email uid (gp_email p)
                   (s\<lparr>an_name := (an_name s)(uid := or_else dn (an_name s uid)),
                      an_username := (an_username s)(uid := Some (case an_username s uid of Some n \<Rightarrow> n | None \<Rightarrow> name)),
                      an_avatar := (an_avatar s)(uid := (case gp_avatar p of Some a \<Rightarrow> Some a | None \<Rightarrow> an_avatar s uid))\<rparr>)))
         | None \<Rightarrow>
             if held_by_other (email_col s) s fresh (gp_email p) \<or> held_by_other (lower_username s) s fresh (toLowerCase name)
             then (Inl unique_violation, s)
             else (Inr fresh, set_email fresh (gp_email p)
               (set_app ((an_app s)\<lparr>users := users (an_app s) @ [new_user fresh]\<rparr>)
                 (s\<lparr>an_google := (an_google s)(fresh := Some (gp_id p)), an_name := (an_name s)(fresh := dn),
                    an_username := (an_username s)(fresh := Some name), an_avatar := (an_avatar s)(fresh := gp_avatar p),
                    an_phone := (an_phone s)(fresh := None), an_phoneVerified := (an_phoneVerified s)(fresh := None),
                    an_vanity := (an_vanity s)(fresh := None), an_otp := (an_otp s)(fresh := None),
                    an_suspension := (an_suspension s)(fresh := None)\<rparr>))))"

text \<open>At most three attempts, each in a transaction of its own that an error rolls back.\<close>

fun upsert_attempts ::
  "nat \<Rightarrow> (string \<Rightarrow> string) \<Rightarrow> (nat \<Rightarrow> string) \<Rightarrow> google_profile \<Rightarrow> account_st \<Rightarrow> (exn + string) \<times> account_st" where
  "upsert_attempts 0 nfkd fresh p s = (Inl (js_error ''Unable to allocate username''), s)"
| "upsert_attempts (Suc left) nfkd fresh p s =
     (case upsert_row nfkd (fresh left) p s of
        (Inr uid, s1) \<Rightarrow> (Inr uid, s1)
      | (Inl e, s1) \<Rightarrow>
          if 0 < left \<and> err_code e = Some ''23505'' then upsert_attempts left nfkd fresh p s else (Inl e, s))"

definition upsertUser ::
  "(string \<Rightarrow> string) \<Rightarrow> (nat \<Rightarrow> string) \<Rightarrow> google_profile \<Rightarrow> account_st \<Rightarrow> (exn + string) \<times> account_st" where
  "upsertUser nfkd fresh p s = upsert_attempts 3 nfkd fresh p s"

text \<open>\<open>POST /auth/google/callback\<close> once Google has answered with a profile.\<close>

definition google_callback ::
  "(string \<Rightarrow> string) \<Rightarrow> auth_env \<Rightarrow> int \<Rightarrow> (nat \<Rightarrow> nat \<Rightarrow> nat \<Rightarrow> nat) \<Rightarrow> (nat \<Rightarrow> string) \<Rightarrow> string \<Rightarrow> string \<times> string \<times> string \<Rightarrow>
     string option \<Rightarrow> string option \<Rightarrow> request \<Rightarrow> google_profile \<Rightarrow> account_st \<Rightarrow> (exn + login) \<times> account_st" where
  "google_callback nfkd ae now rnd fresh freshRef jtis queryRef cookieRef req p s =
     and_then (upsertUser nfkd fresh p s) (\<lambda>uid s1.
       on_auth (login_user ae now rnd freshRef jtis queryRef cookieRef req uid) s1)"

section \<open>Profile, wallet, blocks and reports\<close>

text \<open>Statements on the columns of one user.\<close>

definition updateUserWallet :: "string \<Rightarrow> string \<Rightarrow> account_st \<Rightarrow> account_st" where
  "updateUserWallet uid address s =
     set_app ((an_app s)\<lparr>users := update_where (\<lambda>u. u_id u = uid) (\<lambda>u. u\<lparr>u_stellar_address := Some address\<rparr>)
       (users (an_app s))\<rparr>) s"

definition updateUserProfile ::
  "string \<Rightarrow> string option \<Rightarrow> string option \<Rightarrow> account_st \<Rightarrow> (exn + string option \<times> string option) \<times> account_st" where
  "updateUserProfile uid displayName username s =
     (case findUserById (an_app s) uid of
        None \<Rightarrow> (Inl (js_error ''User not found''), s)
      | Some u \<Rightarrow>
          (let oldUsername = an_username s uid;
               newUsername = (case username of Some n \<Rightarrow> Some n | None \<Rightarrow> oldUsername);
               name = (case displayName of Some n \<Rightarrow> n | None \<Rightarrow> an_name s uid)
           in if (case newUsername of Some n \<Rightarrow> held_by_other (lower_username s) s uid (toLowerCase n) | None \<Rightarrow> False)
              then (Inl unique_violation, s)
              else (Inr (oldUsername, newUsername),
                    add_audit uid ''update_profile'' uid
                      (s\<lparr>an_name := (an_name s)(uid := name), an_username := (an_username s)(uid := newUsername)\<rparr>))))"

definition setUserVanitySlug :: "string \<Rightarrow> string \<Rightarrow> account_st \<Rightarrow> (exn + unit) \<times> account_st" where
  "setUserVanitySlug uid slug s =
     (if findUserById (an_app s) uid = None then (Inr (), s)
      else if held_by_other (an_vanity s) s uid slug then (Inl unique_violation, s)
      else (Inr (), s\<lparr>an_vanity := (an_vanity s)(uid := Some slug)\<rparr>))"

text \<open>The schemas: \<open>trim().min(1).max(n)\<close>, \<open>/^[a-z0-9-]+$/\<close>, and the reserved words.\<close>

definition slug_chars :: "string \<Rightarrow> bool" where
  "slug_chars v \<longleftrightarrow> v \<noteq> [] \<and> list_all (\<lambda>c. is_alnum c \<or> c = CHR ''-'') v"

definition trimmed_within :: "nat \<Rightarrow> nat \<Rightarrow> string \<Rightarrow> bool" where
  "trimmed_within lo hi v \<longleftrightarrow> lo \<le> length (trim v) \<and> length (trim v) \<le> hi"

definition reserved_slugs :: "string list" where
  "reserved_slugs = [''admin'', ''support'', ''api'', ''www'', ''help'', ''official'', ''brandblitz'']"

definition redirectKey :: "string \<Rightarrow> string" where "redirectKey name = ''username:redirect:'' @ name"

text \<open>The names the route passes on, \<open>None\<close> for a body the schema rejects.\<close>

definition profile_body :: "string option \<Rightarrow> string option \<Rightarrow> (string option \<times> string option) option" where
  "profile_body displayName username =
     (if (case displayName of Some n \<Rightarrow> trimmed_within 1 100 n | None \<Rightarrow> True) \<and>
         (case username of Some n \<Rightarrow> trimmed_within 1 30 n \<and> slug_chars (trim n) | None \<Rightarrow> True)
      then Some (map_option trim displayName, map_option trim username) else None)"

definition patch_profile ::
  "auth_env \<Rightarrow> int \<Rightarrow> string \<Rightarrow> auth_payload \<Rightarrow> string option \<Rightarrow> string option \<Rightarrow> string option \<Rightarrow>
     account_st \<Rightarrow> (exn + string) \<times> account_st" where
  "patch_profile ae now jti caller tok displayName username s =
     (case profile_body displayName username of
        None \<Rightarrow> (Inl zod_error, s)
      | Some (dn, un) \<Rightarrow>
          if dn = None \<and> un = None then (Inl (createError ''Nothing to update'' 400 None), s)
          else and_then (updateUserProfile (ap_sub caller) dn un s) (\<lambda>(oldUsername, newUsername) s1.
            and_then
              (case (oldUsername, newUsername) of
                 (Some old, Some new) \<Rightarrow>
                   if old \<noteq> new then acct_redis (\<lambda>st. ((), r_set_ex now st (redirectKey old) (RStr new) (86400 * 365))) s1
                   else (Inr (), s1)
               | _ \<Rightarrow> (Inr (), s1)) (\<lambda>_ s2.
            and_then
              (case tok of
                 Some t \<Rightarrow> acct_redis (\<lambda>st. ((), r_set_ex now st (tokenRevocationKey t) (RStr ''1'')
                   (tokenTtlSeconds now (ap_exp caller)))) s2
               | None \<Rightarrow> (Inr (), s2)) (\<lambda>_ s3.
            (Inr (signAccessToken ae now jti
               ((an_auth s3)\<lparr>as_role := (as_role (an_auth s3))(ap_sub caller := ap_role caller)\<rparr>) (ap_sub caller)), s3)))))"

definition patch_wallet :: "string \<Rightarrow> string \<Rightarrow> account_st \<Rightarrow> (exn + unit) \<times> account_st" where
  "patch_wallet uid address s =
     (if 56 \<le> length address \<and> length address \<le> 70 then (Inr (), updateUserWallet uid address s)
      else (Inl zod_error, s))"

definition patch_referral_code :: "string \<Rightarrow> string \<Rightarrow> account_st \<Rightarrow> (exn + string) \<times> account_st" where
  "patch_referral_code uid slug s =
     (let v = toLowerCase (trim slug)
      in if \<not> (3 \<le> length v \<and> length v \<le> 32 \<and> slug_chars v) \<or> v \<in> set reserved_slugs
         then (Inl (createError ''Vanity slug must be 3-32 lowercase letters, numbers, or hyphens'' 400
                 (Some ''INVALID_VANITY_SLUG'')), s)
         else case setUserVanitySlug uid v s of
           (Inl e, s1) \<Rightarrow>
             (Inl (if err_code e = Some ''23505''
                   then createError ''That vanity slug is already in use'' 409 (Some ''VANITY_SLUG_TAKEN'') else e), s1)
         | (Inr _, s1) \<Rightarrow> (Inr v, s1))"

definition report_reasons :: "string list" where
  "report_reasons = [''harassment'', ''spam'', ''impersonation'', ''other'']"

definition post_user_report :: "string \<Rightarrow> string \<Rightarrow> string \<Rightarrow> string option \<Rightarrow> account_st \<Rightarrow> (exn + unit) \<times> account_st" where
  "post_user_report uid target reason details s =
     (if reason \<notin> set report_reasons \<or> (case details of Some d \<Rightarrow> 1000 < length (trim d) | None \<Rightarrow> False)
      then (Inl zod_error, s)
      else if target = uid then (Inl (createError ''You cannot report yourself'' 400 None), s)
      else if findUserById (an_app s) target = None then (Inl (createError ''User not found'' 404 None), s)
      else (Inr (), s\<lparr>an_reports := an_reports s @
             [\<lparr>ur_reporter = uid, ur_reported = target, ur_reason = reason, ur_details = map_option trim details\<rparr>]\<rparr>))"

definition post_block :: "string \<Rightarrow> string \<Rightarrow> account_st \<Rightarrow> (exn + unit) \<times> account_st" where
  "post_block uid target s =
     (if target = uid then (Inl (createError ''You cannot block yourself'' 400 None), s)
      else if findUserById (an_app s) target = None then (Inl (createError ''User not found'' 404 None), s)
      else (Inr (), s\<lparr>an_blocks := (if (uid, target) \<in> set (an_blocks s) then an_blocks s else an_blocks s @ [(uid, target)])\<rparr>))"

text \<open>The public profile: a redirect, or the user with the flag that the viewer owns it.\<close>

datatype profile_answer = Redirect string | Profile string bool

definition getUserPublicProfileByUsername :: "string \<Rightarrow> account_st \<Rightarrow> user option" where
  "getUserPublicProfileByUsername name s =
     find_row (\<lambda>u. an_username s (u_id u) = Some name \<and> u_deleted_at u = None) (users (an_app s))"

definition get_profile :: "int \<Rightarrow> string option \<Rightarrow> string \<Rightarrow> account_st \<Rightarrow> exn + profile_answer" where
  "get_profile now viewer name s =
     (if \<not> redis_up (an_app s) then Inl redis_error
      else case r_get now (redis_kv (an_app s)) (redirectKey name) of
        Some (RStr target) \<Rightarrow> Inr (Redirect target)
      | _ \<Rightarrow>
          (case getUserPublicProfileByUsername name s of
             None \<Rightarrow> Inl (createError ''User not found'' 404 None)
           | Some u \<Rightarrow>
               (case viewer of
                  Some v \<Rightarrow> if (v, u_id u) \<in> set (an_blocks s) then Inl (createError ''User not found'' 404 None)
                            else Inr (Profile (u_id u) (v = u_id u))
                | None \<Rightarrow> Inr (Profile (u_id u) False))))"

section \<open>User names\<close>

text \<open>What a slug looks like. A truncated slug may end in a hyphen.\<close>

definition slug_shape :: "string \<Rightarrow> bool" where
  "slug_shape v \<longleftrightarrow> list_all (\<lambda>c. is_alnum c \<or> c = CHR ''-'') v \<and> (v \<noteq> [] \<longrightarrow> hd v \<noteq> CHR ''-'') \<and> length v \<le> 24"

lemma hyphenate_chars: "c \<in> set (hyphenate b v) \<Longrightarrow> is_alnum c \<or> c = CHR ''-''"
  by (induction b v rule: hyphenate.induct) (auto split: if_splits)

lemma collapse_chars: "set (collapse_hyphens v) \<subseteq> set v"
  by (induction v rule: collapse_hyphens.induct) auto

lemma collapse_hd: "collapse_hyphens v \<noteq> [] \<longleftrightarrow> v \<noteq> []" "hd (collapse_hyphens v) = hd v"
  by (induction v rule: collapse_hyphens.induct) auto

lemma hd_rev_dropWhile: "rev (dropWhile P (rev v)) \<noteq> [] \<Longrightarrow> hd (rev (dropWhile P (rev v))) = hd v"
proof -
  assume *: "rev (dropWhile P (rev v)) \<noteq> []"
  have "v = rev (dropWhile P (rev v)) @ rev (takeWhile P (rev v))"
    by (metis rev_append rev_rev_ident takeWhile_dropWhile_id)
  then show ?thesis using * by (metis hd_append2)
qed

lemma trim_hyphens_hd: "trim_hyphens v \<noteq> [] \<Longrightarrow> hd (trim_hyphens v) \<noteq> CHR ''-''"
  unfolding trim_hyphens_def
  by (metis (mono_tags, lifting) dropWhile_eq_Nil_conv hd_dropWhile hd_rev_dropWhile rev.simps(1) dropWhile.simps(1))

lemma set_trim_hyphens: "set (trim_hyphens v) \<subseteq> set v"
  unfolding trim_hyphens_def by (metis set_dropWhileD set_rev subsetI)

lemma slugify_shape: "slug_shape (slugify nfkd v)"
proof -
  let ?t = "trim_hyphens (hyphenate False (nfkd (toLowerCase v)))"
  have "\<forall>c \<in> set (slugify nfkd v). is_alnum c \<or> c = CHR ''-''"
    unfolding slugify_def using collapse_chars [of ?t] set_trim_hyphens hyphenate_chars
    by (meson in_mono in_set_takeD)
  moreover have "hd (slugify nfkd v) \<noteq> CHR ''-''" if "slugify nfkd v \<noteq> []"
    using that trim_hyphens_hd [of "hyphenate False (nfkd (toLowerCase v))"] collapse_hd [of ?t]
    by (auto simp: slugify_def)
  ultimately show ?thesis by (auto simp: slug_shape_def list_all_iff slugify_def)
qed

lemma next_suffix_least:
  "suffixed base (next_suffix taken base n) \<notin> set taken \<and> n \<le> next_suffix taken base n \<and>
   (\<forall>k. n \<le> k \<and> k < next_suffix taken base n \<longrightarrow> suffixed base k \<in> set taken)"
proof (induction taken base n rule: next_suffix.induct)
  case (1 taken base n)
  show ?case
  proof (cases "suffixed base n \<in> set taken")
    case True
    then have "next_suffix taken base n = next_suffix taken base (n + 1)" by simp
    then show ?thesis using 1 [OF True] True
      by (metis Suc_eq_plus1 Suc_leD Suc_leI le_neq_implies_less)
  next
    case False
    then show ?thesis by (metis leD next_suffix.simps order_refl)
  qed
qed

lemmas next_suffix_simps = next_suffix.simps
declare next_suffix.simps [simp del]

lemma taken_iff:
  "n = base \<or> startsWith n (base @ ''-'') \<Longrightarrow>
   n \<in> set (taken_names base s) \<longleftrightarrow> (\<exists>u \<in> set (users (an_app s)). u_deleted_at u = None \<and> an_username s (u_id u) = Some n)"
proof -
  assume n: "n = base \<or> startsWith n (base @ ''-'')"
  have "n \<in> set (case an_username s (u_id u) of
         Some n \<Rightarrow> if u_deleted_at u = None \<and> (n = base \<or> startsWith n (base @ ''-'')) then [n] else []
       | None \<Rightarrow> []) \<longleftrightarrow> u_deleted_at u = None \<and> an_username s (u_id u) = Some n" for u :: user
    using n by (auto split: option.split)
  then show ?thesis by (simp add: taken_names_def)
qed

lemma startsWith_suffixed: "startsWith (suffixed base n) (base @ ''-'')"
  by (simp add: startsWith_def suffixed_def)

text \<open>The allocated name is the base, or the base with the least number from 2 on that no live user has.\<close>

lemma allocated_free:
  assumes n: "n = allocateUsername nfkd dn email s" and "u \<in> set (users (an_app s))" and "u_deleted_at u = None"
  shows "an_username s (u_id u) \<noteq> Some n"
proof
  assume *: "an_username s (u_id u) = Some n"
  define base where "base = username_base nfkd dn email"
  have "n = base \<or> startsWith n (base @ ''-'')"
    using startsWith_suffixed by (auto simp: n base_def allocateUsername_def Let_def)
  then have "n \<in> set (taken_names base s)" using * assms(2,3) by (auto simp: taken_iff)
  then show False using next_suffix_least
    by (auto simp: n base_def allocateUsername_def Let_def split: if_splits)
qed

lemma string_digits_alnum: "c \<in> set (string_of_nat n) \<Longrightarrow> is_alnum c"
  using string_of_nat_digits [of n] by (auto simp: list_all_iff is_alnum_def)

lemma username_base_shape: "slug_shape (username_base nfkd dn email) \<and> username_base nfkd dn email \<noteq> []"
proof -
  have "slug_shape ''player''" by code_simp
  then show ?thesis by (simp add: username_base_def or_else_def slugify_shape)
qed

lemma allocated_chars: "slug_chars (allocateUsername nfkd dn email s)"
  using username_base_shape [of nfkd dn email] string_digits_alnum
  by (auto simp: allocateUsername_def Let_def slug_chars_def slug_shape_def list_all_iff suffixed_def)

lemma lower_alnum: "is_alnum c \<or> c = CHR ''-'' \<Longrightarrow> \<not> (65 \<le> (of_char c :: nat) \<and> (of_char c :: nat) \<le> 90)"
  by (auto simp: is_alnum_def is_digit_def less_eq_char_def)

lemma lower_slug: "slug_chars v \<Longrightarrow> toLowerCase v = v"
proof -
  assume "slug_chars v"
  then have "\<forall>c \<in> set v. is_alnum c \<or> c = CHR ''-''" by (simp add: slug_chars_def list_all_iff)
  then show ?thesis unfolding toLowerCase_def by (intro map_idI if_not_P) (metis lower_alnum)
qed

definition names_lower :: "account_st \<Rightarrow> bool" where
  "names_lower s \<longleftrightarrow>
     list_all (\<lambda>u. case an_username s (u_id u) of Some n \<Rightarrow> toLowerCase n = n | None \<Rightarrow> True) (users (an_app s))"

lemma lower_username_Some:
  "names_lower s \<Longrightarrow> u \<in> set (users (an_app s)) \<Longrightarrow> lower_username s (u_id u) = an_username s (u_id u)"
  by (cases "an_username s (u_id u)") (auto simp: names_lower_def lower_username_def list_all_iff split: option.splits)

lemma held_lower_name:
  assumes "names_lower s" and "toLowerCase n = n"
  shows "held_by_other (lower_username s) s uid (toLowerCase n) \<longleftrightarrow>
    (\<exists>u \<in> set (users (an_app s)). u_id u \<noteq> uid \<and> an_username s (u_id u) = Some n)"
  using assms by (auto simp: held_by_other_def list_ex_iff lower_username_Some)

text \<open>(C26) Signing up: with a new identity and email the user gets the allocated name, a slug no live user has. When a
  deleted account still holds that name, all three attempts fail and nobody can sign up under it.\<close>

theorem signup_outcome:
  assumes names: "names_lower s"
    and google: "\<forall>u \<in> set (users (an_app s)). an_google s (u_id u) \<noteq> Some (gp_id p)"
    and email: "\<forall>u \<in> set (users (an_app s)). as_email (an_auth s) (u_id u) \<noteq> gp_email p"
    and fresh: "\<forall>u \<in> set (users (an_app s)). \<forall>i. u_id u \<noteq> fresh i"
  shows "let n = allocateUsername nfkd (display_name p) (gp_email p) s in
    slug_chars n \<and> (\<forall>u \<in> set (users (an_app s)). u_deleted_at u = None \<longrightarrow> an_username s (u_id u) \<noteq> Some n) \<and>
    (if \<exists>u \<in> set (users (an_app s)). an_username s (u_id u) = Some n
     then upsertUser nfkd fresh p s = (Inl unique_violation, s)
     else \<exists>s'. upsertUser nfkd fresh p s = (Inr (fresh 2), s') \<and>
            users (an_app s') = users (an_app s) @ [new_user (fresh 2)] \<and>
            an_username s' = (an_username s)(fresh 2 \<mapsto> n) \<and> an_google s' = (an_google s)(fresh 2 \<mapsto> gp_id p) \<and>
            as_email (an_auth s') = (as_email (an_auth s))(fresh 2 := gp_email p) \<and> names_lower s')"
proof -
  define n where "n = allocateUsername nfkd (display_name p) (gp_email p) s"
  have n: "slug_chars n" "toLowerCase n = n" using allocated_chars lower_slug by (auto simp: n_def)
  have none: "find_row (\<lambda>u. an_google s (u_id u) = Some (gp_id p)) (users (an_app s)) = None"
    using google by (simp add: find_row_None)
  have mail: "\<not> held_by_other (email_col s) s x (gp_email p)" for x
    using email by (auto simp: held_by_other_def email_col_def list_ex_iff)
  have held: "held_by_other (lower_username s) s (fresh i) (toLowerCase n) \<longleftrightarrow>
      (\<exists>u \<in> set (users (an_app s)). an_username s (u_id u) = Some n)" for i
    using fresh by (auto simp: held_lower_name [OF names n(2)])
  have err: "err_code unique_violation = Some ''23505''" by (simp add: unique_violation_def)
  have row: "upsert_row nfkd (fresh i) p s = (Inl unique_violation, s)"
    if "\<exists>u \<in> set (users (an_app s)). an_username s (u_id u) = Some n" for i
    using that none held by (simp add: upsert_row_def Let_def n_def)
  have low: "names_lower s'"
    if "users (an_app s') = users (an_app s) @ [new_user (fresh 2)]" "an_username s' = (an_username s)(fresh 2 \<mapsto> n)" for s'
    using names fresh n(2) that by (auto simp: names_lower_def list_all_iff new_user_def)
  show ?thesis
  proof (cases "\<exists>u \<in> set (users (an_app s)). an_username s (u_id u) = Some n")
    case True
    then have "upsertUser nfkd fresh p s = (Inl unique_violation, s)"
      by (simp add: upsertUser_def eval_nat_numeral row err)
    then show ?thesis using True n(1) allocated_free [OF n_def] by (auto simp: Let_def n_def [symmetric])
  next
    case False
    then have "\<not> held_by_other (lower_username s) s (fresh 2) (toLowerCase n)" using held by blast
    then have "\<exists>s'. upsert_row nfkd (fresh 2) p s = (Inr (fresh 2), s') \<and>
        users (an_app s') = users (an_app s) @ [new_user (fresh 2)] \<and>
        an_username s' = (an_username s)(fresh 2 \<mapsto> n) \<and> an_google s' = (an_google s)(fresh 2 \<mapsto> gp_id p) \<and>
        as_email (an_auth s') = (as_email (an_auth s))(fresh 2 := gp_email p)"
      using none mail by (simp add: upsert_row_def Let_def n_def [symmetric] set_email_def set_app_def)
    then obtain s' where s': "upsert_row nfkd (fresh 2) p s = (Inr (fresh 2), s')"
        "users (an_app s') = users (an_app s) @ [new_user (fresh 2)]"
        "an_username s' = (an_username s)(fresh 2 \<mapsto> n)" "an_google s' = (an_google s)(fresh 2 \<mapsto> gp_id p)"
        "as_email (an_auth s') = (as_email (an_auth s))(fresh 2 := gp_email p)" by blast
    have "upsertUser nfkd fresh p s = (Inr (fresh 2), s')"
      using s'(1) by (simp add: upsertUser_def eval_nat_numeral)
    then show ?thesis using False n(1) s' low [OF s'(2,3)] by (auto simp: Let_def n_def [symmetric])
  qed
qed

text \<open>Logging in again keeps the account and its name.\<close>

lemma login_keeps_name:
  assumes "upsertUser nfkd fresh p s = (Inr uid, s')" and "u \<in> set (users (an_app s))"
    and "an_google s (u_id u) = Some (gp_id p)" and "an_username s uid = Some n"
  shows "an_username s' = an_username s \<and> users (an_app s') = users (an_app s) \<and> an_google s uid = Some (gp_id p)"
proof -
  obtain v where v: "find_row (\<lambda>u. an_google s (u_id u) = Some (gp_id p)) (users (an_app s)) = Some v"
    using assms(2,3) find_row_None by (metis (mono_tags, lifting) not_Some_eq)
  have g: "an_google s (u_id v) = Some (gp_id p)" using find_row_Some [OF v] by simp
  have row: "upsert_row nfkd i p s = (Inr uid, s') \<Longrightarrow> ?thesis" for i
    using assms(4) v g by (auto simp: upsert_row_def Let_def set_email_def split: if_splits)
  have "upsert_attempts k nfkd fresh p s = (Inr uid, s') \<Longrightarrow> ?thesis" for k
    by (induction k) (auto dest: row split: prod.splits sum.splits if_splits)
  then show ?thesis using assms(1) by (simp add: upsertUser_def)
qed

text \<open>What a successful rename leaves behind.\<close>

lemma acct_redis_ok:
  "acct_redis f s = (Inr x, s') \<longleftrightarrow>
   redis_up (an_app s) \<and> x = fst (f (redis_kv (an_app s))) \<and>
   s' = set_app ((an_app s)\<lparr>redis_kv := snd (f (redis_kv (an_app s)))\<rparr>) s"
  by (auto simp: acct_redis_def redis_do_def split: prod.split)

lemma add_audit_simps [simp]:
  "an_username (add_audit a b c s) = an_username s" "redis_kv (an_app (add_audit a b c s)) = redis_kv (an_app s)"
  "redis_up (an_app (add_audit a b c s)) = redis_up (an_app s)" "users (an_app (add_audit a b c s)) = users (an_app s)"
  by (simp_all add: add_audit_def)

lemma redirect_not_revocation [simp]: "redirectKey n \<noteq> tokenRevocationKey t" "tokenRevocationKey t \<noteq> redirectKey n"
  by (simp_all add: redirectKey_def tokenRevocationKey_def)

lemma rename_effect:
  assumes "patch_profile ae now jti caller tok dn (Some new) s = (Inr t, s')"
    and "an_username s (ap_sub caller) = Some old" and "trim new \<noteq> old"
  shows "redis_up (an_app s') \<and> an_username s' = (an_username s)(ap_sub caller \<mapsto> trim new) \<and>
    (\<forall>n. redis_kv (an_app s') (redirectKey n) =
       (if n = old then Some (RStr (trim new), Some (now + 31536000000)) else redis_kv (an_app s) (redirectKey n)))"
proof -
  have *: "redirectKey n = redirectKey m \<longleftrightarrow> n = m" for n m by (simp add: redirectKey_def)
  show ?thesis using assms
    by (auto simp: patch_profile_def profile_body_def updateUserProfile_def and_then_Inr acct_redis_ok Let_def
        r_set_ex_def * split: if_splits option.splits)
qed

text \<open>A rename leaves a redirect from the old name for a year. It is never taken back: a user who returns to the
  old name is unreachable under both names, each of which redirects to the other.\<close>

theorem rename_redirects:
  assumes first: "patch_profile ae t1 j1 caller tok1 dn1 (Some b) s = (Inr x1, s1)"
    and second: "patch_profile ae t2 j2 caller tok2 dn2 (Some a) s1 = (Inr x2, s2)"
    and names: "an_username s (ap_sub caller) = Some (trim a)" "trim b \<noteq> trim a"
    and window: "t1 \<le> t2" "t2 \<le> t" "t < t1 + 31536000000"
  shows "get_profile t2 viewer (trim a) s1 = Inr (Redirect (trim b)) \<and>
    an_username s2 (ap_sub caller) = Some (trim a) \<and>
    get_profile t viewer (trim a) s2 = Inr (Redirect (trim b)) \<and>
    get_profile t viewer (trim b) s2 = Inr (Redirect (trim a))"
proof -
  note one = rename_effect [OF first names]
  then have "an_username s1 (ap_sub caller) = Some (trim b)" by simp
  note two = rename_effect [OF second this names(2) [symmetric]]
  show ?thesis using one two window names(2) by (simp add: get_profile_def r_get_def)
qed

section \<open>Concrete runs\<close>

definition demo_accounts :: account_st where
  "demo_accounts = \<lparr>an_auth = demo_auth_st, an_google = (\<lambda>_. None), an_name = (\<lambda>u. u), an_username = (\<lambda>u. Some u),
     an_avatar = (\<lambda>_. None), an_phone = (\<lambda>_. None), an_phoneVerified = (\<lambda>_. None), an_vanity = (\<lambda>_. None),
     an_otp = (\<lambda>_. None), an_suspension = (\<lambda>_. None), an_blocks = [], an_reports = [], an_erasures = [], an_jobs = [],
     an_checks = []\<rparr>"

definition demo_google :: google_profile where
  "demo_google = \<lparr>gp_email = ''zoe@x.org'', gp_id = ''g1'', gp_name = Some '' Ana '', gp_avatar = None\<rparr>"

theorem signup_outcome_witness:
  "(case upsertUser (\<lambda>v. v) (\<lambda>i. ''new'') demo_google demo_accounts of
      (Inr uid, s') \<Rightarrow> uid = ''new'' \<and> an_username s' ''new'' = Some ''ana-2'' \<and> names_lower s'
    | (Inl e, s') \<Rightarrow> False)"
proof -
  have name: "allocateUsername (\<lambda>v. v) (display_name demo_google) (gp_email demo_google) demo_accounts = ''ana-2''"
    "names_lower demo_accounts" by code_simp+
  have "list_all (\<lambda>u. an_google demo_accounts (u_id u) \<noteq> Some (gp_id demo_google) \<and>
      as_email (an_auth demo_accounts) (u_id u) \<noteq> gp_email demo_google \<and> u_id u \<noteq> ''new'' \<and>
      an_username demo_accounts (u_id u) \<noteq> Some ''ana-2'') (users (an_app demo_accounts))" by code_simp
  then show ?thesis
    using signup_outcome [of demo_accounts demo_google "\<lambda>i. ''new''" "\<lambda>v. v"] name
    by (auto simp: list_all_iff Let_def split: if_splits)
qed

definition demo_caller :: auth_payload where
  "demo_caller = \<lparr>ap_sub = ''ana'', ap_role = None, ap_exp = 900, ap_impersonated = False, ap_apiKey = None\<rparr>"

definition demo_renamed :: account_st where
  "demo_renamed = snd (patch_profile demo_auth 0 ''j1'' demo_caller None None (Some ''anna'') demo_accounts)"

theorem rename_redirects_witness:
  "let s2 = snd (patch_profile demo_auth 10 ''j2'' demo_caller None None (Some ''ana'') demo_renamed)
   in an_username s2 ''ana'' = Some ''ana'' \<and> get_profile 20 None ''ana'' s2 = Inr (Redirect ''anna'') \<and>
      get_profile 20 None ''anna'' s2 = Inr (Redirect ''ana'')"
proof -
  have 1: "fst (patch_profile demo_auth 0 ''j1'' demo_caller None None (Some ''anna'') demo_accounts) = Inr ''Tj1''"
    "fst (patch_profile demo_auth 10 ''j2'' demo_caller None None (Some ''ana'') demo_renamed) = Inr ''Tj2''" by code_simp+
  then obtain s2 where r: "patch_profile demo_auth 0 ''j1'' demo_caller None None (Some ''anna'') demo_accounts = (Inr ''Tj1'', demo_renamed)"
      "patch_profile demo_auth 10 ''j2'' demo_caller None None (Some ''ana'') demo_renamed = (Inr ''Tj2'', s2)"
    by (metis demo_renamed_def prod.collapse)
  have 2: "an_username demo_accounts (ap_sub demo_caller) = Some (trim ''ana'')" "trim ''anna'' \<noteq> trim ''ana''"
    "ap_sub demo_caller = ''ana''" "trim ''ana'' = ''ana''" "trim ''anna'' = ''anna''" by code_simp+
  show ?thesis using rename_redirects [OF r 2(1,2), of 20 None] 2 r(2) by (simp add: Let_def)
qed

end
