(* ===== verification/Phone.thy ===== *)
theory Phone
  imports Accounts
begin

text \<open>
  Phone verification (\<open>services/phone.ts\<close>, the phone routes of \<open>routes/users.ts\<close>): normalisation and hashing of a
  number, the check of a code at Twilio behind a counter of failed attempts in Redis, and the one number per
  account rule. Twilio, HMAC and bcrypt are parameters; \<open>an_checks\<close> logs what Twilio was asked.
\<close>

section \<open>Numbers\<close>

record phone_env =
  ph_service :: "string option"
  ph_salt :: "string option"
  ph_hmac :: "string \<Rightarrow> string \<Rightarrow> string"
  ph_send :: "int \<Rightarrow> string \<Rightarrow> exn + unit"
  ph_check :: "int \<Rightarrow> string \<Rightarrow> string \<Rightarrow> exn + bool"

definition digits_only :: "string \<Rightarrow> string" where "digits_only = filter is_digit"

definition normalizePhoneNumber :: "string \<Rightarrow> exn + string" where
  "normalizePhoneNumber phoneNumber =
     (let trimmed = trim phoneNumber;
          normalized = (if startsWith trimmed ''+'' then CHR ''+'' # digits_only (drop 1 trimmed)
                        else CHR ''+'' # digits_only trimmed)
      in if 11 \<le> length normalized \<and> length normalized \<le> 16 then Inr normalized
         else Inl (createError ''Phone number must be a valid E.164 number'' 400 (Some ''INVALID_PHONE'')))"

definition hashPhoneNumber :: "phone_env \<Rightarrow> string \<Rightarrow> exn + string" where
  "hashPhoneNumber pe phoneNumber =
     bind_r (normalizePhoneNumber phoneNumber) (\<lambda>normalized.
       case given (ph_salt pe) of
         None \<Rightarrow> Inl (js_error ''PHONE_HASH_SALT is required'')
       | Some salt \<Rightarrow> Inr (ph_hmac pe salt normalized))"

section \<open>Codes\<close>

definition sendVerificationCode :: "phone_env \<Rightarrow> int \<Rightarrow> string \<Rightarrow> exn + unit" where
  "sendVerificationCode pe now phoneNumber =
     (case given (ph_service pe) of
        None \<Rightarrow> Inl (js_error ''TWILIO_VERIFY_SERVICE_SID is required'')
      | Some _ \<Rightarrow> bind_r (normalizePhoneNumber phoneNumber) (ph_send pe now))"

definition checkVerificationCode :: "phone_env \<Rightarrow> int \<Rightarrow> string \<Rightarrow> string \<Rightarrow> exn + bool" where
  "checkVerificationCode pe now phoneNumber code =
     (case given (ph_service pe) of
        None \<Rightarrow> Inl (js_error ''TWILIO_VERIFY_SERVICE_SID is required'')
      | Some _ \<Rightarrow> bind_r (normalizePhoneNumber phoneNumber) (\<lambda>n. ph_check pe now n code))"

definition OTP_MAX_ATTEMPTS :: int where "OTP_MAX_ATTEMPTS = 5"
definition OTP_WINDOW_SECONDS :: int where "OTP_WINDOW_SECONDS = 3600"

definition otpAttemptsKey :: "string \<Rightarrow> string" where "otpAttemptsKey n = ''otp_attempts:'' @ n"

text \<open>The two halves of \<open>verifyOtpWithBruteForceProtection\<close>: the reading of the counter before Twilio is called,
  and the call with what follows it. Requests that run at the same time interleave between them.\<close>

definition otp_guard :: "int \<Rightarrow> string \<Rightarrow> account_st \<Rightarrow> (exn + unit) \<times> account_st" where
  "otp_guard now n s =
     and_then (acct_redis (\<lambda>st. (r_get now st (otpAttemptsKey n), st)) s) (\<lambda>currentStr s1.
       let current = (case currentStr of Some (RInt i) \<Rightarrow> i | _ \<Rightarrow> 0)
       in if OTP_MAX_ATTEMPTS \<le> current
          then and_then (acct_redis (\<lambda>st. (r_ttl now st (otpAttemptsKey n), st)) s1) (\<lambda>ttl s2.
            (Inl ((createError ''Too many verification attempts'' 429 (Some ''OTP_RATE_LIMITED''))
              \<lparr>err_retryAfter := Some (if 0 < ttl then ttl else OTP_WINDOW_SECONDS)\<rparr>), s2))
          else (Inr (), s1))"

definition otp_settle :: "phone_env \<Rightarrow> int \<Rightarrow> string \<Rightarrow> string \<Rightarrow> account_st \<Rightarrow> (exn + unit) \<times> account_st" where
  "otp_settle pe now n code s =
     (case checkVerificationCode pe now n code of
        Inl e \<Rightarrow> (Inl e, s)
      | Inr approved \<Rightarrow>
          (let s1 = s\<lparr>an_checks := an_checks s @ [(n, now, approved)]\<rparr>
           in if \<not> approved
              then and_then (acct_redis (\<lambda>st. r_incr now st (otpAttemptsKey n)) s1) (\<lambda>attempts s2.
                and_then (if attempts = 1 then acct_redis (\<lambda>st. ((), r_expire now st (otpAttemptsKey n) OTP_WINDOW_SECONDS)) s2
                          else (Inr (), s2)) (\<lambda>_ s3.
                  (Inl (createError ''Invalid verification code'' 400 (Some ''INVALID_OTP'')), s3)))
              else acct_redis (\<lambda>st. ((), r_del st (otpAttemptsKey n))) s1))"

definition verifyOtpWithBruteForceProtection ::
  "phone_env \<Rightarrow> int \<Rightarrow> string \<Rightarrow> string \<Rightarrow> account_st \<Rightarrow> (exn + unit) \<times> account_st" where
  "verifyOtpWithBruteForceProtection pe now phoneNumber code s =
     (case normalizePhoneNumber phoneNumber of
        Inl e \<Rightarrow> (Inl e, s)
      | Inr normalized \<Rightarrow> and_then (otp_guard now normalized s) (\<lambda>_ s1. otp_settle pe now normalized code s1))"

section \<open>Routes\<close>

definition findUserByPhoneHash :: "string \<Rightarrow> account_st \<Rightarrow> user option" where
  "findUserByPhoneHash h s = find_row (\<lambda>u. an_phone s (u_id u) = Some h \<and> u_deleted_at u = None) (users (an_app s))"

text \<open>\<open>phone_hash\<close> is unique over all rows; without a row nothing is updated.\<close>

definition markPhoneVerified :: "int \<Rightarrow> string \<Rightarrow> string \<Rightarrow> account_st \<Rightarrow> (exn + unit) \<times> account_st" where
  "markPhoneVerified now uid h s =
     (if \<not> list_ex (\<lambda>u. u_id u = uid) (users (an_app s)) then (Inr (), s)
      else if held_by_other (an_phone s) s uid h then (Inl unique_violation, s)
      else (Inr (), s\<lparr>an_phone := (an_phone s)(uid \<mapsto> h), an_phoneVerified := (an_phoneVerified s)(uid \<mapsto> now)\<rparr>))"

definition phoneHashKey :: "string \<Rightarrow> string" where "phoneHashKey h = ''phone:hash:'' @ h"

definition post_phone_send :: "phone_env \<Rightarrow> int \<Rightarrow> string \<Rightarrow> account_st \<Rightarrow> (exn + unit) \<times> account_st" where
  "post_phone_send pe now phone s =
     (if phone = [] then (Inl zod_error, s)
      else (bind_r (normalizePhoneNumber phone) (sendVerificationCode pe now), s))"

definition post_phone_verify ::
  "phone_env \<Rightarrow> int \<Rightarrow> string \<Rightarrow> string \<Rightarrow> string \<Rightarrow> account_st \<Rightarrow> (exn + unit) \<times> account_st" where
  "post_phone_verify pe now uid phone code s =
     (if length code \<noteq> 6 then (Inl zod_error, s)
      else case normalizePhoneNumber phone of
        Inl e \<Rightarrow> (Inl e, s)
      | Inr n \<Rightarrow>
          (case hashPhoneNumber pe n of
             Inl e \<Rightarrow> (Inl e, s)
           | Inr h \<Rightarrow>
               if (case findUserByPhoneHash h s of Some u \<Rightarrow> u_id u \<noteq> uid | None \<Rightarrow> False)
               then (Inl (createError ''Phone number already associated with another account'' 409 None), s)
               else and_then (verifyOtpWithBruteForceProtection pe now n code s) (\<lambda>_ s1.
                 and_then (markPhoneVerified now uid h s1) (\<lambda>_ s2.
                 acct_redis (\<lambda>st. ((), r_set_ex now st (phoneHashKey h) (RStr uid) (86400 * 365))) s2))))"

section \<open>The limit on failed codes\<close>

abbreviation otp_window :: int where "otp_window \<equiv> 3600000"

text \<open>The times of the failed checks of a number, oldest first.\<close>

definition failed_checks :: "string \<Rightarrow> account_st \<Rightarrow> int list" where
  "failed_checks n s = map (\<lambda>(m, t, ok). t) (filter (\<lambda>(m, t, ok). m = n \<and> \<not> ok) (an_checks s))"

definition approved_check :: "string \<Rightarrow> account_st \<Rightarrow> bool" where
  "approved_check n s \<longleftrightarrow> list_ex (\<lambda>(m, t, ok). m = n \<and> ok) (an_checks s)"

text \<open>The failures fall into blocks of at most five, each in_hour an hour of its first, and the first failures of
  consecutive blocks are at least an hour apart.\<close>

definition block_ok :: "int list \<Rightarrow> bool" where
  "block_ok b \<longleftrightarrow> b \<noteq> [] \<and> length b \<le> 5 \<and> (\<forall>t \<in> set b. hd b \<le> t \<and> t < hd b + otp_window)"

fun apart :: "int list list \<Rightarrow> bool" where
  "apart (b # c # bs) \<longleftrightarrow> hd b + otp_window \<le> hd c \<and> apart (c # bs)"
| "apart _ \<longleftrightarrow> True"

definition blocks :: "int list list \<Rightarrow> bool" where "blocks bs \<longleftrightarrow> list_all block_ok bs \<and> apart bs"

lemma apart_snoc: "apart (bs @ [b]) \<longleftrightarrow> apart bs \<and> (bs = [] \<or> hd (last bs) + otp_window \<le> hd b)"
  by (induction bs rule: apart.induct) auto

lemma apart_later: "apart (b # bs) \<Longrightarrow> list_all block_ok (b # bs) \<Longrightarrow> c \<in> set bs \<Longrightarrow> hd b + otp_window \<le> hd c"
proof (induction bs arbitrary: b)
  case (Cons d bs)
  show ?case
  proof (cases "c = d")
    case False
    then have "hd d + otp_window \<le> hd c" using Cons by simp
    then show ?thesis using Cons.prems by simp
  qed (use Cons.prems in simp)
qed simp

lemma blocks_Cons: "blocks (b # bs) \<Longrightarrow> blocks bs"
  by (cases bs) (auto simp: blocks_def)

text \<open>An interval of an hour meets at most two blocks.\<close>

definition in_hour :: "int \<Rightarrow> int list \<Rightarrow> int list" where
  "in_hour a ts = filter (\<lambda>t. a \<le> t \<and> t < a + otp_window) ts"

lemma in_hour_append [simp]: "in_hour a (xs @ ys) = in_hour a xs @ in_hour a ys" "in_hour a [] = []"
  by (simp_all add: in_hour_def)

lemma in_hour_length: "block_ok b \<Longrightarrow> length (in_hour a b) \<le> 5"
  by (metis block_ok_def length_filter_le order_trans in_hour_def)

lemma in_hour_none:
  assumes "list_all block_ok bs" and "\<forall>b \<in> set bs. a + otp_window \<le> hd b"
  shows "in_hour a (concat bs) = []"
proof -
  have "t \<in> set (concat bs) \<Longrightarrow> a + otp_window \<le> t" for t
    using assms by (fastforce simp: list_all_iff block_ok_def)
  then show ?thesis by (fastforce simp: in_hour_def filter_empty_conv)
qed

lemma in_hour_blocks:
  assumes "blocks bs"
  shows "length (in_hour a (concat bs)) \<le> 10"
  using assms
proof (induction bs)
  case (Cons b bs)
  then have b: "block_ok b" and bs: "blocks bs" using blocks_Cons by (auto simp: blocks_def)
  show ?case
  proof (cases "in_hour a b = []")
    case True
    then show ?thesis using Cons.IH [OF bs] by simp
  next
    case False
    then obtain x where x: "x \<in> set b" "a \<le> x" by (auto simp: in_hour_def filter_empty_conv)
    then have xb: "x < hd b + otp_window" using b by (auto simp: block_ok_def)
    show ?thesis
    proof (cases bs)
      case Nil
      then show ?thesis using in_hour_length [OF b, of a] by simp
    next
      case (Cons c cs)
      have c: "block_ok c" using bs Cons by (simp add: blocks_def)
      have "hd b + otp_window \<le> hd c" using Cons Cons.prems by (simp add: blocks_def)
      then have "\<forall>d \<in> set cs. a + otp_window \<le> hd d"
        using apart_later [of c cs] bs Cons x xb by (fastforce simp: blocks_def)
      then have "in_hour a (concat cs) = []" using bs Cons by (intro in_hour_none) (simp_all add: blocks_def)
      then show ?thesis using in_hour_length [OF b, of a] in_hour_length [OF c, of a] Cons by simp
    qed
  qed
qed simp

lemma first_block:
  assumes "blocks bs" and "concat bs \<noteq> []" and "\<forall>t \<in> set (concat bs). t < hd (concat bs) + otp_window"
  shows "length (concat bs) \<le> 5"
proof -
  obtain b cs where bs: "bs = b # cs" using assms(2) by (cases bs) auto
  have b: "block_ok b" "b \<noteq> []" using assms(1) bs by (auto simp: blocks_def block_ok_def)
  have "cs = []"
  proof (rule ccontr)
    assume "cs \<noteq> []"
    then obtain c ds where c: "cs = c # ds" by (cases cs) auto
    then have "hd b + otp_window \<le> hd c" "hd c \<in> set (concat bs)"
      using assms(1) bs by (auto simp: blocks_def block_ok_def)
    then show False using assms(3) bs b(2) by fastforce
  qed
  then show ?thesis using b bs by (simp add: block_ok_def)
qed

text \<open>What a verification does to the log and to the counters: nothing, or one check of the number, made while
  its counter was below five.\<close>

definition live_count :: "int \<Rightarrow> string \<Rightarrow> account_st \<Rightarrow> int" where
  "live_count now n s = (case r_get now (redis_kv (an_app s)) (otpAttemptsKey n) of Some (RInt i) \<Rightarrow> i | _ \<Rightarrow> 0)"

definition bumped :: "int \<Rightarrow> string \<Rightarrow> account_st \<Rightarrow> (rval \<times> int option) option" where
  "bumped now n s = Some (RInt (live_count now n s + 1),
     if live_count now n s + 1 = 1 then Some (now + otp_window) else r_expiry now (redis_kv (an_app s)) (otpAttemptsKey n))"

definition checked :: "int \<Rightarrow> string \<Rightarrow> bool \<Rightarrow> account_st \<Rightarrow> account_st \<Rightarrow> bool" where
  "checked now m ok s s' \<longleftrightarrow> live_count now m s < 5 \<and> an_checks s' = an_checks s @ [(m, now, ok)] \<and>
     (\<forall>n. redis_kv (an_app s') (otpAttemptsKey n) =
        (if n = m then (if ok then None else bumped now m s) else redis_kv (an_app s) (otpAttemptsKey n)))"

definition no_check :: "account_st \<Rightarrow> account_st \<Rightarrow> bool" where
  "no_check s s' \<longleftrightarrow> an_checks s' = an_checks s \<and>
     (\<forall>n. redis_kv (an_app s') (otpAttemptsKey n) = redis_kv (an_app s) (otpAttemptsKey n))"

lemma otp_key_simps [simp]:
  "otpAttemptsKey n = otpAttemptsKey m \<longleftrightarrow> n = m" "otpAttemptsKey n \<noteq> phoneHashKey h"
  by (simp_all add: otpAttemptsKey_def phoneHashKey_def)

lemma otp_guard_outcome:
  "otp_guard now m s = (Inr (), s) \<and> redis_up (an_app s) \<and> live_count now m s < 5 \<or>
   (\<exists>e. otp_guard now m s = (Inl e, s))"
  by (simp add: otp_guard_def acct_redis_def redis_do_def live_count_def OTP_MAX_ATTEMPTS_def Let_def)

lemma otp_settle_outcome:
  assumes "redis_up (an_app s)" and "live_count now m s < 5"
  shows "(\<exists>ok. checked now m ok s (snd (otp_settle pe now m code s))) \<or> no_check s (snd (otp_settle pe now m code s))"
proof (cases "checkVerificationCode pe now m code")
  case (Inl e)
  then show ?thesis by (simp add: otp_settle_def no_check_def)
next
  case (Inr ok)
  have "checked now m ok s (snd (otp_settle pe now m code s))"
    using assms Inr
    by (auto simp: otp_settle_def checked_def bumped_def live_count_def acct_redis_def redis_do_def r_incr_def
        r_expire_def r_del_def r_get_def r_expiry_def OTP_WINDOW_SECONDS_def Let_def
        split: option.splits prod.splits if_splits rval.splits)
  then show ?thesis by blast
qed

lemma no_check_refl [simp]: "no_check s s" by (simp add: no_check_def)

lemma mark_keeps [simp]:
  "an_app (snd (markPhoneVerified now uid h s)) = an_app s" "an_checks (snd (markPhoneVerified now uid h s)) = an_checks s"
  by (simp_all add: markPhoneVerified_def)

lemma acct_redis_checks [simp]: "an_checks (snd (acct_redis f s)) = an_checks s"
  by (simp add: acct_redis_def split: prod.split)

lemma phone_key_keeps:
  "redis_kv (an_app (snd (acct_redis (\<lambda>st. ((), r_set_ex now st (phoneHashKey h) v x)) s))) (otpAttemptsKey n) =
   redis_kv (an_app s) (otpAttemptsKey n)"
  by (simp add: acct_redis_def redis_do_def r_set_ex_def)

lemma normalize_idem:
  assumes "normalizePhoneNumber phone = Inr m"
  shows "normalizePhoneNumber m = Inr m"
proof -
  obtain ds where m: "m = CHR ''+'' # ds" and ds: "list_all is_digit ds" "10 \<le> length ds" "length ds \<le> 15"
    using assms by (auto simp: normalizePhoneNumber_def Let_def digits_only_def list_all_iff split: if_splits)
  have "ds \<noteq> []" using ds(2) by auto
  have "\<not> is_space (last ds)" "\<not> is_space CHR ''+''"
    using ds(1) \<open>ds \<noteq> []\<close> by (auto simp: is_space_def is_digit_def list_all_iff dest!: last_in_set)
  then have "trim m = m" using \<open>ds \<noteq> []\<close> m by (cases ds rule: rev_cases) (simp_all add: trim_def)
  then show ?thesis using ds m by (simp add: normalizePhoneNumber_def Let_def digits_only_def startsWith_def list_all_iff)
qed

lemma post_phone_verify_outcome:
  "no_check s (snd (post_phone_verify pe now uid phone code s)) \<or>
   (\<exists>m ok. normalizePhoneNumber phone = Inr m \<and> checked now m ok s (snd (post_phone_verify pe now uid phone code s)))"
proof -
  have rest: "no_check s1 (snd (and_then (markPhoneVerified now uid h s1)
      (\<lambda>_ s2. acct_redis (\<lambda>st. ((), r_set_ex now st (phoneHashKey h) (RStr uid) x)) s2)))" for s1 h x
    using mark_keeps [of now uid h s1] phone_key_keeps
    by (cases "markPhoneVerified now uid h s1"; cases "fst (markPhoneVerified now uid h s1)") (auto simp: no_check_def)
  have trans: "no_check s1 s2 \<Longrightarrow> no_check s s1 \<Longrightarrow> no_check s s2" "no_check s1 s2 \<Longrightarrow> checked now m ok s s1 \<Longrightarrow> checked now m ok s s2"
    for s1 s2 m ok by (auto simp: no_check_def checked_def)
  show ?thesis
  proof (cases "normalizePhoneNumber phone")
    case (Inl e)
    then show ?thesis by (simp add: post_phone_verify_def)
  next
    case (Inr m)
    note nn = normalize_idem [OF Inr]
    have "no_check s (snd (verifyOtpWithBruteForceProtection pe now m code s)) \<or>
        (\<exists>ok. checked now m ok s (snd (verifyOtpWithBruteForceProtection pe now m code s)))"
      using otp_guard_outcome [of now m s] otp_settle_outcome [of s now m pe code]
      by (auto simp: verifyOtpWithBruteForceProtection_def nn)
    moreover obtain r s1 where v: "verifyOtpWithBruteForceProtection pe now m code s = (r, s1)" by fastforce
    ultimately have one: "no_check s s1 \<or> (\<exists>ok. checked now m ok s s1)" by simp
    have two: "let s2 = snd (and_then (markPhoneVerified now uid h s1)
        (\<lambda>_ s2. acct_redis (\<lambda>st. ((), r_set_ex now st (phoneHashKey h) (RStr uid) (86400 * 365))) s2))
      in no_check s s2 \<or> (\<exists>ok. checked now m ok s s2)" for h
      unfolding Let_def using one by (elim disjE exE) (blast intro: trans(1) [OF rest] trans(2) [OF rest])+
    show ?thesis
      using one two Inr by (cases r) (simp_all add: post_phone_verify_def v Let_def split: sum.split option.split)
  qed
qed

definition verify_all :: "phone_env \<Rightarrow> (int \<times> string \<times> string \<times> string) list \<Rightarrow> account_st \<Rightarrow> account_st" where
  "verify_all pe rs s = foldl (\<lambda>s (t, uid, phone, code). snd (post_phone_verify pe t uid phone code s)) s rs"

definition otp_inv :: "string \<Rightarrow> int \<Rightarrow> account_st \<Rightarrow> bool" where
  "otp_inv n T s \<longleftrightarrow> (\<forall>t \<in> set (failed_checks n s). t \<le> T) \<and>
     (\<exists>bs. blocks bs \<and> concat bs = failed_checks n s \<and>
       redis_kv (an_app s) (otpAttemptsKey n) =
         (if bs = [] then None else Some (RInt (int (length (last bs))), Some (hd (last bs) + otp_window))))"

lemma failed_checked:
  "checked now m ok s s' \<Longrightarrow> failed_checks n s' = failed_checks n s @ (if m = n \<and> \<not> ok then [now] else [])"
  by (simp add: checked_def failed_checks_def)

lemma otp_inv_checked:
  assumes inv: "otp_inv n T s" and c: "checked now m ok s s'" and T: "T \<le> now" and no: "m = n \<Longrightarrow> \<not> ok"
  shows "otp_inv n now s'"
proof -
  obtain bs where bs: "blocks bs" "concat bs = failed_checks n s"
      "redis_kv (an_app s) (otpAttemptsKey n) =
         (if bs = [] then None else Some (RInt (int (length (last bs))), Some (hd (last bs) + otp_window)))"
    and past: "\<forall>t \<in> set (failed_checks n s). t \<le> T" using inv by (auto simp: otp_inv_def)
  have past': "\<forall>t \<in> set (failed_checks n s'). t \<le> now"
    using past T by (auto simp: failed_checked [OF c])
  show ?thesis
  proof (cases "m = n")
    case False
    then show ?thesis using bs past' c by (auto simp: otp_inv_def failed_checked [OF c] checked_def intro!: exI [of _ bs])
  next
    case True
    then have kv: "redis_kv (an_app s') (otpAttemptsKey n) = bumped now n s" and lc: "live_count now n s < 5"
      and fs: "failed_checks n s' = concat bs @ [now]"
      using c no bs(2) by (auto simp: checked_def failed_checked [OF c])
    show ?thesis
    proof (cases "bs = [] \<or> hd (last bs) + otp_window \<le> now")
      case new: True
      then have "blocks (bs @ [[now]])" using bs(1) by (auto simp: blocks_def apart_snoc block_ok_def)
      moreover have "live_count now n s = 0" using new bs(3) by (auto simp: live_count_def r_get_def)
      ultimately show ?thesis using past' fs kv
        by (auto simp: otp_inv_def bumped_def intro!: exI [of _ "bs @ [[now]]"])
    next
      case False
      then obtain cs b where b: "bs = cs @ [b]" by (metis rev_exhaust)
      have old: "now < hd b + otp_window" "block_ok b" using False b bs(1) by (auto simp: blocks_def)
      have "live_count now n s = int (length b)" "r_expiry now (redis_kv (an_app s)) (otpAttemptsKey n) = Some (hd b + otp_window)"
        using bs(3) b old(1) by (auto simp: live_count_def r_get_def r_expiry_def)
      moreover have ne: "b \<noteq> []" using old(2) by (simp add: block_ok_def)
      moreover have "hd b \<in> set (failed_checks n s)" using bs(2) [symmetric] b ne by simp
      then have "hd b \<le> now" using past T by fastforce
      moreover have "blocks (cs @ [b @ [now]])"
        using bs(1) b old lc calculation \<open>hd b \<le> now\<close> by (auto simp: blocks_def apart_snoc block_ok_def hd_append)
      ultimately show ?thesis using past' fs kv b
        by (auto simp: otp_inv_def bumped_def hd_append intro!: exI [of _ "cs @ [b @ [now]]"])
    qed
  qed
qed

lemma otp_inv_verify:
  assumes "otp_inv n T s" and "T \<le> now" and "\<not> approved_check n (snd (post_phone_verify pe now uid phone code s))"
  shows "otp_inv n now (snd (post_phone_verify pe now uid phone code s))"
  using post_phone_verify_outcome [of s pe now uid phone code]
proof (elim disjE exE conjE)
  assume "no_check s (snd (post_phone_verify pe now uid phone code s))"
  then show ?thesis using assms(1,2) by (fastforce simp: no_check_def otp_inv_def failed_checks_def)
next
  fix m ok
  assume c: "checked now m ok s (snd (post_phone_verify pe now uid phone code s))"
  show ?thesis
    by (rule otp_inv_checked [OF assms(1) c assms(2)]) (use assms(3) c in \<open>auto simp: approved_check_def checked_def\<close>)
qed

lemma checks_grow: "\<exists>xs. an_checks (snd (post_phone_verify pe now uid phone code s)) = an_checks s @ xs"
  using post_phone_verify_outcome [of s pe now uid phone code] by (auto simp: no_check_def checked_def)

lemma verify_all_inv:
  assumes "otp_inv n T s" and "sorted (T # map fst rs)" and "\<not> approved_check n (verify_all pe rs s)"
  shows "\<exists>T'. otp_inv n T' (verify_all pe rs s)"
  using assms
proof (induction rs arbitrary: s T)
  case Nil
  then show ?case by (auto simp: verify_all_def)
next
  case (Cons r rs)
  obtain t uid phone code where r: "r = (t, uid, phone, code)" by (cases r)
  let ?s = "snd (post_phone_verify pe t uid phone code s)"
  have all: "verify_all pe (r # rs) s = verify_all pe rs ?s" by (simp add: verify_all_def r)
  have grow: "\<exists>xs. an_checks (verify_all pe rs x) = an_checks x @ xs" for x
  proof (induction rs arbitrary: x)
    case (Cons q rs)
    obtain t' uid' phone' code' where "q = (t', uid', phone', code')" by (cases q)
    then show ?case using Cons [of "snd (post_phone_verify pe t' uid' phone' code' x)"] checks_grow [of pe t' uid' phone' code' x]
      by (auto simp: verify_all_def)
  qed (simp add: verify_all_def)
  have "\<not> approved_check n ?s" using Cons.prems(3) grow [of ?s] unfolding all by (auto simp: approved_check_def)
  then have "otp_inv n t ?s" using Cons.prems(1,2) r by (intro otp_inv_verify) auto
  then show ?case using Cons.IH [of t ?s] Cons.prems r unfolding all by simp
qed


text \<open>No two users of the table share a phone number.\<close>

definition phones_unique :: "account_st \<Rightarrow> bool" where
  "phones_unique s \<longleftrightarrow> (\<forall>u \<in> set (users (an_app s)). \<forall>v \<in> set (users (an_app s)).
     an_phone s (u_id u) \<noteq> None \<longrightarrow> an_phone s (u_id u) = an_phone s (u_id v) \<longrightarrow> u_id u = u_id v)"

lemma phones_unique_set:
  assumes "phones_unique s" and "users (an_app s') = users (an_app s)" and "an_phone s' = (an_phone s)(uid \<mapsto> h)"
    and "\<not> held_by_other (an_phone s) s uid h"
  shows "phones_unique s'"
  unfolding phones_unique_def assms(2,3)
proof (intro ballI impI)
  fix u v
  assume uv: "u \<in> set (users (an_app s))" "v \<in> set (users (an_app s))" "((an_phone s)(uid \<mapsto> h)) (u_id u) \<noteq> None"
    and eq: "((an_phone s)(uid \<mapsto> h)) (u_id u) = ((an_phone s)(uid \<mapsto> h)) (u_id v)"
  have other: "w \<in> set (users (an_app s)) \<Longrightarrow> u_id w \<noteq> uid \<Longrightarrow> an_phone s (u_id w) \<noteq> Some h" for w
    using assms(4) by (auto simp: held_by_other_def list_ex_iff)
  have "an_phone s (u_id u) \<noteq> None \<Longrightarrow> an_phone s (u_id u) = an_phone s (u_id v) \<Longrightarrow> u_id u = u_id v"
    using assms(1) uv(1,2) unfolding phones_unique_def by blast
  then show "u_id u = u_id v" using uv eq other by (auto split: if_splits)
qed

lemma acct_redis_keeps [simp]:
  "an_phone (snd (acct_redis f s)) = an_phone s" "users (an_app (snd (acct_redis f s))) = users (an_app s)"
  by (simp_all add: acct_redis_def redis_do_def split: prod.split)

lemma otp_guard_state: "snd (otp_guard now n s) = s"
  using otp_guard_outcome [of now n s] by auto

lemma otp_settle_keeps:
  "an_phone (snd (otp_settle pe now n code s)) = an_phone s"
  "users (an_app (snd (otp_settle pe now n code s))) = users (an_app s)"
  by (simp_all add: otp_settle_def acct_redis_def redis_do_def Let_def split: sum.split prod.split)

lemma otp_settle_ok: "otp_settle pe now n code s = (Inr x, s') \<Longrightarrow> checkVerificationCode pe now n code = Inr True"
  by (auto simp: otp_settle_def Let_def and_then_Inr split: sum.splits if_splits)

lemma verifyOtp_keeps:
  "an_phone (snd (verifyOtpWithBruteForceProtection pe now n code s)) = an_phone s"
  "users (an_app (snd (verifyOtpWithBruteForceProtection pe now n code s))) = users (an_app s)"
proof -
  have "an_phone (snd (and_then (otp_guard now m s) (\<lambda>_ s1. otp_settle pe now m code s1))) = an_phone s"
    "users (an_app (snd (and_then (otp_guard now m s) (\<lambda>_ s1. otp_settle pe now m code s1)))) = users (an_app s)" for m
    using otp_guard_outcome [of now m s] by (auto simp: otp_settle_keeps)
  then show "an_phone (snd (verifyOtpWithBruteForceProtection pe now n code s)) = an_phone s"
    "users (an_app (snd (verifyOtpWithBruteForceProtection pe now n code s))) = users (an_app s)"
    by (simp_all add: verifyOtpWithBruteForceProtection_def split: sum.split)
qed

lemma verifyOtp_ok:
  assumes "verifyOtpWithBruteForceProtection pe now n code s = (Inr x, s')" and "normalizePhoneNumber n = Inr n"
  shows "ph_check pe now n code = Inr True"
proof -
  have "checkVerificationCode pe now n code = Inr True"
    using assms otp_settle_ok by (fastforce simp: verifyOtpWithBruteForceProtection_def and_then_Inr)
  then show ?thesis using assms(2) by (auto simp: checkVerificationCode_def split: option.splits)
qed

text \<open>A verification changes a phone number only to the HMAC of the normalised number, for the caller, after
  Twilio approved the code, and when no other row has it; numbers stay unique.\<close>

theorem phone_claim_sound:
  assumes "post_phone_verify pe now uid phone code s = (r, s')"
  shows "(an_phone s' = an_phone s \<or>
     (\<exists>n salt. normalizePhoneNumber phone = Inr n \<and> given (ph_salt pe) = Some salt \<and> ph_check pe now n code = Inr True \<and>
        an_phone s' = (an_phone s)(uid \<mapsto> ph_hmac pe salt n) \<and> \<not> held_by_other (an_phone s) s uid (ph_hmac pe salt n))) \<and>
    (phones_unique s \<longrightarrow> phones_unique s')"
proof -
  have mark: "users (an_app s2) = users (an_app s1) \<and> (an_phone s2 = an_phone s1 \<or>
      an_phone s2 = (an_phone s1)(uid \<mapsto> h) \<and> \<not> held_by_other (an_phone s1) s1 uid h)"
    if "s2 = snd (and_then (markPhoneVerified now uid h s1)
      (\<lambda>_ s2. acct_redis (\<lambda>st. ((), r_set_ex now st (phoneHashKey h) (RStr uid) (86400 * 365))) s2))" for s1 s2 h
    unfolding that by (simp add: markPhoneVerified_def)
  have held: "held_by_other c s1 uid h = held_by_other c s uid h" if "users (an_app s1) = users (an_app s)" for c s1 and h :: string
    using that by (simp add: held_by_other_def)
  have *: "users (an_app s') = users (an_app s) \<and> (an_phone s' = an_phone s \<or>
     (\<exists>n salt. normalizePhoneNumber phone = Inr n \<and> given (ph_salt pe) = Some salt \<and> ph_check pe now n code = Inr True \<and>
        an_phone s' = (an_phone s)(uid \<mapsto> ph_hmac pe salt n) \<and> \<not> held_by_other (an_phone s) s uid (ph_hmac pe salt n)))"
  proof (cases "normalizePhoneNumber phone")
    case (Inl e)
    then show ?thesis using assms by (auto simp: post_phone_verify_def split: if_splits)
  next
    case (Inr n)
    note nn = normalize_idem [OF Inr]
    obtain rv s1 where v: "verifyOtpWithBruteForceProtection pe now n code s = (rv, s1)" by fastforce
    note keep = verifyOtp_keeps [of pe now n code s, unfolded v snd_conv]
    have "s' = s \<or> s' = s1 \<or> (\<exists>salt u. given (ph_salt pe) = Some salt \<and> rv = Inr u \<and>
        s' = snd (and_then (markPhoneVerified now uid (ph_hmac pe salt n) s1)
          (\<lambda>_ s2. acct_redis (\<lambda>st. ((), r_set_ex now st (phoneHashKey (ph_hmac pe salt n)) (RStr uid) (86400 * 365))) s2)))"
      using arg_cong [OF assms, of snd]
      by (cases "given (ph_salt pe)"; cases rv) (auto simp: post_phone_verify_def Inr nn v hashPhoneNumber_def split: if_splits)
    then show ?thesis
    proof (elim disjE exE conjE)
      fix salt u
      assume salt: "given (ph_salt pe) = Some salt" "rv = Inr u"
        and s': "s' = snd (and_then (markPhoneVerified now uid (ph_hmac pe salt n) s1)
          (\<lambda>_ s2. acct_redis (\<lambda>st. ((), r_set_ex now st (phoneHashKey (ph_hmac pe salt n)) (RStr uid) (86400 * 365))) s2))"
      have "ph_check pe now n code = Inr True" using verifyOtp_ok [OF _ nn] v salt(2) by blast
      moreover have "users (an_app s') = users (an_app s) \<and> (an_phone s' = an_phone s \<or>
          an_phone s' = (an_phone s)(uid \<mapsto> ph_hmac pe salt n) \<and> \<not> held_by_other (an_phone s) s uid (ph_hmac pe salt n))"
        using mark [OF s'] unfolding keep held [OF keep(2)] .
      ultimately show ?thesis using salt(1) Inr by metis
    qed (use keep in simp_all)
  qed
  have "phones_unique s'" if "phones_unique s"
    using *
  proof (elim conjE disjE exE)
    assume "users (an_app s') = users (an_app s)" "an_phone s' = an_phone s"
    then show ?thesis using that by (simp add: phones_unique_def)
  qed (rule phones_unique_set [OF that])
  then show ?thesis using * by blast
qed

section \<open>Local codes\<close>

definition OTP_EXPIRY_SECONDS :: int where "OTP_EXPIRY_SECONDS = 300"

text \<open>\<open>r\<close> is the value of \<open>Math.random()\<close>.\<close>

definition generateOtpCode :: "rat \<Rightarrow> string" where
  "generateOtpCode r = string_of_int \<lfloor>fl (100000 + fl (r * 900000))\<rfloor>"

definition sendOtp :: "(string \<Rightarrow> string) \<Rightarrow> phone_env \<Rightarrow> int \<Rightarrow> rat \<Rightarrow> string \<Rightarrow> string \<Rightarrow> account_st \<Rightarrow> (exn + string) \<times> account_st" where
  "sendOtp bcryptHash pe now r uid phoneNumber s =
     (let code = generateOtpCode r;
          s1 = (if list_ex (\<lambda>u. u_id u = uid) (users (an_app s))
                then s\<lparr>an_otp := (an_otp s)(uid \<mapsto> (bcryptHash code, now + OTP_EXPIRY_SECONDS * 1000))\<rparr> else s)
      in (bind_r (sendVerificationCode pe now phoneNumber) (\<lambda>_. Inr code), s1))"

definition otpUserAttemptsKey :: "string \<Rightarrow> string" where "otpUserAttemptsKey uid = ''otp_user_attempts:'' @ uid"

text \<open>The flag names the session \<open>otp-brute-force\<close>, which is no session.\<close>

definition verifyOtp :: "(string \<Rightarrow> string \<Rightarrow> bool) \<Rightarrow> int \<Rightarrow> string \<Rightarrow> string \<Rightarrow> account_st \<Rightarrow> (exn + bool) \<times> account_st" where
  "verifyOtp bcryptCompare now uid code s =
     (case (findUserById (an_app s) uid, an_otp s uid) of
        (Some _, Some (hash, expiry)) \<Rightarrow>
          if expiry < now then (Inr False, s)
          else if bcryptCompare code hash then (Inr True, s\<lparr>an_otp := (an_otp s)(uid := None)\<rparr>)
          else and_then (acct_redis (\<lambda>st. r_incr now st (otpUserAttemptsKey uid)) s) (\<lambda>attempts s1.
            and_then (if attempts = 1 then acct_redis (\<lambda>st. ((), r_expire now st (otpUserAttemptsKey uid) OTP_WINDOW_SECONDS)) s1
                      else (Inr (), s1)) (\<lambda>_ s2.
            if OTP_MAX_ATTEMPTS \<le> attempts
            then (case createFraudFlag now ''otp-brute-force'' uid ''otp_brute_force'' (an_app s2) of
                    (Inl e, a) \<Rightarrow> (Inl e, set_app a s2) | (Inr _, a) \<Rightarrow> (Inr False, set_app a s2))
            else (Inr False, s2)))
      | _ \<Rightarrow> (Inr False, s))"

definition requirePhoneVerified :: "bool \<Rightarrow> exn + unit" where
  "requirePhoneVerified phoneVerified =
     (if phoneVerified then Inr ()
      else Inl (createError ''Phone verification required before claiming rewards'' 403 (Some ''PHONE_VERIFICATION_REQUIRED'')))"

text \<open>Whatever value of \<open>Math.random()\<close>, a code has six digits.\<close>

lemma string_of_nat_longer: "10 ^ k \<le> n \<Longrightarrow> k < length (string_of_nat n)"
proof (induction k arbitrary: n)
  case (Suc k)
  have "10 ^ k \<le> n div 10" using Suc.prems by (simp add: less_eq_div_iff_mult_less_eq mult.commute)
  moreover have "10 \<le> n" using Suc.prems by (metis one_le_numeral one_le_power order_trans mult_le_mono2 nat_mult_1_right power_Suc)
  ultimately show ?case using Suc.IH [of "n div 10"] by (simp add: string_of_nat.simps [of n])
qed (simp add: string_of_nat_nonempty)

lemma otp_code_digits:
  assumes "0 \<le> r" and "r \<le> 1 - 1 / 2 ^ 53"
  shows "length (generateOtpCode r) = 6 \<and> list_all is_digit (generateOtpCode r)"
proof -
  let ?x = "fl (100000 + fl (r * 900000))"
  have top: "fl (100000 + fl ((1 - 1 / 2 ^ 53) * 900000)) < 1000000" by code_simp
  have "?x \<le> fl (100000 + fl ((1 - 1 / 2 ^ 53) * 900000))"
    using assms by (intro fl_mono add_left_mono mult_right_mono) (auto intro: fl_nonneg)
  then have "?x < 1000000" using top by simp
  moreover have "100000 \<le> ?x"
  proof -
    have "fl 100000 \<le> ?x" using assms by (intro fl_mono) (auto intro: fl_nonneg)
    moreover have "fl 100000 = 100000" using fl_of_nat [of 100000] by simp
    ultimately show ?thesis by simp
  qed
  ultimately have k: "100000 \<le> nat \<lfloor>?x\<rfloor>" "nat \<lfloor>?x\<rfloor> < 1000000" "0 \<le> \<lfloor>?x\<rfloor>"
    by (simp_all add: le_nat_iff le_floor_iff floor_less_iff nat_less_iff)
  then have "length (string_of_nat (nat \<lfloor>?x\<rfloor>)) \<le> 6" "5 < length (string_of_nat (nat \<lfloor>?x\<rfloor>))"
    using length_string_of_nat [of "nat \<lfloor>?x\<rfloor>" 5] string_of_nat_longer [of 5 "nat \<lfloor>?x\<rfloor>"] by simp_all
  moreover have "\<not> \<lfloor>?x\<rfloor> < 0" using k(3) by linarith
  ultimately show ?thesis using string_of_nat_digits by (auto simp: generateOtpCode_def string_of_int_def)
qed

text \<open>The fifth wrong local code throws instead of raising a flag.\<close>

lemma otp_flag_throws:
  assumes "redis_up (an_app s)" and "findUserById (an_app s) uid = Some u" and "an_otp s uid = Some (hash, expiry)"
    and "now \<le> expiry" and "\<not> bcryptCompare code hash" and "4 \<le> (case r_get now (redis_kv (an_app s)) (otpUserAttemptsKey uid) of Some (RInt i) \<Rightarrow> i | _ \<Rightarrow> 0)"
    and "\<forall>g \<in> set (sessions (an_app s)). gs_id g \<noteq> ''otp-brute-force''" and "\<forall>f \<in> set (fraud_flags (an_app s)). ff_session f \<noteq> ''otp-brute-force''"
  shows "\<exists>e. fst (verifyOtp bcryptCompare now uid code s) = Inl e"
proof -
  have "find_row (\<lambda>f. ff_session f = ''otp-brute-force'' \<and> ff_type f = t) (fraud_flags (an_app s)) = None" for t
    using assms(8) by (simp add: find_row_None)
  moreover have "getSessionById (an_app s) ''otp-brute-force'' = None"
    using assms(7) by (simp add: getSessionById_def find_row_None)
  ultimately show ?thesis using assms(1-6)
    by (simp add: verifyOtp_def acct_redis_def redis_do_def r_incr_def OTP_MAX_ATTEMPTS_def Let_def createFraudFlag_def
        getSessionById_def split: prod.split)
qed

section \<open>Where the limit gives way\<close>

text \<open>The counter is read before Twilio is called and written afterwards: requests that have passed the guard are
  not counted against each other. However many run at once, each has its code checked.\<close>

lemma otp_race:
  assumes "checkVerificationCode pe now n code = Inr False" and "redis_up (an_app s)"
  shows "length (an_checks (((\<lambda>s. snd (otp_settle pe now n code s)) ^^ k) s)) = length (an_checks s) + k \<and>
    redis_up (an_app (((\<lambda>s. snd (otp_settle pe now n code s)) ^^ k) s))"
proof (induction k)
  case (Suc k)
  then show ?case using assms(1)
    by (simp add: otp_settle_def acct_redis_def redis_do_def Let_def split: prod.split)
qed (use assms in simp)

definition demo_phone :: phone_env where
  "demo_phone = \<lparr>ph_service = Some ''VA'', ph_salt = Some ''salt'', ph_hmac = (\<lambda>k n. k @ n), ph_send = (\<lambda>t n. Inr ()),
     ph_check = (\<lambda>t n c. Inr (c = ''424242''))\<rparr>"

text \<open>The window does not roll: a failure at the start of an hour, four at its end and five after it are all
  checked, nine of them within two seconds.\<close>

definition demo_guesses :: "(int \<times> string \<times> string \<times> string) list" where
  "demo_guesses = map (\<lambda>t. (t, ''ana'', ''+49 170 1234567'', ''000000''))
     [0, 3599000, 3599000, 3599000, 3599000, 3599500, 3600000, 3600000, 3600000, 3600000, 3601000]"

text \<open>The state after some wrong codes: the counter and the log.\<close>

definition demo_guessed :: "(rval \<times> int option) option \<Rightarrow> (string \<times> int \<times> bool) list \<Rightarrow> account_st" where
  "demo_guessed c lg = set_app ((an_app demo_accounts)\<lparr>redis_kv := (\<lambda>_. None)(otpAttemptsKey ''+491701234567'' := c)\<rparr>)
     (demo_accounts\<lparr>an_checks := lg\<rparr>)"

lemma demo_parts:
  "normalizePhoneNumber ''+49 170 1234567'' = Inr ''+491701234567''" "normalizePhoneNumber ''+491701234567'' = Inr ''+491701234567''"
  "hashPhoneNumber demo_phone ''+491701234567'' = Inr ''salt+491701234567''"
  "checkVerificationCode demo_phone t ''+491701234567'' ''000000'' = Inr False"
  "checkVerificationCode demo_phone t ''+491701234567'' ''424242'' = Inr True"
  by code_simp+

lemma demo_state:
  "users (an_app demo_accounts) = users (game demo_bank)" "redis_up (an_app demo_accounts)" "an_phone demo_accounts = (\<lambda>_. None)"
  "redis_kv (an_app demo_accounts) = (\<lambda>_. None)" "an_checks demo_accounts = []"
  by (simp_all add: demo_accounts_def demo_auth_st_def demo_bank_def blank_bank_def blank_app_def)

lemma demo_no_holder: "findUserByPhoneHash h (demo_guessed c lg) = None"
  by (simp add: findUserByPhoneHash_def demo_guessed_def demo_state find_row_None)

lemma demo_guess:
  "snd (post_phone_verify demo_phone t ''ana'' ''+49 170 1234567'' ''000000'' (demo_guessed (Some (RInt i, Some e)) lg)) =
     (if t < e \<and> 5 \<le> i then demo_guessed (Some (RInt i, Some e)) lg
      else demo_guessed (if t < e then Some (RInt (i + 1), if i = 0 then Some (t + 3600000) else Some e) else Some (RInt 1, Some (t + 3600000)))
        (lg @ [(''+491701234567'', t, False)]))"
  "snd (post_phone_verify demo_phone t ''ana'' ''+49 170 1234567'' ''000000'' (demo_guessed None lg)) =
     demo_guessed (Some (RInt 1, Some (t + 3600000))) (lg @ [(''+491701234567'', t, False)])"
  unfolding post_phone_verify_def demo_parts sum.case demo_no_holder verifyOtpWithBruteForceProtection_def
  by (simp_all add: otp_guard_def otp_settle_def demo_parts acct_redis_def redis_do_def demo_guessed_def demo_state
      r_get_def r_incr_def r_expire_def r_expiry_def OTP_MAX_ATTEMPTS_def OTP_WINDOW_SECONDS_def Let_def set_app_def)

lemma demo_guesses_checked:
  "verify_all demo_phone demo_guesses (demo_guessed None []) = demo_guessed (Some (RInt 5, Some 7200000))
     (map (\<lambda>t. (''+491701234567'', t, False)) [0, 3599000, 3599000, 3599000, 3599000, 3600000, 3600000, 3600000, 3600000, 3601000])"
  by (simp add: verify_all_def demo_guesses_def demo_guess)


lemma demo_verified:
  "an_phone (snd (post_phone_verify demo_phone 5 ''ana'' ''+49 170 1234567'' ''424242'' (demo_guessed None []))) =
     (\<lambda>_. None)(''ana'' \<mapsto> ''salt+491701234567'')"
  unfolding post_phone_verify_def demo_parts sum.case demo_no_holder verifyOtpWithBruteForceProtection_def
  by (simp add: otp_guard_def otp_settle_def demo_parts acct_redis_def redis_do_def demo_guessed_def demo_state
      r_get_def r_del_def OTP_MAX_ATTEMPTS_def Let_def markPhoneVerified_def held_by_other_def list_ex_iff
      demo_bank_def blank_bank_def blank_app_def new_user_def)

theorem phone_claim_sound_witness:
  "let s' = snd (post_phone_verify demo_phone 5 ''ana'' ''+49 170 1234567'' ''424242'' (demo_guessed None []))
   in an_phone s' ''ana'' = Some ''salt+491701234567'' \<and> ph_check demo_phone 5 ''+491701234567'' ''424242'' = Inr True \<and> phones_unique s'"
proof -
  have "phones_unique (demo_guessed None [])" by (simp add: phones_unique_def demo_guessed_def demo_state)
  moreover obtain r s' where v: "post_phone_verify demo_phone 5 ''ana'' ''+49 170 1234567'' ''424242'' (demo_guessed None []) = (r, s')"
    by fastforce
  ultimately show ?thesis
    using phone_claim_sound [OF v] demo_verified unfolding v by (simp add: demo_phone_def Let_def)
qed

end
