(* ===== verification/Moderation.thy ===== *)
theory Moderation
  imports Accounts
begin

text \<open>
  User administration (\<open>routes/admin/users.ts\<close>, its statements in \<open>db/queries/users.ts\<close>,
  \<open>middleware/require-admin.ts\<close>): suspending users one by one and in bulk, lifting suspensions,
  restoring deleted accounts, and impersonation. The schema library's format of a
  UUID is the parameter \<open>uuid\<close>. Every request is a function of the caller's verified token.
\<close>

section \<open>Statements\<close>

definition requireAdmin :: "auth_payload \<Rightarrow> exn + unit" where
  "requireAdmin caller =
     (if ap_role caller \<noteq> Some ''admin'' \<and> ap_role caller \<noteq> Some ''super_admin''
      then Inl (createError ''Forbidden'' 403 (Some ''FORBIDDEN'')) else Inr ())"

definition set_users :: "user list \<Rightarrow> account_st \<Rightarrow> account_st" where
  "set_users us s = set_app ((an_app s)\<lparr>users := us\<rparr>) s"

text \<open>\<open>UPDATE users ... WHERE id = $1 AND deleted_at IS NULL RETURNING *\<close>.\<close>

definition update_live ::
  "string \<Rightarrow> (user \<Rightarrow> user) \<Rightarrow> (string \<times> string) option \<Rightarrow> account_st \<Rightarrow> user option \<times> account_st" where
  "update_live uid f susp s =
     (case findUserById (an_app s) uid of
        None \<Rightarrow> (None, s)
      | Some u \<Rightarrow>
          (Some (f u), set_users (update_where (\<lambda>u. u_id u = uid \<and> u_deleted_at u = None) f (users (an_app s)))
            (s\<lparr>an_suspension := (an_suspension s)(uid := susp)\<rparr>)))"

definition suspendUser :: "int \<Rightarrow> string \<Rightarrow> string \<Rightarrow> string \<Rightarrow> account_st \<Rightarrow> user option \<times> account_st" where
  "suspendUser now uid reason adminId s =
     update_live uid (\<lambda>u. u\<lparr>u_suspended := True, u_suspended_at := Some now\<rparr>) (Some (reason, adminId)) s"

definition unsuspendUser :: "string \<Rightarrow> account_st \<Rightarrow> user option \<times> account_st" where
  "unsuspendUser uid s = update_live uid (\<lambda>u. u\<lparr>u_suspended := False, u_suspended_at := None\<rparr>) None s"

definition restoreUser :: "string \<Rightarrow> account_st \<Rightarrow> account_st" where
  "restoreUser uid s =
     set_users (update_where (\<lambda>u. u_id u = uid) (\<lambda>u. u\<lparr>u_deleted_at := None\<rparr>) (users (an_app s))) s"

definition softDeleteUser :: "int \<Rightarrow> string \<Rightarrow> account_st \<Rightarrow> account_st" where
  "softDeleteUser now uid s =
     set_users (update_where (\<lambda>u. u_id u = uid \<and> u_deleted_at u = None) (\<lambda>u. u\<lparr>u_deleted_at := Some now\<rparr>) (users (an_app s))) s"

section \<open>Routes\<close>

definition is_admin_row :: "account_st \<Rightarrow> string \<Rightarrow> bool" where
  "is_admin_row s uid \<longleftrightarrow> as_role (an_auth s) uid = Some ''admin''"

definition patch_suspend ::
  "(string \<Rightarrow> bool) \<Rightarrow> int \<Rightarrow> auth_payload \<Rightarrow> string \<Rightarrow> string \<Rightarrow> account_st \<Rightarrow> (exn + unit) \<times> account_st" where
  "patch_suspend uuid now caller userId reason s =
     (case requireAdmin caller of
        Inl e \<Rightarrow> (Inl e, s)
      | Inr _ \<Rightarrow>
          if \<not> uuid userId \<or> reason = [] \<or> 500 < length reason then (Inl zod_error, s)
          else (case findUserById (an_app s) userId of
            None \<Rightarrow> (Inl (createError ''User not found'' 404 None), s)
          | Some target \<Rightarrow>
              if u_suspended target then (Inl (createError ''User is already suspended'' 409 (Some ''ALREADY_SUSPENDED'')), s)
              else if is_admin_row s userId then (Inl (createError ''Cannot suspend an admin user'' 403 (Some ''FORBIDDEN'')), s)
              else (case suspendUser now userId reason (ap_sub caller) s of
                (None, s1) \<Rightarrow> (Inl (createError ''Failed to suspend user'' 500 None), s1)
              | (Some updated, s1) \<Rightarrow> (Inr (), add_audit (ap_sub caller) ''user_suspend'' userId s1))))"

definition patch_unsuspend ::
  "(string \<Rightarrow> bool) \<Rightarrow> auth_payload \<Rightarrow> string \<Rightarrow> account_st \<Rightarrow> (exn + unit) \<times> account_st" where
  "patch_unsuspend uuid caller userId s =
     (case requireAdmin caller of
        Inl e \<Rightarrow> (Inl e, s)
      | Inr _ \<Rightarrow>
          if \<not> uuid userId then (Inl zod_error, s)
          else (case findUserById (an_app s) userId of
            None \<Rightarrow> (Inl (createError ''User not found'' 404 None), s)
          | Some target \<Rightarrow>
              if \<not> u_suspended target then (Inl (createError ''User is not currently suspended'' 409 (Some ''NOT_SUSPENDED'')), s)
              else (case unsuspendUser userId s of
                (None, s1) \<Rightarrow> (Inl (createError ''Failed to unsuspend user'' 500 None), s1)
              | (Some updated, s1) \<Rightarrow> (Inr (), add_audit (ap_sub caller) ''user_unsuspend'' userId s1))))"

definition delete_suspend ::
  "(string \<Rightarrow> bool) \<Rightarrow> auth_payload \<Rightarrow> string \<Rightarrow> account_st \<Rightarrow> (exn + unit) \<times> account_st" where
  "delete_suspend uuid caller userId s =
     (case requireAdmin caller of
        Inl e \<Rightarrow> (Inl e, s)
      | Inr _ \<Rightarrow>
          if \<not> uuid userId then (Inl zod_error, s)
          else (case findUserById (an_app s) userId of
            None \<Rightarrow> (Inl (createError ''User not found'' 404 None), s)
          | Some target \<Rightarrow>
              if \<not> u_suspended target \<or> u_suspended_at target = None
              then (Inl (createError ''User is not currently suspended'' 409 (Some ''NOT_SUSPENDED'')), s)
              else (case unsuspendUser userId s of
                (None, s1) \<Rightarrow> (Inl (createError ''Failed to unsuspend user'' 500 None), s1)
              | (Some updated, s1) \<Rightarrow> (Inr (), add_audit (ap_sub caller) ''unsuspend'' userId s1))))"

text \<open>One result per user id: whether it succeeded, with the new status or the error message and code. The rows
  that the bulk request writes to the audit log differ from those of the single requests only in the detail
  \<^verbatim>\<open>bulk: true\<close> of their JSON columns, which the model leaves out.\<close>

record bulk_result =
  br_userId :: string
  br_success :: bool
  br_status :: "string option"
  br_error :: "string option"
  br_code :: "string option"

definition bulk_failed :: "string \<Rightarrow> string \<Rightarrow> string option \<Rightarrow> bulk_result" where
  "bulk_failed uid msg code = \<lparr>br_userId = uid, br_success = False, br_status = None, br_error = Some msg, br_code = code\<rparr>"

definition bulk_done :: "string \<Rightarrow> user \<Rightarrow> bulk_result" where
  "bulk_done uid updated = \<lparr>br_userId = uid, br_success = True,
     br_status = Some (if u_suspended updated then ''suspended'' else ''active''), br_error = None, br_code = None\<rparr>"

datatype bulk_action = Suspend | Unsuspend

text \<open>The body of the loop, and the loop.\<close>

definition bulk_one ::
  "int \<Rightarrow> string \<Rightarrow> bulk_action \<Rightarrow> string \<Rightarrow> string \<Rightarrow> account_st \<Rightarrow> bulk_result \<times> account_st" where
  "bulk_one now actorId action reason userId s =
     (case findUserById (an_app s) userId of
        None \<Rightarrow> (bulk_failed userId ''User not found'' (Some ''NOT_FOUND''), s)
      | Some target \<Rightarrow>
          (case action of
             Suspend \<Rightarrow>
               if u_suspended target then (bulk_failed userId ''User is already suspended'' (Some ''ALREADY_SUSPENDED''), s)
               else if is_admin_row s userId then (bulk_failed userId ''Cannot suspend an admin user'' (Some ''FORBIDDEN''), s)
               else (case suspendUser now userId reason actorId s of
                 (None, s1) \<Rightarrow> (bulk_failed userId ''Failed to suspend user'' None, s1)
               | (Some updated, s1) \<Rightarrow> (bulk_done userId updated, add_audit actorId ''user_suspend'' userId s1))
           | Unsuspend \<Rightarrow>
               if \<not> u_suspended target then (bulk_failed userId ''User is not currently suspended'' (Some ''NOT_SUSPENDED''), s)
               else (case unsuspendUser userId s of
                 (None, s1) \<Rightarrow> (bulk_failed userId ''Failed to unsuspend user'' None, s1)
               | (Some updated, s1) \<Rightarrow> (bulk_done userId updated, add_audit actorId ''user_unsuspend'' userId s1))))"

fun bulk_loop ::
  "int \<Rightarrow> string \<Rightarrow> bulk_action \<Rightarrow> string \<Rightarrow> string list \<Rightarrow> account_st \<Rightarrow> bulk_result list \<times> account_st" where
  "bulk_loop now actorId action reason [] s = ([], s)"
| "bulk_loop now actorId action reason (uid # uids) s =
     (case bulk_one now actorId action reason uid s of
        (r, s1) \<Rightarrow> (case bulk_loop now actorId action reason uids s1 of (rs, s2) \<Rightarrow> (r # rs, s2)))"

definition MAX_BULK_USERS :: nat where "MAX_BULK_USERS = 100"

text \<open>A request that the schema refuses is answered with the schema's messages joined, a text of the validation
  library for which \<^verbatim>\<open>Invalid request\<close> stands here. The answer to an accepted one also repeats the
  action and counts the successes and failures, which are read off the list of results.\<close>

definition post_bulk_suspend ::
  "(string \<Rightarrow> bool) \<Rightarrow> int \<Rightarrow> auth_payload \<Rightarrow> string list \<Rightarrow> bulk_action \<Rightarrow> string option \<Rightarrow> account_st \<Rightarrow>
     (exn + bulk_result list) \<times> account_st" where
  "post_bulk_suspend uuid now caller userIds action reason s =
     (case requireAdmin caller of
        Inl e \<Rightarrow> (Inl e, s)
      | Inr _ \<Rightarrow>
          if userIds = [] \<or> MAX_BULK_USERS < length userIds \<or> \<not> list_all uuid userIds \<or>
             (case reason of Some r \<Rightarrow> r = [] \<or> 500 < length r | None \<Rightarrow> action = Suspend)
          then (Inl (createError ''Invalid request'' 400 (Some ''INVALID_BULK_REQUEST'')), s)
          else (case bulk_loop now (ap_sub caller) action (case reason of Some r \<Rightarrow> r | None \<Rightarrow> []) userIds s of
            (rs, s1) \<Rightarrow> (Inr rs, s1)))"

definition post_restore :: "(string \<Rightarrow> bool) \<Rightarrow> auth_payload \<Rightarrow> string \<Rightarrow> account_st \<Rightarrow> (exn + unit) \<times> account_st" where
  "post_restore uuid caller userId s =
     (case requireAdmin caller of
        Inl e \<Rightarrow> (Inl e, s)
      | Inr _ \<Rightarrow>
          if \<not> uuid userId then (Inl zod_error, s)
          else (Inr (), add_audit (ap_sub caller) ''user_restore'' userId (restoreUser userId s)))"

text \<open>Impersonation: a token of fifteen minutes that names the target, and its end, which revokes the token when
  Redis answers. The second route stands before the administrator's gate. The token carries the target's role and
  the id of the administrator; the claims record keeps the flag.\<close>

definition post_impersonate ::
  "(string \<Rightarrow> bool) \<Rightarrow> auth_env \<Rightarrow> int \<Rightarrow> string \<Rightarrow> auth_payload \<Rightarrow> string \<Rightarrow> account_st \<Rightarrow> (exn + string) \<times> account_st" where
  "post_impersonate uuid ae now jti caller userId s =
     (case requireAdmin caller of
        Inl e \<Rightarrow> (Inl e, s)
      | Inr _ \<Rightarrow>
          if \<not> uuid userId then (Inl zod_error, s)
          else if findUserById (an_app s) userId = None then (Inl (createError ''User not found'' 404 None), s)
          else if is_admin_row s userId then (Inl (createError ''Cannot impersonate an admin user'' 403 (Some ''FORBIDDEN'')), s)
          else (Inr (ae_sign ae \<lparr>jc_sub = userId, jc_email = as_email (an_auth s) userId, jc_role = as_role (an_auth s) userId,
                  jc_type = None, jc_jti = jti, jc_iss = Some (ae_issuer ae), jc_aud = Some (ae_audience ae),
                  jc_exp = now div 1000 + 900, jc_impersonated = True\<rparr> (ae_secret ae)),
                add_audit (ap_sub caller) ''impersonation_start'' userId s))"

definition post_impersonate_exit ::
  "int \<Rightarrow> auth_payload \<Rightarrow> string option \<Rightarrow> string option \<Rightarrow> account_st \<Rightarrow> (exn + unit) \<times> account_st" where
  "post_impersonate_exit now caller impersonatedBy tok s =
     (let s1 = (case tok of
             Some t \<Rightarrow> snd (acct_redis (\<lambda>st. ((), r_set_ex now st (tokenRevocationKey t) (RStr ''1'')
                 (tokenTtlSeconds now (ap_exp caller)))) s)
           | None \<Rightarrow> s)
      in (Inr (), add_audit (case impersonatedBy of Some a \<Rightarrow> a | None \<Rightarrow> ap_sub caller) ''impersonation_end'' (ap_sub caller) s1))"

section \<open>Bulk requests\<close>

text \<open>The same requests one by one, each with its own outcome.\<close>

fun one_by_one :: "('a \<Rightarrow> 's \<Rightarrow> 'r \<times> 's) \<Rightarrow> 'a list \<Rightarrow> 's \<Rightarrow> 'r list \<times> 's" where
  "one_by_one f [] s = ([], s)"
| "one_by_one f (x # xs) s = (case f x s of (r, s1) \<Rightarrow> (case one_by_one f xs s1 of (rs, s2) \<Rightarrow> (r # rs, s2)))"

definition single ::
  "(string \<Rightarrow> bool) \<Rightarrow> int \<Rightarrow> auth_payload \<Rightarrow> bulk_action \<Rightarrow> string \<Rightarrow> string \<Rightarrow> account_st \<Rightarrow> (exn + unit) \<times> account_st" where
  "single uuid now caller action reason uid s =
     (case action of Suspend \<Rightarrow> patch_suspend uuid now caller uid reason s | Unsuspend \<Rightarrow> patch_unsuspend uuid caller uid s)"

definition outcome :: "exn + unit \<Rightarrow> bool \<times> string option" where
  "outcome r = (case r of Inr _ \<Rightarrow> (True, None) | Inl e \<Rightarrow> (False, Some (err_message e)))"

lemma bulk_one_single:
  assumes "requireAdmin caller = Inr ()" and "uuid uid" and "reason \<noteq> []" and "length reason \<le> 500"
    and "bulk_one now (ap_sub caller) action reason uid s = (b, s1)"
  shows "\<exists>r. single uuid now caller action reason uid s = (r, s1) \<and> (br_success b, br_error b) = outcome r \<and> br_userId b = uid"
  using assms
  by (cases action)
    (auto simp: bulk_one_def single_def patch_suspend_def patch_unsuspend_def outcome_def bulk_failed_def bulk_done_def
      createError_def js_error_def split: option.splits if_splits prod.splits)

lemma bulk_loop_singles:
  assumes "requireAdmin caller = Inr ()" and "list_all uuid uids" and "reason \<noteq> []" and "length reason \<le> 500"
    and "bulk_loop now (ap_sub caller) action reason uids s = (bs, s1)"
  shows "\<exists>rs. one_by_one (single uuid now caller action reason) uids s = (rs, s1) \<and>
    map (\<lambda>b. (br_success b, br_error b)) bs = map outcome rs \<and> map br_userId bs = uids"
  using assms(2,5)
proof (induction uids arbitrary: s bs)
  case (Cons uid uids)
  obtain b s2 bs' where b: "bulk_one now (ap_sub caller) action reason uid s = (b, s2)"
      and l: "bulk_loop now (ap_sub caller) action reason uids s2 = (bs', s1)" "bs = b # bs'"
    using Cons.prems(2) by (auto split: prod.splits)
  obtain r where "single uuid now caller action reason uid s = (r, s2)" "(br_success b, br_error b) = outcome r" "br_userId b = uid"
    using bulk_one_single [OF assms(1) _ assms(3,4) b] Cons.prems(1) by auto
  moreover obtain rs where "one_by_one (single uuid now caller action reason) uids s2 = (rs, s1)"
      "map (\<lambda>b. (br_success b, br_error b)) bs' = map outcome rs" "map br_userId bs' = uids"
    using Cons.IH [OF _ l(1)] Cons.prems(1) by auto
  ultimately show ?case using l(2) by simp
qed simp

text \<open>A bulk request of an administrator has the effect of the single requests in the given order, and its results
  report their outcomes, user by user: a failure for one user does not touch the others.\<close>

theorem bulk_equals_singles:
  assumes "requireAdmin caller = Inr ()" and "uids \<noteq> []" and "length uids \<le> 100" and "list_all uuid uids"
    and "reason \<noteq> []" and "length reason \<le> 500"
  shows "case one_by_one (single uuid now caller action reason) uids s of (rs, s1) \<Rightarrow>
    \<exists>bs. post_bulk_suspend uuid now caller uids action (Some reason) s = (Inr bs, s1) \<and>
      map (\<lambda>b. (br_success b, br_error b)) bs = map outcome rs \<and> map br_userId bs = uids"
proof -
  obtain bs s1 where l: "bulk_loop now (ap_sub caller) action reason uids s = (bs, s1)" by fastforce
  obtain rs where "one_by_one (single uuid now caller action reason) uids s = (rs, s1)"
      "map (\<lambda>b. (br_success b, br_error b)) bs = map outcome rs" "map br_userId bs = uids"
    using bulk_loop_singles [OF assms(1,4,5,6) l] by blast
  then show ?thesis using assms l by (simp add: post_bulk_suspend_def MAX_BULK_USERS_def)
qed

section \<open>The audit trail\<close>

definition suspension_actions :: "string list" where
  "suspension_actions = [''user_suspend'', ''user_unsuspend'', ''unsuspend'']"

text \<open>What the log says about a user: its latest entry on a suspension.\<close>

definition concerns :: "string \<Rightarrow> audit_row \<Rightarrow> bool" where
  "concerns uid a \<longleftrightarrow> au_key a = uid \<and> au_action a \<in> set suspension_actions"

definition recorded :: "audit_row list \<Rightarrow> string \<Rightarrow> bool" where
  "recorded lg uid = (case filter (concerns uid) (rev lg) of a # _ \<Rightarrow> au_action a = ''user_suspend'' | [] \<Rightarrow> False)"

lemma recorded_snoc:
  "recorded (lg @ [a]) uid = (if concerns uid a then au_action a = ''user_suspend'' else recorded lg uid)"
  by (simp add: recorded_def)

definition trail_row :: "account_st \<Rightarrow> user \<Rightarrow> bool" where
  "trail_row s u \<longleftrightarrow> u_suspended u = recorded (audit_log (an_app s)) (u_id u) \<and>
     (u_suspended_at u \<noteq> None) = u_suspended u \<and> \<not> (u_suspended u \<and> is_admin_row s (u_id u))"

definition trail_inv :: "account_st \<Rightarrow> bool" where
  "trail_inv s \<longleftrightarrow> unique_by u_id (users (an_app s)) \<and> list_all (trail_row s) (users (an_app s))"

lemma add_audit_parts [simp]:
  "audit_log (an_app (add_audit a b c s)) =
     audit_log (an_app s) @ [\<lparr>au_actor = a, au_action = b, au_entity = ''user'', au_key = c\<rparr>]"
  "is_admin_row (add_audit a b c s) = is_admin_row s"
  by (simp_all add: add_audit_def is_admin_row_def fun_eq_iff)

lemma set_users_parts [simp]:
  "users (an_app (set_users us s)) = us" "audit_log (an_app (set_users us s)) = audit_log (an_app s)"
  "is_admin_row (set_users us s) = is_admin_row s"
  by (simp_all add: set_users_def is_admin_row_def fun_eq_iff)

lemma is_admin_suspension [simp]: "is_admin_row (s\<lparr>an_suspension := x\<rparr>) = is_admin_row s"
  by (simp add: is_admin_row_def fun_eq_iff)

lemma trail_other_audit:
  "trail_inv s \<Longrightarrow> act \<notin> set suspension_actions \<Longrightarrow> trail_inv (add_audit a act k s)"
  by (simp add: trail_inv_def trail_row_def recorded_snoc concerns_def list_all_iff)

lemma trail_set:
  assumes inv: "trail_inv s" and found: "findUserById (an_app s) uid = Some t"
    and act: "act \<in> set suspension_actions" and b: "b \<longleftrightarrow> act = ''user_suspend''" and admin: "b \<Longrightarrow> \<not> is_admin_row s uid"
    and f: "\<And>u. u_id (f u) = u_id u \<and> u_suspended (f u) = b \<and> (u_suspended_at (f u) \<noteq> None) = b"
  shows "trail_inv (add_audit a act uid (snd (update_live uid f susp s)))"
proof -
  have t: "t \<in> set (users (an_app s))" "u_id t = uid" "u_deleted_at t = None"
    using find_row_Some [of _ "users (an_app s)" t] found by (auto simp: findUserById_def)
  have only: "u_deleted_at u = None" if "u \<in> set (users (an_app s))" "u_id u = uid" for u
    using unique_byD [of u_id "users (an_app s)" u t] inv that t by (auto simp: trail_inv_def)
  have "unique_by u_id (update_where (\<lambda>u. u_id u = uid \<and> u_deleted_at u = None) f (users (an_app s)))"
    using inv f by (subst unique_by_update) (auto simp: trail_inv_def)
  then show ?thesis using inv only act b admin f
    by (auto simp: trail_inv_def update_live_def found list_all_iff ball_update_where trail_row_def recorded_snoc concerns_def)
qed

text \<open>Requests of administrators and users, in any order.\<close>

inductive mod_step :: "(string \<Rightarrow> bool) \<Rightarrow> auth_env \<Rightarrow> account_st \<Rightarrow> account_st \<Rightarrow> bool" for uuid ae where
  suspend: "mod_step uuid ae s (snd (patch_suspend uuid now caller uid reason s))"
| unsuspend: "mod_step uuid ae s (snd (patch_unsuspend uuid caller uid s))"
| lift: "mod_step uuid ae s (snd (delete_suspend uuid caller uid s))"
| bulk: "mod_step uuid ae s (snd (post_bulk_suspend uuid now caller uids action reasn s))"
| restore: "mod_step uuid ae s (snd (post_restore uuid caller uid s))"
| impersonate: "mod_step uuid ae s (snd (post_impersonate uuid ae now jti caller uid s))"
| leave: "mod_step uuid ae s (snd (post_impersonate_exit now caller by_admin tok s))"
| profile: "mod_step uuid ae s (snd (patch_profile ae now jti caller tok dn un s))"
| wallet: "mod_step uuid ae s (snd (patch_wallet uid address s))"

definition mod_init :: "account_st \<Rightarrow> bool" where
  "mod_init s \<longleftrightarrow> unique_by u_id (users (an_app s)) \<and>
     list_all (\<lambda>u. \<not> u_suspended u \<and> u_suspended_at u = None) (users (an_app s)) \<and>
     list_all (\<lambda>a. au_action a \<notin> set suspension_actions) (audit_log (an_app s))"

lemma trail_suspend:
  assumes "trail_inv s" shows "trail_inv (snd (patch_suspend uuid now caller uid reason s))"
  using assms
    trail_set [OF assms, of uid _ "''user_suspend''" True "\<lambda>u. u\<lparr>u_suspended := True, u_suspended_at := Some now\<rparr>"
      "ap_sub caller" "Some (reason, ap_sub caller)"]
  by (auto simp: patch_suspend_def suspendUser_def suspension_actions_def update_live_def split: sum.split option.split)

lemma trail_unsuspend:
  assumes "trail_inv s"
  shows "trail_inv (snd (patch_unsuspend uuid caller uid s))" "trail_inv (snd (delete_suspend uuid caller uid s))"
  using assms
    trail_set [OF assms, of uid _ "''user_unsuspend''" False "\<lambda>u. u\<lparr>u_suspended := False, u_suspended_at := None\<rparr>" "ap_sub caller" None]
    trail_set [OF assms, of uid _ "''unsuspend''" False "\<lambda>u. u\<lparr>u_suspended := False, u_suspended_at := None\<rparr>" "ap_sub caller" None]
  by (auto simp: patch_unsuspend_def delete_suspend_def unsuspendUser_def suspension_actions_def update_live_def
      split: sum.split option.split)

lemma trail_one: "trail_inv s \<Longrightarrow> trail_inv (snd (bulk_one now actor action reason uid s))"
proof -
  assume inv: "trail_inv s"
  show ?thesis
    using inv
      trail_set [OF inv, of uid _ "''user_unsuspend''" False "\<lambda>u. u\<lparr>u_suspended := False, u_suspended_at := None\<rparr>" actor None]
      trail_set [OF inv, of uid _ "''user_suspend''" True "\<lambda>u. u\<lparr>u_suspended := True, u_suspended_at := Some now\<rparr>" actor "Some (reason, actor)"]
    by (auto simp: bulk_one_def suspendUser_def unsuspendUser_def suspension_actions_def update_live_def
        split: option.split bulk_action.split)
qed

lemma trail_bulk: "trail_inv s \<Longrightarrow> trail_inv (snd (bulk_loop now actor action reason uids s))"
proof (induction uids arbitrary: s)
  case (Cons uid uids)
  show ?case using trail_one [OF Cons.prems, of now actor action reason uid] Cons.IH
    by (simp split: prod.split) (metis snd_conv)
qed simp

lemma trail_same:
  "trail_inv s \<Longrightarrow> users (an_app s') = users (an_app s) \<Longrightarrow> audit_log (an_app s') = audit_log (an_app s) \<Longrightarrow>
   as_role (an_auth s') = as_role (an_auth s) \<Longrightarrow> trail_inv s'"
  by (simp add: trail_inv_def trail_row_def is_admin_row_def list_all_iff)

lemma trail_redis: "trail_inv (snd (acct_redis f s)) = trail_inv s"
  by (simp add: acct_redis_def redis_do_def trail_inv_def trail_row_def is_admin_row_def list_all_iff split: prod.split)

lemma trail_rows:
  assumes "trail_inv s" and "\<And>u. u_id (f u) = u_id u \<and> u_suspended (f u) = u_suspended u \<and> u_suspended_at (f u) = u_suspended_at u"
  shows "trail_inv (set_app ((an_app s)\<lparr>users := update_where P f (users (an_app s))\<rparr>) s)"
proof -
  have "unique_by u_id (update_where P f (users (an_app s)))"
    using assms by (subst unique_by_update) (auto simp: trail_inv_def)
  then show ?thesis using assms by (auto simp: trail_inv_def trail_row_def is_admin_row_def list_all_iff ball_update_where)
qed

lemma trail_profile: "trail_inv s \<Longrightarrow> trail_inv (snd (patch_profile ae now jti caller tok dn un s))"
proof -
  assume inv: "trail_inv s"
  have up: "trail_inv (snd (updateUserProfile (ap_sub caller) d n s))" for d n
  proof -
    have "trail_inv (add_audit (ap_sub caller) ''update_profile'' (ap_sub caller) (s\<lparr>an_name := x, an_username := y\<rparr>))" for x y
      by (rule trail_other_audit) (use inv in \<open>auto simp: suspension_actions_def intro: trail_same\<close>)
    then show ?thesis using inv by (simp add: updateUserProfile_def Let_def split: option.split)
  qed
  show ?thesis
    unfolding patch_profile_def
    by (auto simp: inv split: option.split prod.split intro!: and_then_keeps [where P = trail_inv] up)
      (auto simp: trail_redis split: option.split)
qed

lemma trail_step: "mod_step uuid ae s s' \<Longrightarrow> trail_inv s \<Longrightarrow> trail_inv s'"
proof (induction rule: mod_step.induct)
  case (bulk s now caller uids action reasn)
  then show ?case using trail_bulk by (auto simp: post_bulk_suspend_def split: sum.split prod.split) (metis snd_conv)+
next
  case (restore s caller uid)
  have "trail_inv (restoreUser uid s)" unfolding restoreUser_def set_users_def by (rule trail_rows [OF restore]) simp
  then show ?case using restore
    by (auto simp: post_restore_def suspension_actions_def intro: trail_other_audit split: sum.split)
next
  case (impersonate s now jti caller uid)
  then show ?case by (auto simp: post_impersonate_def suspension_actions_def intro: trail_other_audit split: sum.split)
next
  case (leave s now caller by_admin tok)
  then show ?case
    by (auto simp: post_impersonate_exit_def Let_def suspension_actions_def trail_redis intro!: trail_other_audit split: option.split)
next
  case (wallet s uid address)
  then show ?case by (auto simp: patch_wallet_def updateUserWallet_def intro!: trail_rows)
qed (auto intro: trail_suspend trail_unsuspend trail_profile)

interpretation moderation: transition_system mod_init "mod_step uuid ae" trail_inv for uuid ae
proof
  fix s s'
  show "mod_step uuid ae s s' \<Longrightarrow> trail_inv s \<Longrightarrow> trail_inv s'" by (rule trail_step)
  show "mod_init s \<Longrightarrow> trail_inv s"
    by (auto simp: mod_init_def trail_inv_def trail_row_def list_all_iff recorded_def concerns_def split: list.split
        dest!: arg_cong [of _ _ set])
qed


text \<open>Only administrators moderate.\<close>

lemma moderation_needs_admin:
  assumes "ap_role caller \<noteq> Some ''admin''" and "ap_role caller \<noteq> Some ''super_admin''"
  shows "snd (patch_suspend uuid now caller uid reason s) = s" "snd (patch_unsuspend uuid caller uid s) = s"
    "snd (delete_suspend uuid caller uid s) = s" "snd (post_bulk_suspend uuid now caller uids action reasn s) = s"
    "snd (post_restore uuid caller uid s) = s" "snd (post_impersonate uuid ae now jti caller uid s) = s"
  using assms
  by (simp_all add: requireAdmin_def patch_suspend_def patch_unsuspend_def delete_suspend_def post_bulk_suspend_def
      post_restore_def post_impersonate_def)

text \<open>A suspension that succeeds shows in the row of the user.\<close>

lemma find_update_live:
  "(\<And>u. u_id (f u) = u_id u \<and> u_deleted_at (f u) = u_deleted_at u) \<Longrightarrow>
   find_row (\<lambda>u. u_id u = uid \<and> u_deleted_at u = None) (update_where (\<lambda>u. u_id u = uid \<and> u_deleted_at u = None) f us) =
   map_option f (find_row (\<lambda>u. u_id u = uid \<and> u_deleted_at u = None) us)" for f :: "user \<Rightarrow> user"
  by (induction us) (auto simp: update_where_def)

lemma suspend_effect:
  assumes "patch_suspend uuid now caller uid reason s = (Inr x, s')"
  shows "\<exists>u. findUserById (an_app s') uid = Some u \<and> u_suspended u \<and> u_suspended_at u = Some now"
proof -
  obtain t where t: "findUserById (an_app s) uid = Some t"
    using assms by (auto simp: patch_suspend_def split: sum.splits if_splits option.splits)
  have "users (an_app s') = update_where (\<lambda>u. u_id u = uid \<and> u_deleted_at u = None)
      (\<lambda>u. u\<lparr>u_suspended := True, u_suspended_at := Some now\<rparr>) (users (an_app s))"
    using assms t by (auto simp: patch_suspend_def suspendUser_def update_live_def split: sum.splits if_splits)
  then show ?thesis using t by (simp add: findUserById_def find_update_live)
qed

lemma lift_effect:
  assumes "delete_suspend uuid caller uid s = (Inr x, s')"
  shows "\<exists>u. findUserById (an_app s') uid = Some u \<and> \<not> u_suspended u \<and> u_suspended_at u = None"
proof -
  obtain t where t: "findUserById (an_app s) uid = Some t"
    using assms by (auto simp: delete_suspend_def split: sum.splits if_splits option.splits)
  have "users (an_app s') = update_where (\<lambda>u. u_id u = uid \<and> u_deleted_at u = None)
      (\<lambda>u. u\<lparr>u_suspended := False, u_suspended_at := None\<rparr>) (users (an_app s))"
    using assms t by (auto simp: delete_suspend_def unsuspendUser_def update_live_def split: sum.splits if_splits)
  then show ?thesis using t by (simp add: findUserById_def find_update_live)
qed

section \<open>A concrete run\<close>

definition demo_admin :: auth_payload where
  "demo_admin = \<lparr>ap_sub = ''root'', ap_role = Some ''admin'', ap_exp = 900, ap_impersonated = False, ap_apiKey = None\<rparr>"

definition demo_suspended :: account_st where
  "demo_suspended = snd (post_bulk_suspend (\<lambda>_. True) 7 demo_admin [''ana'', ''zoe'', ''ana''] Suspend (Some ''spam'') demo_accounts)"

lemma demo_bulk:
  "one_by_one (single (\<lambda>_. True) 7 demo_admin Suspend ''spam'') [''ana'', ''zoe'', ''ana''] demo_accounts = (rs, s1) \<Longrightarrow>
   map outcome rs = [(True, None), (False, Some ''User not found''), (False, Some ''User is already suspended'')]"
proof -
  have "map outcome (fst (one_by_one (single (\<lambda>_. True) 7 demo_admin Suspend ''spam'') [''ana'', ''zoe'', ''ana''] demo_accounts)) =
      [(True, None), (False, Some ''User not found''), (False, Some ''User is already suspended'')]" by code_simp
  then show "one_by_one (single (\<lambda>_. True) 7 demo_admin Suspend ''spam'') [''ana'', ''zoe'', ''ana''] demo_accounts = (rs, s1) \<Longrightarrow>
   map outcome rs = [(True, None), (False, Some ''User not found''), (False, Some ''User is already suspended'')]" by simp
qed

theorem bulk_equals_singles_witness:
  "\<exists>bs s1. post_bulk_suspend (\<lambda>_. True) 7 demo_admin [''ana'', ''zoe'', ''ana''] Suspend (Some ''spam'') demo_accounts = (Inr bs, s1) \<and>
     map br_success bs = [True, False, False]"
proof -
  obtain rs s1 where r: "one_by_one (single (\<lambda>_. True) 7 demo_admin Suspend ''spam'') [''ana'', ''zoe'', ''ana''] demo_accounts = (rs, s1)"
    by fastforce
  have "requireAdmin demo_admin = Inr ()" by code_simp
  then obtain bs where bs: "post_bulk_suspend (\<lambda>_. True) 7 demo_admin [''ana'', ''zoe'', ''ana''] Suspend (Some ''spam'') demo_accounts = (Inr bs, s1)"
      "map (\<lambda>b. (br_success b, br_error b)) bs = map outcome rs"
    using bulk_equals_singles [of demo_admin "[''ana'', ''zoe'', ''ana'']" "\<lambda>_. True" "''spam''" 7 Suspend demo_accounts] r by auto
  have "map br_success bs = map fst (map outcome rs)" unfolding bs(2) [symmetric] by simp
  then show ?thesis using bs(1) demo_bulk [OF r] by auto
qed


end
