(* ===== verification/Erasure.thy ===== *)
theory Erasure
  imports Phone Moderation
begin

text \<open>
  The right to erasure (\<open>db/queries/gdpr.ts\<close>, \<open>queues/gdpr-erasure.queue.ts\<close>, the processor,
  \<open>routes/me/delete-account.ts\<close> and \<open>POST /admin/users/:userId/erase\<close>): a request, thirty days in which the user may
  cancel it, and the job that anonymises the account. Whether the queue accepts a job id is the parameter
  \<open>accepts\<close>; a job whose id the queue already holds, finished jobs included, is not added. The audit row of an
  erasure has no actor, written as the empty string.
\<close>

section \<open>Statements\<close>

definition grace_ms :: int where "grace_ms = 30 * 24 * 60 * 60 * 1000"

definition createErasureRequest ::
  "int \<Rightarrow> string \<Rightarrow> string \<Rightarrow> string option \<Rightarrow> account_st \<Rightarrow> erasure_row \<times> account_st" where
  "createErasureRequest now fresh uid adminId s =
     (let r = \<lparr>er_id = fresh, er_user = uid, er_execute_at = now + grace_ms, er_admin = adminId, er_cancelled = None,
               er_executed = None, er_created = now\<rparr>
      in (r, s\<lparr>an_erasures := an_erasures s @ [r]\<rparr>))"

definition pending :: "string \<Rightarrow> erasure_row \<Rightarrow> bool" where
  "pending uid r \<longleftrightarrow> er_user r = uid \<and> er_cancelled r = None \<and> er_executed r = None"

text \<open>\<open>ORDER BY created_at DESC LIMIT 1\<close>.\<close>

definition newest_first :: "erasure_row list \<Rightarrow> erasure_row list" where
  "newest_first rs = rev (sort_key er_created rs)"

definition findPendingErasureRequest :: "string \<Rightarrow> account_st \<Rightarrow> erasure_row option" where
  "findPendingErasureRequest uid s = find_row (pending uid) (newest_first (an_erasures s))"

definition findPendingSelfErasureRequest :: "string \<Rightarrow> account_st \<Rightarrow> erasure_row option" where
  "findPendingSelfErasureRequest uid s =
     find_row (\<lambda>r. pending uid r \<and> er_admin r = None) (newest_first (an_erasures s))"

definition cancelErasureRequest :: "int \<Rightarrow> string \<Rightarrow> account_st \<Rightarrow> account_st" where
  "cancelErasureRequest now uid s =
     s\<lparr>an_erasures := update_where (\<lambda>r. pending uid r \<and> er_admin r = None) (\<lambda>r. r\<lparr>er_cancelled := Some now\<rparr>) (an_erasures s)\<rparr>"

definition markErasureExecuted :: "int \<Rightarrow> string \<Rightarrow> account_st \<Rightarrow> account_st" where
  "markErasureExecuted now rid s =
     s\<lparr>an_erasures := update_where (\<lambda>r. er_id r = rid) (\<lambda>r. r\<lparr>er_executed := Some now\<rparr>) (an_erasures s)\<rparr>"

text \<open>One transaction: a violated unique index rolls it back. Of its statements, the one that removes the key
  \<open>fingerprint\<close> from the JSON details of the user's fraud flags has no counterpart, because the rows of
  \<^const>\<open>fraud_flags\<close> are modelled without details.\<close>

definition anonymous_email :: "string \<Rightarrow> string" where "anonymous_email tk = ''deleted_'' @ tk @ ''@gdpr.invalid''"
definition anonymous_name :: "string \<Rightarrow> string" where "anonymous_name tk = ''deleted_'' @ tk"

definition anonymize_columns :: "string \<Rightarrow> string \<Rightarrow> account_st \<Rightarrow> account_st" where
  "anonymize_columns tk uid s =
     set_users (update_where (\<lambda>u. u_id u = uid) (\<lambda>u. u\<lparr>u_stellar_address := None, u_embedded_wallet := None\<rparr>) (users (an_app s)))
       (set_email uid (anonymous_email tk)
         (s\<lparr>an_google := (an_google s)(uid := None), an_name := (an_name s)(uid := ''Deleted User''),
            an_username := (an_username s)(uid \<mapsto> anonymous_name tk), an_avatar := (an_avatar s)(uid := None),
            an_phone := (an_phone s)(uid := None), an_phoneVerified := (an_phoneVerified s)(uid := None)\<rparr>))"

definition clear_devices :: "string \<Rightarrow> account_st \<Rightarrow> account_st" where
  "clear_devices uid s =
     set_app ((an_app s)\<lparr>sessions := update_where (\<lambda>g. gs_user g = uid) (\<lambda>g. g\<lparr>gs_device := None\<rparr>) (sessions (an_app s))\<rparr>) s"

definition anonymizeUser :: "string \<Rightarrow> string \<Rightarrow> account_st \<Rightarrow> (exn + unit) \<times> account_st" where
  "anonymizeUser tk uid s =
     (if list_ex (\<lambda>u. u_id u = uid) (users (an_app s)) \<and>
         (held_by_other (email_col s) s uid (anonymous_email tk) \<or>
          held_by_other (lower_username s) s uid (toLowerCase (anonymous_name tk)))
      then (Inl unique_violation, s)
      else (Inr (), add_audit '''' ''gdpr_erasure_completed'' uid
             (clear_devices uid (if list_ex (\<lambda>u. u_id u = uid) (users (an_app s)) then anonymize_columns tk uid s else s))))"

section \<open>Queue\<close>

definition erasureJobId :: "string \<Rightarrow> string" where "erasureJobId uid = ''gdpr:'' @ uid"

definition enqueueGdprErasure ::
  "(string \<Rightarrow> bool) \<Rightarrow> int \<Rightarrow> string \<Rightarrow> string \<Rightarrow> account_st \<Rightarrow> (exn + unit) \<times> account_st" where
  "enqueueGdprErasure accepts now uid rid s =
     (if \<not> accepts (erasureJobId uid) then (Inl (js_error ''Custom Id cannot contain :''), s)
      else if list_ex (\<lambda>j. ej_id j = erasureJobId uid) (an_jobs s) then (Inr (), s)
      else (Inr (), s\<lparr>an_jobs := an_jobs s @
             [\<lparr>ej_id = erasureJobId uid, ej_user = uid, ej_request = rid, ej_due = now + grace_ms, ej_finished = False\<rparr>]\<rparr>))"

definition cancelGdprErasure :: "string \<Rightarrow> account_st \<Rightarrow> account_st" where
  "cancelGdprErasure uid s = s\<lparr>an_jobs := delete_where (\<lambda>j. ej_id j = erasureJobId uid) (an_jobs s)\<rparr>"

definition processGdprErasureJob ::
  "int \<Rightarrow> string \<Rightarrow> erasure_job \<Rightarrow> account_st \<Rightarrow> (exn + unit) \<times> account_st" where
  "processGdprErasureJob now tk j s =
     (case findPendingErasureRequest (ej_user j) s of
        None \<Rightarrow> (Inr (), s)
      | Some request \<Rightarrow>
          if er_id request \<noteq> ej_request j then (Inr (), s)
          else and_then (anonymizeUser tk (ej_user j) s) (\<lambda>_ s1.
            and_then (on_auth (revokeAllUserRefreshTokens now (ej_user j)) s1) (\<lambda>_ s2.
            (Inr (), markErasureExecuted now (ej_request j) s2))))"

text \<open>The worker takes a job once its delay is over; a job that throws is tried again.\<close>

definition finish_job :: "string \<Rightarrow> account_st \<Rightarrow> account_st" where
  "finish_job jid s = s\<lparr>an_jobs := update_where (\<lambda>j. ej_id j = jid) (\<lambda>j. j\<lparr>ej_finished := True\<rparr>) (an_jobs s)\<rparr>"

definition run_job :: "int \<Rightarrow> string \<Rightarrow> erasure_job \<Rightarrow> account_st \<Rightarrow> account_st" where
  "run_job now tk j s =
     (if ej_finished j \<or> now < ej_due j then s
      else case processGdprErasureJob now tk j s of (Inr _, s1) \<Rightarrow> finish_job (ej_id j) s1 | (Inl e, s1) \<Rightarrow> s1)"

section \<open>Routes\<close>

definition post_delete_account ::
  "(string \<Rightarrow> bool) \<Rightarrow> (string \<Rightarrow> bool) \<Rightarrow> int \<Rightarrow> string \<Rightarrow> string \<Rightarrow> string \<Rightarrow> account_st \<Rightarrow> (exn + int) \<times> account_st" where
  "post_delete_account is_email accepts now fresh uid email s =
     (if \<not> is_email email then (Inl zod_error, s)
      else if findUserById (an_app s) uid = None then (Inl (createError ''User not found'' 404 None), s)
      else if toLowerCase (as_email (an_auth s) uid) \<noteq> toLowerCase email
      then (Inl (createError ''Email confirmation does not match your account email'' 403 None), s)
      else if findPendingErasureRequest uid s \<noteq> None
      then (Inl (createError ''A deletion request is already pending for this account'' 409 None), s)
      else (case createErasureRequest now fresh uid None s of
        (r, s1) \<Rightarrow> and_then (enqueueGdprErasure accepts now uid (er_id r) s1) (\<lambda>_ s2. (Inr (er_execute_at r), s2))))"

definition delete_delete_account :: "int \<Rightarrow> string \<Rightarrow> account_st \<Rightarrow> (exn + unit) \<times> account_st" where
  "delete_delete_account now uid s =
     (if findPendingSelfErasureRequest uid s = None then (Inl (createError ''No pending deletion request found'' 404 None), s)
      else (Inr (), cancelGdprErasure uid (cancelErasureRequest now uid s)))"

definition post_erase ::
  "(string \<Rightarrow> bool) \<Rightarrow> (string \<Rightarrow> bool) \<Rightarrow> int \<Rightarrow> string \<Rightarrow> auth_payload \<Rightarrow> string \<Rightarrow> account_st \<Rightarrow> (exn + int) \<times> account_st" where
  "post_erase uuid accepts now fresh caller uid s =
     (case requireAdmin caller of
        Inl e \<Rightarrow> (Inl e, s)
      | Inr _ \<Rightarrow>
          if \<not> uuid uid then (Inl zod_error, s)
          else if findUserById (an_app s) uid = None then (Inl (createError ''User not found'' 404 None), s)
          else if findPendingErasureRequest uid s \<noteq> None
          then (Inl (createError ''A deletion request is already pending for this user'' 409 None), s)
          else (case createErasureRequest now fresh uid (Some (ap_sub caller)) s of
            (r, s1) \<Rightarrow> and_then (enqueueGdprErasure accepts now uid (er_id r) s1) (\<lambda>_ s2.
              (Inr (er_execute_at r), add_audit (ap_sub caller) ''gdpr_erasure_request'' uid s2))))"

section \<open>The grace period\<close>

text \<open>Everything that touches requests and jobs: users, administrators, the worker, jobs given up after their last
  attempt, and anything else that leaves both alone.\<close>

inductive erasure_step ::
  "(string \<Rightarrow> bool) \<Rightarrow> (string \<Rightarrow> bool) \<Rightarrow> (string \<Rightarrow> bool) \<Rightarrow> account_st \<Rightarrow> account_st \<Rightarrow> bool" for is_email uuid accepts where
  request: "fresh \<notin> er_id ` set (an_erasures s) \<Longrightarrow>
    erasure_step is_email uuid accepts s (snd (post_delete_account is_email accepts now fresh uid email s))"
| cancel: "erasure_step is_email uuid accepts s (snd (delete_delete_account now uid s))"
| admin: "fresh \<notin> er_id ` set (an_erasures s) \<Longrightarrow>
    erasure_step is_email uuid accepts s (snd (post_erase uuid accepts now fresh caller uid s))"
| job: "j \<in> set (an_jobs s) \<Longrightarrow> erasure_step is_email uuid accepts s (run_job now tk j s)"
| given_up: "erasure_step is_email uuid accepts s (finish_job jid s)"
| other: "an_erasures s' = an_erasures s \<Longrightarrow> an_jobs s' = an_jobs s \<Longrightarrow> erasure_step is_email uuid accepts s s'"

definition request_ok :: "erasure_row \<Rightarrow> bool" where
  "request_ok r \<longleftrightarrow> er_execute_at r = er_created r + grace_ms \<and>
     (case er_executed r of Some t \<Rightarrow> er_execute_at r \<le> t \<and> er_cancelled r = None | None \<Rightarrow> True)"

definition job_ok :: "erasure_row list \<Rightarrow> erasure_job \<Rightarrow> bool" where
  "job_ok rs j \<longleftrightarrow> list_ex (\<lambda>r. er_id r = ej_request j \<and> er_execute_at r = ej_due j) rs"

definition erasure_inv :: "account_st \<Rightarrow> bool" where
  "erasure_inv s \<longleftrightarrow> unique_by er_id (an_erasures s) \<and> list_all request_ok (an_erasures s) \<and>
     list_all (job_ok (an_erasures s)) (an_jobs s)"

definition erasure_init :: "account_st \<Rightarrow> bool" where "erasure_init s \<longleftrightarrow> an_erasures s = [] \<and> an_jobs s = []"

lemma erasure_add_audit [simp]:
  "an_erasures (add_audit a b c s) = an_erasures s" "an_jobs (add_audit a b c s) = an_jobs s"
  by (simp_all add: add_audit_def)

lemma erasure_on_auth [simp]:
  "an_erasures (snd (on_auth f s)) = an_erasures s" "an_jobs (snd (on_auth f s)) = an_jobs s"
  by (simp_all add: on_auth_def split: prod.split)

lemma anonymize_keeps [simp]:
  "an_erasures (snd (anonymizeUser tk uid s)) = an_erasures s" "an_jobs (snd (anonymizeUser tk uid s)) = an_jobs s"
  by (simp_all add: anonymizeUser_def clear_devices_def anonymize_columns_def set_users_def set_email_def)

lemma erasure_inv_add:
  assumes "erasure_inv s" and "fresh \<notin> er_id ` set (an_erasures s)"
    and "an_erasures s' = an_erasures s @ [\<lparr>er_id = fresh, er_user = uid, er_execute_at = now + grace_ms, er_admin = adm,
      er_cancelled = None, er_executed = None, er_created = now\<rparr>]"
    and "set (an_jobs s') \<subseteq> insert \<lparr>ej_id = erasureJobId uid, ej_user = uid, ej_request = fresh, ej_due = now + grace_ms,
      ej_finished = False\<rparr> (set (an_jobs s))"
  shows "erasure_inv s'"
proof -
  have "unique_by er_id (an_erasures s')" using assms by (auto simp: erasure_inv_def unique_by_def)
  moreover have "list_all request_ok (an_erasures s')" using assms(1,3) by (simp add: erasure_inv_def request_ok_def)
  moreover have "list_all (job_ok (an_erasures s')) (an_jobs s')"
    using assms by (fastforce simp: erasure_inv_def list_all_iff job_ok_def)
  ultimately show ?thesis by (simp add: erasure_inv_def)
qed

lemma erasure_inv_rows:
  assumes "erasure_inv s" and "an_erasures s' = update_where P f (an_erasures s)" and "set (an_jobs s') \<subseteq> set (an_jobs s)"
    and "\<And>r. er_id (f r) = er_id r \<and> er_execute_at (f r) = er_execute_at r"
    and "\<And>r. r \<in> set (an_erasures s) \<Longrightarrow> P r \<Longrightarrow> request_ok (f r)"
  shows "erasure_inv s'"
proof -
  have "unique_by er_id (an_erasures s')" using assms(1,2,4) by (simp add: erasure_inv_def unique_by_update)
  moreover have "list_all request_ok (an_erasures s')"
    using assms(1,2,5) by (auto simp: erasure_inv_def list_all_iff update_where_def)
  moreover have "job_ok (an_erasures s') j" if jo: "job_ok (an_erasures s) j" for j
  proof -
    obtain r where "r \<in> set (an_erasures s)" "er_id r = ej_request j" "er_execute_at r = ej_due j"
      using jo by (auto simp: job_ok_def list_ex_iff)
    then have "(if P r then f r else r) \<in> set (an_erasures s')" "er_id (if P r then f r else r) = ej_request j"
        "er_execute_at (if P r then f r else r) = ej_due j"
      using assms(2,4) by (auto simp: update_where_def)
    then show ?thesis unfolding job_ok_def list_ex_iff by blast
  qed
  ultimately show ?thesis using assms(1,3) by (auto simp: erasure_inv_def list_all_iff)
qed

lemma enqueue_state:
  "an_erasures (snd (enqueueGdprErasure accepts now uid rid s)) = an_erasures s"
  "set (an_jobs (snd (enqueueGdprErasure accepts now uid rid s))) \<subseteq> insert \<lparr>ej_id = erasureJobId uid, ej_user = uid,
     ej_request = rid, ej_due = now + grace_ms, ej_finished = False\<rparr> (set (an_jobs s))"
  by (auto simp: enqueueGdprErasure_def)

lemma erasure_inv_request:
  assumes "erasure_inv s" and "fresh \<notin> er_id ` set (an_erasures s)"
  shows "erasure_inv (snd (post_delete_account is_email accepts now fresh uid email s))"
    and "erasure_inv (snd (post_erase uuid accepts now fresh caller uid s))"
proof -
  let ?enq = "\<lambda>adm. enqueueGdprErasure accepts now uid fresh (snd (createErasureRequest now fresh uid adm s))"
  have enq: "an_erasures (snd (?enq adm)) = an_erasures s @ [\<lparr>er_id = fresh, er_user = uid, er_execute_at = now + grace_ms,
      er_admin = adm, er_cancelled = None, er_executed = None, er_created = now\<rparr>]"
    "set (an_jobs (snd (?enq adm))) \<subseteq> insert \<lparr>ej_id = erasureJobId uid, ej_user = uid, ej_request = fresh,
      ej_due = now + grace_ms, ej_finished = False\<rparr> (set (an_jobs s))" for adm
    using enqueue_state [of accepts now uid fresh "snd (createErasureRequest now fresh uid adm s)"]
    by (simp_all add: createErasureRequest_def Let_def)
  have after: "erasure_inv x" if "an_erasures x = an_erasures (snd (?enq adm))" "an_jobs x = an_jobs (snd (?enq adm))" for x adm
    by (rule erasure_inv_add [OF assms]) (use enq that in simp_all)
  show "erasure_inv (snd (post_delete_account is_email accepts now fresh uid email s))"
    using assms(1) after [of _ None]
    by (cases "?enq None"; cases "fst (?enq None)") (auto simp: post_delete_account_def createErasureRequest_def Let_def)
  show "erasure_inv (snd (post_erase uuid accepts now fresh caller uid s))"
    using assms(1) after [of _ "Some (ap_sub caller)"]
    by (cases "?enq (Some (ap_sub caller))"; cases "fst (?enq (Some (ap_sub caller)))")
      (auto simp: post_erase_def createErasureRequest_def Let_def split: sum.split)
qed

lemma newest_first_set [simp]: "set (newest_first rs) = set rs"
  by (simp add: newest_first_def)

lemma pending_found: "findPendingErasureRequest uid s = Some r \<Longrightarrow> r \<in> set (an_erasures s) \<and> pending uid r"
  using find_row_Some [of "pending uid" "newest_first (an_erasures s)" r] by (simp add: findPendingErasureRequest_def)

lemma erasure_inv_cancel: "erasure_inv s \<Longrightarrow> erasure_inv (snd (delete_delete_account now uid s))"
proof -
  assume inv: "erasure_inv s"
  let ?s = "cancelGdprErasure uid (cancelErasureRequest now uid s)"
  have rows: "an_erasures ?s =
      update_where (\<lambda>r. pending uid r \<and> er_admin r = None) (\<lambda>r. r\<lparr>er_cancelled := Some now\<rparr>) (an_erasures s)"
    by (simp add: cancelGdprErasure_def cancelErasureRequest_def)
  have "erasure_inv ?s"
    by (rule erasure_inv_rows [OF inv rows])
      (use inv in \<open>auto simp: cancelGdprErasure_def cancelErasureRequest_def delete_where_def pending_def request_ok_def
        erasure_inv_def list_all_iff\<close>)
  then show ?thesis using inv by (simp add: delete_delete_account_def)
qed

lemma erasure_inv_finish: "erasure_inv s \<Longrightarrow> erasure_inv (finish_job jid s)"
  by (auto simp: erasure_inv_def finish_job_def update_where_def list_all_iff job_ok_def)

text \<open>What a job does to the requests: nothing, or it marks its own request, which is still pending.\<close>

lemma process_rows:
  "an_jobs (snd (processGdprErasureJob now tk j s)) = an_jobs s \<and>
   (an_erasures (snd (processGdprErasureJob now tk j s)) = an_erasures s \<or>
    (\<exists>r. findPendingErasureRequest (ej_user j) s = Some r \<and> er_id r = ej_request j \<and>
       an_erasures (snd (processGdprErasureJob now tk j s)) =
         update_where (\<lambda>r. er_id r = ej_request j) (\<lambda>r. r\<lparr>er_executed := Some now\<rparr>) (an_erasures s)))"
proof -
  obtain ra s1 where a: "anonymizeUser tk (ej_user j) s = (ra, s1)" by fastforce
  obtain rt s2 where t: "on_auth (revokeAllUserRefreshTokens now (ej_user j)) s1 = (rt, s2)" by fastforce
  have "an_erasures s1 = an_erasures s" "an_jobs s1 = an_jobs s" "an_erasures s2 = an_erasures s1" "an_jobs s2 = an_jobs s1"
    using anonymize_keeps [of tk "ej_user j" s] erasure_on_auth [of "revokeAllUserRefreshTokens now (ej_user j)" s1]
    unfolding a t by simp_all
  then show ?thesis
    by (cases ra; cases rt) (auto simp: processGdprErasureJob_def a t markErasureExecuted_def split: option.split)
qed

lemma erasure_inv_job:
  assumes inv: "erasure_inv s" and j: "j \<in> set (an_jobs s)"
  shows "erasure_inv (run_job now tk j s)"
proof (cases "ej_finished j \<or> now < ej_due j")
  case False
  let ?s1 = "snd (processGdprErasureJob now tk j s)"
  have "erasure_inv ?s1"
    using process_rows [of now tk j s]
  proof (elim conjE disjE exE)
    assume "an_jobs ?s1 = an_jobs s" "an_erasures ?s1 = an_erasures s"
    then show ?thesis using inv by (simp add: erasure_inv_def)
  next
    fix r
    assume jobs: "an_jobs ?s1 = an_jobs s" and r: "findPendingErasureRequest (ej_user j) s = Some r" "er_id r = ej_request j"
      and rows: "an_erasures ?s1 = update_where (\<lambda>r. er_id r = ej_request j) (\<lambda>r. r\<lparr>er_executed := Some now\<rparr>) (an_erasures s)"
    have pend: "r \<in> set (an_erasures s)" "er_cancelled r = None" using pending_found [OF r(1)] by (auto simp: pending_def)
    obtain q where q: "q \<in> set (an_erasures s)" "er_id q = ej_request j" "er_execute_at q = ej_due j"
      using inv j by (auto simp: erasure_inv_def list_all_iff job_ok_def list_ex_iff)
    have same: "x = r" if "x \<in> set (an_erasures s)" "er_id x = ej_request j" for x
      using unique_byD [of er_id "an_erasures s" x r] inv that pend r(2) by (auto simp: erasure_inv_def)
    have "er_execute_at r \<le> now" "er_execute_at r = er_created r + grace_ms"
      using q same [of q] False pend inv by (auto simp: erasure_inv_def list_all_iff request_ok_def)
    then have "request_ok (r\<lparr>er_executed := Some now\<rparr>)" using pend by (simp add: request_ok_def)
    then show ?thesis using jobs same by (intro erasure_inv_rows [OF inv rows]) auto
  qed
  then show ?thesis using False erasure_inv_finish
    by (cases "processGdprErasureJob now tk j s") (auto simp: run_job_def split: sum.split)
qed (simp add: run_job_def inv)

interpretation erasures: transition_system erasure_init "erasure_step is_email uuid accepts" erasure_inv for is_email uuid accepts
proof
  fix s s'
  show "erasure_init s \<Longrightarrow> erasure_inv s" by (simp add: erasure_init_def erasure_inv_def)
  assume inv: "erasure_inv s"
  assume "erasure_step is_email uuid accepts s s'"
  then show "erasure_inv s'" using inv
  proof cases
    case other
    then show ?thesis using inv by (simp add: erasure_inv_def)
  qed (simp_all add: erasure_inv_request erasure_inv_cancel erasure_inv_job erasure_inv_finish)
qed

text \<open>(C17) Nobody is erased early or against a cancellation: in every reachable state an executed request was not cancelled
  and was executed at least thirty days after it was made.\<close>

theorem erasure_grace:
  assumes "erasure_init s0" and "(erasure_step is_email uuid accepts)\<^sup>*\<^sup>* s0 s"
    and "r \<in> set (an_erasures s)" and "er_executed r = Some t"
  shows "er_cancelled r = None \<and> er_created r + 30 * 24 * 60 * 60 * 1000 \<le> t"
  using erasures.inv_reachable [OF assms(1,2)] assms(3,4)
  by (auto simp: erasure_inv_def list_all_iff request_ok_def grace_ms_def)

section \<open>What an erasure does\<close>

definition cleared :: "string \<Rightarrow> string \<Rightarrow> account_st \<Rightarrow> bool" where
  "cleared tk uid s \<longleftrightarrow> as_email (an_auth s) uid = anonymous_email tk \<and> an_google s uid = None \<and>
     an_name s uid = ''Deleted User'' \<and> an_username s uid = Some (anonymous_name tk) \<and> an_avatar s uid = None \<and>
     an_phone s uid = None \<and> an_phoneVerified s uid = None \<and>
     list_all (\<lambda>u. u_id u = uid \<longrightarrow> u_stellar_address u = None \<and> u_embedded_wallet u = None) (users (an_app s)) \<and>
     list_all (\<lambda>g. gs_user g = uid \<longrightarrow> gs_device g = None) (sessions (an_app s))"

text \<open>The columns of another user.\<close>

definition same_account :: "string \<Rightarrow> account_st \<Rightarrow> account_st \<Rightarrow> bool" where
  "same_account v s s' \<longleftrightarrow> as_email (an_auth s') v = as_email (an_auth s) v \<and> an_google s' v = an_google s v \<and>
     an_name s' v = an_name s v \<and> an_username s' v = an_username s v \<and> an_avatar s' v = an_avatar s v \<and>
     an_phone s' v = an_phone s v \<and> an_phoneVerified s' v = an_phoneVerified s v \<and>
     filter (\<lambda>u. u_id u = v) (users (an_app s')) = filter (\<lambda>u. u_id u = v) (users (an_app s)) \<and>
     filter (\<lambda>g. gs_user g = v) (sessions (an_app s')) = filter (\<lambda>g. gs_user g = v) (sessions (an_app s))"

lemma filter_update_other:
  "(\<And>r. P r \<Longrightarrow> \<not> Q r \<and> \<not> Q (f r)) \<Longrightarrow> filter Q (update_where P f rs) = filter Q rs"
  by (induction rs) (auto simp: update_where_def)

lemma set_email_simps [simp]:
  "an_app (set_email uid e s) = an_app s" "as_email (an_auth (set_email uid e s)) = (as_email (an_auth s))(uid := e)"
  "an_google (set_email uid e s) = an_google s" "an_name (set_email uid e s) = an_name s"
  "an_username (set_email uid e s) = an_username s" "an_avatar (set_email uid e s) = an_avatar s"
  "an_phone (set_email uid e s) = an_phone s" "an_phoneVerified (set_email uid e s) = an_phoneVerified s"
  by (simp_all add: set_email_def)

lemmas anonymized = add_audit_def clear_devices_def anonymize_columns_def set_users_def

lemma cleared_anonymize:
  "cleared tk uid (add_audit a b c (clear_devices uid (anonymize_columns tk uid s)))"
  by (simp add: cleared_def anonymized list_all_iff ball_update_where)

lemma same_anonymize:
  assumes "v \<noteq> uid"
  shows "same_account v s (add_audit a b c (clear_devices uid (anonymize_columns tk uid s)))"
proof -
  have "filter (\<lambda>u. u_id u = v) (update_where (\<lambda>u. u_id u = uid) (\<lambda>u. u\<lparr>u_stellar_address := None, u_embedded_wallet := None\<rparr>) us) =
      filter (\<lambda>u. u_id u = v) us" for us :: "user list" by (rule filter_update_other) (use assms in auto)
  moreover have "filter (\<lambda>g. gs_user g = v) (update_where (\<lambda>g. gs_user g = uid) (\<lambda>g. g\<lparr>gs_device := None\<rparr>) gs) =
      filter (\<lambda>g. gs_user g = v) gs" for gs :: "game_session list" by (rule filter_update_other) (use assms in auto)
  ultimately show ?thesis using assms by (simp add: same_account_def anonymized)
qed

lemma jti_key_simps [simp]: "jtiKey j = jtiKey k \<longleftrightarrow> j = k" "jtiKey j \<noteq> userRefreshSetKey uid"
  by (simp_all add: jtiKey_def userRefreshSetKey_def)

lemma revoked_fold:
  "jti \<in> set jtis \<Longrightarrow>
   r_get now (foldl (\<lambda>st jti. r_set_ex now st (jtiKey jti) v REFRESH_TTL_SECONDS) st jtis) (jtiKey jti) = Some v"
  by (induction jtis rule: rev_induct) (auto simp: redis.get_set_ex REFRESH_TTL_SECONDS_def)

lemma revoke_effect:
  assumes "redis_up (an_app s)"
  obtains s' where "on_auth (revokeAllUserRefreshTokens now uid) s = (Inr (), s')"
    "\<And>jti. jti \<in> set (r_smembers now (redis_kv (an_app s)) (userRefreshSetKey uid)) \<Longrightarrow>
       r_get now (redis_kv (an_app s')) (jtiKey jti) = Some (RStr ''revoked'')"
    "cleared tk v s' = cleared tk v s" "\<And>w x. same_account w x s' = same_account w x s"
    "an_erasures s' = an_erasures s"
proof -
  let ?r = "on_auth (revokeAllUserRefreshTokens now uid) s"
  have kv: "redis_kv (an_app (snd ?r)) = (let k = userRefreshSetKey uid; jtis = r_smembers now (redis_kv (an_app s)) k
      in if jtis = [] then redis_kv (an_app s)
         else r_del (foldl (\<lambda>st jti. r_set_ex now st (jtiKey jti) (RStr ''revoked'') REFRESH_TTL_SECONDS) (redis_kv (an_app s)) jtis) k)"
    "fst ?r = Inr ()" "cleared tk v (snd ?r) = cleared tk v s" "\<And>w x. same_account w x (snd ?r) = same_account w x s"
    using assms by (simp_all add: on_auth_def revokeAllUserRefreshTokens_def on_redis_def on_bank_def on_game_def redis_do_def
        cleared_def same_account_def Let_def)
  show ?thesis
  proof (rule that [of "snd ?r"])
    show "?r = (Inr (), snd ?r)" using kv(2) by (metis prod.collapse)
    show "r_get now (redis_kv (an_app (snd ?r))) (jtiKey jti) = Some (RStr ''revoked'')"
      if "jti \<in> set (r_smembers now (redis_kv (an_app s)) (userRefreshSetKey uid))" for jti
      using that revoked_fold [OF that] unfolding kv(1) Let_def by (auto simp: redis.get_del)
  qed (simp_all add: kv)
qed

text \<open>(C18) A due job of a pending request erases the account: every listed column of the users and of the
  sessions is cleared, the user's refresh tokens are
  revoked, the request is marked, and no other account is touched.\<close>

theorem erasure_complete:
  assumes run: "ej_user j = uid" "run_job now tk j s = s'"
    and due: "\<not> ej_finished j" "ej_due j \<le> now"
    and pend: "findPendingErasureRequest uid s = Some r" "er_id r = ej_request j"
    and redis: "redis_up (an_app s)" and row: "list_ex (\<lambda>u. u_id u = uid) (users (an_app s))"
    and token: "\<not> held_by_other (email_col s) s uid (anonymous_email tk)"
      "\<not> held_by_other (lower_username s) s uid (toLowerCase (anonymous_name tk))"
  shows "cleared tk uid s' \<and>
    (\<forall>jti \<in> set (r_smembers now (redis_kv (an_app s)) (userRefreshSetKey uid)). r_get now (redis_kv (an_app s')) (jtiKey jti) \<noteq> None) \<and>
    (\<forall>q \<in> set (an_erasures s'). er_id q = ej_request j \<longrightarrow> er_executed q = Some now) \<and>
    (\<forall>v. v \<noteq> uid \<longrightarrow> same_account v s s')"
proof -
  define s1 where "s1 = add_audit '''' ''gdpr_erasure_completed'' uid (clear_devices uid (anonymize_columns tk uid s))"
  have a: "anonymizeUser tk uid s = (Inr (), s1)" using row token by (simp add: anonymizeUser_def s1_def)
  have kv: "redis_up (an_app s1)" "redis_kv (an_app s1) = redis_kv (an_app s)"
    using redis by (simp_all add: s1_def anonymized)
  obtain s2 where r: "on_auth (revokeAllUserRefreshTokens now uid) s1 = (Inr (), s2)"
      "\<And>jti. jti \<in> set (r_smembers now (redis_kv (an_app s1)) (userRefreshSetKey uid)) \<Longrightarrow>
         r_get now (redis_kv (an_app s2)) (jtiKey jti) = Some (RStr ''revoked'')"
      "cleared tk uid s2 = cleared tk uid s1" "\<And>w x. same_account w x s2 = same_account w x s1" "an_erasures s2 = an_erasures s1"
    using revoke_effect [OF kv(1)] by metis
  have "s' = finish_job (ej_id j) (markErasureExecuted now (ej_request j) s2)"
    using due pend a r(1) run by (simp add: run_job_def processGdprErasureJob_def)
  then have "cleared tk uid s' = cleared tk uid s2" "\<And>v. same_account v s s' = same_account v s s2" "an_app s' = an_app s2"
      "an_erasures s' = update_where (\<lambda>r. er_id r = ej_request j) (\<lambda>r. r\<lparr>er_executed := Some now\<rparr>) (an_erasures s2)"
    by (simp_all add: finish_job_def markErasureExecuted_def cleared_def same_account_def)
  then show ?thesis
    using r(2-4) kv(2) cleared_anonymize [of tk uid] same_anonymize [of _ uid s] by (auto simp: s1_def update_where_def)
qed

section \<open>Erasures that never happen\<close>

text \<open>The queue documents that a custom job id must not contain a colon, and every id here is \<open>gdpr:\<close> with the
  user's id. When it refuses them, the request is stored and answered with an error; no job ever exists, no request
  is ever executed, and the stored request blocks every further one.\<close>

definition no_jobs :: "account_st \<Rightarrow> bool" where
  "no_jobs s \<longleftrightarrow> an_jobs s = [] \<and> list_all (\<lambda>r. er_executed r = None) (an_erasures s)"

lemma no_jobs_step:
  assumes "\<forall>uid. \<not> accepts (erasureJobId uid)" and "erasure_step is_email uuid accepts s s'" and "no_jobs s"
  shows "no_jobs s'"
proof -
  have refused: "no_jobs (snd (case createErasureRequest now fresh uid adm s of (r, s1) \<Rightarrow>
      and_then (enqueueGdprErasure accepts now uid (er_id r) s1) (f r)))" for now fresh uid adm and f :: "_ \<Rightarrow> _ \<Rightarrow> _ \<Rightarrow> (exn + int) \<times> account_st"
    using assms(1,3) by (simp add: no_jobs_def createErasureRequest_def enqueueGdprErasure_def Let_def)
  from assms(2) show ?thesis
  proof cases
    case (cancel now uid)
    then show ?thesis using assms(3)
      by (auto simp: no_jobs_def delete_delete_account_def cancelGdprErasure_def cancelErasureRequest_def delete_where_def
          list_all_iff update_where_def)
  next
    case (request fresh now uid email)
    show ?thesis unfolding request(1) post_delete_account_def by (simp only: refused assms(3) snd_conv simp_thms split: if_split)
  next
    case (admin fresh now caller uid)
    show ?thesis unfolding admin(1) post_erase_def
      by (cases "requireAdmin caller") (simp_all only: refused assms(3) snd_conv sum.case simp_thms split: if_split)
  qed (use assms(3) in \<open>simp_all add: no_jobs_def finish_job_def update_where_def\<close>)
qed

interpretation refused: transition_system erasure_init "erasure_step is_email uuid (\<lambda>jid. CHR '':'' \<notin> set jid)" no_jobs for is_email uuid
proof
  fix s s'
  show "erasure_init s \<Longrightarrow> no_jobs s" by (simp add: erasure_init_def no_jobs_def)
  show "no_jobs s \<Longrightarrow> erasure_step is_email uuid (\<lambda>jid. CHR '':'' \<notin> set jid) s s' \<Longrightarrow> no_jobs s'"
    by (rule no_jobs_step) (simp_all add: erasureJobId_def)
qed

lemma erasure_refused:
  assumes "erasure_init s0" and "(erasure_step is_email uuid (\<lambda>jid. CHR '':'' \<notin> set jid))\<^sup>*\<^sup>* s0 s" and "r \<in> set (an_erasures s)"
  shows "er_executed r = None"
  using refused.inv_reachable [OF assms(1,2)] assms(3) by (auto simp: no_jobs_def list_all_iff)

text \<open>A finished job keeps its id: after an erasure a second request of the same account gets no job.\<close>

lemma second_request_without_job:
  assumes "list_ex (\<lambda>j. ej_id j = erasureJobId uid \<and> ej_finished j) (an_jobs s)" and "findUserById (an_app s) uid \<noteq> None"
    and "findPendingErasureRequest uid s = None" and "requireAdmin caller = Inr ()" and "uuid uid" and "accepts (erasureJobId uid)"
  shows "\<exists>t s'. post_erase uuid accepts now fresh caller uid s = (Inr t, s') \<and> an_jobs s' = an_jobs s \<and>
    length (an_erasures s') = length (an_erasures s) + 1"
proof -
  have "list_ex (\<lambda>j. ej_id j = erasureJobId uid) (an_jobs s)" using assms(1) by (auto simp: list_ex_iff)
  then show ?thesis using assms by (auto simp: post_erase_def createErasureRequest_def enqueueGdprErasure_def Let_def)
qed

section \<open>Concrete runs\<close>

definition demo_requested :: account_st where
  "demo_requested = snd (post_delete_account (\<lambda>_. True) (\<lambda>_. True) 0 ''q1'' ''ana'' ''A'' demo_accounts)"

definition demo_job :: erasure_job where
  "demo_job = \<lparr>ej_id = ''gdpr:ana'', ej_user = ''ana'', ej_request = ''q1'', ej_due = 2592000000, ej_finished = False\<rparr>"

definition demo_request :: erasure_row where
  "demo_request = \<lparr>er_id = ''q1'', er_user = ''ana'', er_execute_at = 2592000000, er_admin = None, er_cancelled = None,
     er_executed = None, er_created = 0\<rparr>"

lemma demo_requested_eq:
  "demo_requested = demo_accounts\<lparr>an_erasures := [demo_request], an_jobs := [demo_job]\<rparr>"
proof -
  have "toLowerCase (as_email (an_auth demo_accounts) ''ana'') = toLowerCase ''A''"
    "findUserById (an_app demo_accounts) ''ana'' \<noteq> None" by code_simp+
  moreover have "an_erasures demo_accounts = []" "an_jobs demo_accounts = []" by (simp_all add: demo_accounts_def)
  ultimately show ?thesis
    by (simp add: demo_requested_def post_delete_account_def findPendingErasureRequest_def newest_first_def createErasureRequest_def
        enqueueGdprErasure_def grace_ms_def Let_def demo_job_def demo_request_def erasureJobId_def)
qed

definition demo_erased :: account_st where "demo_erased = run_job 2592000000 ''x'' demo_job demo_requested"

lemma demo_pending:
  "findPendingErasureRequest ''ana'' demo_requested = Some demo_request" "redis_up (an_app demo_requested)"
  "list_ex (\<lambda>u. u_id u = ''ana'') (users (an_app demo_requested))"
  "\<not> held_by_other (email_col demo_requested) demo_requested ''ana'' (anonymous_email ''x'')"
  "\<not> held_by_other (lower_username demo_requested) demo_requested ''ana'' (toLowerCase (anonymous_name ''x''))"
  unfolding demo_requested_eq by code_simp+

lemma demo_erased_ids: "list_all (\<lambda>q. er_id q = ''q1'') (an_erasures demo_erased)"
  using process_rows [of 2592000000 "''x''" demo_job demo_requested]
  by (auto simp: demo_erased_def run_job_def finish_job_def demo_requested_eq demo_request_def demo_job_def update_where_def
      split: prod.split sum.split)

lemma demo_job_parts:
  "\<not> ej_finished demo_job" "ej_due demo_job \<le> 2592000000" "er_id demo_request = ej_request demo_job" "ej_user demo_job = ''ana''"
  "ej_request demo_job = ''q1''"
  by (simp_all add: demo_job_def demo_request_def)

theorem erasure_complete_witness:
  "cleared ''x'' ''ana'' demo_erased \<and> list_all (\<lambda>q. er_executed q = Some 2592000000) (an_erasures demo_erased) \<and>
   same_account ''bob'' demo_requested demo_erased"
proof -
  note * = erasure_complete [OF demo_job_parts(4) demo_erased_def [symmetric] demo_job_parts(1,2) demo_pending(1)
      demo_job_parts(3) demo_pending(2-5)]
  then show ?thesis using demo_erased_ids by (auto simp: list_all_iff demo_job_parts)
qed

lemma demo_erased_rows: "list_all (\<lambda>q. er_executed q = Some 2592000000) (an_erasures demo_erased)"
proof -
  obtain s1 where anon: "anonymizeUser ''x'' ''ana'' demo_requested = (Inr (), s1)" and up: "redis_up (an_app s1)"
    using demo_pending(2-5) by (simp add: anonymizeUser_def anonymized)
  obtain s2 where "on_auth (revokeAllUserRefreshTokens 2592000000 ''ana'') s1 = (Inr (), s2)" "an_erasures s2 = an_erasures s1"
    using revoke_effect [OF up] by metis
  then have "an_erasures demo_erased =
      update_where (\<lambda>r. er_id r = ''q1'') (\<lambda>r. r\<lparr>er_executed := Some 2592000000\<rparr>) (an_erasures s1)"
    using anon demo_pending(1)
    by (simp add: demo_erased_def run_job_def processGdprErasureJob_def demo_job_parts demo_job_parts(2) [THEN leD]
        finish_job_def markErasureExecuted_def)
  moreover have "an_erasures s1 = [demo_request]"
    using anonymize_keeps(1) [of "''x''" "''ana''" demo_requested] unfolding anon by (simp add: demo_requested_eq)
  ultimately show ?thesis by (simp add: update_where_def demo_request_def)
qed

theorem erasure_grace_witness:
  "list_all (\<lambda>r. er_executed r = Some 2592000000 \<and> er_cancelled r = None \<and> er_created r + 30 * 24 * 60 * 60 * 1000 \<le> 2592000000)
     (an_erasures demo_erased)"
proof -
  have init: "erasure_init demo_accounts" by (simp add: erasure_init_def demo_accounts_def)
  have "erasure_step (\<lambda>_. True) (\<lambda>_. True) (\<lambda>_. True) demo_accounts demo_requested"
    unfolding demo_requested_def by (rule erasure_step.request) (simp add: demo_accounts_def)
  moreover have "erasure_step (\<lambda>_. True) (\<lambda>_. True) (\<lambda>_. True) demo_requested demo_erased"
    unfolding demo_erased_def by (rule erasure_step.job) (simp add: demo_requested_eq)
  ultimately have reach: "(erasure_step (\<lambda>_. True) (\<lambda>_. True) (\<lambda>_. True))\<^sup>*\<^sup>* demo_accounts demo_erased" by simp
  show ?thesis using demo_erased_rows erasure_grace [OF init reach] by (auto simp: list_all_iff)
qed

end
