(* ===== verification/Multisig.thy ===== *)
theory Multisig
  imports Moderation
begin

text \<open>
  Escrow operations under several signatures (\<open>db/queries/multisig.ts\<close>, \<open>routes/admin/escrow.ts\<close>, and the threshold of
  \<open>routes/admin/config.ts\<close>): administrators register cosigners, propose an operation, attach signatures and submit it
  once the threshold is met. The columns, foreign keys and the missing column \<open>updated_at\<close> of the operations are those of the
  migration \<open>0012-multisig-escrow.sql\<close>. How the database driver hands over a column of type \<open>json\<close> (as parsed value or
  as text), the parser of JSON texts, SHA-256 and the transaction built for a proposal are parameters. The
  free-form metadata of an operation is left out.
\<close>

section \<open>State\<close>

record cosigner =
  co_id :: string
  co_key :: string
  co_name :: string
  co_role :: string

datatype operation_status = OpPending | OpSubmitted | OpFailed | OpExpired

record multisig_operation =
  op_id :: string
  op_escrow :: string
  op_type :: string
  op_xdr :: string
  op_hash :: string
  op_threshold :: int
  op_created_by :: string
  op_created :: int
  op_submitted_by :: "string option"
  op_tx :: "string option"
  op_status :: operation_status
  op_expires :: int

record multisig_signature =
  sg_id :: string
  sg_operation :: string
  sg_signer :: string
  sg_xdr :: string
  sg_at :: int
  sg_role :: string

record multisig_audit_row =
  ma_actor :: string
  ma_action :: string
  ma_signer :: "string option"

record multisig_st =
  ms_cosigners :: "cosigner list"
  ms_operations :: "multisig_operation list"
  ms_signatures :: "multisig_signature list"
  ms_audit :: "multisig_audit_row list"
  ms_required :: "int option"

datatype js_json = JText string | JArray "multisig_signature list"

record multisig_env =
  me_driver :: "multisig_signature list \<Rightarrow> js_json"
  me_parse :: "string \<Rightarrow> multisig_signature list option"
  me_sha256 :: "string \<Rightarrow> string"
  me_uuid :: "string \<Rightarrow> bool"

definition fk_violation :: exn where
  "fk_violation = (js_error ''insert or update violates foreign key constraint'')\<lparr>err_code := Some ''23503''\<rparr>"

definition unique_key_violation :: exn where
  "unique_key_violation = (js_error ''duplicate key value violates unique constraint'')\<lparr>err_code := Some ''23505''\<rparr>"

definition undefined_column :: exn where
  "undefined_column = (js_error ''column updated_at of relation multisig_operations does not exist'')\<lparr>err_code := Some ''42703''\<rparr>"

section \<open>Statements\<close>

definition getCosignerByPublicKey :: "string \<Rightarrow> multisig_st \<Rightarrow> cosigner option" where
  "getCosignerByPublicKey key s = find_row (\<lambda>c. co_key c = key) (ms_cosigners s)"

definition createCosigner :: "string \<Rightarrow> string \<Rightarrow> string \<Rightarrow> string \<Rightarrow> multisig_st \<Rightarrow> (exn + cosigner) \<times> multisig_st" where
  "createCosigner fresh key name role s =
     (if getCosignerByPublicKey key s \<noteq> None then (Inl unique_key_violation, s)
      else let row = \<lparr>co_id = fresh, co_key = key, co_name = name, co_role = role\<rparr>
           in (Inr row, s\<lparr>ms_cosigners := ms_cosigners s @ [row]\<rparr>))"

definition updateCosigner :: "string \<Rightarrow> string option \<Rightarrow> string option \<Rightarrow> multisig_st \<Rightarrow> multisig_st" where
  "updateCosigner i name role s =
     s\<lparr>ms_cosigners := update_where (\<lambda>c. co_id c = i)
        (\<lambda>c. c\<lparr>co_name := (case name of Some n \<Rightarrow> n | None \<Rightarrow> co_name c), co_role := (case role of Some r \<Rightarrow> r | None \<Rightarrow> co_role c)\<rparr>)
        (ms_cosigners s)\<rparr>"

text \<open>A cosigner with a signature cannot be deleted.\<close>

definition removeCosigner :: "string \<Rightarrow> multisig_st \<Rightarrow> (exn + bool) \<times> multisig_st" where
  "removeCosigner i s =
     (if find_row (\<lambda>c. co_id c = i) (ms_cosigners s) = None then (Inr False, s)
      else if list_ex (\<lambda>g. sg_signer g = i) (ms_signatures s) then (Inl fk_violation, s)
      else (Inr True, s\<lparr>ms_cosigners := delete_where (\<lambda>c. co_id c = i) (ms_cosigners s),
              ms_audit := map (\<lambda>a. if ma_signer a = Some i then a\<lparr>ma_signer := None\<rparr> else a) (ms_audit s)\<rparr>))"

definition hashXdr :: "multisig_env \<Rightarrow> string \<Rightarrow> string" where
  "hashXdr env xdr = me_sha256 env xdr"

definition createMultisigOperation ::
  "multisig_env \<Rightarrow> string \<Rightarrow> int \<Rightarrow> string \<Rightarrow> string \<Rightarrow> string \<Rightarrow> int option \<Rightarrow> string \<Rightarrow> multisig_st \<Rightarrow> multisig_operation \<times> multisig_st" where
  "createMultisigOperation env fresh now escrowId ty xdr threshold createdBy s =
     (let row = \<lparr>op_id = fresh, op_escrow = escrowId, op_type = ty, op_xdr = xdr, op_hash = hashXdr env xdr,
          op_threshold = (case threshold of Some t \<Rightarrow> t | None \<Rightarrow> 2), op_created_by = createdBy, op_created = now,
          op_submitted_by = None, op_tx = None, op_status = OpPending, op_expires = now + 24 * 60 * 60 * 1000\<rparr>
      in (row, s\<lparr>ms_operations := ms_operations s @ [row]\<rparr>))"

definition getOperationSignatures :: "string \<Rightarrow> multisig_st \<Rightarrow> multisig_signature list" where
  "getOperationSignatures oid s = sort_key sg_at (filter (\<lambda>g. sg_operation g = oid) (ms_signatures s))"

text \<open>\<open>JSON.parse\<close> turns its argument into a string first: an empty array into the empty string, any other array of objects
  into a text that starts with \<open>[object Object]\<close>; neither is JSON.\<close>

definition json_parse :: "multisig_env \<Rightarrow> js_json \<Rightarrow> exn + multisig_signature list" where
  "json_parse env v =
     (case v of
        JText t \<Rightarrow> (case me_parse env t of Some gs \<Rightarrow> Inr gs | None \<Rightarrow> Inl (js_error ''Unexpected token in JSON''))
      | JArray [] \<Rightarrow> Inl (js_error ''Unexpected end of JSON input'')
      | JArray _ \<Rightarrow> Inl (js_error ''Unexpected token o in JSON at position 1''))"

record operation_detail =
  od_row :: multisig_operation
  od_signatures :: "multisig_signature list"
  od_count :: nat

definition with_signatures :: "multisig_env \<Rightarrow> multisig_st \<Rightarrow> multisig_operation \<Rightarrow> exn + operation_detail" where
  "with_signatures env s r =
     (let gs = filter (\<lambda>g. sg_operation g = op_id r) (ms_signatures s)
      in case json_parse env (me_driver env gs) of
           Inl e \<Rightarrow> Inl e
         | Inr sigs \<Rightarrow> Inr \<lparr>od_row = r, od_signatures = sigs, od_count = length gs\<rparr>)"

definition getOperationById :: "multisig_env \<Rightarrow> string \<Rightarrow> multisig_st \<Rightarrow> exn + operation_detail option" where
  "getOperationById env oid s =
     (case find_row (\<lambda>r. op_id r = oid) (ms_operations s) of
        None \<Rightarrow> Inr None
      | Some r \<Rightarrow> (case with_signatures env s r of Inl e \<Rightarrow> Inl e | Inr d \<Rightarrow> Inr (Some d)))"

fun details :: "multisig_env \<Rightarrow> multisig_st \<Rightarrow> multisig_operation list \<Rightarrow> exn + operation_detail list" where
  "details env s [] = Inr []"
| "details env s (r # rs) =
     (case with_signatures env s r of
        Inl e \<Rightarrow> Inl e
      | Inr d \<Rightarrow> (case details env s rs of Inl e \<Rightarrow> Inl e | Inr ds \<Rightarrow> Inr (d # ds)))"

definition getPendingOperations ::
  "multisig_env \<Rightarrow> operation_status option \<Rightarrow> string option \<Rightarrow> multisig_st \<Rightarrow> exn + operation_detail list" where
  "getPendingOperations env status escrowId s =
     details env s (sort_key (\<lambda>r. - op_created r) (filter (\<lambda>r.
       (case given escrowId of Some e \<Rightarrow> op_escrow r = e | None \<Rightarrow> True) \<and>
       (case status of Some x \<Rightarrow> op_status r = x | None \<Rightarrow> True)) (ms_operations s)))"

text \<open>The upsert of a signature keeps the role it was first stored with.\<close>

definition addSignature ::
  "string \<Rightarrow> int \<Rightarrow> string \<Rightarrow> string \<Rightarrow> string \<Rightarrow> string \<Rightarrow> multisig_st \<Rightarrow> multisig_st" where
  "addSignature fresh now oid signer xdr role s =
     (let slot = (\<lambda>g. sg_operation g = oid \<and> sg_signer g = signer)
      in s\<lparr>ms_signatures :=
            (if find_row slot (ms_signatures s) = None
             then ms_signatures s @ [\<lparr>sg_id = fresh, sg_operation = oid, sg_signer = signer, sg_xdr = xdr, sg_at = now, sg_role = role\<rparr>]
             else update_where slot (\<lambda>g. g\<lparr>sg_xdr := xdr, sg_at := now\<rparr>) (ms_signatures s))\<rparr>)"

text \<open>The statement sets a column the table does not have.\<close>

definition submitOperation :: "string \<Rightarrow> string \<Rightarrow> string \<Rightarrow> multisig_st \<Rightarrow> (exn + unit) \<times> multisig_st" where
  "submitOperation oid tx by_user s = (Inl undefined_column, s)"

definition markOperationFailed :: "string \<Rightarrow> string \<Rightarrow> multisig_st \<Rightarrow> (exn + unit) \<times> multisig_st" where
  "markOperationFailed oid reason s = (Inl undefined_column, s)"

definition logMultisigAudit :: "string \<Rightarrow> string \<Rightarrow> string option \<Rightarrow> multisig_st \<Rightarrow> (exn + unit) \<times> multisig_st" where
  "logMultisigAudit actor action signer s =
     (if (case signer of None \<Rightarrow> False | Some i \<Rightarrow> find_row (\<lambda>c. co_id c = i) (ms_cosigners s) = None) then (Inl fk_violation, s)
      else (Inr (), s\<lparr>ms_audit := ms_audit s @ [\<lparr>ma_actor = actor, ma_action = action, ma_signer = signer\<rparr>]\<rparr>))"

section \<open>Routes\<close>

definition as_admin :: "auth_payload \<Rightarrow> (multisig_st \<Rightarrow> (exn + 'a) \<times> multisig_st) \<Rightarrow> multisig_st \<Rightarrow> (exn + 'a) \<times> multisig_st" where
  "as_admin caller f s = (case requireAdmin caller of Inl e \<Rightarrow> (Inl e, s) | Inr _ \<Rightarrow> f s)"

definition get_cosigners :: "auth_payload \<Rightarrow> multisig_st \<Rightarrow> (exn + cosigner list) \<times> multisig_st" where
  "get_cosigners caller = as_admin caller (\<lambda>s. (Inr (sort_key (\<lambda>c. (co_role c, co_name c)) (ms_cosigners s)), s))"

definition post_cosigner :: "string \<Rightarrow> auth_payload \<Rightarrow> string \<Rightarrow> string \<Rightarrow> string \<Rightarrow> multisig_st \<Rightarrow> (exn + cosigner) \<times> multisig_st" where
  "post_cosigner fresh caller key name role = as_admin caller (\<lambda>s.
     if getCosignerByPublicKey key s \<noteq> None then (Inl (createError ''Cosigner with this public key already exists'' 409 None), s)
     else and_then (createCosigner fresh key name role s) (\<lambda>c s1.
       and_then (logMultisigAudit (ap_sub caller) ''add_signer'' (Some (co_id c)) s1) (\<lambda>_ s2. (Inr c, s2))))"

definition patch_cosigner ::
  "multisig_env \<Rightarrow> auth_payload \<Rightarrow> string \<Rightarrow> string option \<Rightarrow> string option \<Rightarrow> multisig_st \<Rightarrow> (exn + unit) \<times> multisig_st" where
  "patch_cosigner env caller i name role = as_admin caller (\<lambda>s.
     if \<not> me_uuid env i then (Inl zod_error, s)
     else if find_row (\<lambda>c. co_id c = i) (ms_cosigners s) = None then (Inl (createError ''Cosigner not found'' 404 None), s)
     else logMultisigAudit (ap_sub caller) ''update_signer'' (Some i) (updateCosigner i name role s))"

definition delete_cosigner :: "multisig_env \<Rightarrow> auth_payload \<Rightarrow> string \<Rightarrow> multisig_st \<Rightarrow> (exn + unit) \<times> multisig_st" where
  "delete_cosigner env caller i = as_admin caller (\<lambda>s.
     if \<not> me_uuid env i then (Inl zod_error, s)
     else and_then (removeCosigner i s) (\<lambda>removed s1.
       if \<not> removed then (Inl (createError ''Cosigner not found'' 404 None), s1)
       else logMultisigAudit (ap_sub caller) ''remove_signer'' (Some i) s1))"

definition get_operations ::
  "multisig_env \<Rightarrow> auth_payload \<Rightarrow> operation_status option \<Rightarrow> string option \<Rightarrow> multisig_st \<Rightarrow> (exn + operation_detail list) \<times> multisig_st" where
  "get_operations env caller status escrowId = as_admin caller (\<lambda>s.
     if (case escrowId of Some e \<Rightarrow> \<not> me_uuid env e | None \<Rightarrow> False) then (Inl zod_error, s)
     else (getPendingOperations env status escrowId s, s))"

definition get_operation :: "multisig_env \<Rightarrow> auth_payload \<Rightarrow> string \<Rightarrow> multisig_st \<Rightarrow> (exn + operation_detail) \<times> multisig_st" where
  "get_operation env caller oid = as_admin caller (\<lambda>s.
     if \<not> me_uuid env oid then (Inl zod_error, s)
     else (case getOperationById env oid s of
             Inl e \<Rightarrow> (Inl e, s)
           | Inr None \<Rightarrow> (Inl (createError ''Operation not found'' 404 None), s)
           | Inr (Some d) \<Rightarrow> (Inr d, s)))"

text \<open>\<open>built\<close> is the envelope of the transaction, or the error of the ledger client; the body repeats the escrow id.\<close>

definition operation_types :: "string list" where
  "operation_types = [''withdraw'', ''close_escrow'', ''distribute'']"

definition post_propose ::
  "multisig_env \<Rightarrow> exn + string \<Rightarrow> string \<Rightarrow> int \<Rightarrow> auth_payload \<Rightarrow> string \<Rightarrow> string \<Rightarrow> string \<Rightarrow> multisig_st \<Rightarrow>
     (exn + multisig_operation) \<times> multisig_st" where
  "post_propose env built fresh now caller escrowId bodyEscrow ty = as_admin caller (\<lambda>s.
     if \<not> me_uuid env escrowId \<or> \<not> me_uuid env bodyEscrow \<or> ty \<notin> set operation_types then (Inl zod_error, s)
     else
       let threshold = (case ms_required s of Some r \<Rightarrow> r | None \<Rightarrow> 2)
       in case built of
            Inl e \<Rightarrow> (Inl e, s)
          | Inr xdr \<Rightarrow> (case createMultisigOperation env fresh now escrowId ty xdr (Some threshold) (ap_sub caller) s of
              (r, s1) \<Rightarrow> and_then (logMultisigAudit (ap_sub caller) ''multisig_propose'' None s1) (\<lambda>_ s2. (Inr r, s2))))"

definition status_text :: "operation_status \<Rightarrow> string" where
  "status_text st = (case st of OpPending \<Rightarrow> ''pending'' | OpSubmitted \<Rightarrow> ''submitted'' | OpFailed \<Rightarrow> ''failed'' | OpExpired \<Rightarrow> ''expired'')"

text \<open>The answer: the number of signatures and whether the threshold is met.\<close>

definition post_cosign ::
  "multisig_env \<Rightarrow> string \<Rightarrow> int \<Rightarrow> auth_payload \<Rightarrow> string \<Rightarrow> string \<Rightarrow> string \<Rightarrow> string \<Rightarrow> multisig_st \<Rightarrow> (exn + nat \<times> bool) \<times> multisig_st" where
  "post_cosign env fresh now caller oid bodyOperation xdr signerKey = as_admin caller (\<lambda>s.
     if \<not> me_uuid env oid \<or> \<not> me_uuid env bodyOperation then (Inl zod_error, s)
     else (case getOperationById env oid s of
        Inl e \<Rightarrow> (Inl e, s)
      | Inr None \<Rightarrow> (Inl (createError ''Operation not found'' 404 None), s)
      | Inr (Some d) \<Rightarrow>
          if op_status (od_row d) \<noteq> OpPending
          then (Inl (createError (''Operation is '' @ status_text (op_status (od_row d)) @ '', cannot add signature'') 409 None), s)
          else (case getCosignerByPublicKey signerKey s of
             None \<Rightarrow> (Inl (createError ''Signer not registered'' 400 None), s)
           | Some c \<Rightarrow>
               let s1 = addSignature fresh now oid (co_id c) xdr (co_role c) s; n = length (getOperationSignatures oid s1)
               in and_then (logMultisigAudit (ap_sub caller) ''multisig_cosign'' None s1)
                    (\<lambda>_ s2. (Inr (n, op_threshold (od_row d) \<le> int n), s2)))))"

text \<open>Nothing is sent to the ledger: the hash is made up from the id of the operation.\<close>

definition post_submit :: "multisig_env \<Rightarrow> auth_payload \<Rightarrow> string \<Rightarrow> multisig_st \<Rightarrow> (exn + string) \<times> multisig_st" where
  "post_submit env caller oid = as_admin caller (\<lambda>s.
     if \<not> me_uuid env oid then (Inl zod_error, s)
     else (case getOperationById env oid s of
        Inl e \<Rightarrow> (Inl e, s)
      | Inr None \<Rightarrow> (Inl (createError ''Operation not found'' 404 None), s)
      | Inr (Some d) \<Rightarrow>
          if op_status (od_row d) \<noteq> OpPending
          then (Inl (createError (''Operation is already '' @ status_text (op_status (od_row d))) 409 None), s)
          else if int (od_count d) < op_threshold (od_row d)
          then (Inl (createError (''Insufficient signatures: have '' @ string_of_nat (od_count d) @ '', need '' @
                  string_of_int (op_threshold (od_row d))) 400 None), s)
          else
            let mockTxHash = ''mock_'' @ take 8 (op_id (od_row d))
            in (case and_then (submitOperation oid mockTxHash (ap_sub caller) s)
                      (\<lambda>_ s1. logMultisigAudit (ap_sub caller) ''multisig_submit'' None s1) of
                 (Inr _, s1) \<Rightarrow> (Inr mockTxHash, s1)
               | (Inl _, s1) \<Rightarrow> (Inl (createError ''Failed to submit operation to Stellar'' 500 (Some ''STELLAR_SUBMISSION_FAILED'')), s1))))"

text \<open>\<open>PATCH /admin/config/escrow_multisig_threshold\<close>: the two numbers are not compared. The row that
  \<open>setConfig\<close> adds to the general audit log is left out.\<close>

definition patch_threshold :: "auth_payload \<Rightarrow> int \<Rightarrow> int \<Rightarrow> multisig_st \<Rightarrow> (exn + unit) \<times> multisig_st" where
  "patch_threshold caller required signers = as_admin caller (\<lambda>s.
     if required < 1 \<or> signers < 1 then (Inl zod_error, s) else (Inr (), s\<lparr>ms_required := Some required\<rparr>))"

section \<open>Quorum\<close>

inductive multisig_step :: "multisig_env \<Rightarrow> multisig_st \<Rightarrow> multisig_st \<Rightarrow> bool" for env where
  propose: "fresh \<notin> op_id ` set (ms_operations s) \<Longrightarrow>
     multisig_step env s (snd (post_propose env built fresh now caller eid eid' ty s))"
| cosign: "multisig_step env s (snd (post_cosign env fresh now caller oid oid' xdr key s))"
| submit: "multisig_step env s (snd (post_submit env caller oid s))"
| add: "fresh \<notin> co_id ` set (ms_cosigners s) \<Longrightarrow> multisig_step env s (snd (post_cosigner fresh caller key name role s))"
| patch: "multisig_step env s (snd (patch_cosigner env caller i n r s))"
| remove: "multisig_step env s (snd (delete_cosigner env caller i s))"
| threshold: "multisig_step env s (snd (patch_threshold caller required signers s))"

inductive_cases multisig_stepE: "multisig_step env s s'"

definition ops_ok :: "multisig_st \<Rightarrow> bool" where
  "ops_ok s \<longleftrightarrow> unique_by op_id (ms_operations s) \<and>
     list_all (\<lambda>r. op_status r = OpPending \<and> op_tx r = None \<and> 1 \<le> op_threshold r) (ms_operations s) \<and>
     (case ms_required s of Some r \<Rightarrow> 1 \<le> r | None \<Rightarrow> True)"

definition sigs_ok :: "multisig_st \<Rightarrow> bool" where
  "sigs_ok s \<longleftrightarrow> unique_by co_id (ms_cosigners s) \<and> unique_by co_key (ms_cosigners s) \<and>
     unique_by (\<lambda>g. (sg_operation g, sg_signer g)) (ms_signatures s) \<and>
     sg_signer ` set (ms_signatures s) \<subseteq> co_id ` set (ms_cosigners s) \<and>
     sg_operation ` set (ms_signatures s) \<subseteq> op_id ` set (ms_operations s)"

definition multisig_inv :: "multisig_st \<Rightarrow> bool" where
  "multisig_inv s \<longleftrightarrow> ops_ok s \<and> sigs_ok s"

definition multisig_init :: "multisig_st \<Rightarrow> bool" where
  "multisig_init s \<longleftrightarrow> ms_cosigners s = [] \<and> ms_operations s = [] \<and> ms_signatures s = [] \<and> ms_required s = Some 2"

lemma log_keeps [simp]:
  "ms_cosigners (snd (logMultisigAudit a b c s)) = ms_cosigners s" "ms_operations (snd (logMultisigAudit a b c s)) = ms_operations s"
  "ms_signatures (snd (logMultisigAudit a b c s)) = ms_signatures s" "ms_required (snd (logMultisigAudit a b c s)) = ms_required s"
  by (simp_all add: logMultisigAudit_def)

lemma log_plain: "logMultisigAudit a b None s = (Inr (), s\<lparr>ms_audit := ms_audit s @ [\<lparr>ma_actor = a, ma_action = b, ma_signer = None\<rparr>]\<rparr>)"
  by (simp add: logMultisigAudit_def)

lemma multisig_inv_audit [simp]: "multisig_inv (s\<lparr>ms_audit := lg\<rparr>) = multisig_inv s"
  by (simp add: multisig_inv_def ops_ok_def sigs_ok_def)

lemma multisig_inv_log: "multisig_inv s \<Longrightarrow> multisig_inv (snd (logMultisigAudit a b c s))"
  by (simp add: logMultisigAudit_def)

lemma inv_propose:
  assumes "multisig_inv s" and "fresh \<notin> op_id ` set (ms_operations s)"
  shows "multisig_inv (snd (post_propose env built fresh now caller eid eid' ty s))"
proof -
  have "multisig_inv (snd (createMultisigOperation env fresh now eid ty xdr (Some (case ms_required s of Some r \<Rightarrow> r | None \<Rightarrow> 2)) by_user s))"
    for xdr by_user
    using assms
    by (auto simp: createMultisigOperation_def Let_def multisig_inv_def ops_ok_def sigs_ok_def unique_by_snoc find_row_None image_iff
        split: option.splits)
  then show ?thesis using assms(1)
    by (simp add: post_propose_def as_admin_def createMultisigOperation_def Let_def log_plain split: sum.split)
qed

lemma inv_add_signature:
  assumes "multisig_inv s" and "c \<in> set (ms_cosigners s)" and "r \<in> set (ms_operations s)"
  shows "multisig_inv (addSignature fresh now (op_id r) (co_id c) xdr role s)"
proof -
  have "unique_by (\<lambda>g. (sg_operation g, sg_signer g))
     (update_where P (\<lambda>g. g\<lparr>sg_xdr := xdr, sg_at := now\<rparr>) (ms_signatures s))" for P
    using assms(1) by (subst unique_by_update) (simp_all add: multisig_inv_def sigs_ok_def)
  then show ?thesis using assms
    by (auto simp: addSignature_def Let_def multisig_inv_def ops_ok_def sigs_ok_def unique_by_snoc find_row_None set_update_where)
qed

lemma operation_found:
  assumes "getOperationById env oid s = Inr (Some d)"
  shows "od_row d \<in> set (ms_operations s) \<and> op_id (od_row d) = oid \<and> od_count d = length (filter (\<lambda>g. sg_operation g = oid) (ms_signatures s))"
  using assms by (auto simp: getOperationById_def with_signatures_def Let_def dest: find_row_Some split: option.splits sum.splits)

lemma inv_cosign:
  assumes "multisig_inv s"
  shows "multisig_inv (snd (post_cosign env fresh now caller oid oid' xdr key s))"
proof -
  have "multisig_inv (addSignature fresh now oid (co_id c) xdr (co_role c) s)"
    if "getOperationById env oid s = Inr (Some d)" "getCosignerByPublicKey key s = Some c" for d c
    using inv_add_signature [OF assms, of c "od_row d"] operation_found [OF that(1)] that(2)
    by (auto simp: getCosignerByPublicKey_def dest: find_row_Some)
  then show ?thesis using assms by (simp add: post_cosign_def as_admin_def Let_def log_plain split: sum.split option.split)
qed

text \<open>A submission never changes the state.\<close>

lemma submit_same: "snd (post_submit env caller oid s) = s"
  by (simp add: post_submit_def as_admin_def submitOperation_def Let_def split: sum.split option.split)

lemma inv_cosigners:
  assumes "multisig_inv s"
  shows "fresh \<notin> co_id ` set (ms_cosigners s) \<Longrightarrow> multisig_inv (snd (post_cosigner fresh caller key name role s))"
    and "multisig_inv (snd (patch_cosigner env caller i n r s))" and "multisig_inv (snd (delete_cosigner env caller i s))"
proof -
  have upd: "multisig_inv (updateCosigner i n r s)"
  proof -
    let ?f = "\<lambda>c. c\<lparr>co_name := (case n of Some n \<Rightarrow> n | None \<Rightarrow> co_name c), co_role := (case r of Some r \<Rightarrow> r | None \<Rightarrow> co_role c)\<rparr>"
    have "co_id ` set (update_where (\<lambda>c. co_id c = i) ?f (ms_cosigners s)) = co_id ` set (ms_cosigners s)"
      by (rule image_update_where) simp
    then show ?thesis using assms by (simp add: updateCosigner_def multisig_inv_def ops_ok_def sigs_ok_def unique_by_update)
  qed
  show "multisig_inv (snd (patch_cosigner env caller i n r s))"
    using assms upd by (simp add: patch_cosigner_def as_admin_def multisig_inv_log split: sum.split)
  have "co_id ` set (delete_where (\<lambda>c. co_id c = i) (ms_cosigners s)) = co_id ` set (ms_cosigners s) - {i}"
    by (auto simp: set_delete_where)
  then have rem: "multisig_inv (snd (removeCosigner i s))"
    using assms by (auto simp: removeCosigner_def multisig_inv_def ops_ok_def sigs_ok_def unique_by_delete list_ex_iff)
  show "multisig_inv (snd (delete_cosigner env caller i s))"
    using assms rem by (cases "removeCosigner i s") (simp add: delete_cosigner_def as_admin_def and_then_def multisig_inv_log split: sum.split)
  assume fresh: "fresh \<notin> co_id ` set (ms_cosigners s)"
  have "multisig_inv (snd (createCosigner fresh key name role s))"
    using assms fresh by (auto simp: createCosigner_def getCosignerByPublicKey_def Let_def multisig_inv_def ops_ok_def sigs_ok_def
        unique_by_snoc find_row_None image_iff)
  then show "multisig_inv (snd (post_cosigner fresh caller key name role s))"
    using assms multisig_inv_log by (cases "createCosigner fresh key name role s")
      (simp add: post_cosigner_def as_admin_def and_then_def logMultisigAudit_def split: sum.split)
qed

interpretation multisig: transition_system multisig_init "multisig_step env" multisig_inv for env
proof
  fix s s'
  show "multisig_init s \<Longrightarrow> multisig_inv s" by (simp add: multisig_init_def multisig_inv_def ops_ok_def sigs_ok_def)
  assume inv: "multisig_inv s" and "multisig_step env s s'"
  from this(2) show "multisig_inv s'"
  proof cases
    case (threshold caller required signers)
    then show ?thesis using inv
      by (auto simp: patch_threshold_def as_admin_def multisig_inv_def ops_ok_def sigs_ok_def split: sum.split)
  qed (use inv in \<open>simp_all add: inv_propose inv_cosign submit_same inv_cosigners\<close>)
qed
text \<open>(C21) A submission passes its checks only with a quorum: signatures of as many different registered cosigners as the operation
  requires, at least one. Nothing is ever submitted: every operation stays pending, whatever the driver.\<close>

theorem multisig_quorum:
  assumes "multisig_init s0" and "(multisig_step env)\<^sup>*\<^sup>* s0 s"
  shows "list_all (\<lambda>r. op_status r = OpPending \<and> op_tx r = None) (ms_operations s) \<and>
    (case fst (post_submit env caller oid s) of
       Inr tx \<Rightarrow> False
     | Inl e \<Rightarrow> err_code e = Some ''STELLAR_SUBMISSION_FAILED'' \<longrightarrow>
         (\<exists>r \<in> set (ms_operations s). op_id r = oid \<and>
            (let signers = map sg_signer (filter (\<lambda>g. sg_operation g = oid) (ms_signatures s))
             in distinct signers \<and> set signers \<subseteq> co_id ` set (ms_cosigners s) \<and>
                1 \<le> op_threshold r \<and> op_threshold r \<le> int (length signers))))"
proof -
  have inv: "multisig_inv s" using multisig.inv_reachable [OF assms] .
  have dist: "distinct (map sg_signer (filter (\<lambda>g. sg_operation g = oid) (ms_signatures s)))"
  proof -
    have "distinct (map (\<lambda>g. (sg_operation g, sg_signer g)) (filter (\<lambda>g. sg_operation g = oid) (ms_signatures s)))"
      using inv by (simp add: multisig_inv_def sigs_ok_def unique_by_def distinct_map_filter)
    then show ?thesis by (auto simp: distinct_map inj_on_def)
  qed
  have quorum: "\<exists>r \<in> set (ms_operations s). op_id r = oid \<and> 1 \<le> op_threshold r \<and>
       op_threshold r \<le> int (length (filter (\<lambda>g. sg_operation g = oid) (ms_signatures s)))"
    if "getOperationById env oid s = Inr (Some d)" "\<not> int (od_count d) < op_threshold (od_row d)" for d
    using operation_found [OF that(1)] that(2) inv
    by (intro bexI [of _ "od_row d"]) (auto simp: multisig_inv_def ops_ok_def list_all_iff)
  have plain: "err_code e \<noteq> Some ''STELLAR_SUBMISSION_FAILED''" if "getOperationById env oid s = Inl e" for e
    using that by (auto simp: getOperationById_def with_signatures_def json_parse_def Let_def js_error_def
        split: option.splits sum.splits js_json.splits list.splits)
  have "case fst (post_submit env caller oid s) of
       Inr tx \<Rightarrow> False
     | Inl e \<Rightarrow> err_code e = Some ''STELLAR_SUBMISSION_FAILED'' \<longrightarrow> (\<exists>r \<in> set (ms_operations s). op_id r = oid \<and> 1 \<le> op_threshold r \<and>
         op_threshold r \<le> int (length (filter (\<lambda>g. sg_operation g = oid) (ms_signatures s))))"
    using quorum plain
    by (auto simp: post_submit_def as_admin_def requireAdmin_def submitOperation_def Let_def createError_def zod_error_def js_error_def
        split: sum.splits option.splits)
  moreover have "list_all (\<lambda>r. op_status r = OpPending \<and> op_tx r = None) (ms_operations s)"
    using inv by (simp add: multisig_inv_def ops_ok_def list_all_iff)
  moreover have "sg_signer ` {g \<in> set (ms_signatures s). sg_operation g = oid} \<subseteq> co_id ` set (ms_cosigners s)"
    using inv by (auto simp: multisig_inv_def sigs_ok_def)
  ultimately show ?thesis using dist by (auto simp: Let_def split: sum.splits)
qed

section \<open>The driver\<close>

text \<open>With a driver that hands over \<open>json\<close> columns as parsed values, as node-postgres documents, reading an existing operation
  throws.\<close>

lemma operation_unreadable:
  assumes "\<And>gs. me_driver env gs = JArray gs"
  shows "getOperationById env oid s \<noteq> Inr (Some d)"
proof -
  have "\<not> (\<exists>gs'. json_parse env (JArray gs) = Inr gs')" for gs by (cases gs) (simp_all add: json_parse_def)
  then show ?thesis
    using assms by (auto simp: getOperationById_def with_signatures_def Let_def split: option.splits sum.splits)
qed

text \<open>Then no signature is ever stored: no request to sign or to submit an operation succeeds, so that the procedure cannot be
  completed.\<close>

theorem multisig_blocked:
  assumes driver: "\<And>gs. me_driver env gs = JArray gs" and "multisig_init s0" and "(multisig_step env)\<^sup>*\<^sup>* s0 s"
  shows "ms_signatures s = [] \<and> (\<exists>e. post_cosign env fresh now caller oid oid' xdr key s = (Inl e, s)) \<and>
    (\<exists>e. post_submit env caller oid s = (Inl e, s)) \<and>
    (ms_operations s \<noteq> [] \<longrightarrow> (\<exists>e. getPendingOperations env None None s = Inl e))"
proof -
  have sign: "\<exists>e. post_cosign env fresh now caller oid oid' xdr key s = (Inl e, s)" for fresh now caller oid oid' xdr key s
    using operation_unreadable [OF driver, of oid s]
    by (auto simp: post_cosign_def as_admin_def split: sum.split option.split)
  have submit: "\<exists>e. post_submit env caller oid s = (Inl e, s)" for caller oid s
    using operation_unreadable [OF driver, of oid s]
    by (auto simp: post_submit_def as_admin_def split: sum.split option.split)
  have step: "multisig_step env s s' \<Longrightarrow> ms_signatures s = [] \<Longrightarrow> ms_signatures s' = []" for s s'
  proof (induction rule: multisig_step.induct)
    case (propose fresh s built now caller eid eid' ty)
    then show ?case by (auto simp: post_propose_def as_admin_def createMultisigOperation_def Let_def log_plain split: sum.split)
  next
    case (cosign s fresh now caller oid oid' xdr key)
    then show ?case using sign [of fresh now caller oid oid' xdr key s] by auto
  next
    case (submit s caller oid)
    then show ?case by (simp add: submit_same)
  qed (auto simp: post_cosigner_def patch_cosigner_def delete_cosigner_def patch_threshold_def as_admin_def createCosigner_def
      updateCosigner_def removeCosigner_def Let_def and_then_def logMultisigAudit_def split: sum.splits prod.splits if_splits)
  have "ms_signatures s = []" using assms(3,2) by (induction rule: rtranclp_induct) (auto simp: multisig_init_def step)
  moreover have "\<exists>e. getPendingOperations env None None s = Inl e" if "ms_operations s \<noteq> []"
  proof -
    have "length (sort_key (\<lambda>r. - op_created r) (ms_operations s)) \<noteq> 0" using that by simp
    then obtain r rs where rs: "sort_key (\<lambda>r. - op_created r) (ms_operations s) = r # rs"
      by (cases "sort_key (\<lambda>r. - op_created r) (ms_operations s)") auto
    have "\<exists>e. with_signatures env s r = Inl e"
      unfolding with_signatures_def Let_def driver json_parse_def by (auto split: list.split)
    then show ?thesis using rs by (auto simp: getPendingOperations_def given_def)
  qed
  ultimately show ?thesis using sign submit by blast
qed
text \<open>Removing a cosigner deletes the row and then fails, because the audit row refers to the deleted one.\<close>

lemma removal_reported_failed:
  assumes "requireAdmin caller = Inr ()" and "me_uuid env i" and "find_row (\<lambda>c. co_id c = i) (ms_cosigners s) \<noteq> None"
    and "\<not> list_ex (\<lambda>g. sg_signer g = i) (ms_signatures s)"
  shows "\<exists>s'. delete_cosigner env caller i s = (Inl fk_violation, s') \<and> find_row (\<lambda>c. co_id c = i) (ms_cosigners s') = None"
  using assms by (auto simp: delete_cosigner_def as_admin_def removeCosigner_def logMultisigAudit_def find_row_None set_delete_where)

section \<open>Examples\<close>

definition demo_multisig :: multisig_st where
  "demo_multisig = \<lparr>ms_cosigners = [], ms_operations = [], ms_signatures = [], ms_audit = [], ms_required = Some 2\<rparr>"

definition text_driver :: multisig_env where
  "text_driver = \<lparr>me_driver = (\<lambda>gs. JText ''[]''), me_parse = (\<lambda>t. Some []), me_sha256 = (\<lambda>x. x), me_uuid = (\<lambda>_. True)\<rparr>"

definition array_driver :: multisig_env where
  "array_driver = text_driver\<lparr>me_driver := JArray\<rparr>"

definition demo_proposed :: "multisig_env \<Rightarrow> multisig_st" where
  "demo_proposed env = snd (post_propose env (Inr ''AAAA'') ''o1'' 5 demo_admin ''e1'' ''e1'' ''withdraw''
     (snd (post_cosigner ''k2'' demo_admin ''GB'' ''second'' ''hardware_wallet_2''
       (snd (post_cosigner ''k1'' demo_admin ''GA'' ''first'' ''hardware_wallet_1'' demo_multisig)))))"

text \<open>One administrator signs for both cosigners, with any text in place of a signature.\<close>

definition demo_signed :: multisig_st where
  "demo_signed = snd (post_cosign text_driver ''g2'' 7 demo_admin ''o1'' ''o1'' ''anything'' ''GB''
     (snd (post_cosign text_driver ''g1'' 6 demo_admin ''o1'' ''o1'' ''anything'' ''GA'' (demo_proposed text_driver))))"

lemma demo_multisig_init: "multisig_init demo_multisig"
  by (simp add: multisig_init_def demo_multisig_def)

lemma demo_proposed_reach: "(multisig_step env)\<^sup>*\<^sup>* demo_multisig (demo_proposed env)"
proof -
  let ?a = "snd (post_cosigner ''k1'' demo_admin ''GA'' ''first'' ''hardware_wallet_1'' demo_multisig)"
  let ?b = "snd (post_cosigner ''k2'' demo_admin ''GB'' ''second'' ''hardware_wallet_2'' ?a)"
  have "map co_id (ms_cosigners ?a) = [''k1'']" "ms_operations ?b = []" by code_simp+
  then have "''k2'' \<notin> co_id ` set (ms_cosigners ?a)" "''o1'' \<notin> op_id ` set (ms_operations ?b)"
    by (auto simp: set_map [symmetric] simp del: set_map)
  then have "multisig_step env demo_multisig ?a" "multisig_step env ?a ?b" "multisig_step env ?b (demo_proposed env)"
    unfolding demo_proposed_def by (auto intro!: multisig_step.add multisig_step.propose simp: demo_multisig_def)
  then show ?thesis by (meson converse_rtranclp_into_rtranclp rtranclp.rtrancl_refl)
qed

lemma one_admin_quorum:
  "fst (post_cosign text_driver ''g2'' 7 demo_admin ''o1'' ''o1'' ''anything'' ''GB''
     (snd (post_cosign text_driver ''g1'' 6 demo_admin ''o1'' ''o1'' ''anything'' ''GA'' (demo_proposed text_driver)))) = Inr (2, True)"
  by code_simp

theorem multisig_quorum_witness:
  "err_code (projl (fst (post_submit text_driver demo_admin ''o1'' demo_signed))) = Some ''STELLAR_SUBMISSION_FAILED'' \<and>
   (let signers = map sg_signer (filter (\<lambda>g. sg_operation g = ''o1'') (ms_signatures demo_signed))
    in distinct signers \<and> 2 \<le> length signers) \<and> list_all (\<lambda>r. op_status r = OpPending) (ms_operations demo_signed)"
proof -
  have "(multisig_step text_driver)\<^sup>*\<^sup>* demo_multisig demo_signed"
    unfolding demo_signed_def using demo_proposed_reach by (meson multisig_step.cosign rtranclp.rtrancl_into_rtrancl)
  note q = multisig_quorum [OF demo_multisig_init this, where caller = demo_admin and oid = "''o1''"]
  have "fst (post_submit text_driver demo_admin ''o1'' demo_signed) =
      Inl (createError ''Failed to submit operation to Stellar'' 500 (Some ''STELLAR_SUBMISSION_FAILED''))" by code_simp
  moreover have "list_all (\<lambda>r. op_threshold r = 2) (ms_operations demo_signed)" by code_simp
  ultimately show ?thesis using q by (auto simp: Let_def list_all_iff createError_def js_error_def)
qed

theorem multisig_blocked_witness:
  "ms_signatures (demo_proposed array_driver) = [] \<and> isl (getPendingOperations array_driver None None (demo_proposed array_driver)) \<and>
   isl (fst (post_cosign array_driver ''g1'' 6 demo_admin ''o1'' ''o1'' ''anything'' ''GA'' (demo_proposed array_driver)))"
proof -
  have "me_driver array_driver gs = JArray gs" for gs by (simp add: array_driver_def)
  from multisig_blocked [OF this demo_multisig_init demo_proposed_reach, where fresh = "''g1''" and now = 6 and caller = demo_admin and oid = "''o1''" and oid' = "''o1''" and xdr = "''anything''" and key = "''GA''"]
  have b: "ms_signatures (demo_proposed array_driver) = []"
    "\<exists>e. post_cosign array_driver ''g1'' 6 demo_admin ''o1'' ''o1'' ''anything'' ''GA'' (demo_proposed array_driver) = (Inl e, demo_proposed array_driver)"
    "ms_operations (demo_proposed array_driver) \<noteq> [] \<longrightarrow> (\<exists>e. getPendingOperations array_driver None None (demo_proposed array_driver) = Inl e)"
    by blast+
  have "map op_id (ms_operations (demo_proposed array_driver)) = [''o1'']" by code_simp
  then have "ms_operations (demo_proposed array_driver) \<noteq> []" by auto
  with b show ?thesis by auto
qed
end
