(* ===== verification/Deposits.thy ===== *)
theory Deposits
  imports Payout Bytes
begin

text \<open>
  Money coming in: the deposit monitor (\<open>apps/deposit-monitor/src/index.ts\<close>, with
  \<open>packages/stellar/src/deposit.ts\<close>) polls the ledger and calls the deposit webhook of the API
  (\<open>middleware/verify-webhook.ts\<close>, \<open>routes/webhooks.ts\<close>), which activates the challenge the memo names; an
  administrator may refund a deposit (\<open>services/refund.ts\<close>). The two processes are composed: a poll of the
  monitor runs the webhook handler on the state of the API. The ledger, Horizon, the HMAC and the UUID
  format of the schema library are parameters.
\<close>

section \<open>Deposit memos and events\<close>

text \<open>\<open>toString("base64url")\<close>: groups of three bytes, without padding.\<close>

definition BASE64URL :: string where
  "BASE64URL = ''ABCDEFGHIJKLMNOPQRSTUVWXYZabcdefghijklmnopqrstuvwxyz0123456789-_''"

fun base64url :: "byte list \<Rightarrow> string" where
  "base64url (a # b # c # rest) =
     map (\<lambda>i. BASE64URL ! i)
       [unat a div 4, (unat a mod 4) * 16 + unat b div 16, (unat b mod 16) * 4 + unat c div 64, unat c mod 64]
     @ base64url rest"
| "base64url [a, b] =
     map (\<lambda>i. BASE64URL ! i) [unat a div 4, (unat a mod 4) * 16 + unat b div 16, (unat b mod 16) * 4]"
| "base64url [a] = map (\<lambda>i. BASE64URL ! i) [unat a div 4, (unat a mod 4) * 16]"
| "base64url [] = []"

text \<open>The argument is the result of \<open>randomBytes\<close>, of which the first 18 are used.\<close>

definition generateDepositMemo :: "byte list \<Rightarrow> string" where
  "generateDepositMemo rnd = base64url (take 18 rnd)"

datatype memo_check = MemoValid string | MemoMissing | MemoInvalidFormat

definition utf8_length :: "string \<Rightarrow> nat" where
  "utf8_length s = sum_list (map (\<lambda>c. if (of_char c :: nat) < 128 then 1 else 2) s)"

definition is_control :: "char \<Rightarrow> bool" where
  "is_control c \<longleftrightarrow> (of_char c :: nat) < 32 \<or> (of_char c :: nat) = 127"

definition validateDepositMemo :: "string option \<Rightarrow> memo_check" where
  "validateDepositMemo memo =
     (case memo of
        None \<Rightarrow> MemoMissing
      | Some m \<Rightarrow>
          if trim m = [] then MemoMissing
          else if 28 < utf8_length m \<or> list_ex is_control m then MemoInvalidFormat
          else MemoValid m)"

text \<open>An event of the ledger: the closing time is missing, unreadable or a time. The details of a
  transaction are whether it succeeded and its text memo. The health response may lack the ledger.\<close>

record rpc_event =
  re_txHash :: string
  re_value :: "string option"
  re_ledger :: int
  re_closedAt :: "int option option"

record rpc_server =
  rp_getEvents :: "int \<Rightarrow> nat \<Rightarrow> stellar_err + rpc_event list \<times> int"
  rp_getTransaction :: "string \<Rightarrow> nat \<Rightarrow> stellar_err + bool \<times> string option"
  rp_getHealth :: "nat \<Rightarrow> stellar_err + int option"

record deposit_event =
  de_txHash :: string
  de_amount :: string
  de_memo :: string
  de_to :: string
  de_ledger :: int
  de_createdAt :: int

text \<open>One turn of the loop; every failure skips the event.\<close>

definition deposit_of :: "rpc_server \<Rightarrow> string \<Rightarrow> rpc_event \<Rightarrow> deposit_event option" where
  "deposit_of rpc hotWallet ev =
     (case withRetry (rp_getTransaction rpc (re_txHash ev)) 3 of
        Inl e \<Rightarrow> None
      | Inr (success, memo) \<Rightarrow>
          if \<not> success then None
          else (case re_closedAt ev of
            None \<Rightarrow> None
          | Some closedAt \<Rightarrow>
              (case validateDepositMemo memo of
                 MemoValid m \<Rightarrow>
                   (case closedAt of
                      None \<Rightarrow> None
                    | Some t \<Rightarrow> Some \<lparr>de_txHash = re_txHash ev,
                        de_amount = (case re_value ev of Some v \<Rightarrow> v | None \<Rightarrow> ''0''), de_memo = m,
                        de_to = hotWallet, de_ledger = re_ledger ev, de_createdAt = t\<rparr>)
               | _ \<Rightarrow> None)))"

definition fetchDepositEvents :: "rpc_server \<Rightarrow> string \<Rightarrow> int \<Rightarrow> stellar_err + deposit_event list \<times> int" where
  "fetchDepositEvents rpc hotWallet fromLedger =
     bind_r (withRetry (rp_getEvents rpc fromLedger) 5)
       (\<lambda>(events, latestLedger). Inr (List.map_filter (deposit_of rpc hotWallet) events, latestLedger))"

definition getDepositConfirmationCount :: "rpc_server \<Rightarrow> string \<Rightarrow> int \<Rightarrow> int" where
  "getDepositConfirmationCount rpc txHash txLedger =
     (case withRetry (rp_getTransaction rpc txHash) 3 of
        Inl e \<Rightarrow> 0
      | Inr (success, memo) \<Rightarrow>
          if \<not> success then 0
          else (case withRetry (rp_getHealth rpc) 2 of
                  Inr (Some currentLedger) \<Rightarrow> max 0 (currentLedger - txLedger)
                | _ \<Rightarrow> 0))"

section \<open>Webhook authentication\<close>

text \<open>\<open>hk_current\<close> and \<open>hk_pending\<close> are the rows of \<open>app_config\<close>, the latter with its expiry if that is a
  readable time; \<open>hk_env\<close> the variable \<open>WEBHOOK_SECRET\<close>; \<open>hk_hmac\<close> the hexadecimal HMAC-SHA256 of a text
  under a key; \<open>hk_fraction\<close> the text of a number that is not an integer.\<close>

record hook_env =
  hk_current :: "string option"
  hk_pending :: "(string \<times> int option) option"
  hk_env :: "string option"
  hk_hmac :: "string \<Rightarrow> string \<Rightarrow> string"
  hk_fraction :: "rat \<Rightarrow> string"

definition getWebhookSecrets :: "hook_env \<Rightarrow> int \<Rightarrow> string option \<times> string option" where
  "getWebhookSecrets he now =
     (let current = given (hk_current he);
          pending = (case hk_pending he of
                       Some (secret, Some expiresAt) \<Rightarrow> if now < expiresAt then Some secret else None
                     | _ \<Rightarrow> None)
      in (if current = None then given (hk_env he) else current, pending))"

definition number_text :: "hook_env \<Rightarrow> rat \<Rightarrow> string" where
  "number_text he x = (if of_int \<lfloor>x\<rfloor> = x then string_of_int \<lfloor>x\<rfloor> else hk_fraction he x)"

definition signWebhookPayload :: "hook_env \<Rightarrow> string \<Rightarrow> rat \<Rightarrow> string \<Rightarrow> string" where
  "signWebhookPayload he payload timestamp secret = hk_hmac he secret (number_text he timestamp @ ''.'' @ payload)"

text \<open>The headers and the raw body; the timestamp header is given as its value under \<open>Number\<close>.\<close>

record hook_request =
  hq_signature :: "string option"
  hq_timestamp :: "jsnum option"
  hq_id :: "string option"
  hq_rawBody :: "string option"

definition WEBHOOK_TIMESTAMP_TOLERANCE_SECONDS :: rat where "WEBHOOK_TIMESTAMP_TOLERANCE_SECONDS = 300"

text \<open>The first two parts of the header split at the equals sign; a header without one has no second.\<close>

definition signature_parts :: "string \<Rightarrow> string \<times> string option" where
  "signature_parts h =
     (let noteq = (\<lambda>c. c \<noteq> CHR ''='')
      in (takeWhile noteq h, case dropWhile noteq h of [] \<Rightarrow> None | _ # rest \<Rightarrow> Some (takeWhile noteq rest)))"

definition is_hex64 :: "string \<Rightarrow> bool" where
  "is_hex64 s \<longleftrightarrow> length s = 64 \<and> list_all (\<lambda>c. hex_val c \<noteq> None) s"

definition signature_matches :: "hook_env \<Rightarrow> string \<Rightarrow> rat \<Rightarrow> string option \<Rightarrow> string \<Rightarrow> bool" where
  "signature_matches he rawBody timestamp secret providedHex =
     (case secret of
        None \<Rightarrow> False
      | Some k \<Rightarrow> from_hex (signWebhookPayload he rawBody timestamp k) = from_hex providedHex)"

definition webhook_key :: "string \<Rightarrow> string" where "webhook_key wid = ''webhook:id:'' @ wid"

text \<open>The middleware: a reply with its status and text, or \<open>None\<close> for calling the handler. Without Redis
  it throws.\<close>

definition verifyWebhook ::
  "hook_env \<Rightarrow> int \<Rightarrow> hook_request \<Rightarrow> bank \<Rightarrow> (exn + (nat \<times> string) option) \<times> bank" where
  "verifyWebhook he now req b =
     (let (current, pending) = getWebhookSecrets he now in
      if current = None then (Inr (Some (500, ''Webhook verification misconfigured'')), b)
      else case hq_signature req of
        None \<Rightarrow> (Inr (Some (401, ''Missing signature'')), b)
      | Some signatureHeader \<Rightarrow>
     (case signature_parts signatureHeader of (algorithm, provided) \<Rightarrow>
      if algorithm \<noteq> ''sha256'' \<or> \<not> is_hex64 (or_empty provided) then (Inr (Some (401, ''Invalid signature format'')), b)
      else case hq_timestamp req of
        None \<Rightarrow> (Inr (Some (400, ''Missing timestamp'')), b)
      | Some ts \<Rightarrow>
     (case hq_id req of
        None \<Rightarrow> (Inr (Some (400, ''Missing webhook id'')), b)
      | Some webhookId \<Rightarrow>
      if trim webhookId = [] then (Inr (Some (400, ''Missing webhook id'')), b)
      else case ts of
        Num timestamp \<Rightarrow>
          if timestamp \<le> 0 then (Inr (Some (400, ''Invalid timestamp'')), b)
          else if WEBHOOK_TIMESTAMP_TOLERANCE_SECONDS < \<bar>of_int (now div 1000) - timestamp\<bar>
          then (Inr (Some (400, ''Stale webhook request'')), b)
          else (case hq_rawBody req of
            None \<Rightarrow> (Inr (Some (500, ''Raw webhook payload unavailable'')), b)
          | Some rawBody \<Rightarrow>
              if \<not> signature_matches he rawBody timestamp current (or_empty provided) \<and>
                 \<not> signature_matches he rawBody timestamp (given pending) (or_empty provided)
              then (Inr (Some (401, ''Invalid webhook signature'')), b)
              else if \<not> redis_up (game b) then (Inl (js_error ''Redis unavailable''), b)
              else
                let (stored, st) = r_set_nx now (redis_kv (game b)) (webhook_key webhookId) (RStr ''1'') 600
                in if \<not> stored then (Inr (Some (200, ''duplicate'')), b)
                   else (Inr None, b\<lparr>game := (game b)\<lparr>redis_kv := st\<rparr>\<rparr>))
      | _ \<Rightarrow> (Inr (Some (400, ''Invalid timestamp'')), b))))"

section \<open>The deposit webhook\<close>

text \<open>\<open>BigInt\<close> of a decimal text with an optional sign; an empty text is zero, others throw.\<close>

definition bigint_of :: "string \<Rightarrow> exn + int" where
  "bigint_of s =
     (let (neg, ds) = (case s of c # r \<Rightarrow> if c = CHR ''-'' then (True, r) else (False, s) | [] \<Rightarrow> (False, s))
      in if list_all is_digit ds \<and> (neg \<longrightarrow> ds \<noteq> []) then Inr ((if neg then - 1 else 1) * int (nat_of_string ds))
         else Inl (js_error ''Cannot convert to a BigInt''))"

text \<open>The parts before and after the first point.\<close>

definition split_point :: "string \<Rightarrow> string \<times> string" where
  "split_point v =
     (let nopoint = (\<lambda>c. c \<noteq> CHR ''.'')
      in (takeWhile nopoint v, case dropWhile nopoint v of [] \<Rightarrow> [] | _ # rest \<Rightarrow> takeWhile nopoint rest))"

definition digits_to_stroops :: "string \<Rightarrow> exn + int" where
  "digits_to_stroops v =
     (case split_point v of (whole, fraction) \<Rightarrow> bigint_of (whole @ take 7 (padEnd 7 CHR ''0'' fraction)))"

record balance_line =
  bl_type :: string
  bl_code :: string
  bl_issuer :: string
  bl_balance :: "string option"

definition getAccountUsdcBalance :: "string \<Rightarrow> exn + balance_line list \<Rightarrow> exn + int" where
  "getAccountUsdcBalance issuer account =
     bind_r account (\<lambda>balances.
       case find (\<lambda>l. bl_type l = ''credit_alphanum4'' \<and> bl_code l = ''USDC'' \<and> bl_issuer l = issuer) balances of
         None \<Rightarrow> Inr 0
       | Some l \<Rightarrow> (case given (bl_balance l) of None \<Rightarrow> Inr 0 | Some v \<Rightarrow> digits_to_stroops v))"

record deposit_body =
  db_memo :: string
  db_txHash :: string
  db_amount :: "string option"

definition is_amount :: "string \<Rightarrow> bool" where
  "is_amount s \<longleftrightarrow> (case match_usdc s of None \<Rightarrow> False | Some (w, f) \<Rightarrow> f \<noteq> [] \<or> list_all is_digit s)"

definition deposit_schema :: "(string \<Rightarrow> bool) \<Rightarrow> deposit_body \<Rightarrow> bool" where
  "deposit_schema isUuid body \<longleftrightarrow> isUuid (db_memo body) \<and> is_hex64 (db_txHash body) \<and>
     (case db_amount body of None \<Rightarrow> True | Some a \<Rightarrow> is_amount a)"

definition getChallengeByMemo :: "bank \<Rightarrow> string \<Rightarrow> challenge option" where
  "getChallengeByMemo b memo = find_row (\<lambda>c. ch_memo c = Some memo \<and> ch_deleted_at c = None) (challenges (game b))"

definition getChallengeByDepositTxHash :: "bank \<Rightarrow> string \<Rightarrow> challenge option" where
  "getChallengeByDepositTxHash b h =
     find_row (\<lambda>c. ch_deposit_tx c = Some h \<and> ch_deleted_at c = None) (challenges (game b))"

text \<open>The text of the pool column and the update, which the uniqueness of the hash may refuse.\<close>

definition activate :: "string \<Rightarrow> string \<Rightarrow> bank \<Rightarrow> (exn + unit) \<times> bank" where
  "activate cid txHash b =
     (if \<exists>c \<in> set (challenges (game b)). ch_id c \<noteq> cid \<and> ch_deposit_tx c = Some txHash
      then (Inl ((js_error ''duplicate key value violates unique constraint'')\<lparr>err_code := Some ''23505''\<rparr>), b)
      else (Inr (), updateChallengeStatus cid CActive (Some txHash) None b))"

record deposit_env =
  dv_hook :: hook_env
  dv_isUuid :: "string \<Rightarrow> bool"
  dv_issuer :: string
  dv_account :: "exn + balance_line list"

definition post_deposit :: "deposit_env \<Rightarrow> deposit_body \<Rightarrow> bank \<Rightarrow> (exn + nat \<times> string) \<times> bank" where
  "post_deposit dv body b =
     (if \<not> deposit_schema (dv_isUuid dv) body then (Inl zod_error, b)
      else if getChallengeByDepositTxHash b (db_txHash body) \<noteq> None \<or> findPayoutByTxHash b (db_txHash body) \<noteq> None
      then (Inr (200, ''duplicate_tx_ignored''), b)
      else case getChallengeByMemo b (db_memo body) of
        None \<Rightarrow> (Inr (404, ''Unknown memo''), b)
      | Some challenge \<Rightarrow>
          if ch_status challenge \<noteq> CPendingDeposit then (Inr (200, ''already_processed''), b)
          else case digits_to_stroops (stroopsToUsdc (ch_pool challenge)) of
            Inl e \<Rightarrow> (Inl e, b)
          | Inr requiredBalance \<Rightarrow>
              (case getAccountUsdcBalance (dv_issuer dv) (dv_account dv) of
                 Inl e \<Rightarrow> (Inl e, b)
               | Inr currentBalance \<Rightarrow>
                   if currentBalance < requiredBalance then (Inr (422, ''INSUFFICIENT_ESCROW_BALANCE''), b)
                   else and_then (activate (ch_id challenge) (db_txHash body) b)
                          (\<lambda>_ b1. (Inr (200, ''activated''), b1))))"

definition deposit_webhook ::
  "deposit_env \<Rightarrow> int \<Rightarrow> hook_request \<Rightarrow> deposit_body \<Rightarrow> bank \<Rightarrow> (exn + nat \<times> string) \<times> bank" where
  "deposit_webhook dv now req body b =
     and_then (verifyWebhook (dv_hook dv) now req b)
       (\<lambda>reply b1. case reply of Some r \<Rightarrow> (Inr r, b1) | None \<Rightarrow> post_deposit dv body b1)"

section \<open>The deposit monitor\<close>

text \<open>\<open>JSON.stringify\<close> of the webhook body.\<close>

definition hex_digit :: "nat \<Rightarrow> char" where "hex_digit n = ''0123456789abcdef'' ! n"

definition json_char :: "char \<Rightarrow> string" where
  "json_char c =
     (let n = of_char c :: nat
      in if c = CHR 0x22 \<or> c = CHR 0x5C then [CHR 0x5C, c]
         else if n = 8 then [CHR 0x5C, CHR ''b''] else if n = 9 then [CHR 0x5C, CHR ''t'']
         else if n = 10 then [CHR 0x5C, CHR ''n''] else if n = 12 then [CHR 0x5C, CHR ''f'']
         else if n = 13 then [CHR 0x5C, CHR ''r'']
         else if n < 32 then [CHR 0x5C] @ ''u00'' @ [hex_digit (n div 16), hex_digit (n mod 16)]
         else [c])"

definition json_string :: "string \<Rightarrow> string" where
  "json_string s = [CHR 0x22] @ concat (map json_char s) @ [CHR 0x22]"

definition webhook_body :: "deposit_event \<Rightarrow> string" where
  "webhook_body ev =
     ''{'' @ json_string ''memo'' @ '':'' @ json_string (de_memo ev) @ '','' @
     json_string ''txHash'' @ '':'' @ json_string (de_txHash ev) @ '','' @
     json_string ''amount'' @ '':'' @ json_string (de_amount ev) @ ''}''"

text \<open>What happens to a call: it reaches the API and the answer arrives, it is lost, or it is handled but
  the answer is lost.\<close>

datatype transport = Arrives | RequestLost | AnswerLost

record monitor_env =
  mv_secret :: string
  mv_hotWallet :: string
  mv_deposit :: deposit_env
  mv_transport :: "deposit_event \<Rightarrow> transport"

definition webhook_request :: "monitor_env \<Rightarrow> int \<Rightarrow> deposit_event \<Rightarrow> hook_request" where
  "webhook_request mv now ev =
     (let timestamp = of_int (now div 1000)
      in \<lparr>hq_signature = Some (''sha256='' @ signWebhookPayload (dv_hook (mv_deposit mv)) (webhook_body ev) timestamp (mv_secret mv)),
          hq_timestamp = Some (Num timestamp), hq_id = Some (''deposit-'' @ de_txHash ev), hq_rawBody = Some (webhook_body ev)\<rparr>)"

definition status_of :: "exn + nat \<times> string \<Rightarrow> nat" where
  "status_of r = (case r of Inl e \<Rightarrow> fst (resolve_status e) | Inr (status, _) \<Rightarrow> status)"

text \<open>Whether the call counts as delivered, which is any status from 200 to 299.\<close>

definition sendDepositWebhook :: "monitor_env \<Rightarrow> int \<Rightarrow> deposit_event \<Rightarrow> bank \<Rightarrow> bool \<times> bank" where
  "sendDepositWebhook mv now ev b =
     (if mv_transport mv ev = RequestLost then (False, b)
      else case deposit_webhook (mv_deposit mv) now (webhook_request mv now ev)
                  \<lparr>db_memo = de_memo ev, db_txHash = de_txHash ev, db_amount = Some (de_amount ev)\<rparr> b of
        (r, b1) \<Rightarrow> (mv_transport mv ev = Arrives \<and> 200 \<le> status_of r \<and> status_of r \<le> 299, b1))"

fun deliver_all :: "monitor_env \<Rightarrow> int \<Rightarrow> deposit_event list \<Rightarrow> bank \<Rightarrow> bool \<times> bank" where
  "deliver_all mv now [] b = (True, b)"
| "deliver_all mv now (ev # evs) b =
     (case sendDepositWebhook mv now ev b of
        (ok, b1) \<Rightarrow> if ok then deliver_all mv now evs b1 else (False, b1))"

text \<open>One poll on the stored cursor. Without Redis it does nothing.\<close>

definition poll :: "monitor_env \<Rightarrow> rpc_server \<Rightarrow> int \<Rightarrow> int option \<times> bank \<Rightarrow> int option \<times> bank" where
  "poll mv rpc now s =
     (let (cursor, b) = s; fromLedger = (case cursor of None \<Rightarrow> 0 | Some n \<Rightarrow> n)
      in if \<not> redis_up (game b) then s
         else case fetchDepositEvents rpc (mv_hotWallet mv) fromLedger of
           Inl e \<Rightarrow> s
         | Inr (events, latestLedger) \<Rightarrow>
             if fromLedger = 0 then (Some latestLedger, b)
             else (case deliver_all mv now events b of
                (False, b1) \<Rightarrow> (cursor, b1)
              | (True, b1) \<Rightarrow> (if fromLedger < latestLedger then Some latestLedger else cursor, b1)))"

section \<open>Refunds\<close>

datatype refund_policy = RFull | RPartial | RNoneAfterStart

record refund_row =
  rn_id :: string
  rn_challenge :: string
  rn_admin :: string
  rn_reason :: string
  rn_amount :: int
  rn_destination :: string
  rn_tx :: string

text \<open>The refunds, and the columns of challenges that only they use; the percentage, a \<open>NUMERIC(5,2)\<close>,
  in hundredths. \<open>rd_payments\<close> are the payments Horizon accepted, with destination, amount and memo.\<close>

record refund_db =
  rd_bank :: bank
  rd_refunds :: "refund_row list"
  rd_policy :: "string \<Rightarrow> refund_policy"
  rd_percentage :: "string \<Rightarrow> nat"
  rd_startsAt :: "string \<Rightarrow> int"
  rd_payments :: "(string \<times> string \<times> string) list"

record operation =
  op_type :: string
  op_from :: "string option"
  op_source :: "string option"

text \<open>\<open>rv_submit\<close> is the answer of Horizon to the payment: a hash or a failure.\<close>

record refund_env =
  rv_operations :: "string \<Rightarrow> exn + operation list"
  rv_submit :: "string \<Rightarrow> string \<Rightarrow> string \<Rightarrow> exn + string"

definition findRefundByChallengeId :: "refund_db \<Rightarrow> string \<Rightarrow> refund_row option" where
  "findRefundByChallengeId d cid = find_row (\<lambda>r. rn_challenge r = cid) (rd_refunds d)"

text \<open>The constraints of the table: one refund per challenge, a positive amount, one per transaction.\<close>

definition createRefund :: "refund_row \<Rightarrow> refund_db \<Rightarrow> (exn + refund_row) \<times> refund_db" where
  "createRefund row d =
     (if rn_amount row \<le> 0 then (Inl ((js_error ''violates check constraint'')\<lparr>err_code := Some ''23514''\<rparr>), d)
      else if \<exists>r \<in> set (rd_refunds d). rn_challenge r = rn_challenge row \<or> rn_tx r = rn_tx row
      then (Inl ((js_error ''duplicate key value violates unique constraint'')\<lparr>err_code := Some ''23505''\<rparr>), d)
      else (Inr row, d\<lparr>rd_refunds := rd_refunds d @ [row]\<rparr>))"

definition getDepositSender :: "refund_env \<Rightarrow> string \<Rightarrow> exn + string option" where
  "getDepositSender rv txHash =
     bind_r (rv_operations rv txHash) (\<lambda>ops.
       case find (\<lambda>op. op_type op = ''payment'') ops of
         None \<Rightarrow> Inr None
       | Some op \<Rightarrow> Inr (case op_from op of Some f \<Rightarrow> Some f | None \<Rightarrow> op_source op))"

definition submitRefundPayment ::
  "refund_env \<Rightarrow> string \<Rightarrow> string \<Rightarrow> string \<Rightarrow> refund_db \<Rightarrow> (exn + string) \<times> refund_db" where
  "submitRefundPayment rv destination amount cid d =
     (let memo = ''REFUND:'' @ take 21 cid
      in case rv_submit rv destination amount memo of
           Inl e \<Rightarrow> (Inl e, d)
         | Inr h \<Rightarrow> (Inr h, d\<lparr>rd_payments := rd_payments d @ [(destination, amount, memo)]\<rparr>))"

text \<open>\<open>Number\<close> of the percentage times 100, rounded, in double precision.\<close>

definition percentage_hundredths :: "nat \<Rightarrow> int" where
  "percentage_hundredths p = \<lfloor>nmult (ndiv (of_nat p) 100) 100 + 1 / 2\<rfloor>"

definition refund_amount :: "refund_policy \<Rightarrow> nat \<Rightarrow> bool \<Rightarrow> int \<Rightarrow> int" where
  "refund_amount policy percentage started pool =
     (if policy = RNoneAfterStart \<and> started then 0 else jdiv (pool * percentage_hundredths percentage) 10000)"

definition refund_audit :: "string \<Rightarrow> string \<Rightarrow> bank \<Rightarrow> bank" where
  "refund_audit adminId cid b =
     b\<lparr>game := (game b)\<lparr>audit_log := audit_log (game b) @
        [\<lparr>au_actor = adminId, au_action = ''challenge_refund'', au_entity = ''challenge'', au_key = cid\<rparr>]\<rparr>\<rparr>"

definition refundChallenge ::
  "refund_env \<Rightarrow> int \<Rightarrow> string \<Rightarrow> string \<Rightarrow> string \<Rightarrow> string \<Rightarrow> refund_db \<Rightarrow> (exn + refund_row) \<times> refund_db" where
  "refundChallenge rv now fresh cid adminId reason d =
     (case findRefundByChallengeId d cid of
        Some r \<Rightarrow> (Inr r, d)
      | None \<Rightarrow>
     (case getChallengeById (game (rd_bank d)) cid of
        None \<Rightarrow> (Inl (js_error ''Challenge not found''), d)
      | Some c \<Rightarrow>
          if ch_status c = CSettled then (Inl (js_error ''Challenge already settled''), d)
          else case given (ch_deposit_tx c) of
            None \<Rightarrow> (Inl (js_error ''No deposit found''), d)
          | Some tx \<Rightarrow>
     (case getDepositSender rv tx of
        Inl e \<Rightarrow> (Inl e, d)
      | Inr sender \<Rightarrow>
     (case given sender of
        None \<Rightarrow> (Inl (js_error ''No deposit found''), d)
      | Some destination \<Rightarrow>
          let amount = refund_amount (rd_policy d cid) (rd_percentage d cid) (rd_startsAt d cid \<le> now) (ch_pool c)
          in and_then (if 0 < amount then submitRefundPayment rv destination (stroopsToUsdc amount) (ch_id c) d
                       else (Inr ''no-refund-due'', d)) (\<lambda>txHash d1.
             and_then (createRefund \<lparr>rn_id = fresh, rn_challenge = ch_id c, rn_admin = adminId, rn_reason = reason,
                                     rn_amount = amount, rn_destination = destination, rn_tx = txHash\<rparr> d1) (\<lambda>refund d2.
               (Inr refund, d2\<lparr>rd_bank := refund_audit adminId (ch_id c)
                  (updateChallengeStatus (ch_id c) CRefunded None None (rd_bank d2))\<rparr>)))))))"

section \<open>Lemmas\<close>

lemma digits_no_point: "list_all is_digit w \<Longrightarrow> list_all (\<lambda>c. c \<noteq> CHR ''.'') w"
  by (auto simp: list_all_iff is_digit_def)

lemma split_point_decimal:
  "list_all is_digit w \<Longrightarrow> list_all is_digit f \<Longrightarrow> split_point (w @ CHR ''.'' # f) = (w, f)"
  using digits_no_point [of w] digits_no_point [of f]
  by (auto simp: split_point_def Let_def list_all_iff takeWhile_append dropWhile_append takeWhile_eq_all_conv)

lemma bigint_of_digits: "list_all is_digit s \<Longrightarrow> bigint_of s = Inr (int (nat_of_string s))"
  by (cases s) (auto simp: bigint_of_def is_digit_def)

text \<open>The pool of a challenge survives its way through the text of the column.\<close>

lemma digits_to_stroops_usdc: "digits_to_stroops (stroopsToUsdc (int n)) = Inr (int n)"
proof -
  let ?w = "string_of_nat (n div 10000000)" and ?f = "padStart 7 CHR ''0'' (string_of_nat (n mod 10000000))"
  have d: "list_all is_digit ?w" "list_all is_digit ?f" using string_of_nat_digits by (auto intro: digits_padStart)
  have len: "length ?f = 7" using length_frac [of n] by simp
  then have "take 7 (padEnd 7 CHR ''0'' ?f) = ?f" by (simp add: padEnd_def)
  then have "digits_to_stroops (stroopsToUsdc (int n)) = Inr (int (nat_of_string (?w @ ?f)))"
    using d by (simp add: digits_to_stroops_def stroopsToUsdc_of_nat split_point_decimal bigint_of_digits)
  also have "nat_of_string (?w @ ?f) = n" using len by (simp add: nat_of_string_append)
  finally show ?thesis .
qed

lemma length_utf8: "length s \<le> utf8_length s"
  by (induction s) (auto simp: utf8_length_def)

lemma valid_memo_length: "validateDepositMemo memo = MemoValid m \<Longrightarrow> length m \<le> 28"
  using length_utf8 [of m] by (auto simp: validateDepositMemo_def split: option.splits if_splits)

lemma deposit_of_memo: "deposit_of rpc hot ev = Some d \<Longrightarrow> length (de_memo d) \<le> 28"
  by (auto simp: deposit_of_def valid_memo_length split: sum.splits option.splits if_splits memo_check.splits)

lemma fetched_memo:
  "fetchDepositEvents rpc hot from = Inr (evs, latest) \<Longrightarrow> ev \<in> set evs \<Longrightarrow> length (de_memo ev) \<le> 28"
proof -
  assume a: "fetchDepositEvents rpc hot from = Inr (evs, latest)" "ev \<in> set evs"
  then obtain x where "deposit_of rpc hot x = Some ev"
    by (auto simp: fetchDepositEvents_def bind_r_def map_filter_def split: sum.splits)
  then show ?thesis by (rule deposit_of_memo)
qed

lemma percentage_exact:
  assumes "p \<le> 10000"
  shows "percentage_hundredths p = int p"
proof -
  let ?x = "of_nat p / 100 :: rat" and ?P = "of_nat p :: rat"
  have p: "0 \<le> ?P" "?P \<le> 10000" using assms by simp_all
  have e1: "\<bar>fl ?x - ?x\<bar> \<le> ?x / 2 ^ 53" by (rule fl_error) simp
  have e2: "\<bar>fl (fl ?x * 100) - fl ?x * 100\<bar> \<le> fl ?x * 100 / 2 ^ 53" by (rule fl_error) simp
  define y z where "y = fl ?x" and "z = fl (fl ?x * 100)"
  have y: "\<bar>y - ?x\<bar> \<le> ?x / 2 ^ 53" and z: "\<bar>z - y * 100\<bar> \<le> y * 100 / 2 ^ 53" using e1 e2 by (simp_all add: y_def z_def)
  have "y * 100 \<le> ?P + ?P / 2 ^ 53" "?P - ?P / 2 ^ 53 \<le> y * 100" using y unfolding abs_le_iff by simp_all
  moreover from z have "z \<le> y * 100 + y * 100 / 2 ^ 53" "y * 100 - y * 100 / 2 ^ 53 \<le> z" unfolding abs_le_iff by simp_all
  ultimately have "z - ?P < 1 / 2" "- (1 / 2) < z - ?P" using p by (simp_all add: field_simps)
  then have "?P \<le> z + 1 / 2" "z + 1 / 2 < ?P + 1" by linarith+
  then have "\<lfloor>z + 1 / 2\<rfloor> = int p" by (intro floor_unique) simp_all
  then show ?thesis by (simp add: percentage_hundredths_def nmult_def ndiv_def z_def)
qed

subsection \<open>The webhook\<close>

definition authentic :: "hook_env \<Rightarrow> int \<Rightarrow> hook_request \<Rightarrow> bool" where
  "authentic he now req \<longleftrightarrow>
     (\<exists>hex timestamp body secret. map_option signature_parts (hq_signature req) = Some (''sha256'', Some hex) \<and> is_hex64 hex \<and>
        hq_timestamp req = Some (Num timestamp) \<and> \<bar>of_int (now div 1000) - timestamp\<bar> \<le> 300 \<and> hq_rawBody req = Some body \<and>
        Some secret \<in> {fst (getWebhookSecrets he now), snd (getWebhookSecrets he now)} \<and>
        from_hex (signWebhookPayload he body timestamp secret) = from_hex hex)"

lemma is_hex64_or_empty: "is_hex64 (or_empty p) \<Longrightarrow> \<exists>hex. p = Some hex \<and> is_hex64 hex"
  by (cases p) (auto simp: is_hex64_def or_empty_def)

lemma signature_matchesE:
  "signature_matches he body ts secret hex \<Longrightarrow>
   \<exists>k. secret = Some k \<and> from_hex (signWebhookPayload he body ts k) = from_hex hex"
  by (auto simp: signature_matches_def split: option.splits)

lemma given_Some: "given x = Some y \<Longrightarrow> x = Some y"
  by (auto simp: given_def split: option.splits list.splits)

lemma verifyWebhook_authentic:
  assumes "verifyWebhook he now req b = (Inr None, b1)"
  shows "authentic he now req"
proof -
  obtain current pending where s: "getWebhookSecrets he now = (current, pending)" by fastforce
  from assms s obtain sig hex ts wid body where f: "hq_signature req = Some sig"
      "signature_parts sig = (''sha256'', hex)" "is_hex64 (or_empty hex)" "hq_timestamp req = Some (Num ts)"
      "\<bar>of_int (now div 1000) - ts\<bar> \<le> 300" "hq_rawBody req = Some body"
      "signature_matches he body ts current (or_empty hex) \<or> signature_matches he body ts (given pending) (or_empty hex)"
    unfolding verifyWebhook_def
    by (auto simp: Let_def WEBHOOK_TIMESTAMP_TOLERANCE_SECONDS_def split: option.splits prod.splits jsnum.splits if_splits)
  from is_hex64_or_empty [OF f(3)] obtain h where h: "hex = Some h" "is_hex64 h" by blast
  from f(7) obtain k where "Some k \<in> {current, pending}" "from_hex (signWebhookPayload he body ts k) = from_hex h"
    using h by (auto simp: or_empty_def dest!: signature_matchesE given_Some)
  with f h s show ?thesis unfolding authentic_def by force
qed

lemma verifyWebhook_frame:
  assumes "verifyWebhook he now req b = (r, b1)"
  shows "challenges (game b1) = challenges (game b)" "payouts b1 = payouts b" "redis_up (game b1) = redis_up (game b)"
  using assms unfolding verifyWebhook_def
  by (auto simp: Let_def split: option.splits prod.splits jsnum.splits if_splits)

lemma challenges_updateChallengeStatus:
  "challenges (game (updateChallengeStatus cid CActive (Some (x # xs)) None b)) =
     update_where (\<lambda>c. ch_id c = cid) (\<lambda>c. c\<lparr>ch_status := CActive, ch_deposit_tx := Some (x # xs)\<rparr>) (challenges (game b))"
  by (simp add: updateChallengeStatus_def)

text \<open>What the handler needs to have found when it changes the challenges.\<close>

lemma post_deposit_change:
  assumes "post_deposit dv body b = (r, b')" and "challenges (game b') \<noteq> challenges (game b)"
    and "\<forall>c \<in> set (challenges (game b)). 0 \<le> ch_pool c"
  shows "\<exists>c bal. getChallengeByMemo b (db_memo body) = Some c \<and> ch_status c = CPendingDeposit \<and>
    getAccountUsdcBalance (dv_issuer dv) (dv_account dv) = Inr bal \<and> ch_pool c \<le> bal \<and>
    findPayoutByTxHash b (db_txHash body) = None \<and>
    (\<forall>d \<in> set (challenges (game b)). ch_deposit_tx d = Some (db_txHash body) \<longrightarrow> d = c \<or> ch_id d = ch_id c) \<and>
    challenges (game b') = update_where (\<lambda>d. ch_id d = ch_id c)
      (\<lambda>d. d\<lparr>ch_status := CActive, ch_deposit_tx := Some (db_txHash body)\<rparr>) (challenges (game b))"
proof -
  obtain c where c: "getChallengeByMemo b (db_memo body) = Some c" "ch_status c = CPendingDeposit"
    and tx: "is_hex64 (db_txHash body)" and new: "findPayoutByTxHash b (db_txHash body) = None"
    using assms(1,2) unfolding post_deposit_def
    by (auto simp: deposit_schema_def split: if_splits option.splits)
  have "0 \<le> ch_pool c" using c(1) assms(3) by (auto simp: getChallengeByMemo_def dest: find_row_Some)
  then have n: "digits_to_stroops (stroopsToUsdc (ch_pool c)) = Inr (ch_pool c)"
    using digits_to_stroops_usdc nonneg_int_cases by metis
  obtain x xs where x: "db_txHash body = x # xs" using tx by (cases "db_txHash body") (auto simp: is_hex64_def)
  have run: "(case getAccountUsdcBalance (dv_issuer dv) (dv_account dv) of
       Inl e \<Rightarrow> (Inl e, b)
     | Inr currentBalance \<Rightarrow>
         if currentBalance < ch_pool c then (Inr (422, ''INSUFFICIENT_ESCROW_BALANCE''), b)
         else and_then (activate (ch_id c) (db_txHash body) b) (\<lambda>_ b1. (Inr (200, ''activated''), b1))) = (r, b')"
    using assms(1,2) c by (auto simp: post_deposit_def n split: if_splits)
  obtain bal where bal: "getAccountUsdcBalance (dv_issuer dv) (dv_account dv) = Inr bal" "ch_pool c \<le> bal"
    and act: "and_then (activate (ch_id c) (db_txHash body) b) (\<lambda>_ b1. (Inr (200, ''activated''), b1)) = (r, b')"
    using run assms(2) by (auto split: sum.splits if_splits)
  have free: "\<not> (\<exists>d \<in> set (challenges (game b)). ch_id d \<noteq> ch_id c \<and> ch_deposit_tx d = Some (db_txHash body))"
    and b': "b' = updateChallengeStatus (ch_id c) CActive (Some (db_txHash body)) None b"
    using act assms(2) by (auto simp: activate_def and_then_def split: if_splits)
  from b' have "challenges (game b') = update_where (\<lambda>d. ch_id d = ch_id c)
      (\<lambda>d. d\<lparr>ch_status := CActive, ch_deposit_tx := Some (db_txHash body)\<rparr>) (challenges (game b))"
    unfolding x by (simp only: challenges_updateChallengeStatus)
  with c new bal free show ?thesis by blast
qed

section \<open>Properties\<close>

text \<open>
  (C14) A challenge changes through the deposit webhook only as it should: the request carries an HMAC of its
  raw body and a timestamp at most five minutes away under a current or unexpired pending secret; the
  challenge was awaiting its deposit and is not deleted, its memo is the one in the request, the wallet
  holds at least its pool, no payout and no other challenge has the transaction; and it becomes active
  with that transaction, nothing else changing.
\<close>

theorem deposit_activation_sound:
  assumes "deposit_webhook dv now req body b = (r, b')" and "unique_by ch_id (challenges (game b))"
    and "\<forall>c \<in> set (challenges (game b)). 0 \<le> ch_pool c" and "challenges (game b') \<noteq> challenges (game b)"
  shows "authentic (dv_hook dv) now req \<and>
    (\<exists>c \<in> set (challenges (game b)). \<exists>bal.
       ch_memo c = Some (db_memo body) \<and> ch_deleted_at c = None \<and> ch_status c = CPendingDeposit \<and>
       getAccountUsdcBalance (dv_issuer dv) (dv_account dv) = Inr bal \<and> ch_pool c \<le> bal \<and>
       findPayoutByTxHash b (db_txHash body) = None \<and>
       (\<forall>d \<in> set (challenges (game b)). ch_deposit_tx d = Some (db_txHash body) \<longrightarrow> d = c) \<and>
       challenges (game b') = map (\<lambda>d. if d = c then c\<lparr>ch_status := CActive, ch_deposit_tx := Some (db_txHash body)\<rparr> else d)
         (challenges (game b)))"
proof -
  obtain b1 where v: "verifyWebhook (dv_hook dv) now req b = (Inr None, b1)" and p: "post_deposit dv body b1 = (r, b')"
    using assms(1,4) verifyWebhook_frame(1)
    by (auto simp: deposit_webhook_def and_then_def split: prod.splits sum.splits option.splits)
  note fr = verifyWebhook_frame [OF v]
  from post_deposit_change [OF p] obtain c bal where c: "getChallengeByMemo b1 (db_memo body) = Some c"
      "ch_status c = CPendingDeposit" "getAccountUsdcBalance (dv_issuer dv) (dv_account dv) = Inr bal" "ch_pool c \<le> bal"
      "findPayoutByTxHash b1 (db_txHash body) = None"
      "\<forall>d \<in> set (challenges (game b)). ch_deposit_tx d = Some (db_txHash body) \<longrightarrow> d = c \<or> ch_id d = ch_id c"
      "challenges (game b') = update_where (\<lambda>d. ch_id d = ch_id c)
        (\<lambda>d. d\<lparr>ch_status := CActive, ch_deposit_tx := Some (db_txHash body)\<rparr>) (challenges (game b))"
    using assms(3,4) unfolding fr by metis
  have mem: "c \<in> set (challenges (game b))" "ch_memo c = Some (db_memo body)" "ch_deleted_at c = None"
    using c(1) find_row_Some by (fastforce simp: getChallengeByMemo_def fr)+
  have same: "d = c" if "d \<in> set (challenges (game b))" "ch_id d = ch_id c" for d
    using that mem(1) assms(2) by (metis unique_byD)
  have "challenges (game b') = map (\<lambda>d. if d = c then c\<lparr>ch_status := CActive, ch_deposit_tx := Some (db_txHash body)\<rparr> else d)
      (challenges (game b))"
    unfolding c(7) update_where_def using same by (intro map_cong) auto
  moreover have "findPayoutByTxHash b (db_txHash body) = None" using c(5) by (simp add: findPayoutByTxHash_def fr)
  ultimately show ?thesis using verifyWebhook_authentic [OF v] mem c(2,3,4,6) same by blast
qed

lemma deposit_short_memo:
  assumes "\<And>s. isUuid s \<Longrightarrow> length s = 36" and "length (db_memo body) \<le> 28" and "dv_isUuid dv = isUuid"
  shows "post_deposit dv body b = (Inl zod_error, b)"
  using assms by (fastforce simp: post_deposit_def deposit_schema_def)

lemma send_short_memo:
  assumes "\<And>s. dv_isUuid (mv_deposit mv) s \<Longrightarrow> length s = 36" and "length (de_memo ev) \<le> 28"
    and "sendDepositWebhook mv now ev b = (ok, b1)"
  shows "challenges (game b1) = challenges (game b)"
proof -
  have "post_deposit (mv_deposit mv) \<lparr>db_memo = de_memo ev, db_txHash = de_txHash ev, db_amount = Some (de_amount ev)\<rparr> x =
      (Inl zod_error, x)" for x
    by (rule deposit_short_memo) (use assms in simp_all)
  then show ?thesis using assms(3) verifyWebhook_frame(1)
    by (auto simp: sendDepositWebhook_def deposit_webhook_def and_then_def split: if_splits prod.splits sum.splits option.splits)
qed

lemma deliver_short_memos:
  assumes "\<And>s. dv_isUuid (mv_deposit mv) s \<Longrightarrow> length s = 36"
  shows "\<forall>ev \<in> set evs. length (de_memo ev) \<le> 28 \<Longrightarrow> deliver_all mv now evs b = (ok, b1) \<Longrightarrow>
    challenges (game b1) = challenges (game b)"
proof (induction evs arbitrary: b)
  case (Cons ev evs)
  then show ?case using send_short_memo [where mv = mv and ev = ev and now = now and b = b, OF assms]
    by (fastforce split: prod.splits if_splits)
qed simp

text \<open>
  (C39) No deposit ever activates a challenge: whatever the ledger reports, however often the monitor polls and
  whatever becomes of its calls, the challenges stay as they are. The monitor only forwards memos of at
  most 28 bytes, which is what a memo of the ledger can hold, and the webhook's schema requires a UUID,
  which has 36 characters.
\<close>

theorem deposits_never_activate:
  assumes "\<And>i s. dv_isUuid (mv_deposit (mv i)) s \<Longrightarrow> length s = 36"
  shows "challenges (game (snd (foldl (\<lambda>s i. poll (mv i) (rpc i) (now i) s) (cursor, b) is))) = challenges (game b)"
proof (induction "is" rule: rev_induct)
  case (snoc i "is")
  have "challenges (game (snd (poll (mv i) (rpc i) (now i) s))) = challenges (game (snd s))" for s
    using deliver_short_memos [where mv = "mv i" and now = "now i" and b = "snd s", OF assms] fetched_memo
    by (fastforce simp: poll_def Let_def split: prod.splits sum.splits if_splits bool.splits)
  with snoc show ?case by simp
qed simp

text \<open>A request of the monitor passes the checks when the secrets agree; then only the request's id decides.\<close>

lemma signature_parts_hex: "list_all (\<lambda>c. hex_val c \<noteq> None) h \<Longrightarrow> signature_parts (''sha256='' @ h) = (''sha256'', Some h)"
proof -
  assume h: "list_all (\<lambda>c. hex_val c \<noteq> None) h"
  have "hex_val CHR ''='' = None" by code_simp
  then have "CHR ''='' \<notin> set h" using h by (auto simp: list_all_iff)
  then show ?thesis by (auto simp: signature_parts_def Let_def takeWhile_eq_all_conv)
qed

lemma monitor_request_verified:
  assumes "fst (getWebhookSecrets (dv_hook (mv_deposit mv)) now) = Some (mv_secret mv)" and "1000 \<le> now"
    and "\<And>k x. is_hex64 (hk_hmac (dv_hook (mv_deposit mv)) k x)" and "redis_up (game b)"
  shows "verifyWebhook (dv_hook (mv_deposit mv)) now (webhook_request mv now ev) b =
    (if r_get now (redis_kv (game b)) (webhook_key (''deposit-'' @ de_txHash ev)) = None
     then (Inr None, b\<lparr>game := (game b)\<lparr>redis_kv :=
             r_set_ex now (redis_kv (game b)) (webhook_key (''deposit-'' @ de_txHash ev)) (RStr ''1'') 600\<rparr>\<rparr>)
     else (Inr (Some (200, ''duplicate'')), b))"
proof -
  let ?he = "dv_hook (mv_deposit mv)"
  let ?h = "signWebhookPayload ?he (webhook_body ev) (of_int (now div 1000)) (mv_secret mv)"
  obtain pending where s: "getWebhookSecrets ?he now = (Some (mv_secret mv), pending)" using assms(1) by (metis prod.collapse)
  have h: "is_hex64 ?h" using assms(3) by (simp add: signWebhookPayload_def)
  then have parts: "signature_parts (''sha256='' @ ?h) = (''sha256'', Some ?h)" by (intro signature_parts_hex) (simp add: is_hex64_def)
  have pos: "\<not> (of_int (now div 1000) :: rat) \<le> 0" using assms(2) by simp
  have blank: "trim (''deposit-'' @ t) \<noteq> []" for t
    by (simp add: trim_def is_space_def)
  show ?thesis using s h parts pos blank assms(4)
    by (simp add: verifyWebhook_def webhook_request_def Let_def or_empty_def signature_matches_def
        WEBHOOK_TIMESTAMP_TOLERANCE_SECONDS_def r_set_nx_def)
qed

lemma post_deposit_error_keeps:
  "post_deposit dv body b = (r, b') \<Longrightarrow> \<not> (200 \<le> status_of r \<and> status_of r \<le> 299) \<Longrightarrow> b' = b"
  unfolding post_deposit_def
  by (auto simp: status_of_def and_then_def activate_def split: if_splits option.splits sum.splits)

text \<open>
  A deposit whose webhook failed is lost on the retry. When the handler answers the monitor's call with
  an error, for instance because the wallet's balance does not cover the pool yet, the cursor stays; but
  the id of the call is already marked as seen, so the next poll within ten minutes is answered
  \<open>duplicate\<close> with status 200, and the cursor moves past the deposit although the challenge was never
  activated.
\<close>

theorem failed_deposit_lost:
  assumes "fetchDepositEvents rpc (mv_hotWallet mv) from = Inr ([ev], latest)"
    and "fetchDepositEvents rpc' (mv_hotWallet mv) from = Inr ([ev], latest')" and "from \<noteq> 0" and "from < latest'"
    and "\<And>t. fst (getWebhookSecrets (dv_hook (mv_deposit mv)) t) = Some (mv_secret mv)"
    and "\<And>k x. is_hex64 (hk_hmac (dv_hook (mv_deposit mv)) k x)"
    and "1000 \<le> now" and "now \<le> now'" and "now' < now + 600000" and "mv_transport mv ev = Arrives" and "redis_up (game b)"
    and "r_get now (redis_kv (game b)) (webhook_key (''deposit-'' @ de_txHash ev)) = None"
    and "sendDepositWebhook mv now ev b = (False, b1)"
  shows "poll mv rpc now (Some from, b) = (Some from, b1) \<and> challenges (game b1) = challenges (game b) \<and>
    poll mv rpc' now' (Some from, b1) = (Some latest', b1)"
proof -
  let ?key = "webhook_key (''deposit-'' @ de_txHash ev)"
  let ?b = "b\<lparr>game := (game b)\<lparr>redis_kv := r_set_ex now (redis_kv (game b)) ?key (RStr ''1'') 600\<rparr>\<rparr>"
  have v: "verifyWebhook (dv_hook (mv_deposit mv)) now (webhook_request mv now ev) b = (Inr None, ?b)"
    using monitor_request_verified [OF assms(5,7,6,11)] assms(12) by simp
  have b1: "b1 = ?b"
    using assms(10,13) v post_deposit_error_keeps
    by (fastforce simp: sendDepositWebhook_def deposit_webhook_def and_then_def split: prod.splits)
  have seen: "r_get now' (redis_kv (game b1)) ?key \<noteq> None" using assms(9) by (simp add: b1 redis.get_set_ex)
  have up: "redis_up (game b1)" using assms(11) by (simp add: b1)
  have "verifyWebhook (dv_hook (mv_deposit mv)) now' (webhook_request mv now' ev) b1 = (Inr (Some (200, ''duplicate'')), b1)"
    using monitor_request_verified [where now = now' and b = b1, OF assms(5) _ assms(6) up] assms(7,8) seen by simp
  then have "sendDepositWebhook mv now' ev b1 = (True, b1)"
    using assms(10) by (simp add: sendDepositWebhook_def deposit_webhook_def and_then_def status_of_def)
  then have "poll mv rpc' now' (Some from, b1) = (Some latest', b1)"
    using assms(2,3,4) up by (simp add: poll_def)
  moreover have "poll mv rpc now (Some from, b) = (Some from, b1)" using assms(1,3,11,13) by (simp add: poll_def)
  ultimately show ?thesis by (simp add: b1)
qed

lemma challenges_refunded:
  "challenges (game (refund_audit adminId x (updateChallengeStatus cid CRefunded None None b))) =
     update_where (\<lambda>c. ch_id c = cid) (\<lambda>c. c\<lparr>ch_status := CRefunded\<rparr>) (challenges (game b))"
  by (simp add: refund_audit_def updateChallengeStatus_def)

text \<open>
  (C40) A refund that succeeds pays exactly once: the share of the pool its percentage says, positive and at
  most the pool, to the account the deposit came from; the challenge is marked refunded, and every later
  request returns the same refund and pays nothing.
\<close>

theorem refund_once:
  assumes "refundChallenge rv now fresh cid adminId reason d = (Inr r, d')" and "findRefundByChallengeId d cid = None"
    and "getChallengeById (game (rd_bank d)) cid = Some c" and "0 \<le> ch_pool c" and "rd_percentage d cid \<le> 10000"
  shows "rn_amount r = ch_pool c * int (rd_percentage d cid) div 10000 \<and> 0 < rn_amount r \<and> rn_amount r \<le> ch_pool c \<and>
    (\<exists>tx dest. ch_deposit_tx c = Some tx \<and> getDepositSender rv tx = Inr (Some dest) \<and>
       rd_payments d' = rd_payments d @ [(dest, stroopsToUsdc (rn_amount r), ''REFUND:'' @ take 21 cid)]) \<and>
    (\<forall>c' \<in> set (challenges (game (rd_bank d'))). ch_id c' = cid \<longrightarrow> ch_status c' = CRefunded) \<and>
    refundChallenge rv2 now2 fresh2 cid adminId2 reason2 d' = (Inr r, d')"
proof -
  define amount where "amount = refund_amount (rd_policy d cid) (rd_percentage d cid) (rd_startsAt d cid \<le> now) (ch_pool c)"
  have id: "ch_id c = cid" using assms(3) find_row_Some by (fastforce simp: getChallengeById_def)
  obtain tx dest where t: "given (ch_deposit_tx c) = Some tx" "getDepositSender rv tx = Inr (Some dest)"
    and run: "and_then (if 0 < amount then submitRefundPayment rv dest (stroopsToUsdc amount) cid d
                       else (Inr ''no-refund-due'', d)) (\<lambda>txHash d1.
             and_then (createRefund \<lparr>rn_id = fresh, rn_challenge = cid, rn_admin = adminId, rn_reason = reason,
                                     rn_amount = amount, rn_destination = dest, rn_tx = txHash\<rparr> d1) (\<lambda>refund d2.
               (Inr refund, d2\<lparr>rd_bank := refund_audit adminId cid (updateChallengeStatus cid CRefunded None None (rd_bank d2))\<rparr>)))
      = (Inr r, d')"
    using assms(1-3) unfolding refundChallenge_def
    by (auto simp: Let_def id amount_def dest!: given_Some split: if_splits option.splits sum.splits)
  have pos: "0 < amount" using run by (auto simp: and_then_def createRefund_def split: if_splits)
  obtain h where h: "rv_submit rv dest (stroopsToUsdc amount) (''REFUND:'' @ take 21 cid) = Inr h"
    and r: "r = \<lparr>rn_id = fresh, rn_challenge = cid, rn_admin = adminId, rn_reason = reason,
                 rn_amount = amount, rn_destination = dest, rn_tx = h\<rparr>"
    and d': "d' = d\<lparr>rd_payments := rd_payments d @ [(dest, stroopsToUsdc amount, ''REFUND:'' @ take 21 cid)],
                 rd_refunds := rd_refunds d @ [r],
                 rd_bank := refund_audit adminId cid (updateChallengeStatus cid CRefunded None None (rd_bank d))\<rparr>"
    using run pos by (auto simp: and_then_def createRefund_def submitRefundPayment_def Let_def split: sum.splits if_splits)
  have a: "amount = ch_pool c * int (rd_percentage d cid) div 10000"
    using pos assms(4,5) by (auto simp: amount_def refund_amount_def percentage_exact jdiv_nonneg split: if_splits)
  have "ch_pool c * int (rd_percentage d cid) \<le> ch_pool c * 10000" using assms(4,5) by (intro mult_left_mono) auto
  then have "ch_pool c * int (rd_percentage d cid) div 10000 \<le> ch_pool c * 10000 div 10000" by (rule zdiv_mono1) simp
  then have le: "amount \<le> ch_pool c" using a by simp
  have st: "\<forall>c' \<in> set (challenges (game (rd_bank d'))). ch_id c' = cid \<longrightarrow> ch_status c' = CRefunded"
  proof -
    have "rd_bank d' = refund_audit adminId cid (updateChallengeStatus cid CRefunded None None (rd_bank d))" unfolding d' by simp
    then have "challenges (game (rd_bank d')) = update_where (\<lambda>c. ch_id c = cid) (\<lambda>c. c\<lparr>ch_status := CRefunded\<rparr>)
        (challenges (game (rd_bank d)))" by (simp only: challenges_refunded)
    then show ?thesis by (simp only: update_where_def set_map) fastforce
  qed
  have "findRefundByChallengeId d' cid = Some r"
    using assms(2) by (simp add: findRefundByChallengeId_def d' find_row_append r)
  then have "refundChallenge rv2 now2 fresh2 cid adminId2 reason2 d' = (Inr r, d')" by (simp add: refundChallenge_def)
  with a pos le st t d' show ?thesis by (auto simp: r dest: given_Some)
qed

text \<open>
  A challenge without a refund due cannot be closed: with the policy that nothing is refunded after the
  start, a request after the start ends with the violated constraint on the amount, before anything is
  stored, and the challenge keeps its status.
\<close>

theorem zero_refund_rejected:
  assumes "findRefundByChallengeId d cid = None" and "getChallengeById (game (rd_bank d)) cid = Some c"
    and "ch_status c \<noteq> CSettled" and "given (ch_deposit_tx c) = Some tx" and "getDepositSender rv tx = Inr sender"
    and "given sender = Some dest" and "rd_policy d cid = RNoneAfterStart" and "rd_startsAt d cid \<le> now"
  shows "\<exists>e. refundChallenge rv now fresh cid adminId reason d = (Inl e, d) \<and> fst (resolve_status e) = 400"
  using assms by (simp add: refundChallenge_def refund_amount_def and_then_def createRefund_def resolve_status_def js_error_def)

section \<open>Examples\<close>

definition demo_hook :: hook_env where
  "demo_hook = \<lparr>hk_current = Some ''s'', hk_pending = None, hk_env = None,
     hk_hmac = (\<lambda>k x. replicate 64 CHR ''0''), hk_fraction = (\<lambda>_. ''0.5'')\<rparr>"

definition demo_deposit :: "string \<Rightarrow> deposit_env" where
  "demo_deposit bal = \<lparr>dv_hook = demo_hook, dv_isUuid = (\<lambda>s. length s = 36), dv_issuer = ''I'',
     dv_account = Inr [\<lparr>bl_type = ''credit_alphanum4'', bl_code = ''USDC'', bl_issuer = ''I'', bl_balance = Some bal\<rparr>]\<rparr>"

definition demo_pending :: challenge where
  "demo_pending = \<lparr>ch_id = ''c1'', ch_brand = ''b1'', ch_memo = Some (replicate 36 CHR ''a''), ch_pool = 50,
     ch_status = CPendingDeposit, ch_batched = False, ch_deposit_tx = None, ch_confirmations = 0, ch_payout_tx = None,
     ch_ends_at = None, ch_deleted_at = None, ch_created = 0\<rparr>"

definition demo_event :: "string \<Rightarrow> deposit_event" where
  "demo_event memo = \<lparr>de_txHash = replicate 64 CHR ''7'', de_amount = ''5'', de_memo = memo, de_to = ''H'', de_ledger = 9, de_createdAt = 0\<rparr>"

definition demo_monitor :: monitor_env where
  "demo_monitor = \<lparr>mv_secret = ''s'', mv_hotWallet = ''H'', mv_deposit = demo_deposit ''0.0000010'', mv_transport = (\<lambda>_. Arrives)\<rparr>"

definition deposit_bank :: bank where
  "deposit_bank = blank_bank (blank_app\<lparr>challenges := [demo_pending]\<rparr>)"

definition demo_delivery :: "(exn + nat \<times> string) \<times> bank" where
  "demo_delivery = deposit_webhook (demo_deposit ''0.0000060'') 60000 (webhook_request demo_monitor 60000 (demo_event []))
     \<lparr>db_memo = replicate 36 CHR ''a'', db_txHash = replicate 64 CHR ''7'', db_amount = None\<rparr> deposit_bank"

theorem deposit_activation_sound_witness:
  "map ch_status (challenges (game (snd demo_delivery))) = [CActive] \<and>
   authentic (dv_hook (demo_deposit ''0.0000060'')) 60000 (webhook_request demo_monitor 60000 (demo_event []))"
proof -
  have st: "map ch_status (challenges (game (snd demo_delivery))) = [CActive]" by code_simp
  have ch: "challenges (game deposit_bank) = [demo_pending]" by (simp add: deposit_bank_def blank_bank_def)
  then have ne: "challenges (game (snd demo_delivery)) \<noteq> challenges (game deposit_bank)"
    using st by (auto simp: demo_pending_def)
  have e: "deposit_webhook (demo_deposit ''0.0000060'') 60000 (webhook_request demo_monitor 60000 (demo_event []))
     \<lparr>db_memo = replicate 36 CHR ''a'', db_txHash = replicate 64 CHR ''7'', db_amount = None\<rparr> deposit_bank =
     (fst demo_delivery, snd demo_delivery)" by (simp add: demo_delivery_def)
  from deposit_activation_sound [OF e _ _ ne] st show ?thesis by (simp add: ch unique_by_def demo_pending_def)
qed

definition demo_rpc :: rpc_server where
  "demo_rpc = \<lparr>rp_getEvents = (\<lambda>_ _. Inr ([\<lparr>re_txHash = replicate 64 CHR ''7'', re_value = Some ''5'', re_ledger = 9, re_closedAt = Some (Some 0)\<rparr>], 9)),
     rp_getTransaction = (\<lambda>_ _. Inr (True, Some ''memo'')), rp_getHealth = (\<lambda>_. Inr (Some 12))\<rparr>"

theorem deposits_never_activate_witness:
  "challenges (game (snd (foldl (\<lambda>s i. poll demo_monitor demo_rpc i s) (Some 5, deposit_bank) [60000, 65000]))) =
   challenges (game deposit_bank)"
  by (rule deposits_never_activate [of "\<lambda>_. demo_monitor" "\<lambda>_. demo_rpc" "\<lambda>i. i"]) (simp add: demo_monitor_def demo_deposit_def)

theorem failed_deposit_lost_witness:
  "fst (poll demo_monitor demo_rpc 60000 (Some 5, deposit_bank)) = Some 5 \<and>
   fst (poll demo_monitor demo_rpc 65000 (poll demo_monitor demo_rpc 60000 (Some 5, deposit_bank))) = Some 9"
proof -
  define b1 where "b1 = snd (sendDepositWebhook demo_monitor 60000 (demo_event ''memo'') deposit_bank)"
  have f: "fetchDepositEvents demo_rpc (mv_hotWallet demo_monitor) 5 = Inr ([demo_event ''memo''], 9)"
    by code_simp
  have "fst (sendDepositWebhook demo_monitor 60000 (demo_event ''memo'') deposit_bank) = False" by code_simp
  then have s: "sendDepositWebhook demo_monitor 60000 (demo_event ''memo'') deposit_bank = (False, b1)"
    by (simp add: b1_def prod_eq_iff)
  have hex: "is_hex64 (replicate 64 CHR ''0'')" by code_simp
  have "poll demo_monitor demo_rpc 60000 (Some 5, deposit_bank) = (Some 5, b1) \<and>
    challenges (game b1) = challenges (game deposit_bank) \<and> poll demo_monitor demo_rpc 65000 (Some 5, b1) = (Some 9, b1)"
    by (rule failed_deposit_lost [OF f f _ _ _ _ _ _ _ _ _ _ s])
      (simp_all add: demo_monitor_def demo_deposit_def demo_hook_def getWebhookSecrets_def given_def hex deposit_bank_def
        blank_bank_def blank_app_def r_get_def)
  then show ?thesis by simp
qed

definition demo_refund :: refund_db where
  "demo_refund = \<lparr>rd_bank = blank_bank (blank_app\<lparr>challenges := [demo_pending\<lparr>ch_status := CActive, ch_deposit_tx := Some ''t''\<rparr>]\<rparr>),
     rd_refunds = [], rd_policy = (\<lambda>_. RNoneAfterStart), rd_percentage = (\<lambda>_. 5000), rd_startsAt = (\<lambda>_. 100), rd_payments = []\<rparr>"

definition demo_refund_env :: refund_env where
  "demo_refund_env = \<lparr>rv_operations = (\<lambda>_. Inr [\<lparr>op_type = ''payment'', op_from = Some ''G'', op_source = None\<rparr>]),
     rv_submit = (\<lambda>_ _ _. Inr ''h'')\<rparr>"

lemma demo_refund_facts:
  "findRefundByChallengeId demo_refund ''c1'' = None"
  "getChallengeById (game (rd_bank demo_refund)) ''c1'' = Some (demo_pending\<lparr>ch_status := CActive, ch_deposit_tx := Some ''t''\<rparr>)"
  "getDepositSender demo_refund_env ''t'' = Inr (Some ''G'')"
  by (simp_all add: demo_refund_def findRefundByChallengeId_def getChallengeById_def demo_pending_def blank_bank_def blank_app_def
      demo_refund_env_def getDepositSender_def bind_r_def)

theorem zero_refund_rejected_witness:
  "\<exists>e. refundChallenge demo_refund_env 200 ''r1'' ''c1'' ''adm'' ''why'' demo_refund = (Inl e, demo_refund) \<and>
     fst (resolve_status e) = 400"
  by (rule zero_refund_rejected [OF demo_refund_facts(1,2) _ _ demo_refund_facts(3)])
    (simp_all add: demo_refund_def given_def)

theorem refund_once_witness:
  "\<exists>r d'. refundChallenge demo_refund_env 50 ''r1'' ''c1'' ''adm'' ''why'' demo_refund = (Inr r, d') \<and> rn_amount r = 25 \<and>
     refundChallenge demo_refund_env 60 ''r2'' ''c1'' ''adm'' ''again'' d' = (Inr r, d')"
proof -
  have p: "percentage_hundredths 5000 = 5000" by (simp add: percentage_exact)
  have "\<exists>r d'. refundChallenge demo_refund_env 50 ''r1'' ''c1'' ''adm'' ''why'' demo_refund = (Inr r, d')"
    using demo_refund_facts
    by (simp add: refundChallenge_def given_def demo_refund_def refund_amount_def p demo_pending_def and_then_def
        submitRefundPayment_def demo_refund_env_def createRefund_def Let_def)
  then obtain r d' where e: "refundChallenge demo_refund_env 50 ''r1'' ''c1'' ''adm'' ''why'' demo_refund = (Inr r, d')" by blast
  have "rn_amount r = 25" "refundChallenge demo_refund_env 60 ''r2'' ''c1'' ''adm'' ''again'' d' = (Inr r, d')"
    using refund_once [OF e demo_refund_facts(1,2), of demo_refund_env 60 "''r2''" "''adm''" "''again''"]
    by (simp_all add: demo_pending_def demo_refund_def)
  with e show ?thesis by blast
qed

end
