(* ===== verification/Questions.thy ===== *)
theory Questions
  imports Scoring
begin

text \<open>
  Question generation (\<open>services/questions.ts\<close>): the Fisher-Yates shuffle, the choice of distractors, the
  three rounds with their fallbacks, and the preview. Randomness is a parameter: \<open>rnd k i\<close> decides the
  \<open>i\<close>-th exchange of the \<open>k\<close>-th shuffle, reduced to the range \<open>0..i\<close> of \<open>Math.floor(Math.random() * (i + 1))\<close>.
\<close>

type_synonym randomness = "nat \<Rightarrow> nat \<Rightarrow> nat"

section \<open>Shuffle and distractors\<close>

definition swap :: "'a list \<Rightarrow> nat \<Rightarrow> nat \<Rightarrow> 'a list" where
  "swap xs i j = xs[i := xs ! j, j := xs ! i]"

fun shuffle_from :: "(nat \<Rightarrow> nat) \<Rightarrow> nat \<Rightarrow> 'a list \<Rightarrow> 'a list" where
  "shuffle_from pick 0 arr = arr"
| "shuffle_from pick (Suc i) arr = shuffle_from pick i (swap arr (Suc i) (pick (Suc i) mod (Suc i + 1)))"

definition shuffle :: "(nat \<Rightarrow> nat) \<Rightarrow> 'a list \<Rightarrow> 'a list" where
  "shuffle pick array = shuffle_from pick (length array - 1) array"

definition fallbacks :: "string list" where
  "fallbacks = [''Option A'', ''Option B'', ''Option C'', ''Option D'']"

definition fallback_at :: "nat \<Rightarrow> string" where
  "fallback_at n = (if n < length fallbacks then fallbacks ! n else ''Option '' @ string_of_nat (n + 1))"

fun pad_result :: "nat \<Rightarrow> string list \<Rightarrow> string list" where
  "pad_result 0 result = result"
| "pad_result (Suc missing) result = pad_result missing (result @ [fallback_at (length result)])"

definition pickDistractors :: "(nat \<Rightarrow> nat) \<Rightarrow> string list \<Rightarrow> string \<Rightarrow> nat \<Rightarrow> string list" where
  "pickDistractors pick pool exclude cnt =
     (let filtered = filter (\<lambda>x. x \<noteq> exclude) pool; result = take cnt (shuffle pick filtered)
      in pad_result (cnt - length result) result)"

definition optionLetter :: "nat option \<Rightarrow> choice" where
  "optionLetter index =
     (case index of
        Some n \<Rightarrow> if n < 4 then [OptA, OptB, OptC, OptD] ! n else OptA
      | None \<Rightarrow> OptA)"

fun index_of :: "'a list \<Rightarrow> 'a \<Rightarrow> nat option" where
  "index_of [] x = None"
| "index_of (y # ys) x = (if y = x then Some 0 else map_option Suc (index_of ys x))"

section \<open>Rounds\<close>

text \<open>A brand as far as its questions need it; a template overrides the text and the prompt of a round.\<close>

record brand_kit =
  bk_name :: string
  bk_tagline :: "string option"
  bk_usp :: "string option"
  bk_images :: "string list"
  bk_template :: "nat \<Rightarrow> string option \<times> string option"

record distractor =
  dt_name :: string
  dt_tagline :: "string option"

record question_draft =
  qd_challenge :: string
  qd_round :: nat
  qd_type :: string
  qd_prompt :: string
  qd_text :: string
  qd_answer :: string
  qd_options :: "string list"
  qd_correct :: choice

definition present :: "string option \<Rightarrow> bool" where
  "present s \<longleftrightarrow> (case s of Some (c # cs) \<Rightarrow> True | _ \<Rightarrow> False)"

definition or_default :: "string option \<Rightarrow> string \<Rightarrow> string" where
  "or_default s d = (case s of Some x \<Rightarrow> x | None \<Rightarrow> d)"

text \<open>One question: distractors and options are shuffled by the two given shuffles.\<close>

definition make_question ::
  "(nat \<Rightarrow> nat) \<Rightarrow> (nat \<Rightarrow> nat) \<Rightarrow> string \<Rightarrow> brand_kit \<Rightarrow> nat \<Rightarrow> string \<Rightarrow> string \<Rightarrow> string \<Rightarrow> string \<Rightarrow> string list \<Rightarrow> question_draft" where
  "make_question p1 p2 cid brand rnd typ prompt txt answer pool =
     (let options = shuffle p2 (answer # pickDistractors p1 pool answer 3)
      in \<lparr>qd_challenge = cid, qd_round = rnd, qd_type = typ, qd_prompt = or_default (snd (bk_template brand rnd)) prompt,
          qd_text = or_default (fst (bk_template brand rnd)) txt, qd_answer = answer, qd_options = options,
          qd_correct = optionLetter (index_of options answer)\<rparr>)"

definition nonempty :: "string list \<Rightarrow> string list" where
  "nonempty = filter (\<lambda>s. s \<noteq> [])"

definition round_1 :: "randomness \<Rightarrow> string \<Rightarrow> brand_kit \<Rightarrow> distractor list \<Rightarrow> question_draft list" where
  "round_1 rnd cid brand pool =
     (case bk_tagline brand of
        Some (c # cs) \<Rightarrow> [make_question (rnd 0) (rnd 1) cid brand 1 ''which_tagline'' ''logo''
           ''Which tagline belongs to this brand?'' (c # cs) (nonempty (map (\<lambda>d. or_default (dt_tagline d) []) pool))]
      | _ \<Rightarrow> [])"

definition round_2 :: "randomness \<Rightarrow> string \<Rightarrow> brand_kit \<Rightarrow> distractor list \<Rightarrow> question_draft list" where
  "round_2 rnd cid brand pool =
     (case bk_usp brand of
        Some (c # cs) \<Rightarrow> [make_question (rnd 2) (rnd 3) cid brand 2 ''which_brand'' ''tagline''
           (''Which brand is described by this claim: '' @ (c # cs) @ ''?'') (bk_name brand) (nonempty (map dt_name pool))]
      | _ \<Rightarrow> [])"

definition round_3 :: "randomness \<Rightarrow> string \<Rightarrow> brand_kit \<Rightarrow> distractor list \<Rightarrow> question_draft list" where
  "round_3 rnd cid brand pool =
     (if bk_images brand \<noteq> []
      then [make_question (rnd 4) (rnd 5) cid brand 3 ''which_product'' ''productImage1''
           ''Which brand makes this product?'' (bk_name brand) (nonempty (map dt_name pool))]
      else [])"

text \<open>The \<open>while\<close> loop: the number of a fallback round is the number of questions so far, plus one.\<close>

fun fill_rounds :: "nat \<Rightarrow> randomness \<Rightarrow> string \<Rightarrow> brand_kit \<Rightarrow> distractor list \<Rightarrow> question_draft list \<Rightarrow> question_draft list" where
  "fill_rounds 0 rnd cid brand pool qs = qs"
| "fill_rounds (Suc missing) rnd cid brand pool qs =
     fill_rounds missing rnd cid brand pool
       (qs @ [make_question (rnd (6 + 2 * length qs)) (rnd (7 + 2 * length qs)) cid brand (length qs + 1) ''which_brand'' ''logo''
          ''What is the name of this brand?'' (bk_name brand) (map dt_name pool)])"

definition generateChallengeQuestions :: "randomness \<Rightarrow> string \<Rightarrow> brand_kit \<Rightarrow> distractor list \<Rightarrow> question_draft list" where
  "generateChallengeQuestions rnd cid brand pool =
     (let qs = round_1 rnd cid brand pool @ round_2 rnd cid brand pool @ round_3 rnd cid brand pool
      in take 3 (fill_rounds (3 - length qs) rnd cid brand pool qs))"

record preview =
  pv_text :: string
  pv_options :: "string list"
  pv_correctIndex :: "nat option"
  pv_explanation :: string

definition generateQuestionPreview :: "randomness \<Rightarrow> brand_kit \<Rightarrow> distractor list \<Rightarrow> nat \<Rightarrow> preview list" where
  "generateQuestionPreview rnd brand pool cnt =
     (let rounds = generateChallengeQuestions rnd ''preview'' brand pool
      in if rounds = [] then []
         else map (\<lambda>i. let r = rounds ! (i mod length rounds)
                       in \<lparr>pv_text = qd_text r, pv_options = qd_options r, pv_correctIndex = index_of (qd_options r) (qd_answer r),
                           pv_explanation = ''The correct answer is '' @ [CHR 0x22] @ qd_answer r @ [CHR 0x22] @ ''.''\<rparr>)
              [0 ..< cnt])"

section \<open>Lemmas\<close>

lemma mset_shuffle_from: "i < length arr \<Longrightarrow> mset (shuffle_from pick i arr) = mset arr"
proof (induction i arbitrary: arr)
  case (Suc i)
  let ?j = "pick (Suc i) mod (Suc i + 1)"
  have j: "?j < length arr" using Suc.prems mod_less_divisor [of "Suc i + 1" "pick (Suc i)"] by linarith
  have "mset (shuffle_from pick (Suc i) arr) = mset (swap arr (Suc i) ?j)"
    using Suc.IH [of "swap arr (Suc i) ?j"] Suc.prems by (simp add: swap_def)
  also have "\<dots> = mset arr" using mset_swap [OF j Suc.prems] by (simp add: swap_def)
  finally show ?case .
qed simp

text \<open>A shuffle is a permutation, whatever the random numbers.\<close>

lemma mset_shuffle: "mset (shuffle pick xs) = mset xs"
  by (cases xs) (simp_all add: shuffle_def mset_shuffle_from)

lemma length_shuffle [simp]: "length (shuffle pick xs) = length xs"
  using mset_shuffle by (metis size_mset)

lemma set_shuffle [simp]: "set (shuffle pick xs) = set xs"
  using mset_shuffle by (metis set_mset_mset)

lemma count_list_shuffle: "count_list (shuffle pick xs) x = count_list xs x"
  using mset_shuffle by (metis count_mset)

lemma pad_result_append: "pad_result n xs = xs @ map fallback_at [length xs ..< length xs + n]"
  by (induction n arbitrary: xs) (simp_all add: upt_rec)

lemma length_pickDistractors [simp]: "length (pickDistractors pick pool exclude n) = n"
  by (simp add: pickDistractors_def Let_def pad_result_append)

lemma pickDistractors_not:
  assumes "exclude \<notin> set fallbacks" and "n \<le> 4"
  shows "exclude \<notin> set (pickDistractors pick pool exclude n)"
proof -
  have "fallback_at k \<in> set fallbacks" if "k < 4" for k using that by (simp add: fallback_at_def fallbacks_def nth_mem [of k fallbacks, unfolded fallbacks_def, simplified])
  moreover have "k < 4" if "k \<in> {length (take n (shuffle pick (filter (\<lambda>x. x \<noteq> exclude) pool))) ..<
      length (take n (shuffle pick (filter (\<lambda>x. x \<noteq> exclude) pool))) + (n - length (take n (shuffle pick (filter (\<lambda>x. x \<noteq> exclude) pool))))}" for k
    using that assms(2) by auto
  ultimately show ?thesis
    using assms(1) by (auto simp: pickDistractors_def Let_def pad_result_append dest!: in_set_takeD)
qed

lemma index_of_Some: "index_of xs x = Some i \<Longrightarrow> i < length xs \<and> xs ! i = x \<and> (\<forall>j < i. xs ! j \<noteq> x)"
proof (induction xs arbitrary: i)
  case (Cons y ys)
  then show ?case by (cases i) (auto simp: less_Suc_eq_0_disj split: if_splits)
qed simp

lemma index_of_None: "index_of xs x = None \<longleftrightarrow> x \<notin> set xs"
  by (induction xs) auto

definition letter_index :: "choice \<Rightarrow> nat" where
  "letter_index c = (case c of OptA \<Rightarrow> 0 | OptB \<Rightarrow> 1 | OptC \<Rightarrow> 2 | OptD \<Rightarrow> 3)"

lemma letter_optionLetter: "n < 4 \<Longrightarrow> letter_index (optionLetter (Some n)) = n"
  by (auto simp: optionLetter_def letter_index_def numeral_eq_Suc less_Suc_eq)

text \<open>Four options, and the stored letter is the only one that shows the answer.\<close>

definition question_sound :: "question_draft \<Rightarrow> bool" where
  "question_sound q \<longleftrightarrow> length (qd_options q) = 4 \<and> qd_options q ! letter_index (qd_correct q) = qd_answer q \<and>
     count_list (qd_options q) (qd_answer q) = 1"

lemma make_question_sound:
  assumes "answer \<notin> set fallbacks"
  shows "question_sound (make_question p1 p2 cid brand rnd typ prompt txt answer pool)"
proof -
  let ?opts = "shuffle p2 (answer # pickDistractors p1 pool answer 3)"
  obtain i where i: "index_of ?opts answer = Some i" using index_of_None [of ?opts answer] by fastforce
  have "i < 4" "?opts ! i = answer" using index_of_Some [OF i] by simp_all
  moreover have "count_list ?opts answer = 1"
    using pickDistractors_not [OF assms, of 3] by (simp add: count_list_shuffle count_list_0_iff)
  ultimately show ?thesis
    using i by (simp add: question_sound_def make_question_def Let_def letter_optionLetter)
qed

lemma qd_round_make [simp]: "qd_round (make_question p1 p2 cid brand rnd typ prompt txt answer pool) = rnd"
  by (simp add: make_question_def Let_def)

lemma rounds_split:
  "map qd_round (round_1 rnd cid brand pool) = (if present (bk_tagline brand) then [1] else [])"
  "map qd_round (round_2 rnd cid brand pool) = (if present (bk_usp brand) then [2] else [])"
  "map qd_round (round_3 rnd cid brand pool) = (if bk_images brand \<noteq> [] then [3] else [])"
  by (auto simp: round_1_def round_2_def round_3_def present_def split: option.splits list.splits)

lemma fill_rounds_rounds:
  "map qd_round (fill_rounds n rnd cid brand pool qs) = map qd_round qs @ map Suc [length qs ..< length qs + n]"
  by (induction n arbitrary: qs) (simp_all add: upt_rec)

lemma generated_rounds:
  "map qd_round (generateChallengeQuestions rnd cid brand pool) =
     (let rs = (if present (bk_tagline brand) then [1] else []) @ (if present (bk_usp brand) then [2] else []) @
               (if bk_images brand \<noteq> [] then [3] else [])
      in rs @ map Suc [length rs ..< 3])"
proof -
  define qs where "qs = round_1 rnd cid brand pool @ round_2 rnd cid brand pool @ round_3 rnd cid brand pool"
  define rs where "rs = map qd_round qs"
  have rs: "rs = (if present (bk_tagline brand) then [1] else []) @ (if present (bk_usp brand) then [2] else []) @
               (if bk_images brand \<noteq> [] then [3] else [])"
    unfolding rs_def qs_def map_append rounds_split ..
  have len: "length qs = length rs" by (simp add: rs_def)
  have le: "length rs \<le> 3" by (simp add: rs)
  have "map qd_round (generateChallengeQuestions rnd cid brand pool) = take 3 (rs @ map Suc [length rs ..< length rs + (3 - length rs)])"
    unfolding generateChallengeQuestions_def Let_def qs_def [symmetric] take_map [symmetric] fill_rounds_rounds len
    by (simp only: rs_def)
  also have "\<dots> = rs @ map Suc [length rs ..< 3]" using le by simp
  finally show ?thesis by (simp only: Let_def rs)
qed

lemma length_generated [simp]: "length (generateChallengeQuestions rnd cid brand pool) = 3"
proof -
  have "length (map qd_round (generateChallengeQuestions rnd cid brand pool)) = 3" unfolding generated_rounds Let_def by simp
  then show ?thesis by simp
qed

lemma generated_rounds_distinct:
  "(distinct (map qd_round (generateChallengeQuestions rnd cid brand pool)) \<longleftrightarrow>
     map qd_round (generateChallengeQuestions rnd cid brand pool) = [1, 2, 3]) \<and>
   (distinct (map qd_round (generateChallengeQuestions rnd cid brand pool)) \<longleftrightarrow>
     (if present (bk_tagline brand) then present (bk_usp brand) \<or> bk_images brand = []
      else \<not> present (bk_usp brand) \<and> bk_images brand = []))"
proof -
  have u: "[0 ..< 3] = [0, 1, 2 :: nat]" "[1 ..< 3] = [1, 2 :: nat]" "[2 ..< 3] = [2 :: nat]" by code_simp+
  show ?thesis
    unfolding generated_rounds Let_def
    by (cases "present (bk_tagline brand)"; cases "present (bk_usp brand)"; cases "bk_images brand = []")
      (simp_all add: u One_nat_def [symmetric] numeral_2_eq_2 [symmetric] del: One_nat_def)
qed

lemma fill_rounds_challenge:
  "\<forall>q \<in> set qs. qd_challenge q = cid \<Longrightarrow> \<forall>q \<in> set (fill_rounds n rnd cid brand pool qs). qd_challenge q = cid"
proof (induction n arbitrary: qs)
  case (Suc n)
  show ?case unfolding fill_rounds.simps
    by (rule Suc.IH) (use Suc.prems in \<open>auto simp: make_question_def Let_def\<close>)
qed simp

lemma generated_challenge:
  assumes "q \<in> set (generateChallengeQuestions rnd cid brand pool)"
  shows "qd_challenge q = cid"
proof -
  let ?qs = "round_1 rnd cid brand pool @ round_2 rnd cid brand pool @ round_3 rnd cid brand pool"
  have "\<forall>q \<in> set ?qs. qd_challenge q = cid"
    by (auto simp: round_1_def round_2_def round_3_def make_question_def Let_def split: option.splits list.splits)
  then show ?thesis
    using assms fill_rounds_challenge unfolding generateChallengeQuestions_def Let_def by (blast dest: in_set_takeD)
qed

lemma fill_rounds_answer:
  "\<forall>q \<in> set qs. qd_answer q \<in> A \<Longrightarrow> bk_name brand \<in> A \<Longrightarrow>
   \<forall>q \<in> set (fill_rounds n rnd cid brand pool qs). qd_answer q \<in> A"
proof (induction n arbitrary: qs)
  case (Suc n)
  show ?case unfolding fill_rounds.simps
    by (rule Suc.IH) (use Suc.prems in \<open>auto simp: make_question_def Let_def\<close>)
qed simp

lemma generated_answer:
  assumes "q \<in> set (generateChallengeQuestions rnd cid brand pool)"
  shows "qd_answer q \<in> {bk_name brand} \<union> set_option (bk_tagline brand)"
proof -
  let ?qs = "round_1 rnd cid brand pool @ round_2 rnd cid brand pool @ round_3 rnd cid brand pool"
  have "\<forall>q \<in> set ?qs. qd_answer q \<in> {bk_name brand} \<union> set_option (bk_tagline brand)"
    by (auto simp: round_1_def round_2_def round_3_def make_question_def Let_def split: option.splits list.splits)
  then have "\<forall>q \<in> set (fill_rounds (3 - length ?qs) rnd cid brand pool ?qs). qd_answer q \<in> {bk_name brand} \<union> set_option (bk_tagline brand)"
    by (rule fill_rounds_answer) simp
  then show ?thesis using assms unfolding generateChallengeQuestions_def Let_def by (blast dest: in_set_takeD)
qed

section \<open>Properties\<close>

lemma generated_sound:
  assumes "bk_name brand \<notin> set fallbacks" and "\<And>t. bk_tagline brand = Some t \<Longrightarrow> t \<notin> set fallbacks"
    and "q \<in> set (generateChallengeQuestions rnd cid brand pool)"
  shows "question_sound q"
proof -
  let ?qs = "round_1 rnd cid brand pool @ round_2 rnd cid brand pool @ round_3 rnd cid brand pool"
  have fill: "(\<forall>q \<in> set (fill_rounds n rnd cid brand pool qs). question_sound q)" if "\<forall>q \<in> set qs. question_sound q" for n qs
    using that
  proof (induction n arbitrary: qs)
    case (Suc n)
    show ?case unfolding fill_rounds.simps
      by (rule Suc.IH) (use Suc.prems make_question_sound [OF assms(1)] in auto)
  qed simp
  have "\<forall>q \<in> set ?qs. question_sound q"
    using make_question_sound assms(1,2)
    by (auto simp: round_1_def round_2_def round_3_def split: option.splits list.splits)
  then have "\<forall>q \<in> set (fill_rounds (3 - length ?qs) rnd cid brand pool ?qs). question_sound q" by (rule fill)
  then show ?thesis using assms(3) unfolding generateChallengeQuestions_def Let_def by (blast dest: in_set_takeD)
qed

text \<open>
  Every generated question has four options of which exactly one is the answer, and the stored letter
  points to it, whatever the random numbers, the pool of distractors (also with duplicates or empty) and
  the texts of the brand, as long as the brand's name and tagline are none of the fallback options. The rounds are exactly 1, 2 and 3 in
  order if the brand kit is filled in from the front or not at all; otherwise a round occurs twice and
  another is missing.
\<close>

theorem questions_sound:
  assumes "bk_name brand \<notin> set fallbacks" and "\<And>t. bk_tagline brand = Some t \<Longrightarrow> t \<notin> set fallbacks"
  shows "length (generateChallengeQuestions rnd cid brand pool) = 3 \<and>
    (\<forall>q \<in> set (generateChallengeQuestions rnd cid brand pool). question_sound q) \<and>
    (distinct (map qd_round (generateChallengeQuestions rnd cid brand pool)) \<longleftrightarrow>
     map qd_round (generateChallengeQuestions rnd cid brand pool) = [1, 2, 3]) \<and>
    (distinct (map qd_round (generateChallengeQuestions rnd cid brand pool)) \<longleftrightarrow>
     (if present (bk_tagline brand) then present (bk_usp brand) \<or> bk_images brand = []
      else \<not> present (bk_usp brand) \<and> bk_images brand = []))"
  using generated_rounds_distinct [of rnd cid brand pool] generated_sound [OF assms] length_generated by blast

definition demo_kit :: brand_kit where
  "demo_kit = \<lparr>bk_name = ''Acme'', bk_tagline = None, bk_usp = Some ''Fast'', bk_images = [''p1''], bk_template = (\<lambda>_. (None, None))\<rparr>"

theorem questions_sound_witness:
  "map qd_round (generateChallengeQuestions (\<lambda>_ _. 0) ''c1'' demo_kit []) = [2, 3, 3] \<and>
   list_all question_sound (generateChallengeQuestions (\<lambda>_ _. 0) ''c1'' demo_kit [])"
proof -
  have "map qd_round (generateChallengeQuestions (\<lambda>_ _. 0) ''c1'' demo_kit []) = [2, 3, 3]" by code_simp
  moreover have "bk_name demo_kit \<notin> set fallbacks" "bk_tagline demo_kit = None" by (simp_all add: demo_kit_def fallbacks_def)
  ultimately show ?thesis using questions_sound [of demo_kit "\<lambda>_ _. 0" "''c1''" "[]"] by (simp add: list_all_iff)
qed

end
