(* ===== verification/Brands.thy ===== *)
theory Brands
  imports Deposits Questions
begin

text \<open>
  Brands (\<open>routes/brands.ts\<close>, \<open>db/queries/brands.ts\<close>, \<open>brand-members.ts\<close>, \<open>challenge-licenses.ts\<close>): the
  brand kits, the members with their roles and the checks on them, the creation of challenges with their
  questions, the review of questions, the licensing of challenges and the deletion of a brand. Every route
  is a function of the calling user's id and email on the state.
\<close>

section \<open>State\<close>

datatype role = Owner | Editor | Viewer

record brand_row =
  bw_id :: string
  bw_owner :: string
  bw_kit :: brand_kit
  bw_deleted :: "int option"
  bw_created :: int

record brand_member =
  bm_id :: string
  bm_brand :: string
  bm_user :: "string option"
  bm_email :: string
  bm_role :: role
  bm_invited_by :: string

record stored_question =
  sq_id :: string
  sq_draft :: question_draft
  sq_approved :: "bool option"

record acquired_license =
  al_id :: string
  al_source :: string
  al_licensor :: string
  al_licensee :: string
  al_fee :: nat

text \<open>\<open>bs_offer\<close> are the licensing columns of challenges: whether licensing is available, and the fee.\<close>

record brand_st =
  bs_bank :: bank
  bs_brands :: "brand_row list"
  bs_members :: "brand_member list"
  bs_questions :: "stored_question list"
  bs_emails :: "(string \<times> string) list"
  bs_offer :: "string \<Rightarrow> bool \<times> nat"
  bs_licenses :: "acquired_license list"
  bs_refund :: "string \<Rightarrow> refund_policy \<times> nat"

section \<open>Roles\<close>

definition getBrandById :: "brand_st \<Rightarrow> string \<Rightarrow> brand_row option" where
  "getBrandById s bid = find_row (\<lambda>b. bw_id b = bid \<and> bw_deleted b = None) (bs_brands s)"

definition role_rank :: "role \<Rightarrow> nat" where
  "role_rank r = (case r of Owner \<Rightarrow> 1 | Editor \<Rightarrow> 2 | Viewer \<Rightarrow> 3)"

definition member_matches :: "string \<Rightarrow> string \<Rightarrow> string option \<Rightarrow> brand_member \<Rightarrow> bool" where
  "member_matches bid uid email m \<longleftrightarrow> bm_brand m = bid \<and>
     (bm_user m = Some uid \<or> (case email of None \<Rightarrow> False | Some e \<Rightarrow> toLowerCase (bm_email m) = toLowerCase e))"

definition getBrandMemberRole :: "brand_st \<Rightarrow> string \<Rightarrow> string \<Rightarrow> string option \<Rightarrow> role option" where
  "getBrandMemberRole s bid uid email =
     (case getBrandById s bid of
        None \<Rightarrow> None
      | Some b \<Rightarrow>
          if bw_owner b = uid then Some Owner
          else (case sort_key (\<lambda>m. role_rank (bm_role m)) (filter (member_matches bid uid email) (bs_members s)) of
                  [] \<Rightarrow> None
                | m # _ \<Rightarrow> Some (bm_role m)))"

definition hasRequiredBrandRole :: "role option \<Rightarrow> role \<Rightarrow> bool" where
  "hasRequiredBrandRole userRole requiredRole =
     (case userRole of
        None \<Rightarrow> False
      | Some Owner \<Rightarrow> True
      | Some Editor \<Rightarrow> requiredRole = Editor \<or> requiredRole = Viewer
      | Some Viewer \<Rightarrow> requiredRole = Viewer)"

definition assertBrandRole :: "brand_st \<Rightarrow> string \<Rightarrow> string \<Rightarrow> string option \<Rightarrow> role \<Rightarrow> exn + brand_row \<times> role" where
  "assertBrandRole s bid uid email minRole =
     (case getBrandById s bid of
        None \<Rightarrow> Inl (createError ''Brand not found'' 404 None)
      | Some b \<Rightarrow>
          (case getBrandMemberRole s (bw_id b) uid email of
             None \<Rightarrow> Inl (createError ''Forbidden'' 403 None)
           | Some r \<Rightarrow> if hasRequiredBrandRole (Some r) minRole then Inr (b, r) else Inl (createError ''Forbidden'' 403 None)))"

definition with_role ::
  "string \<Rightarrow> string \<Rightarrow> string option \<Rightarrow> role \<Rightarrow> (brand_row \<Rightarrow> brand_st \<Rightarrow> (exn + 'a) \<times> brand_st) \<Rightarrow> brand_st \<Rightarrow> (exn + 'a) \<times> brand_st" where
  "with_role bid uid email minRole f s =
     (case assertBrandRole s bid uid email minRole of Inl e \<Rightarrow> (Inl e, s) | Inr (b, r) \<Rightarrow> f b s)"

section \<open>Members\<close>

text \<open>The upsert keeps the user of an existing row and changes its role.\<close>

definition addBrandMember :: "string \<Rightarrow> string \<Rightarrow> string \<Rightarrow> role \<Rightarrow> string \<Rightarrow> brand_st \<Rightarrow> brand_member \<times> brand_st" where
  "addBrandMember fresh bid email rl invitedBy s =
     (let normalizedEmail = toLowerCase (trim email);
          matchedUserId = map_option fst (find_row (\<lambda>(u, e). toLowerCase e = normalizedEmail) (bs_emails s));
          slot = (\<lambda>m. bm_brand m = bid \<and> bm_email m = normalizedEmail)
      in case find_row slot (bs_members s) of
           Some m \<Rightarrow> (m\<lparr>bm_role := rl\<rparr>, s\<lparr>bs_members := update_where slot (\<lambda>m. m\<lparr>bm_role := rl\<rparr>) (bs_members s)\<rparr>)
         | None \<Rightarrow>
             let row = \<lparr>bm_id = fresh, bm_brand = bid, bm_user = matchedUserId, bm_email = normalizedEmail,
                        bm_role = rl, bm_invited_by = invitedBy\<rparr>
             in (row, s\<lparr>bs_members := bs_members s @ [row]\<rparr>))"

definition removeBrandMember :: "string \<Rightarrow> string \<Rightarrow> brand_st \<Rightarrow> (exn + brand_member option) \<times> brand_st" where
  "removeBrandMember bid memberId s =
     (case find_row (\<lambda>m. bm_id m = memberId \<and> bm_brand m = bid) (bs_members s) of
        None \<Rightarrow> (Inr None, s)
      | Some m \<Rightarrow>
          if bm_role m = Owner \<and> count_where (\<lambda>m. bm_brand m = bid \<and> bm_role m = Owner) (bs_members s) \<le> 1
          then (Inl (js_error ''CANNOT_REMOVE_LAST_OWNER''), s)
          else (Inr (Some m), s\<lparr>bs_members := delete_where (\<lambda>m. bm_id m = memberId \<and> bm_brand m = bid) (bs_members s)\<rparr>))"

text \<open>The route that answers \<open>POST /brands/:id/members\<close> is the one registered first. It passes the brand id
  where \<open>addBrandMember\<close> expects an object, so that reading the email's \<open>trim\<close> throws.\<close>

definition post_members :: "string \<Rightarrow> string \<Rightarrow> string option \<Rightarrow> bool \<Rightarrow> brand_st \<Rightarrow> (exn + unit) \<times> brand_st" where
  "post_members bid uid email bodyValid =
     with_role bid uid email Owner (\<lambda>b s.
       if \<not> bodyValid then (Inl zod_error, s)
       else (Inl (js_error ''Cannot read properties of undefined (reading trim)''), s))"

definition delete_member :: "string \<Rightarrow> string \<Rightarrow> string \<Rightarrow> string option \<Rightarrow> brand_st \<Rightarrow> (exn + unit) \<times> brand_st" where
  "delete_member bid memberId uid email =
     with_role bid uid email Owner (\<lambda>b s.
       let members = filter (\<lambda>m. bm_brand m = bw_id b) (bs_members s)
       in case find_row (\<lambda>m. bm_id m = memberId \<or> bm_user m = Some memberId) (sort_key (\<lambda>m. role_rank (bm_role m)) members) of
            None \<Rightarrow> (Inl (createError ''Member not found'' 404 None), s)
          | Some target \<Rightarrow>
              if bm_role target = Owner \<and> count_where (\<lambda>m. bm_role m = Owner) members \<le> 1
              then (Inl (createError ''Cannot remove the last owner of a brand'' 400 (Some ''CANNOT_REMOVE_LAST_OWNER'')), s)
              else and_then (removeBrandMember (bw_id b) (bm_id target) s) (\<lambda>_ s1. (Inr (), s1)))"

section \<open>Brand kits\<close>

text \<open>The optimised images are given; the failure of the creator's membership is swallowed and does not
  occur here.\<close>

definition post_brand :: "string \<Rightarrow> string \<Rightarrow> int \<Rightarrow> brand_kit \<Rightarrow> string \<Rightarrow> string option \<Rightarrow> brand_st \<Rightarrow> brand_row \<times> brand_st" where
  "post_brand fresh freshMember now kit uid email s =
     (let row = \<lparr>bw_id = fresh, bw_owner = uid, bw_kit = kit\<lparr>bk_template := (\<lambda>_. (None, None))\<rparr>, bw_deleted = None, bw_created = now\<rparr>;
          s1 = s\<lparr>bs_brands := bs_brands s @ [row]\<rparr>
      in (row, snd (addBrandMember freshMember fresh (case given email of Some e \<Rightarrow> e | None \<Rightarrow> uid @ ''@internal'') Owner uid s1)))"

text \<open>The fields of a patch as far as questions need them; \<open>None\<close> is a field that was not sent, \<open>Some None\<close>
  one that was sent as null; \<open>bp_other\<close> says that some other column was sent.\<close>

record brand_patch =
  bp_name :: "string option"
  bp_tagline :: "string option option"
  bp_usp :: "string option option"
  bp_template :: "(nat \<Rightarrow> string option \<times> string option) option option"
  bp_other :: bool

definition empty_template :: "nat \<Rightarrow> string option \<times> string option" where "empty_template r = (None, None)"

text \<open>The spread names \<open>question_template\<close> also when it was not sent, with the value undefined, which the
  driver stores as null.\<close>

definition apply_patch :: "brand_patch \<Rightarrow> brand_kit \<Rightarrow> brand_kit" where
  "apply_patch p kit =
     \<lparr>bk_name = (case bp_name p of Some n \<Rightarrow> n | None \<Rightarrow> bk_name kit),
      bk_tagline = (case bp_tagline p of Some t \<Rightarrow> t | None \<Rightarrow> bk_tagline kit),
      bk_usp = (case bp_usp p of Some u \<Rightarrow> u | None \<Rightarrow> bk_usp kit),
      bk_images = bk_images kit,
      bk_template = (case bp_template p of Some (Some t) \<Rightarrow> t | _ \<Rightarrow> empty_template)\<rparr>"

definition updateBrand :: "string \<Rightarrow> string option \<Rightarrow> (brand_kit \<Rightarrow> brand_kit) \<Rightarrow> brand_st \<Rightarrow> brand_row option \<times> brand_st" where
  "updateBrand bid ownerUserId upd s =
     (let P = (\<lambda>b. bw_id b = bid \<and> (ownerUserId = None \<or> ownerUserId = Some (bw_owner b)) \<and> bw_deleted b = None);
          f = (\<lambda>b. b\<lparr>bw_kit := upd (bw_kit b)\<rparr>)
      in (map_option f (find_row P (bs_brands s)), s\<lparr>bs_brands := update_where P f (bs_brands s)\<rparr>))"

definition patch_brand :: "string \<Rightarrow> string \<Rightarrow> string option \<Rightarrow> brand_patch option \<Rightarrow> brand_st \<Rightarrow> (exn + brand_row) \<times> brand_st" where
  "patch_brand bid uid email body =
     with_role bid uid email Editor (\<lambda>b s.
       case body of
         None \<Rightarrow> (Inl (createError ''Invalid request body'' 422 (Some ''INVALID_QUESTION_TEMPLATE'')), s)
       | Some p \<Rightarrow>
           if bp_name p = None \<and> bp_tagline p = None \<and> bp_usp p = None \<and> bp_template p = None \<and> \<not> bp_other p then (Inr b, s)
           else (case updateBrand bid None (apply_patch p) s of
                   (None, s1) \<Rightarrow> (Inl (createError ''Brand not found'' 404 None), s1)
                 | (Some b', s1) \<Rightarrow> (Inr b', s1)))"

definition deleteBrand :: "string \<Rightarrow> string option \<Rightarrow> int \<Rightarrow> brand_st \<Rightarrow> nat option \<times> brand_st" where
  "deleteBrand bid ownerUserId now s =
     (let P = (\<lambda>b. bw_id b = bid \<and> bw_deleted b = None \<and> (ownerUserId = None \<or> ownerUserId = Some (bw_owner b)));
          Q = (\<lambda>c. ch_brand c = bid \<and> ch_status c \<in> {CPendingDeposit, CActive} \<and> ch_deleted_at c = None);
          b = bs_bank s
      in case find_row P (bs_brands s) of
           None \<Rightarrow> (None, s)
         | Some _ \<Rightarrow>
             (Some (count_where Q (challenges (game b))),
              s\<lparr>bs_brands := update_where P (\<lambda>b. b\<lparr>bw_deleted := Some now\<rparr>) (bs_brands s),
                bs_bank := b\<lparr>game := (game b)\<lparr>challenges := update_where Q (\<lambda>c. c\<lparr>ch_status := CCancelled\<rparr>) (challenges (game b))\<rparr>\<rparr>\<rparr>))"

definition delete_brand :: "string \<Rightarrow> int \<Rightarrow> string \<Rightarrow> string option \<Rightarrow> string option \<Rightarrow> brand_st \<Rightarrow> (exn + nat) \<times> brand_st" where
  "delete_brand bid now uid email platformRole s =
     (case find_row (\<lambda>b. bw_id b = bid) (bs_brands s) of
        None \<Rightarrow> (Inl (createError ''Brand not found'' 404 None), s)
      | Some meta \<Rightarrow>
          if bw_deleted meta \<noteq> None then (Inl (createError ''Brand not found'' 404 None), s)
          else if getBrandMemberRole s bid uid email \<noteq> Some Owner \<and> platformRole \<notin> {Some ''admin'', Some ''super_admin''}
          then (Inl (createError ''Forbidden'' 403 None), s)
          else (case deleteBrand bid None now s of
                  (None, s1) \<Rightarrow> (Inl (createError ''Brand not found'' 404 None), s1)
                | (Some n, s1) \<Rightarrow> (Inr n, s1)))"

section \<open>Questions under review\<close>

definition distractor_of :: "brand_row \<Rightarrow> distractor" where
  "distractor_of b = \<lparr>dt_name = bk_name (bw_kit b), dt_tagline = bk_tagline (bw_kit b)\<rparr>"

definition getActiveDistractorBrands :: "brand_st \<Rightarrow> string \<Rightarrow> distractor list" where
  "getActiveDistractorBrands s bid =
     map distractor_of (take 20 (sort_key (\<lambda>b. - bw_created b) (filter (\<lambda>b. bw_id b \<noteq> bid \<and> bw_deleted b = None) (bs_brands s))))"

text \<open>One row per challenge and round.\<close>

definition insertChallengeQuestion :: "string \<Rightarrow> question_draft \<Rightarrow> brand_st \<Rightarrow> (exn + stored_question) \<times> brand_st" where
  "insertChallengeQuestion fresh q s =
     (if \<exists>r \<in> set (bs_questions s). qd_challenge (sq_draft r) = qd_challenge q \<and> qd_round (sq_draft r) = qd_round q
      then (Inl ((js_error ''duplicate key value violates unique constraint'')\<lparr>err_code := Some ''23505''\<rparr>), s)
      else let row = \<lparr>sq_id = fresh, sq_draft = q, sq_approved = None\<rparr>
           in (Inr row, s\<lparr>bs_questions := bs_questions s @ [row]\<rparr>))"

text \<open>Row by row, without a transaction.\<close>

fun insertChallengeQuestions :: "(nat \<Rightarrow> string) \<Rightarrow> question_draft list \<Rightarrow> brand_st \<Rightarrow> (exn + unit) \<times> brand_st" where
  "insertChallengeQuestions fresh [] s = (Inr (), s)"
| "insertChallengeQuestions fresh (q # qs) s =
     and_then (insertChallengeQuestion (fresh (length qs)) q s) (\<lambda>_ s1. insertChallengeQuestions fresh qs s1)"

definition deleteChallengeQuestion :: "string \<Rightarrow> brand_st \<Rightarrow> brand_st" where
  "deleteChallengeQuestion qid s = s\<lparr>bs_questions := delete_where (\<lambda>r. sq_id r = qid) (bs_questions s)\<rparr>"

definition regenerate_question ::
  "randomness \<Rightarrow> string \<Rightarrow> string \<Rightarrow> string \<Rightarrow> string \<Rightarrow> string option \<Rightarrow> brand_st \<Rightarrow> (exn + stored_question) \<times> brand_st" where
  "regenerate_question rnd fresh bid questionId uid email =
     with_role bid uid email Editor (\<lambda>b s.
       case find_row (\<lambda>r. sq_id r = questionId) (bs_questions s) of
         None \<Rightarrow> (Inl (createError ''Question not found'' 404 None), s)
       | Some existing \<Rightarrow>
           let regenerated = generateChallengeQuestions rnd (qd_challenge (sq_draft existing)) (bw_kit b)
                 (getActiveDistractorBrands s (bw_id b));
               newDraft = (case find (\<lambda>q. qd_round q = qd_round (sq_draft existing)) regenerated of
                             Some q \<Rightarrow> q | None \<Rightarrow> hd regenerated)
           in insertChallengeQuestion fresh (newDraft\<lparr>qd_challenge := qd_challenge (sq_draft existing)\<rparr>)
                (deleteChallengeQuestion questionId s))"

definition review_question :: "bool \<Rightarrow> string \<Rightarrow> string \<Rightarrow> string \<Rightarrow> string option \<Rightarrow> brand_st \<Rightarrow> (exn + unit) \<times> brand_st" where
  "review_question approved bid questionId uid email =
     with_role bid uid email Editor (\<lambda>b s.
       (Inr (), s\<lparr>bs_questions := update_where (\<lambda>r. sq_id r = questionId) (\<lambda>r. r\<lparr>sq_approved := Some approved\<rparr>) (bs_questions s)\<rparr>))"

section \<open>Licences\<close>

definition setChallengeLicenseOffer :: "string \<Rightarrow> string \<Rightarrow> bool \<Rightarrow> nat \<Rightarrow> brand_st \<Rightarrow> bool \<times> brand_st" where
  "setChallengeLicenseOffer cid bid available feeBps s =
     (if (\<exists>c \<in> set (challenges (game (bs_bank s))). ch_id c = cid \<and> ch_brand c = bid) \<and> (\<exists>b \<in> set (bs_brands s). bw_id b = bid)
      then (True, s\<lparr>bs_offer := (bs_offer s)(cid := (available, feeBps))\<rparr>)
      else (False, s))"

definition patch_licensing ::
  "string \<Rightarrow> string \<Rightarrow> bool \<Rightarrow> nat \<Rightarrow> string \<Rightarrow> string option \<Rightarrow> brand_st \<Rightarrow> (exn + unit) \<times> brand_st" where
  "patch_licensing bid cid available feeBps uid email =
     with_role bid uid email Editor (\<lambda>b s.
       if 5000 < feeBps then (Inl zod_error, s)
       else case setChallengeLicenseOffer cid (bw_id b) available feeBps s of
         (False, s1) \<Rightarrow> (Inl (createError ''Challenge not found'' 404 None), s1)
       | (True, s1) \<Rightarrow> (Inr (), s1))"

text \<open>The fee is copied at the time of the acquisition; one licence per challenge and licensee.\<close>

definition acquireChallengeLicense :: "string \<Rightarrow> string \<Rightarrow> string \<Rightarrow> brand_st \<Rightarrow> acquired_license option \<times> brand_st" where
  "acquireChallengeLicense fresh cid licensee s =
     (case find_row (\<lambda>c. ch_id c = cid \<and> fst (bs_offer s cid) \<and> ch_deleted_at c = None \<and> ch_brand c \<noteq> licensee \<and>
                         (\<exists>b \<in> set (bs_brands s). bw_id b = ch_brand c \<and> bw_deleted b = None)) (challenges (game (bs_bank s))) of
        None \<Rightarrow> (None, s)
      | Some c \<Rightarrow>
          if \<exists>l \<in> set (bs_licenses s). al_source l = cid \<and> al_licensee l = licensee then (None, s)
          else let row = \<lparr>al_id = fresh, al_source = cid, al_licensor = ch_brand c, al_licensee = licensee, al_fee = snd (bs_offer s cid)\<rparr>
               in (Some row, s\<lparr>bs_licenses := bs_licenses s @ [row],
                    bs_bank := (bs_bank s)\<lparr>licenses := licenses (bs_bank s) @
                      [\<lparr>li_id = fresh, li_licensor = ch_brand c, li_fee_bps = int (snd (bs_offer s cid))\<rparr>]\<rparr>\<rparr>))"

definition post_license :: "string \<Rightarrow> string \<Rightarrow> string \<Rightarrow> string \<Rightarrow> string option \<Rightarrow> brand_st \<Rightarrow> (exn + acquired_license) \<times> brand_st" where
  "post_license fresh bid cid uid email =
     with_role bid uid email Editor (\<lambda>b s.
       case acquireChallengeLicense fresh cid (bw_id b) s of
         (None, s1) \<Rightarrow> (Inl (createError ''Challenge is unavailable or already licensed'' 409 (Some ''LICENSE_UNAVAILABLE'')), s1)
       | (Some l, s1) \<Rightarrow> (Inr l, s1))"

definition getUsableLicense :: "brand_st \<Rightarrow> string \<Rightarrow> string \<Rightarrow> acquired_license option" where
  "getUsableLicense s lid licensee = find_row (\<lambda>l. al_id l = lid \<and> al_licensee l = licensee) (bs_licenses s)"

section \<open>Challenges\<close>

definition MIN_POOL_STROOPS :: int where "MIN_POOL_STROOPS = 1000000000"
definition MIN_CHALLENGE_DURATION_MS :: int where "MIN_CHALLENGE_DURATION_MS = 60 * 60 * 1000"
definition CHALLENGE_DURATION_GRACE_MS :: int where "CHALLENGE_DURATION_GRACE_MS = 5000"

text \<open>\<open>parseFloat\<close> of a decimal with at most seven places is the nearest double.\<close>

definition parse_pool :: "string \<times> string \<Rightarrow> rat" where
  "parse_pool p = fl (of_nat (nat_of_string (fst p) * 10000000 + nat_of_string (padEnd 7 CHR ''0'' (snd p))) / 10000000)"

definition pool_valid :: "string \<Rightarrow> bool" where
  "pool_valid v \<longleftrightarrow> is_amount v \<and>
     (case match_usdc v of None \<Rightarrow> False | Some p \<Rightarrow> MIN_POOL_STROOPS \<le> \<lfloor>nmult (parse_pool p) 10000000 + 1 / 2\<rfloor>)"

definition validateChallengeEndsAt :: "int \<Rightarrow> int \<Rightarrow> exn option" where
  "validateChallengeEndsAt nowMs endsAtMs =
     (let minEndsAtMs = nowMs + MIN_CHALLENGE_DURATION_MS
      in if endsAtMs \<le> nowMs then Some (createError ''Challenge end time must be in the future'' 400 (Some ''ENDS_AT_PAST''))
         else if endsAtMs < minEndsAtMs - CHALLENGE_DURATION_GRACE_MS
         then Some (createError ''Challenge duration must be at least 1 hour'' 400 (Some ''ENDS_AT_TOO_SOON''))
         else None)"

record challenge_body =
  cb_brand :: string
  cb_pool :: string
  cb_endsAt :: int
  cb_license :: "string option"
  cb_policy :: refund_policy
  cb_percentage :: nat

record challenge_data =
  cd_brand :: string
  cd_challengeId :: string
  cd_memo :: "string option"
  cd_pool :: string
  cd_endsAt :: "int option"
  cd_license :: "string option"
  cd_policy :: "refund_policy option"
  cd_percentage :: "nat option"
  cd_draft :: bool

text \<open>The status is not among the inserted columns and has its default. A draft differs from another
  challenge only in that it has no memo. The refund percentage is in hundredths.\<close>

definition createChallenge :: "string \<Rightarrow> int \<Rightarrow> challenge_data \<Rightarrow> brand_st \<Rightarrow> (exn + challenge) \<times> brand_st" where
  "createChallenge fresh now d s =
     (case usdcToStroops (cd_pool d) of
        Inl e \<Rightarrow> (Inl e, s)
      | Inr stroops \<Rightarrow>
          let b = bs_bank s;
              memo = (if cd_draft d then None else case cd_memo d of Some m \<Rightarrow> Some m | None \<Rightarrow> Some (cd_challengeId d));
              row = \<lparr>ch_id = fresh, ch_brand = cd_brand d, ch_memo = memo, ch_pool = int (nat_of_string stroops),
                     ch_status = CPendingDeposit, ch_batched = False, ch_deposit_tx = None, ch_confirmations = 0,
                     ch_payout_tx = None, ch_ends_at = cd_endsAt d, ch_deleted_at = None, ch_created = now\<rparr>;
              policy = (case cd_policy d of Some p \<Rightarrow> p | None \<Rightarrow> RFull);
              percentage = (case cd_percentage d of Some n \<Rightarrow> n | None \<Rightarrow> 10000)
          in (Inr row, s\<lparr>bs_bank := b\<lparr>game := (game b)\<lparr>challenges := challenges (game b) @ [row]\<rparr>,
                            challenge_license := (challenge_license b)(fresh := cd_license d)\<rparr>,
                         bs_refund := (bs_refund s)(fresh := (policy, percentage))\<rparr>))"

record challenge_seed =
  cs_id :: string
  cs_challengeId :: string
  cs_bytes :: "byte list"
  cs_rnd :: randomness
  cs_questionIds :: "nat \<Rightarrow> string"

definition request_data :: "challenge_seed \<Rightarrow> challenge_body \<Rightarrow> string option \<Rightarrow> challenge_data" where
  "request_data seed body license =
     \<lparr>cd_brand = cb_brand body, cd_challengeId = cs_challengeId seed, cd_memo = Some (generateDepositMemo (cs_bytes seed)),
      cd_pool = cb_pool body, cd_endsAt = Some (cb_endsAt body), cd_license = license, cd_policy = Some (cb_policy body),
      cd_percentage = Some (cb_percentage body), cd_draft = False\<rparr>"

text \<open>\<open>tosAccepted\<close> is the outcome of the terms-of-service middleware. The schema drops unknown keys, so the
  tiers and variants of a body never reach the handler.\<close>

definition post_challenge ::
  "bool \<Rightarrow> challenge_seed \<Rightarrow> int \<Rightarrow> challenge_body \<Rightarrow> string \<Rightarrow> string option \<Rightarrow> brand_st \<Rightarrow> (exn + challenge) \<times> brand_st" where
  "post_challenge tosAccepted seed now body uid email s =
     (if \<not> tosAccepted then (Inl (createError ''Current Terms of Service must be accepted'' 403 (Some ''TOS_NOT_ACCEPTED'')), s)
      else if \<not> pool_valid (cb_pool body) \<or> 10000 < cb_percentage body
      then (Inl (createError ''Invalid challenge fields'' 422 (Some ''VALIDATION_ERROR'')), s)
      else case validateChallengeEndsAt now (cb_endsAt body) of
        Some e \<Rightarrow> (Inl e, s)
      | None \<Rightarrow>
          with_role (cb_brand body) uid email Editor (\<lambda>brand s.
            let license = (case given (cb_license body) of None \<Rightarrow> None | Some l \<Rightarrow> getUsableLicense s l (bw_id brand))
            in if given (cb_license body) \<noteq> None \<and> license = None
               then (Inl (createError ''License not found for this brand'' 422 (Some ''INVALID_LICENSE'')), s)
               else and_then (createChallenge (cs_id seed) now (request_data seed body (map_option al_id license)) s)
                      (\<lambda>challenge s1.
                        let questions = generateChallengeQuestions (cs_rnd seed) (ch_id challenge) (bw_kit brand)
                              (getActiveDistractorBrands s1 (cb_brand body))
                        in and_then (insertChallengeQuestions (cs_questionIds seed) questions s1)
                             (\<lambda>_ s2. (Inr challenge, s2)))) s)"

section \<open>Lemmas\<close>

subsection \<open>Roles\<close>

text \<open>The roles form a chain: a role suffices exactly if its rank is at most the required one.\<close>

lemma hasRequiredBrandRole_rank: "hasRequiredBrandRole (Some r) q \<longleftrightarrow> role_rank r \<le> role_rank q"
  by (cases r; cases q) (simp_all add: hasRequiredBrandRole_def role_rank_def)

lemma with_role_cases:
  assumes "with_role bid uid email q f s = (res, s')"
  obtains (refused) e where "res = Inl e" "s' = s"
  | (granted) b r where "getBrandById s bid = Some b" "bw_id b = bid" "getBrandMemberRole s bid uid email = Some r"
      "role_rank r \<le> role_rank q" "f b s = (res, s')"
proof (cases "getBrandById s bid")
  case None
  then show ?thesis using assms refused by (auto simp: with_role_def assertBrandRole_def)
next
  case (Some b)
  then have id: "bw_id b = bid" using find_row_Some by (fastforce simp: getBrandById_def)
  show ?thesis using assms Some id refused granted
    by (auto simp: with_role_def assertBrandRole_def hasRequiredBrandRole_rank split: option.splits if_splits)
qed

subsection \<open>What the parts of the state are\<close>

text \<open>What belongs to a brand: its row, its members and its challenges.\<close>

definition brand_part :: "string \<Rightarrow> brand_st \<Rightarrow> brand_row list \<times> challenge list" where
  "brand_part bid s = (filter (\<lambda>b. bw_id b = bid) (bs_brands s), filter (\<lambda>c. ch_brand c = bid) (challenges (game (bs_bank s))))"

definition members_of :: "string \<Rightarrow> brand_st \<Rightarrow> brand_member list" where
  "members_of bid s = filter (\<lambda>m. bm_brand m = bid) (bs_members s)"

lemma filter_update_where_other:
  assumes "\<And>r. P r \<Longrightarrow> \<not> Q r" and "\<And>r. P r \<Longrightarrow> \<not> Q (f r)"
  shows "filter Q (update_where P f rows) = filter Q rows"
  using assms by (induction rows) (auto simp: update_where_def)

lemma filter_delete_where_other:
  assumes "\<And>r. P r \<Longrightarrow> \<not> Q r"
  shows "filter Q (delete_where P rows) = filter Q rows"
  using assms by (induction rows) (auto simp: delete_where_def)

lemma addBrandMember_frame:
  assumes "addBrandMember fresh bid email rl by' s = (m, s')"
  shows "bs_brands s' = bs_brands s" "bs_bank s' = bs_bank s" "bid' \<noteq> bid \<Longrightarrow> members_of bid' s' = members_of bid' s"
  using assms by (auto simp: addBrandMember_def Let_def members_of_def intro!: filter_update_where_other split: option.splits)

lemma removeBrandMember_frame:
  assumes "removeBrandMember bid mid s = (r, s')"
  shows "bs_brands s' = bs_brands s" "bs_bank s' = bs_bank s" "bid' \<noteq> bid \<Longrightarrow> members_of bid' s' = members_of bid' s"
  using assms by (auto simp: removeBrandMember_def members_of_def intro!: filter_delete_where_other split: option.splits if_splits)

lemma insertChallengeQuestion_frame:
  assumes "insertChallengeQuestion fresh q s = (r, s')"
  shows "bs_brands s' = bs_brands s" "bs_bank s' = bs_bank s" "bs_members s' = bs_members s"
  using assms by (auto simp: insertChallengeQuestion_def Let_def split: if_splits)

lemma insertChallengeQuestions_frame:
  "insertChallengeQuestions fresh qs s = (r, s') \<Longrightarrow>
   bs_brands s' = bs_brands s \<and> bs_bank s' = bs_bank s \<and> bs_members s' = bs_members s"
proof (induction qs arbitrary: s)
  case (Cons q qs)
  obtain r1 s1 where 1: "insertChallengeQuestion (fresh (length qs)) q s = (r1, s1)" by fastforce
  show ?case
  proof (cases r1)
    case (Inl e)
    with Cons.prems 1 insertChallengeQuestion_frame [OF 1] show ?thesis by (simp add: and_then_def)
  next
    case (Inr x)
    with Cons.prems 1 have "insertChallengeQuestions fresh qs s1 = (r, s')" by (simp add: and_then_def)
    with Cons.IH [OF this] insertChallengeQuestion_frame [OF 1] show ?thesis by simp
  qed
qed simp

lemma createChallenge_frame:
  assumes "createChallenge fresh now d s = (r, s')"
  shows "bs_brands s' = bs_brands s" "bs_members s' = bs_members s"
    "bid \<noteq> cd_brand d \<Longrightarrow> filter (\<lambda>c. ch_brand c = bid) (challenges (game (bs_bank s'))) =
       filter (\<lambda>c. ch_brand c = bid) (challenges (game (bs_bank s)))"
  using assms by (auto simp: createChallenge_def Let_def split: sum.splits)

subsection \<open>Requests\<close>

text \<open>A request of the user \<open>uid\<close> with the given email and platform role; ids of new rows are new.\<close>

inductive brand_step :: "string \<Rightarrow> string option \<Rightarrow> string option \<Rightarrow> brand_st \<Rightarrow> brand_st \<Rightarrow> bool" for uid email admin where
  create: "fresh \<notin> bw_id ` set (bs_brands s) \<union> bm_brand ` set (bs_members s) \<Longrightarrow>
     brand_step uid email admin s (snd (post_brand fresh m now kit uid email s))"
| patch: "brand_step uid email admin s (snd (patch_brand bid uid email body s))"
| delete: "brand_step uid email admin s (snd (delete_brand bid now uid email admin s))"
| invite: "brand_step uid email admin s (snd (post_members bid uid email valid s))"
| remove: "brand_step uid email admin s (snd (delete_member bid mid uid email s))"
| regenerate: "brand_step uid email admin s (snd (regenerate_question rnd fresh bid qid uid email s))"
| review: "brand_step uid email admin s (snd (review_question approved bid qid uid email s))"
| offer: "brand_step uid email admin s (snd (patch_licensing bid cid available fee uid email s))"
| license: "brand_step uid email admin s (snd (post_license fresh bid cid uid email s))"
| challenge: "brand_step uid email admin s (snd (post_challenge tos seed now body uid email s))"

inductive_cases brand_stepE: "brand_step uid email admin s s'"

text \<open>What a request may change of a brand: nothing without a role that suffices.\<close>

definition guarded :: "string \<Rightarrow> string option \<Rightarrow> string option \<Rightarrow> brand_st \<Rightarrow> brand_st \<Rightarrow> bool" where
  "guarded uid email admin s s' \<longleftrightarrow>
     (\<forall>bid \<in> bw_id ` set (bs_brands s).
        (brand_part bid s' \<noteq> brand_part bid s \<longrightarrow>
          admin \<in> {Some ''admin'', Some ''super_admin''} \<or>
          (\<exists>r. getBrandMemberRole s bid uid email = Some r \<and> r \<in> {Owner, Editor})) \<and>
        (members_of bid s' \<noteq> members_of bid s \<longrightarrow> getBrandMemberRole s bid uid email = Some Owner))"

lemma guarded_same:
  assumes "bs_brands s' = bs_brands s" "bs_bank s' = bs_bank s" "bs_members s' = bs_members s"
  shows "guarded uid email admin s s'"
  using assms by (simp add: guarded_def brand_part_def members_of_def)

lemma editor_rank: "role_rank r \<le> role_rank Editor \<longleftrightarrow> r \<in> {Owner, Editor}"
  by (cases r) (simp_all add: role_rank_def)

lemma owner_rank: "role_rank r \<le> role_rank Owner \<longleftrightarrow> r = Owner"
  by (cases r) (simp_all add: role_rank_def)

lemma guardedI:
  assumes "\<And>bid'. bid' \<noteq> bid \<Longrightarrow> brand_part bid' s' = brand_part bid' s"
    and "\<And>bid'. bid' \<noteq> bid \<Longrightarrow> members_of bid' s' = members_of bid' s"
    and "admin \<in> {Some ''admin'', Some ''super_admin''} \<or> (\<exists>r. getBrandMemberRole s bid uid email = Some r \<and> r \<in> {Owner, Editor})"
    and "members_of bid s' \<noteq> members_of bid s \<Longrightarrow> getBrandMemberRole s bid uid email = Some Owner"
  shows "guarded uid email admin s s'"
  unfolding guarded_def
proof (intro ballI conjI impI)
  fix b
  show "brand_part b s' \<noteq> brand_part b s \<Longrightarrow> admin \<in> {Some ''admin'', Some ''super_admin''} \<or>
      (\<exists>r. getBrandMemberRole s b uid email = Some r \<and> r \<in> {Owner, Editor})"
    using assms(1) [of b] assms(3) by (cases "b = bid") simp_all
  show "members_of b s' \<noteq> members_of b s \<Longrightarrow> getBrandMemberRole s b uid email = Some Owner"
    using assms(2) [of b] assms(4) by (cases "b = bid") simp_all
qed

text \<open>A route behind the role check: it is enough to look at what the handler does to the brand.\<close>

lemma guarded_with_role:
  assumes "role_rank q \<le> role_rank Editor"
    and "\<And>b res s'. f b s = (res, s') \<Longrightarrow> bw_id b = bid \<Longrightarrow>
      (\<forall>bid'. bid' \<noteq> bid \<longrightarrow> brand_part bid' s' = brand_part bid' s \<and> members_of bid' s' = members_of bid' s) \<and>
      (q = Owner \<or> members_of bid s' = members_of bid s)"
  shows "guarded uid email admin s (snd (with_role bid uid email q f s))"
proof -
  obtain res s' where r: "with_role bid uid email q f s = (res, s')" by fastforce
  then have "guarded uid email admin s s'"
  proof (cases rule: with_role_cases)
    case (granted b rl)
    have "rl \<in> {Owner, Editor}" using granted(4) assms(1) editor_rank order_trans by blast
    moreover have "q = Owner \<Longrightarrow> rl = Owner" using granted(4) by (simp add: owner_rank)
    ultimately show ?thesis using assms(2) [OF granted(5,2)] granted(3) by (intro guardedI [of bid]) auto
  qed (simp add: guarded_same)
  then show ?thesis by (simp add: r)
qed

lemma role_rank_bounds [simp]: "role_rank Owner \<le> role_rank r" "role_rank Editor \<le> role_rank Editor"
  by (cases r) (simp_all add: role_rank_def)

lemma guarded_patch: "guarded uid email admin s (snd (patch_brand bid uid email body s))"
  unfolding patch_brand_def
proof (rule guarded_with_role)
  fix b and res :: "exn + brand_row" and s'
  let ?P = "\<lambda>b. bw_id b = bid \<and> bw_deleted b = None"
  assume "(case body of None \<Rightarrow> (Inl (createError ''Invalid request body'' 422 (Some ''INVALID_QUESTION_TEMPLATE'')), s)
       | Some p \<Rightarrow>
           if bp_name p = None \<and> bp_tagline p = None \<and> bp_usp p = None \<and> bp_template p = None \<and> \<not> bp_other p then (Inr b, s)
           else (case updateBrand bid None (apply_patch p) s of
                   (None, s1) \<Rightarrow> (Inl (createError ''Brand not found'' 404 None), s1)
                 | (Some b', s1) \<Rightarrow> (Inr b', s1))) = (res, s')"
  then have "s' = s \<or> (\<exists>f. s' = s\<lparr>bs_brands := update_where ?P (\<lambda>b. b\<lparr>bw_kit := f (bw_kit b)\<rparr>) (bs_brands s)\<rparr>)"
    by (auto simp: updateBrand_def Let_def split: option.splits if_splits)
  then show "(\<forall>bid'. bid' \<noteq> bid \<longrightarrow> brand_part bid' s' = brand_part bid' s \<and> members_of bid' s' = members_of bid' s) \<and>
      (Editor = Owner \<or> members_of bid s' = members_of bid s)"
    by (auto simp: members_of_def brand_part_def intro!: filter_update_where_other)
qed simp

lemma guarded_delete: "guarded uid email admin s (snd (delete_brand bid now uid email admin s))"
proof (cases "getBrandMemberRole s bid uid email = Some Owner \<or> admin \<in> {Some ''admin'', Some ''super_admin''}")
  case False
  then have "snd (delete_brand bid now uid email admin s) = s" by (auto simp: delete_brand_def split: option.splits)
  then show ?thesis by (simp add: guarded_same)
next
  case True
  show ?thesis
  proof (rule guardedI [of bid])
    show "brand_part bid' (snd (delete_brand bid now uid email admin s)) = brand_part bid' s" if "bid' \<noteq> bid" for bid'
      using that by (auto simp: delete_brand_def deleteBrand_def Let_def brand_part_def intro!: filter_update_where_other split: option.splits)
    show "members_of bid' (snd (delete_brand bid now uid email admin s)) = members_of bid' s" for bid'
      by (auto simp: delete_brand_def deleteBrand_def Let_def members_of_def split: option.splits)
    then show "members_of bid (snd (delete_brand bid now uid email admin s)) \<noteq> members_of bid s \<Longrightarrow>
      getBrandMemberRole s bid uid email = Some Owner" by simp
  qed (use True in auto)
qed

lemma guarded_remove: "guarded uid email admin s (snd (delete_member bid mid uid email s))"
  unfolding delete_member_def Let_def
proof (rule guarded_with_role, goal_cases)
  case (2 b res s')
  have "s' = s \<or> (\<exists>t x. removeBrandMember bid t s = (x, s'))"
    using 2 by (auto simp: and_then_def split: option.splits if_splits sum.splits prod.splits)
  then show ?case using removeBrandMember_frame by (auto simp: brand_part_def)
qed simp

lemma guarded_invite: "guarded uid email admin s (snd (post_members bid uid email valid s))"
  unfolding post_members_def by (rule guarded_with_role) (auto split: if_splits)

lemma guarded_regenerate: "guarded uid email admin s (snd (regenerate_question rnd fresh bid qid uid email s))"
  unfolding regenerate_question_def Let_def
proof (rule guarded_with_role, goal_cases)
  case (2 b res s')
  have "s' = s \<or> (\<exists>q. insertChallengeQuestion fresh q (deleteChallengeQuestion qid s) = (res, s'))"
    using 2 by (auto split: option.splits)
  then show ?case using insertChallengeQuestion_frame by (fastforce simp: brand_part_def members_of_def deleteChallengeQuestion_def)
qed simp

lemma guarded_review: "guarded uid email admin s (snd (review_question approved bid qid uid email s))"
  unfolding review_question_def by (rule guarded_with_role) (auto simp: brand_part_def members_of_def)

lemma guarded_offer: "guarded uid email admin s (snd (patch_licensing bid cid available fee uid email s))"
  unfolding patch_licensing_def
  by (rule guarded_with_role) (auto simp: setChallengeLicenseOffer_def brand_part_def members_of_def split: if_splits prod.splits bool.splits)

lemma guarded_license: "guarded uid email admin s (snd (post_license fresh bid cid uid email s))"
  unfolding post_license_def
proof (rule guarded_with_role, goal_cases)
  case (2 b res s')
  then show ?case
    by (auto simp: acquireChallengeLicense_def Let_def brand_part_def members_of_def split: if_splits prod.splits option.splits)
qed simp

lemma guarded_challenge: "guarded uid email admin s (snd (post_challenge tos seed now body uid email s))"
proof -
  let ?h = "\<lambda>brand s.
      let license = (case given (cb_license body) of None \<Rightarrow> None | Some l \<Rightarrow> getUsableLicense s l (bw_id brand))
      in if given (cb_license body) \<noteq> None \<and> license = None
         then (Inl (createError ''License not found for this brand'' 422 (Some ''INVALID_LICENSE'')), s)
         else and_then (createChallenge (cs_id seed) now (request_data seed body (map_option al_id license)) s)
                (\<lambda>challenge s1.
                  let questions = generateChallengeQuestions (cs_rnd seed) (ch_id challenge) (bw_kit brand)
                        (getActiveDistractorBrands s1 (cb_brand body))
                  in and_then (insertChallengeQuestions (cs_questionIds seed) questions s1) (\<lambda>_ s2. (Inr challenge, s2)))"
  have "guarded uid email admin s (snd (with_role (cb_brand body) uid email Editor ?h s))"
  proof (rule guarded_with_role, goal_cases)
    case (2 b res s')
    have "s' = s \<or> (\<exists>lic r1 s1 qs x. createChallenge (cs_id seed) now (request_data seed body lic) s = (r1, s1) \<and>
        (s' = s1 \<or> insertChallengeQuestions (cs_questionIds seed) qs s1 = (x, s')))"
      using 2(1) by (auto simp: Let_def and_then_def split: if_splits prod.splits sum.splits)
    then show ?case
      using createChallenge_frame insertChallengeQuestions_frame
      by (auto simp: brand_part_def members_of_def request_data_def)
  qed simp
  then show ?thesis unfolding post_challenge_def by (auto simp: guarded_same split: option.splits)
qed

lemma guarded_create:
  assumes "fresh \<notin> bw_id ` set (bs_brands s) \<union> bm_brand ` set (bs_members s)"
  shows "guarded uid email admin s (snd (post_brand fresh m now kit uid email s))"
proof -
  define s1 where "s1 = s\<lparr>bs_brands := bs_brands s @ [\<lparr>bw_id = fresh, bw_owner = uid, bw_kit = kit\<lparr>bk_template := (\<lambda>_. (None, None))\<rparr>,
      bw_deleted = None, bw_created = now\<rparr>]\<rparr>"
  obtain x s' where a: "addBrandMember m fresh (case given email of Some e \<Rightarrow> e | None \<Rightarrow> uid @ ''@internal'') Owner uid s1 = (x, s')"
    by fastforce
  have "snd (post_brand fresh m now kit uid email s) = s'" using a by (simp add: post_brand_def Let_def s1_def)
  moreover have "brand_part bid s' = brand_part bid s \<and> members_of bid s' = members_of bid s" if "bid \<in> bw_id ` set (bs_brands s)" for bid
  proof -
    have "bid \<noteq> fresh" using that assms by auto
    then show ?thesis using addBrandMember_frame [OF a] by (simp add: brand_part_def s1_def members_of_def)
  qed
  ultimately show ?thesis by (simp add: guarded_def)
qed

section \<open>Properties\<close>


text \<open>
  Questions are not guarded: the routes that review a question check the role for the brand in the path
  but not that the question belongs to it, so an editor of any brand replaces a question of any challenge,
  and the new question asks for the editor's brand. The replaced question is gone.
\<close>

theorem question_takeover:
  assumes "getBrandById s bid = Some b" and "getBrandMemberRole s bid uid email = Some r" and "r \<in> {Owner, Editor}"
    and "old \<in> set (bs_questions s)" and "unique_by sq_id (bs_questions s)"
    and "unique_by (\<lambda>r. (qd_challenge (sq_draft r), qd_round (sq_draft r))) (bs_questions s)"
    and "qd_round (sq_draft old) \<in> set (map qd_round (generateChallengeQuestions rnd (qd_challenge (sq_draft old)) (bw_kit b)
           (getActiveDistractorBrands s bid)))"
  shows "\<exists>new s'. regenerate_question rnd fresh bid (sq_id old) uid email s = (Inr new, s') \<and>
    qd_challenge (sq_draft new) = qd_challenge (sq_draft old) \<and> qd_round (sq_draft new) = qd_round (sq_draft old) \<and>
    qd_answer (sq_draft new) \<in> {bk_name (bw_kit b)} \<union> set_option (bk_tagline (bw_kit b)) \<and>
    bs_questions s' = delete_where (\<lambda>q. sq_id q = sq_id old) (bs_questions s) @ [new]"
proof -
  let ?qs = "generateChallengeQuestions rnd (qd_challenge (sq_draft old)) (bw_kit b) (getActiveDistractorBrands s bid)"
  have id: "bw_id b = bid" using assms(1) find_row_Some by (fastforce simp: getBrandById_def)
  have role: "assertBrandRole s bid uid email Editor = Inr (b, r)"
    using assms(1-3) id by (auto simp: assertBrandRole_def hasRequiredBrandRole_rank editor_rank)
  have old: "find_row (\<lambda>q. sq_id q = sq_id old) (bs_questions s) = Some old"
    using assms(4,5) by (rule find_row_unique [rotated])
  obtain q where q: "find (\<lambda>q. qd_round q = qd_round (sq_draft old)) ?qs = Some q"
    using assms(7) by (cases "find (\<lambda>q. qd_round q = qd_round (sq_draft old)) ?qs") (auto simp: find_None_iff)
  then have q': "q \<in> set ?qs" "qd_round q = qd_round (sq_draft old)" by (auto simp: find_Some_iff)
  let ?new = "\<lparr>sq_id = fresh, sq_draft = q\<lparr>qd_challenge := qd_challenge (sq_draft old)\<rparr>, sq_approved = None\<rparr>"
  let ?s1 = "deleteChallengeQuestion (sq_id old) s"
  have free: "\<not> (\<exists>x \<in> set (bs_questions ?s1). qd_challenge (sq_draft x) = qd_challenge (sq_draft old) \<and>
      qd_round (sq_draft x) = qd_round (sq_draft old))"
    using assms(4,6) by (auto simp: deleteChallengeQuestion_def set_delete_where dest: unique_byD)
  have ans: "qd_answer q \<in> {bk_name (bw_kit b)} \<union> set_option (bk_tagline (bw_kit b))"
    using q'(1) by (rule generated_answer)
  have "regenerate_question rnd fresh bid (sq_id old) uid email s = (Inr ?new, ?s1\<lparr>bs_questions := bs_questions ?s1 @ [?new]\<rparr>)"
    using role old q q'(2) free id by (simp add: regenerate_question_def with_role_def insertChallengeQuestion_def Let_def)
  then show ?thesis using ans q'(2) by (simp add: deleteChallengeQuestion_def)
qed

subsection \<open>Creating a challenge\<close>

text \<open>The minimum of the pool, checked in double precision, is the exact minimum.\<close>

lemma pool_minimum_exact:
  "MIN_POOL_STROOPS \<le> \<lfloor>nmult (fl (of_nat n / 10000000)) 10000000 + 1 / 2\<rfloor> \<longleftrightarrow> MIN_POOL_STROOPS \<le> int n"
proof
  let ?N = "of_nat n :: rat"
  define y where "y = fl (?N / 10000000)"
  define z where "z = nmult y 10000000"
  {
    assume "MIN_POOL_STROOPS \<le> int n"
    then have "(100 :: rat) \<le> ?N / 10000000" by (simp add: MIN_POOL_STROOPS_def)
    then have "100 \<le> y" using fl_ge_of_nat [of 100 "?N / 10000000"] by (simp add: y_def)
    then have "1000000000 \<le> z" using fl_ge_of_nat [of 1000000000 "y * 10000000"] by (simp add: z_def nmult_def)
    then have "(of_int MIN_POOL_STROOPS :: rat) \<le> z + 1 / 2" by (simp add: MIN_POOL_STROOPS_def)
    then show "MIN_POOL_STROOPS \<le> \<lfloor>nmult (fl (?N / 10000000)) 10000000 + 1 / 2\<rfloor>"
      by (simp add: le_floor_iff z_def y_def)
  }
  {
    assume m: "MIN_POOL_STROOPS \<le> \<lfloor>nmult (fl (?N / 10000000)) 10000000 + 1 / 2\<rfloor>"
    show "MIN_POOL_STROOPS \<le> int n"
    proof (rule ccontr)
      assume "\<not> MIN_POOL_STROOPS \<le> int n"
      then have N: "0 \<le> ?N" "?N \<le> 999999999" by (simp_all add: MIN_POOL_STROOPS_def)
      have "\<bar>y - ?N / 10000000\<bar> \<le> ?N / 10000000 / 2 ^ 53" unfolding y_def by (rule fl_error) simp
      then have y: "y * 10000000 \<le> ?N + ?N / 2 ^ 53" unfolding abs_le_iff by simp
      have y0: "0 \<le> y" by (simp add: y_def)
      have "\<bar>z - y * 10000000\<bar> \<le> y * 10000000 / 2 ^ 53" unfolding z_def nmult_def using y0 by (intro fl_error) simp
      then have "z \<le> y * 10000000 + y * 10000000 / 2 ^ 53" unfolding abs_le_iff by simp
      with y N have "z + 1 / 2 < 1000000000" by (simp add: field_simps)
      then have "\<lfloor>z + 1 / 2\<rfloor> < MIN_POOL_STROOPS" by (simp add: floor_less_iff MIN_POOL_STROOPS_def)
      with m show False by (simp add: z_def y_def)
    qed
  }
qed

lemma usdcToStroops_value:
  assumes "match_usdc v = Some (w, f)"
  shows "usdcToStroops v = Inr (string_of_nat (nat_of_string w * 10000000 + nat_of_string (padEnd 7 CHR ''0'' f)))"
proof -
  have "int (nat_of_string w) * STROOPS_PER_USDC + int (nat_of_string (padEnd 7 CHR ''0'' f)) =
      int (nat_of_string w * 10000000 + nat_of_string (padEnd 7 CHR ''0'' f))" by (simp add: STROOPS_PER_USDC_def)
  then show ?thesis unfolding usdcToStroops_def assms by (simp only: option.case prod.case Let_def string_of_int_of_nat)
qed

lemma pool_valid_stroops:
  assumes "pool_valid v"
  shows "\<exists>n. usdcToStroops v = Inr (string_of_nat n) \<and> MIN_POOL_STROOPS \<le> int n"
proof -
  obtain w f where m: "match_usdc v = Some (w, f)" using assms by (auto simp: pool_valid_def split: option.splits)
  then have "MIN_POOL_STROOPS \<le> int (nat_of_string w * 10000000 + nat_of_string (padEnd 7 CHR ''0'' f))"
    using assms pool_minimum_exact unfolding pool_valid_def parse_pool_def by (metis (no_types, lifting) option.case(2) fst_conv snd_conv)
  with usdcToStroops_value [OF m] show ?thesis by blast
qed

text \<open>A generated memo is one the deposit monitor accepts.\<close>

lemma sextet_bound:
  fixes m d :: nat
  assumes "m \<le> 3" and "d \<le> 15"
  shows "m * 16 + d < 64" "d * 4 + m < 64"
  using assms by linarith+

lemma base64url_index:
  fixes a b c :: byte
  shows "unat a div 4 < 64" "unat a mod 4 * 16 + unat b div 16 < 64" "unat b mod 16 * 4 + unat c div 64 < 64"
    "unat c mod 64 < 64" "unat a mod 4 * 16 < 64" "unat b mod 16 * 4 < 64"
proof -
  have u: "unat (x :: byte) < 256" for x using unsigned_less [of x] by simp
  have d: "unat (x :: byte) div 16 \<le> 15" "unat x div 64 \<le> 3" "unat x div 4 < 64" for x
    using less_mult_imp_div_less [of "unat x" 16 16] less_mult_imp_div_less [of "unat x" 4 64]
      less_mult_imp_div_less [of "unat x" 64 4] u [of x] by simp_all
  have m: "unat (x :: byte) mod 4 \<le> 3" "unat x mod 16 \<le> 15" "unat x mod 64 < 64" for x
    using mod_less_divisor [of 4 "unat x"] mod_less_divisor [of 16 "unat x"] by simp_all
  show "unat a div 4 < 64" by (rule d)
  show "unat a mod 4 * 16 + unat b div 16 < 64" by (rule sextet_bound(1) [OF m(1) d(1)])
  show "unat b mod 16 * 4 + unat c div 64 < 64" by (rule sextet_bound(2) [OF d(2) m(2)])
  show "unat c mod 64 < 64" by (rule m)
  show "unat a mod 4 * 16 < 64" using sextet_bound(1) [OF m(1), of 0] by simp
  show "unat b mod 16 * 4 < 64" using sextet_bound(2) [of 0, OF _ m(2)] by simp
qed

lemma base64url_chars: "set (base64url bs) \<subseteq> set BASE64URL"
proof -
  have l: "i < 64 \<Longrightarrow> BASE64URL ! i \<in> set BASE64URL" for i by (rule nth_mem) (simp add: BASE64URL_def)
  show ?thesis by (induction bs rule: base64url.induct) (simp_all add: l base64url_index)
qed

lemma length_base64url: "length bs = 18 \<Longrightarrow> length (base64url bs) = 24"
proof -
  have "length (base64url xs) = 4 * k" if "length xs = 3 * k" for xs k
    using that
  proof (induction k arbitrary: xs)
    case (Suc k)
    then obtain a b c r where "xs = a # b # c # r" "length r = 3 * k" by (auto simp: length_Suc_conv numeral_3_eq_3)
    then show ?case using Suc.IH by simp
  qed simp
  from this [of bs 6] show "length bs = 18 \<Longrightarrow> length (base64url bs) = 24" by simp
qed

lemma memo_chars:
  assumes "set m \<subseteq> set BASE64URL"
  shows "\<not> list_ex is_control m" "utf8_length m = length m" "trim m = m"
proof -
  have c: "list_all (\<lambda>c. \<not> is_control c \<and> (of_char c :: nat) < 128 \<and> \<not> is_space c) BASE64URL" by code_simp
  then have all: "\<not> is_control x \<and> (of_char x :: nat) < 128 \<and> \<not> is_space x" if "x \<in> set m" for x
    using that assms by (auto simp: list_all_iff)
  show "\<not> list_ex is_control m" using all by (auto simp: list_ex_iff)
  show "utf8_length m = length m" using all by (induction m) (auto simp: utf8_length_def)
  have "dropWhile is_space m = m" using all by (cases m) auto
  moreover have "dropWhile is_space (rev m) = rev m"
  proof (cases "rev m")
    case (Cons x xs)
    then have "x \<in> set m" by (metis list.set_intros(1) set_rev)
    then show ?thesis using all Cons by simp
  qed simp
  ultimately show "trim m = m" by (simp add: trim_def)
qed

lemma generated_memo_valid:
  assumes "18 \<le> length bytes"
  shows "validateDepositMemo (Some (generateDepositMemo bytes)) = MemoValid (generateDepositMemo bytes)"
proof -
  let ?m = "generateDepositMemo bytes"
  have l: "length ?m = 24" using assms by (simp add: generateDepositMemo_def length_base64url)
  note c = memo_chars [of ?m, unfolded generateDepositMemo_def, OF base64url_chars, folded generateDepositMemo_def]
  show ?thesis using l c by (auto simp: validateDepositMemo_def)
qed

subsection \<open>Storing questions\<close>

abbreviation (input) slot_of :: "question_draft \<Rightarrow> string \<times> nat" where
  "slot_of q \<equiv> (qd_challenge q, qd_round q)"

lemma insertChallengeQuestion_eq:
  "insertChallengeQuestion fresh q s =
     (if slot_of q \<in> set (map slot_of (map sq_draft (bs_questions s)))
      then (Inl ((js_error ''duplicate key value violates unique constraint'')\<lparr>err_code := Some ''23505''\<rparr>), s)
      else (Inr \<lparr>sq_id = fresh, sq_draft = q, sq_approved = None\<rparr>,
            s\<lparr>bs_questions := bs_questions s @ [\<lparr>sq_id = fresh, sq_draft = q, sq_approved = None\<rparr>]\<rparr>))"
  by (force simp: insertChallengeQuestion_def Let_def)

lemma insertChallengeQuestions_outcome:
  assumes "insertChallengeQuestions fresh qs s = (r, s')"
  shows "\<exists>k \<le> length qs. map sq_draft (bs_questions s') = map sq_draft (bs_questions s) @ take k qs \<and>
    (r = Inr () \<and> k = length qs \<or> k < length qs \<and> (\<exists>e. r = Inl e \<and> err_code e = Some ''23505''))"
  using assms
proof (induction qs arbitrary: s)
  case (Cons q qs)
  show ?case
  proof (cases "slot_of q \<in> set (map slot_of (map sq_draft (bs_questions s)))")
    case True
    then show ?thesis using Cons.prems by (intro exI [of _ 0]) (auto simp: insertChallengeQuestion_eq)
  next
    case False
    define s1 where "s1 = s\<lparr>bs_questions := bs_questions s @ [\<lparr>sq_id = fresh (length qs), sq_draft = q, sq_approved = None\<rparr>]\<rparr>"
    have "insertChallengeQuestions fresh qs s1 = (r, s')"
      using Cons.prems False by (simp add: insertChallengeQuestion_eq s1_def del: map_map)
    from Cons.IH [OF this] obtain k where "k \<le> length qs"
      "map sq_draft (bs_questions s') = map sq_draft (bs_questions s1) @ take k qs"
      "r = Inr () \<and> k = length qs \<or> k < length qs \<and> (\<exists>e. r = Inl e \<and> err_code e = Some ''23505'')" by blast
    then show ?thesis by (intro exI [of _ "Suc k"]) (auto simp: s1_def)
  qed
qed simp

lemma insertChallengeQuestions_distinct:
  assumes "insertChallengeQuestions fresh qs s = (Inr (), s')" and "distinct (map slot_of (map sq_draft (bs_questions s)))"
  shows "distinct (map slot_of (map sq_draft (bs_questions s) @ qs))"
  using assms
proof (induction qs arbitrary: s)
  case (Cons q qs)
  define s1 where "s1 = s\<lparr>bs_questions := bs_questions s @ [\<lparr>sq_id = fresh (length qs), sq_draft = q, sq_approved = None\<rparr>]\<rparr>"
  have new: "slot_of q \<notin> set (map slot_of (map sq_draft (bs_questions s)))"
    using Cons.prems(1) by (rule contrapos_pn) (simp add: insertChallengeQuestion_eq del: map_map)
  then have "insertChallengeQuestions fresh qs s1 = (Inr (), s')"
    using Cons.prems(1) by (simp add: insertChallengeQuestion_eq s1_def del: map_map)
  moreover have "distinct (map slot_of (map sq_draft (bs_questions s1)))"
    using Cons.prems(2) new by (auto simp: s1_def)
  ultimately show ?case using Cons.IH [of s1] by (simp add: s1_def)
qed simp

lemma insertChallengeQuestions_ok:
  "distinct (map slot_of (map sq_draft (bs_questions s) @ qs)) \<Longrightarrow> fst (insertChallengeQuestions fresh qs s) = Inr ()"
proof (induction qs arbitrary: s)
  case (Cons q qs)
  define s1 where "s1 = s\<lparr>bs_questions := bs_questions s @ [\<lparr>sq_id = fresh (length qs), sq_draft = q, sq_approved = None\<rparr>]\<rparr>"
  have "slot_of q \<notin> set (map slot_of (map sq_draft (bs_questions s)))" using Cons.prems by auto
  then have "insertChallengeQuestions fresh (q # qs) s = insertChallengeQuestions fresh qs s1"
    by (simp add: insertChallengeQuestion_eq s1_def del: map_map)
  moreover have "distinct (map slot_of (map sq_draft (bs_questions s1) @ qs))" using Cons.prems by (simp add: s1_def)
  ultimately show ?case using Cons.IH by simp
qed simp

lemma slots_distinct:
  assumes "\<forall>q \<in> set qs. qd_challenge q = cid"
  shows "distinct (map slot_of qs) \<longleftrightarrow> distinct (map qd_round qs)"
  using assms by (induction qs) auto

text \<open>The stored questions of a challenge.\<close>

definition questions_of :: "string \<Rightarrow> brand_st \<Rightarrow> question_draft list" where
  "questions_of cid s = filter (\<lambda>q. qd_challenge q = cid) (map sq_draft (bs_questions s))"

lemma stored_generated:
  assumes ins: "insertChallengeQuestions fresh (generateChallengeQuestions rnd cid kit pool) s = (r, s')"
    and new: "questions_of cid s = []" and slots: "distinct (map slot_of (map sq_draft (bs_questions s)))"
  shows "r = Inr () \<and> questions_of cid s' = generateChallengeQuestions rnd cid kit pool \<and>
      map qd_round (questions_of cid s') = [1, 2, 3] \<or>
    (\<exists>e. r = Inl e \<and> err_code e = Some ''23505'' \<and> length (questions_of cid s') < 3)"
proof -
  let ?qs = "generateChallengeQuestions rnd cid kit pool"
  have c: "\<forall>q \<in> set ?qs. qd_challenge q = cid" using generated_challenge by blast
  then have part: "filter (\<lambda>q. qd_challenge q = cid) (take k ?qs) = take k ?qs" for k
    by (auto simp: filter_id_conv dest: in_set_takeD)
  obtain k where k: "k \<le> length ?qs" "map sq_draft (bs_questions s') = map sq_draft (bs_questions s) @ take k ?qs"
    "r = Inr () \<and> k = length ?qs \<or> k < length ?qs \<and> (\<exists>e. r = Inl e \<and> err_code e = Some ''23505'')"
    using insertChallengeQuestions_outcome [OF ins] by blast
  have q: "questions_of cid s' = take k ?qs" using new k(2) part by (simp add: questions_of_def)
  show ?thesis
  proof (cases "r = Inr ()")
    case True
    then have "distinct (map slot_of ?qs)" using insertChallengeQuestions_distinct [OF _ slots] ins by fastforce
    then have "distinct (map qd_round ?qs)" using slots_distinct [OF c] by blast
    then have "map qd_round ?qs = [1, 2, 3]" using generated_rounds_distinct by blast
    moreover have "questions_of cid s' = ?qs" using True k(3) q by simp
    ultimately show ?thesis using True by simp
  next
    case False
    then show ?thesis using k(3) q by auto
  qed
qed

lemma insert_refuses_duplicates:
  assumes ins: "insertChallengeQuestions fresh qs s = (r, s')" and "\<forall>q \<in> set qs. qd_challenge q = cid"
    and "\<not> distinct (map qd_round qs)" and slots: "distinct (map slot_of (map sq_draft (bs_questions s)))"
  shows "r \<noteq> Inr ()"
proof
  assume "r = Inr ()"
  then have "distinct (map slot_of qs)" using insertChallengeQuestions_distinct [OF _ slots] ins by fastforce
  then show False using assms(2,3) slots_distinct by blast
qed

lemma createChallenge_row:
  assumes "pool_valid (cb_pool body)"
  shows "\<exists>c s1. createChallenge fresh now (request_data seed body lic) s = (Inr c, s1) \<and> ch_id c = fresh \<and> ch_brand c = cb_brand body \<and>
    ch_memo c = Some (generateDepositMemo (cs_bytes seed)) \<and> ch_status c = CPendingDeposit \<and> ch_ends_at c = Some (cb_endsAt body) \<and>
    MIN_POOL_STROOPS \<le> ch_pool c \<and> usdcToStroops (cb_pool body) = Inr (string_of_nat (nat (ch_pool c))) \<and>
    challenges (game (bs_bank s1)) = challenges (game (bs_bank s)) @ [c] \<and> bs_questions s1 = bs_questions s"
proof -
  obtain n where n: "usdcToStroops (cb_pool body) = Inr (string_of_nat n)" "MIN_POOL_STROOPS \<le> int n"
    using pool_valid_stroops [OF assms] by blast
  then show ?thesis by (simp add: createChallenge_def request_data_def Let_def)
qed

lemma post_challenge_cases:
  assumes "post_challenge tos seed now body uid email s = (r, s')" and "challenges (game (bs_bank s')) \<noteq> challenges (game (bs_bank s)) \<or> r = Inr c"
  obtains b rl lic c' s1 q where "tos" "pool_valid (cb_pool body)" "validateChallengeEndsAt now (cb_endsAt body) = None"
    "getBrandById s (cb_brand body) = Some b" "getBrandMemberRole s (cb_brand body) uid email = Some rl" "role_rank rl \<le> role_rank Editor"
    "createChallenge (cs_id seed) now (request_data seed body lic) s = (Inr c', s1)"
    "insertChallengeQuestions (cs_questionIds seed) (generateChallengeQuestions (cs_rnd seed) (ch_id c') (bw_kit b)
        (getActiveDistractorBrands s1 (cb_brand body))) s1 = (q, s')"
    "r = (case q of Inl e \<Rightarrow> Inl e | Inr _ \<Rightarrow> Inr c')"
proof -
  let ?h = "\<lambda>brand s.
      let license = (case given (cb_license body) of None \<Rightarrow> None | Some l \<Rightarrow> getUsableLicense s l (bw_id brand))
      in if given (cb_license body) \<noteq> None \<and> license = None
         then (Inl (createError ''License not found for this brand'' 422 (Some ''INVALID_LICENSE'')), s)
         else and_then (createChallenge (cs_id seed) now (request_data seed body (map_option al_id license)) s)
                (\<lambda>challenge s1.
                  let questions = generateChallengeQuestions (cs_rnd seed) (ch_id challenge) (bw_kit brand)
                        (getActiveDistractorBrands s1 (cb_brand body))
                  in and_then (insertChallengeQuestions (cs_questionIds seed) questions s1) (\<lambda>_ s2. (Inr challenge, s2)))"
  have pre: "tos" "pool_valid (cb_pool body)" "validateChallengeEndsAt now (cb_endsAt body) = None"
    and h: "with_role (cb_brand body) uid email Editor ?h s = (r, s')"
    using assms unfolding post_challenge_def by (auto split: if_splits option.splits)
  from h show ?thesis
  proof (cases rule: with_role_cases)
    case refused
    then show ?thesis using assms(2) by simp
  next
    case (granted b rl)
    define lic where "lic = (case given (cb_license body) of None \<Rightarrow> None | Some l \<Rightarrow> getUsableLicense s l (bw_id b))"
    obtain c' s1 where c': "createChallenge (cs_id seed) now (request_data seed body (map_option al_id lic)) s = (Inr c', s1)"
      using createChallenge_row [OF pre(2)] by blast
    obtain q s2 where q: "insertChallengeQuestions (cs_questionIds seed) (generateChallengeQuestions (cs_rnd seed) (ch_id c') (bw_kit b)
        (getActiveDistractorBrands s1 (cb_brand body))) s1 = (q, s2)" by fastforce
    have "(r, s') = (case q of Inl e \<Rightarrow> Inl e | Inr _ \<Rightarrow> Inr c', s2)"
      using granted(5) assms(2) c' q unfolding Let_def lic_def [symmetric] by (cases q) (auto split: if_splits)
    then show ?thesis using that pre granted c' q by simp
  qed
qed

text \<open>
  (C16) A challenge that is created was requested by an owner or editor of its brand, who has accepted the
  terms; its pool is the exact amount of the request in stroops and at least 100 USDC, although the
  minimum is checked in double precision; it awaits its deposit under a memo that the deposit monitor
  accepts, ends at least an hour from now up to the grace of five seconds, and has a question for each
  of the three rounds.
\<close>

theorem challenge_created:
  assumes "post_challenge tos seed now body uid email s = (Inr c, s')" and "18 \<le> length (cs_bytes seed)"
    and "questions_of (cs_id seed) s = []" and "distinct (map slot_of (map sq_draft (bs_questions s)))"
  shows "tos \<and> (\<exists>r. getBrandMemberRole s (cb_brand body) uid email = Some r \<and> r \<in> {Owner, Editor}) \<and>
    challenges (game (bs_bank s')) = challenges (game (bs_bank s)) @ [c] \<and> ch_brand c = cb_brand body \<and>
    usdcToStroops (cb_pool body) = Inr (string_of_nat (nat (ch_pool c))) \<and> 1000000000 \<le> ch_pool c \<and>
    ch_status c = CPendingDeposit \<and> (\<exists>m. ch_memo c = Some m \<and> length m = 24 \<and> validateDepositMemo (Some m) = MemoValid m) \<and>
    (\<exists>e. ch_ends_at c = Some e \<and> now + 3595000 \<le> e) \<and> map qd_round (questions_of (ch_id c) s') = [1, 2, 3]"
  using assms(1)
proof (rule post_challenge_cases)
  show "challenges (game (bs_bank s')) \<noteq> challenges (game (bs_bank s)) \<or> Inr c = (Inr c :: exn + challenge)" by simp
next
  fix b rl lic c' s1 q
  assume a: "tos" "pool_valid (cb_pool body)" "validateChallengeEndsAt now (cb_endsAt body) = None"
    "getBrandById s (cb_brand body) = Some b" "getBrandMemberRole s (cb_brand body) uid email = Some rl" "role_rank rl \<le> role_rank Editor"
    "createChallenge (cs_id seed) now (request_data seed body lic) s = (Inr c', s1)"
    "insertChallengeQuestions (cs_questionIds seed) (generateChallengeQuestions (cs_rnd seed) (ch_id c') (bw_kit b)
        (getActiveDistractorBrands s1 (cb_brand body))) s1 = (q, s')"
    "Inr c = (case q of Inl e \<Rightarrow> Inl e | Inr _ \<Rightarrow> Inr c')"
  have c: "c' = c" "q = Inr ()" using a(9) by (auto split: sum.splits)
  have row: "ch_id c = cs_id seed" "ch_brand c = cb_brand body" "ch_memo c = Some (generateDepositMemo (cs_bytes seed))"
    "ch_status c = CPendingDeposit" "ch_ends_at c = Some (cb_endsAt body)" "MIN_POOL_STROOPS \<le> ch_pool c"
    "usdcToStroops (cb_pool body) = Inr (string_of_nat (nat (ch_pool c)))"
    "challenges (game (bs_bank s1)) = challenges (game (bs_bank s)) @ [c]" "bs_questions s1 = bs_questions s"
    using createChallenge_row [OF a(2), of "cs_id seed" now seed lic s] a(7) c(1) by auto
  have "challenges (game (bs_bank s')) = challenges (game (bs_bank s)) @ [c]"
    using insertChallengeQuestions_frame [OF a(8)] row(8) by simp
  moreover have "questions_of (cs_id seed) s1 = []" using assms(3) row(9) by (simp add: questions_of_def)
  then have "map qd_round (questions_of (ch_id c) s') = [1, 2, 3]"
    using stored_generated [OF a(8) [unfolded c row(1)]] assms(4) row(1,9) by (metis sum.distinct(1))
  moreover have "now + 3595000 \<le> cb_endsAt body"
    using a(3) by (auto simp: validateChallengeEndsAt_def Let_def MIN_CHALLENGE_DURATION_MS_def CHALLENGE_DURATION_GRACE_MS_def split: if_splits)
  moreover have "rl \<in> {Owner, Editor}" using a(6) by (simp add: editor_rank)
  moreover have "length (generateDepositMemo (cs_bytes seed)) = 24"
    using assms(2) by (simp add: generateDepositMemo_def length_base64url)
  ultimately show ?thesis
    using a(1,5) row generated_memo_valid [OF assms(2)] by (simp add: MIN_POOL_STROOPS_def)
qed

text \<open>
  A brand kit that is not filled in from the front cannot get a challenge: two of its questions are for
  the same round, so the request fails on the unique constraint. The challenge was inserted before and
  stays behind without all of its questions, awaiting a deposit.
\<close>

theorem sparse_brand_challenge_broken:
  assumes "pool_valid (cb_pool body)" and "cb_percentage body \<le> 10000" and "validateChallengeEndsAt now (cb_endsAt body) = None"
    and "getBrandById s (cb_brand body) = Some b" and "getBrandMemberRole s (cb_brand body) uid email = Some Owner"
    and "cb_license body = None" and "\<not> present (bk_tagline (bw_kit b))" and "present (bk_usp (bw_kit b)) \<or> bk_images (bw_kit b) \<noteq> []"
    and "questions_of (cs_id seed) s = []" and "distinct (map slot_of (map sq_draft (bs_questions s)))"
  shows "\<exists>e c s'. post_challenge True seed now body uid email s = (Inl e, s') \<and> err_code e = Some ''23505'' \<and>
    challenges (game (bs_bank s')) = challenges (game (bs_bank s)) @ [c] \<and> ch_id c = cs_id seed \<and> ch_status c = CPendingDeposit \<and>
    length (questions_of (cs_id seed) s') < 3"
proof -
  obtain c s1 where c: "createChallenge (cs_id seed) now (request_data seed body None) s = (Inr c, s1)"
    "ch_id c = cs_id seed" "ch_status c = CPendingDeposit" "challenges (game (bs_bank s1)) = challenges (game (bs_bank s)) @ [c]"
    "bs_questions s1 = bs_questions s" using createChallenge_row [OF assms(1)] by blast
  let ?qs = "generateChallengeQuestions (cs_rnd seed) (cs_id seed) (bw_kit b) (getActiveDistractorBrands s1 (cb_brand body))"
  obtain q s' where q: "insertChallengeQuestions (cs_questionIds seed) ?qs s1 = (q, s')" by fastforce
  have slots: "distinct (map slot_of (map sq_draft (bs_questions s1)))" using assms(10) c(5) by simp
  have "\<not> distinct (map qd_round ?qs)" using generated_rounds_distinct [of "cs_rnd seed" "cs_id seed" "bw_kit b"] assms(7,8) by metis
  then have "q \<noteq> Inr ()" using insert_refuses_duplicates [OF q _ _ slots] generated_challenge by blast
  then obtain e where e: "q = Inl e" "err_code e = Some ''23505''" "length (questions_of (cs_id seed) s') < 3"
    using stored_generated [OF q _ slots] assms(9) c(5) by (auto simp: questions_of_def)
  have id: "bw_id b = cb_brand body" using assms(4) find_row_Some by (fastforce simp: getBrandById_def)
  have "post_challenge True seed now body uid email s = (Inl e, s')"
    using assms(1-6) c(1,2) q e(1) id
    by (simp add: post_challenge_def with_role_def assertBrandRole_def hasRequiredBrandRole_def given_def)
  then show ?thesis using e c(2-4) insertChallengeQuestions_frame [OF q] by auto
qed

subsection \<open>Members, patches and licences\<close>

text \<open>Nobody is ever invited: the request fails and changes nothing.\<close>

lemma invite_never_succeeds: "\<exists>e. post_members bid uid email valid s = (Inl e, s)"
proof -
  obtain r s' where p: "post_members bid uid email valid s = (r, s')" by fastforce
  from p [unfolded post_members_def] have "(\<exists>e. r = Inl e) \<and> s' = s"
    by (cases rule: with_role_cases) (auto split: if_splits)
  then show ?thesis using p by auto
qed

text \<open>A patch that does not mention the question template removes it.\<close>

lemma patch_wipes_template: "bp_template p = None \<Longrightarrow> bk_template (apply_patch p kit) = empty_template"
  by (simp add: apply_patch_def)

text \<open>A licensee has one licence per challenge, and its fee is the one offered when it was acquired.\<close>

definition licenses_unique :: "brand_st \<Rightarrow> bool" where
  "licenses_unique s \<longleftrightarrow> distinct (map (\<lambda>l. (al_source l, al_licensee l)) (bs_licenses s))"

lemma acquire_unique:
  assumes "acquireChallengeLicense fresh cid licensee s = (r, s')" and "licenses_unique s"
  shows "licenses_unique s'"
  using assms by (auto simp: acquireChallengeLicense_def licenses_unique_def Let_def image_iff split: option.splits if_splits)

lemma acquire_fee:
  assumes "acquireChallengeLicense fresh cid licensee s = (Some l, s')"
  shows "al_fee l = snd (bs_offer s cid) \<and> al_licensor l \<noteq> licensee \<and> bs_licenses s' = bs_licenses s @ [l]"
  using assms by (auto simp: acquireChallengeLicense_def Let_def dest: find_row_Some split: option.splits if_splits)

section \<open>Witnesses\<close>

definition demo_brand_st :: brand_st where
  "demo_brand_st = \<lparr>bs_bank = blank_bank demo_board, 
     bs_brands = [\<lparr>bw_id = ''b1'', bw_owner = ''u1'', bw_kit = demo_kit, bw_deleted = None, bw_created = 0\<rparr>,
       \<lparr>bw_id = ''b2'', bw_owner = ''u2'', bw_kit = demo_kit\<lparr>bk_name := ''Bolt'', bk_tagline := Some ''Go''\<rparr>, bw_deleted = None, bw_created = 1\<rparr>],
     bs_members = [\<lparr>bm_id = ''m1'', bm_brand = ''b1'', bm_user = Some ''u3'', bm_email = ''e3'', bm_role = Viewer, bm_invited_by = ''u1''\<rparr>],
     bs_questions = [], bs_emails = [], bs_offer = (\<lambda>_. (False, 0)), bs_licenses = [], bs_refund = (\<lambda>_. (RFull, 0))\<rparr>"


definition demo_body :: challenge_body where
  "demo_body = \<lparr>cb_brand = ''b2'', cb_pool = ''100'', cb_endsAt = 3600000, cb_license = None, cb_policy = RFull, cb_percentage = 0\<rparr>"

definition demo_seed :: challenge_seed where
  "demo_seed = \<lparr>cs_id = ''c9'', cs_challengeId = ''x9'', cs_bytes = replicate 18 0, cs_rnd = (\<lambda>_ _. 0), cs_questionIds = (\<lambda>n. string_of_nat n)\<rparr>"

lemma demo_pool: "pool_valid ''100''"
proof -
  have m: "match_usdc ''100'' = Some (''100'', [])" "is_amount ''100''" by code_simp+
  have "nat_of_string ''100'' = 100" by (simp add: nat_of_string_def digit_val_def)
  moreover have "nat_of_string (padEnd 7 CHR ''0'' []) = 0" by (simp add: padEnd_def)
  ultimately have "parse_pool (''100'', []) = fl (of_nat 1000000000 / 10000000)" by (simp add: parse_pool_def)
  moreover have "MIN_POOL_STROOPS \<le> \<lfloor>nmult (fl (of_nat 1000000000 / 10000000)) 10000000 + 1 / 2\<rfloor>"
    unfolding pool_minimum_exact by (simp add: MIN_POOL_STROOPS_def)
  ultimately show ?thesis using m by (simp add: pool_valid_def)
qed

lemma demo_ends: "validateChallengeEndsAt 0 3600000 = None"
  by (simp add: validateChallengeEndsAt_def MIN_CHALLENGE_DURATION_MS_def CHALLENGE_DURATION_GRACE_MS_def)

lemma demo_owner: "getBrandById demo_brand_st ''b2'' = Some \<lparr>bw_id = ''b2'', bw_owner = ''u2'',
    bw_kit = demo_kit\<lparr>bk_name := ''Bolt'', bk_tagline := Some ''Go''\<rparr>, bw_deleted = None, bw_created = 1\<rparr>"
  "getBrandMemberRole demo_brand_st ''b2'' ''u2'' None = Some Owner"
  "getBrandById demo_brand_st ''b1'' = Some \<lparr>bw_id = ''b1'', bw_owner = ''u1'', bw_kit = demo_kit, bw_deleted = None, bw_created = 0\<rparr>"
  "getBrandMemberRole demo_brand_st ''b1'' ''u1'' None = Some Owner"
  by (simp_all add: demo_brand_st_def getBrandMemberRole_def getBrandById_def find_row_def)

theorem challenge_created_witness:
  "\<exists>c s'. post_challenge True demo_seed 0 demo_body ''u2'' None demo_brand_st = (Inr c, s') \<and>
     1000000000 \<le> ch_pool c \<and> map qd_round (questions_of (ch_id c) s') = [1, 2, 3]"
proof -
  obtain c s1 where c: "createChallenge ''c9'' 0 (request_data demo_seed demo_body None) demo_brand_st = (Inr c, s1)"
      "ch_id c = ''c9''" "bs_questions s1 = []"
    using createChallenge_row [of demo_body "''c9''" 0 demo_seed None demo_brand_st] demo_pool
    by (auto simp: demo_body_def demo_brand_st_def)
  define kit where "kit = demo_kit\<lparr>bk_name := ''Bolt'', bk_tagline := Some ''Go''\<rparr>"
  let ?qs = "generateChallengeQuestions (\<lambda>_ _. 0) ''c9'' kit (getActiveDistractorBrands s1 ''b2'')"
  obtain q s' where q: "insertChallengeQuestions string_of_nat ?qs s1 = (q, s')" by fastforce
  have "distinct (map qd_round ?qs)"
    unfolding conjunct2 [OF generated_rounds_distinct] by (simp add: kit_def demo_kit_def present_def)
  then have "distinct (map slot_of ?qs)" using slots_distinct [of ?qs "''c9''"] generated_challenge by blast
  then have "q = Inr ()" using insertChallengeQuestions_ok [of s1 ?qs string_of_nat] c(3) q by simp
  then have p: "post_challenge True demo_seed 0 demo_body ''u2'' None demo_brand_st = (Inr c, s')"
    using c q demo_owner(1,2) demo_pool demo_ends
    by (simp add: post_challenge_def with_role_def assertBrandRole_def hasRequiredBrandRole_def given_def demo_body_def demo_seed_def kit_def)
  have "18 \<le> length (cs_bytes demo_seed)" "questions_of (cs_id demo_seed) demo_brand_st = []"
    "distinct (map slot_of (map sq_draft (bs_questions demo_brand_st)))"
    by (simp_all add: demo_seed_def questions_of_def demo_brand_st_def)
  note r = challenge_created [OF p this]
  have "1000000000 \<le> ch_pool c" "map qd_round (questions_of (ch_id c) s') = [1, 2, 3]" using r by simp_all
  with p show ?thesis by (intro exI conjI)
qed

theorem sparse_brand_challenge_broken_witness:
  "\<exists>e c s'. post_challenge True demo_seed 0 (demo_body\<lparr>cb_brand := ''b1''\<rparr>) ''u1'' None demo_brand_st = (Inl e, s') \<and>
     err_code e = Some ''23505'' \<and> challenges (game (bs_bank s')) = challenges (game (bs_bank demo_brand_st)) @ [c] \<and>
     ch_id c = ''c9'' \<and> ch_status c = CPendingDeposit \<and> length (questions_of ''c9'' s') < 3"
proof -
  have id: "cs_id demo_seed = ''c9''" by (simp add: demo_seed_def)
  show ?thesis
    using demo_pool demo_ends demo_owner(3,4)
      sparse_brand_challenge_broken [of "demo_body\<lparr>cb_brand := ''b1''\<rparr>" 0 demo_brand_st _ "''u1''" None demo_seed, unfolded id]
    by (simp add: demo_body_def demo_kit_def present_def questions_of_def) (simp add: demo_brand_st_def)
qed

text \<open>The owner of the second brand replaces a question of a challenge that is not theirs.\<close>

definition demo_asked :: stored_question where
  "demo_asked = \<lparr>sq_id = ''q1'', sq_draft = \<lparr>qd_challenge = ''c1'', qd_round = 2, qd_type = ''which_brand'', qd_prompt = ''logo'',
     qd_text = ''?'', qd_answer = ''Acme'', qd_options = [], qd_correct = OptA\<rparr>, sq_approved = None\<rparr>"

theorem question_takeover_witness:
  "\<exists>new s'. regenerate_question (\<lambda>_ _. 0) ''q2'' ''b2'' ''q1'' ''u2'' None (demo_brand_st\<lparr>bs_questions := [demo_asked]\<rparr>) = (Inr new, s') \<and>
     qd_challenge (sq_draft new) = ''c1'' \<and> bs_questions s' = [new]"
proof -
  let ?s = "demo_brand_st\<lparr>bs_questions := [demo_asked]\<rparr>"
  let ?b = "\<lparr>bw_id = ''b2'', bw_owner = ''u2'', bw_kit = demo_kit\<lparr>bk_name := ''Bolt'', bk_tagline := Some ''Go''\<rparr>, bw_deleted = None, bw_created = 1\<rparr>"
  have b: "getBrandById ?s ''b2'' = Some ?b" "getBrandMemberRole ?s ''b2'' ''u2'' None = Some Owner"
    by (simp_all add: demo_brand_st_def getBrandMemberRole_def getBrandById_def find_row_def)
  have r: "map qd_round (generateChallengeQuestions (\<lambda>_ _. 0) ''c1'' (bw_kit ?b) (getActiveDistractorBrands ?s ''b2'')) = [1, 2, 3]"
    by (rule iffD1 [OF conjunct1 [OF generated_rounds_distinct]], subst conjunct2 [OF generated_rounds_distinct])
      (simp add: demo_kit_def present_def)
  have "\<exists>new s'. regenerate_question (\<lambda>_ _. 0) ''q2'' ''b2'' (sq_id demo_asked) ''u2'' None ?s = (Inr new, s') \<and>
    qd_challenge (sq_draft new) = qd_challenge (sq_draft demo_asked) \<and> qd_round (sq_draft new) = qd_round (sq_draft demo_asked) \<and>
    qd_answer (sq_draft new) \<in> {bk_name (bw_kit ?b)} \<union> set_option (bk_tagline (bw_kit ?b)) \<and>
    bs_questions s' = delete_where (\<lambda>q. sq_id q = sq_id demo_asked) (bs_questions ?s) @ [new]"
    by (rule question_takeover [OF b]) (use r in \<open>simp_all add: unique_by_def demo_asked_def\<close>)
  then show ?thesis by (auto simp: demo_asked_def delete_where_def)
qed

end
