(* ===== verification/Challenges.thy ===== *)
theory Challenges
  imports Brands Payout
begin

text \<open>
  Challenges (\<open>routes/challenges.ts\<close>, \<open>routes/challenge-management.ts\<close>, \<open>routes/admin/challenges.ts\<close>,
  \<open>db/queries/challenges.ts\<close>, \<open>challenge-duplication.ts\<close>, \<open>challenge-ratings.ts\<close>): duplication and
  publication of drafts, the public gallery, reports and ratings, the administrator's routes, the lobby
  with its four orders, and the lifecycle of a challenge across all components that change its status.
  The specification is an automaton of statuses; the platform with all its requests refines it.
\<close>

section \<open>State\<close>

record report_row =
  rp_id :: string
  rp_challenge :: string
  rp_user :: string
  rp_reason :: string

record rating_row =
  rt_challenge :: string
  rt_user :: string
  rt_difficulty :: int

text \<open>The platform: the brands with the bank, the refunds and payments, the start of published challenges
  (others start when they are created), the time of opting into the gallery, reports and ratings.\<close>

record platform =
  pf_brand :: brand_st
  pf_refunds :: "refund_row list"
  pf_payments :: "(string \<times> string \<times> string) list"
  pf_starts :: "string \<Rightarrow> int option"
  pf_gallery :: "string \<Rightarrow> int option"
  pf_reports :: "report_row list"
  pf_ratings :: "rating_row list"

definition pf_bank :: "platform \<Rightarrow> bank" where
  "pf_bank p = bs_bank (pf_brand p)"

definition set_bank :: "bank \<Rightarrow> platform \<Rightarrow> platform" where
  "set_bank b p = p\<lparr>pf_brand := (pf_brand p)\<lparr>bs_bank := b\<rparr>\<rparr>"

abbreviation pf_challenges :: "platform \<Rightarrow> challenge list" where
  "pf_challenges p \<equiv> challenges (game (pf_bank p))"

definition on_bank :: "(bank \<Rightarrow> 'a \<times> bank) \<Rightarrow> platform \<Rightarrow> 'a \<times> platform" where
  "on_bank f p = (case f (pf_bank p) of (r, b) \<Rightarrow> (r, set_bank b p))"

definition set_challenges :: "(challenge list \<Rightarrow> challenge list) \<Rightarrow> bank \<Rightarrow> bank" where
  "set_challenges f b = b\<lparr>game := (game b)\<lparr>challenges := f (challenges (game b))\<rparr>\<rparr>"

definition audit :: "string \<Rightarrow> string \<Rightarrow> string \<Rightarrow> bank \<Rightarrow> bank" where
  "audit actor action cid b =
     b\<lparr>game := (game b)\<lparr>audit_log := audit_log (game b) @
        [\<lparr>au_actor = actor, au_action = action, au_entity = ''challenge'', au_key = cid\<rparr>]\<rparr>\<rparr>"

section \<open>Duplication and drafts\<close>

text \<open>The challenge with its brand; neither is deleted.\<close>

definition with_owner :: "platform \<Rightarrow> string \<Rightarrow> (challenge \<times> string) option" where
  "with_owner p cid =
     (case getChallengeById (game (pf_bank p)) cid of
        None \<Rightarrow> None
      | Some c \<Rightarrow> (case getBrandById (pf_brand p) (ch_brand c) of None \<Rightarrow> None | Some b \<Rightarrow> Some (c, bw_owner b)))"

text \<open>The questions of a challenge under new ids for another challenge.\<close>

definition copy_questions :: "(nat \<Rightarrow> string) \<Rightarrow> string \<Rightarrow> string \<Rightarrow> brand_st \<Rightarrow> brand_st" where
  "copy_questions ids source target s =
     (let qs = filter (\<lambda>q. qd_challenge (sq_draft q) = source) (bs_questions s)
      in s\<lparr>bs_questions := bs_questions s @
           map (\<lambda>(i, q). \<lparr>sq_id = ids i, sq_draft = (sq_draft q)\<lparr>qd_challenge := target\<rparr>, sq_approved = None\<rparr>) (enumerate 0 qs)\<rparr>)"

text \<open>The insert of \<open>createChallenge\<close> runs on a connection of its own; it takes the text of the pool, the
  licence and \<open>draft\<close>, and ignores the payout schedule.\<close>

definition duplicateChallenge ::
  "challenge_seed \<Rightarrow> int \<Rightarrow> string \<Rightarrow> string \<Rightarrow> platform \<Rightarrow> (exn + challenge) \<times> platform" where
  "duplicateChallenge seed now cid actorId p =
     (case with_owner p cid of
        None \<Rightarrow> (Inl (createError ''Challenge not found'' 404 None), p)
      | Some (original, owner) \<Rightarrow>
          if owner \<noteq> actorId then (Inl (createError ''Only the owning brand can duplicate this challenge'' 403 None), p)
          else
           (case createChallenge (cs_id seed) now
                   \<lparr>cd_brand = ch_brand original, cd_challengeId = cs_challengeId seed, cd_memo = None,
                    cd_pool = stroopsToUsdc (ch_pool original), cd_endsAt = None,
                    cd_license = challenge_license (pf_bank p) (ch_id original), cd_policy = None, cd_percentage = None,
                    cd_draft = True\<rparr> (pf_brand p) of
              (Inl e, s) \<Rightarrow> (Inl e, p\<lparr>pf_brand := s\<rparr>)
            | (Inr duplicate, s) \<Rightarrow>
                let s1 = copy_questions (cs_questionIds seed) (ch_id original) (ch_id duplicate) s
                in (Inr duplicate, p\<lparr>pf_brand := s1\<lparr>bs_bank := audit actorId ''challenge.duplicated'' (ch_id duplicate) (bs_bank s1)\<rparr>\<rparr>)))"

definition publish_draft ::
  "bool \<Rightarrow> bool \<Rightarrow> byte list \<Rightarrow> int \<Rightarrow> string \<Rightarrow> string \<Rightarrow> int \<Rightarrow> int \<Rightarrow> platform \<Rightarrow> (exn + challenge) \<times> platform" where
  "publish_draft tosAccepted bodyValid bytes now cid uid startsAt endsAt p =
     (if \<not> tosAccepted then (Inl (createError ''Current Terms of Service must be accepted'' 403 (Some ''TOS_NOT_ACCEPTED'')), p)
      else if \<not> bodyValid then (Inl zod_error, p)
      else if startsAt < now \<or> endsAt - startsAt < 3600000
      then (Inl (createError ''Choose a future start and an end at least one hour later'' 422 (Some ''INVALID_DRAFT_DATES'')), p)
      else case with_owner p cid of
        None \<Rightarrow> (Inl (createError ''Challenge not found'' 404 None), p)
      | Some (d, owner) \<Rightarrow>
          if owner \<noteq> uid then (Inl (createError ''Forbidden'' 403 None), p)
          else if ch_status d \<noteq> CDraft then (Inl (createError ''Challenge is no longer a draft'' 409 None), p)
          else if ch_pool d < MIN_POOL_STROOPS then (Inl (createError ''Pool must be at least 100 USDC'' 422 None), p)
          else
            let upd = (\<lambda>c. c\<lparr>ch_status := CPendingDeposit, ch_ends_at := Some endsAt,
                              ch_memo := Some (generateDepositMemo bytes)\<rparr>)
            in (Inr (upd d), (set_bank (set_challenges (update_where (\<lambda>c. ch_id c = cid) upd) (pf_bank p)) p)
                  \<lparr>pf_starts := (pf_starts p)(cid := Some startsAt)\<rparr>))"

section \<open>Gallery, reports and ratings\<close>

definition optChallengeIntoGallery :: "int \<Rightarrow> string \<Rightarrow> string \<Rightarrow> platform \<Rightarrow> bool \<times> platform" where
  "optChallengeIntoGallery now cid bid p =
     (if \<exists>c \<in> set (pf_challenges p). ch_id c = cid \<and> ch_brand c = bid \<and>
            ch_status c \<in> {CSettled, CEnded, CPayoutFailed} \<and> ch_deleted_at c = None
      then (True, p\<lparr>pf_gallery := (pf_gallery p)(cid := Some now)\<rparr>)
      else (False, p))"

definition optChallengeOutOfGallery :: "string \<Rightarrow> string \<Rightarrow> platform \<Rightarrow> bool \<times> platform" where
  "optChallengeOutOfGallery cid bid p =
     (if \<exists>c \<in> set (pf_challenges p). ch_id c = cid \<and> ch_brand c = bid \<and> ch_deleted_at c = None
      then (True, p\<lparr>pf_gallery := (pf_gallery p)(cid := None)\<rparr>)
      else (False, p))"

text \<open>The owner's access to a challenge: an unknown one, or one of somebody else.\<close>

definition own_challenge :: "platform \<Rightarrow> string \<Rightarrow> string \<Rightarrow> exn + challenge \<times> brand_row" where
  "own_challenge p cid uid =
     (case getChallengeById (game (pf_bank p)) cid of
        None \<Rightarrow> Inl (createError ''Challenge not found'' 404 None)
      | Some c \<Rightarrow> (case getBrandById (pf_brand p) (ch_brand c) of
          None \<Rightarrow> Inl (createError ''Forbidden'' 403 None)
        | Some b \<Rightarrow> if bw_owner b = uid then Inr (c, b) else Inl (createError ''Forbidden'' 403 None)))"

definition template_opt_in :: "int \<Rightarrow> string \<Rightarrow> string \<Rightarrow> platform \<Rightarrow> (exn + unit) \<times> platform" where
  "template_opt_in now cid uid p =
     (case own_challenge p cid uid of
        Inl e \<Rightarrow> (Inl e, p)
      | Inr (c, b) \<Rightarrow>
          if ch_status c \<notin> {CSettled, CEnded, CPayoutFailed}
          then (Inl (createError ''Only completed challenges can be added to the gallery'' 422 (Some ''INVALID_STATUS'')), p)
          else (case optChallengeIntoGallery now cid (bw_id b) p of
            (False, p1) \<Rightarrow> (Inl (createError ''Challenge not found or could not be updated'' 404 None), p1)
          | (True, p1) \<Rightarrow> (Inr (), p1)))"

definition template_opt_out :: "string \<Rightarrow> string \<Rightarrow> platform \<Rightarrow> (exn + unit) \<times> platform" where
  "template_opt_out cid uid p =
     (case own_challenge p cid uid of
        Inl e \<Rightarrow> (Inl e, p)
      | Inr (c, b) \<Rightarrow>
          (case optChallengeOutOfGallery cid (bw_id b) p of
             (False, p1) \<Rightarrow> (Inl (createError ''Challenge not found'' 404 None), p1)
           | (True, p1) \<Rightarrow> (Inr (), p1)))"

text \<open>The memo that is shown to the owner is the one deposits are matched by.\<close>

definition deposit_info :: "string \<Rightarrow> string \<Rightarrow> platform \<Rightarrow> exn + string \<times> string" where
  "deposit_info cid uid p =
     (case own_challenge p cid uid of
        Inl e \<Rightarrow> Inl e
      | Inr (c, b) \<Rightarrow>
          if ch_status c \<noteq> CPendingDeposit then Inl (createError ''Challenge is not pending deposit'' 400 None)
          else Inr ((case ch_memo c of Some m \<Rightarrow> m | None \<Rightarrow> ch_id c), stroopsToUsdc (ch_pool c)))"

definition REPORT_REASONS :: "string list" where
  "REPORT_REASONS = [''misleading'', ''offensive'', ''spam'', ''trademark_violation'', ''other'']"

text \<open>After the middleware, the reported challenge must be active; one report per user. The insert names
  the column \<open>details\<close>, which the table does not have (its column is \<open>note\<close>, and its reasons are others),
  so the statement fails and the transaction is rolled back.\<close>

definition post_report :: "string \<Rightarrow> string \<Rightarrow> string \<Rightarrow> platform \<Rightarrow> (exn + string) \<times> platform" where
  "post_report cid uid reason p =
     (case getChallengeById (game (pf_bank p)) cid of
        None \<Rightarrow> (Inl (createError ''Challenge not found'' 404 None), p)
      | Some c \<Rightarrow>
          if ch_status c \<noteq> CActive then (Inl (createError ''Challenge is not active'' 404 None), p)
          else if reason \<notin> set REPORT_REASONS then (Inl zod_error, p)
          else if \<exists>r \<in> set (pf_reports p). rp_challenge r = cid \<and> rp_user r = uid
          then (Inl (createError ''You have already reported this challenge'' 409 (Some ''ALREADY_REPORTED'')), p)
          else (Inl ((js_error ''column details of relation challenge_reports does not exist'')\<lparr>err_code := Some ''42703''\<rparr>), p))"

definition hasCompletedChallenge :: "app \<Rightarrow> string \<Rightarrow> string \<Rightarrow> bool" where
  "hasCompletedChallenge a uid cid \<longleftrightarrow> (\<exists>s \<in> set (sessions a). gs_user s = uid \<and> gs_challenge s = cid \<and> gs_status s = SCompleted)"

definition isUserFraudFlagged :: "app \<Rightarrow> string \<Rightarrow> bool" where
  "isUserFraudFlagged a uid \<longleftrightarrow> (\<exists>f \<in> set (fraud_flags a). ff_user f = uid)"

definition upsertChallengeRating :: "string \<Rightarrow> string \<Rightarrow> int \<Rightarrow> rating_row list \<Rightarrow> rating_row list" where
  "upsertChallengeRating cid uid difficulty rows =
     (let P = (\<lambda>r. rt_challenge r = cid \<and> rt_user r = uid)
      in if find_row P rows = None then rows @ [\<lparr>rt_challenge = cid, rt_user = uid, rt_difficulty = difficulty\<rparr>]
         else update_where P (\<lambda>r. r\<lparr>rt_difficulty := difficulty\<rparr>) rows)"

definition post_rate :: "string \<Rightarrow> string \<Rightarrow> int \<Rightarrow> platform \<Rightarrow> (exn + unit) \<times> platform" where
  "post_rate cid uid difficulty p =
     (if difficulty < 1 \<or> 5 < difficulty then (Inl zod_error, p)
      else case getChallengeById (game (pf_bank p)) cid of
        None \<Rightarrow> (Inl (createError ''Challenge not found'' 404 None), p)
      | Some c \<Rightarrow>
          if isUserFraudFlagged (game (pf_bank p)) uid
          then (Inl (createError ''Accounts flagged for fraud cannot submit ratings'' 403 (Some ''FRAUD_FLAGGED'')), p)
          else if \<not> hasCompletedChallenge (game (pf_bank p)) uid (ch_id c)
          then (Inl (createError ''You can only rate a challenge you have completed'' 409 (Some ''CHALLENGE_NOT_COMPLETED'')), p)
          else (Inr (), p\<lparr>pf_ratings := upsertChallengeRating (ch_id c) uid difficulty (pf_ratings p)\<rparr>))"

text \<open>The average to two decimals, half up, over the ratings of users without a flag.\<close>

definition getChallengeRatingStats :: "platform \<Rightarrow> string \<Rightarrow> rat option \<times> nat" where
  "getChallengeRatingStats p cid =
     (let ds = map rt_difficulty (filter (\<lambda>r. rt_challenge r = cid \<and> \<not> isUserFraudFlagged (game (pf_bank p)) (rt_user r)) (pf_ratings p))
      in (if ds = [] then None else Some (of_int \<lfloor>of_int (sum_list ds) / of_nat (length ds) * 100 + 1 / 2\<rfloor> / 100), length ds))"

section \<open>Administration\<close>

definition softDeleteChallenge :: "int \<Rightarrow> string \<Rightarrow> bank \<Rightarrow> bank" where
  "softDeleteChallenge now cid =
     set_challenges (update_where (\<lambda>c. ch_id c = cid \<and> ch_deleted_at c = None) (\<lambda>c. c\<lparr>ch_deleted_at := Some now\<rparr>))"

definition restoreChallenge :: "string \<Rightarrow> bank \<Rightarrow> bank" where
  "restoreChallenge cid = set_challenges (update_where (\<lambda>c. ch_id c = cid) (\<lambda>c. c\<lparr>ch_deleted_at := None\<rparr>))"

definition admin_delete :: "int \<Rightarrow> string \<Rightarrow> string \<Rightarrow> platform \<Rightarrow> platform" where
  "admin_delete now cid admin p = set_bank (audit admin ''challenge_soft_delete'' cid (softDeleteChallenge now cid (pf_bank p))) p"

definition admin_restore :: "string \<Rightarrow> string \<Rightarrow> platform \<Rightarrow> platform" where
  "admin_restore cid admin p = set_bank (audit admin ''challenge_restore'' cid (restoreChallenge cid (pf_bank p))) p"

definition admin_settle :: "string \<Rightarrow> string \<Rightarrow> platform \<Rightarrow> (exn + unit) \<times> platform" where
  "admin_settle cid admin p =
     (case getChallengeById (game (pf_bank p)) cid of
        None \<Rightarrow> (Inl (createError ''Challenge not found'' 404 None), p)
      | Some c \<Rightarrow>
          if ch_status c = CSettled then (Inl (createError ''Challenge already settled'' 409 (Some ''CHALLENGE_SETTLED'')), p)
          else (case enqueuePayout cid (pf_bank p) of
            (Inl _, b) \<Rightarrow> (Inl (createError ''Settlement failed'' 500 (Some ''SETTLEMENT_FAILED'')), set_bank b p)
          | (Inr _, b) \<Rightarrow> (Inr (), set_bank (audit admin ''challenge_settle'' cid b) p)))"

text \<open>The refund reads policy, percentage and start of the challenge.\<close>

definition starts_at :: "platform \<Rightarrow> string \<Rightarrow> int" where
  "starts_at p cid =
     (case pf_starts p cid of
        Some t \<Rightarrow> t
      | None \<Rightarrow> (case find_row (\<lambda>c. ch_id c = cid) (pf_challenges p) of Some c \<Rightarrow> ch_created c | None \<Rightarrow> 0))"

definition refund_view :: "platform \<Rightarrow> refund_db" where
  "refund_view p =
     \<lparr>rd_bank = pf_bank p, rd_refunds = pf_refunds p, rd_policy = (\<lambda>c. fst (bs_refund (pf_brand p) c)),
      rd_percentage = (\<lambda>c. snd (bs_refund (pf_brand p) c)), rd_startsAt = starts_at p, rd_payments = pf_payments p\<rparr>"

definition admin_refund ::
  "refund_env \<Rightarrow> int \<Rightarrow> string \<Rightarrow> string \<Rightarrow> string \<Rightarrow> string \<Rightarrow> platform \<Rightarrow> (exn + refund_row) \<times> platform" where
  "admin_refund rv now fresh cid admin reason p =
     (if reason = [] \<or> 500 < length reason then (Inl zod_error, p)
      else case refundChallenge rv now fresh cid admin reason (refund_view p) of
        (r, d) \<Rightarrow>
          (case r of
             Inr refund \<Rightarrow> Inr refund
           | Inl e \<Rightarrow>
               Inl (if err_message e = ''Challenge not found'' then createError (err_message e) 404 None
                    else if err_message e = ''Challenge already settled'' then createError (err_message e) 409 (Some ''CHALLENGE_SETTLED'')
                    else if err_message e = ''No deposit found'' then createError (err_message e) 404 (Some ''NO_DEPOSIT_FOUND'')
                    else e),
           (set_bank (rd_bank d) p)\<lparr>pf_refunds := rd_refunds d, pf_payments := rd_payments d\<rparr>))"

section \<open>Lifecycle\<close>

subsection \<open>Specification\<close>

text \<open>The statuses and their moves. Settled and refunded challenges are final.\<close>

definition lifecycle :: "(challenge_status \<times> challenge_status) set" where
  "lifecycle =
     {(CDraft, CPendingDeposit), (CPendingDeposit, CActive), (CPendingDeposit, CCancelled), (CActive, CCancelled),
      (CActive, CEnded), (CEnded, CSettled), (CEnded, CPayoutFailed),
      (CActive, CRefunded), (CEnded, CRefunded), (CPayoutFailed, CRefunded), (CCancelled, CRefunded)}"

text \<open>No request and no job performs the move from active to ended.\<close>

definition performed :: "(challenge_status \<times> challenge_status) set" where
  "performed = lifecycle - {(CActive, CEnded)}"

text \<open>A step of the specification creates challenges that await their deposit or moves challenges.\<close>

definition spec_step :: "(string \<rightharpoonup> challenge_status) \<Rightarrow> (string \<rightharpoonup> challenge_status) \<Rightarrow> bool" where
  "spec_step m m' \<longleftrightarrow>
     (\<forall>cid. m' cid = m cid \<or> (m cid = None \<and> m' cid = Some CPendingDeposit) \<or>
            (\<exists>s s'. m cid = Some s \<and> m' cid = Some s' \<and> (s, s') \<in> lifecycle))"

subsection \<open>Implementation\<close>

definition phase :: "bank \<Rightarrow> string \<rightharpoonup> challenge_status" where
  "phase b cid = map_option ch_status (find_row (\<lambda>c. ch_id c = cid) (challenges (game b)))"

text \<open>The requests and jobs that write the table of challenges. \<open>settle\<close> is a settlement for any value of the
  leaderboard, \<open>job\<close> the payout job as it is; \<open>other\<close> covers everything that leaves the table alone, such as
  the game sessions.\<close>

inductive platform_step :: "platform \<Rightarrow> platform \<Rightarrow> bool" where
  brand: "brand_step uid email admin (pf_brand p) s \<Longrightarrow> unique_by ch_id (challenges (game (bs_bank s))) \<Longrightarrow>
    platform_step p (p\<lparr>pf_brand := s\<rparr>)"
| duplicate: "cs_id seed \<notin> ch_id ` set (pf_challenges p) \<Longrightarrow> platform_step p (snd (duplicateChallenge seed now cid uid p))"
| publish: "platform_step p (snd (publish_draft tos valid bytes now cid uid startsAt endsAt p))"
| deposit: "platform_step p (snd (on_bank (deposit_webhook dv now req body) p))"
| settle: "platform_step p (snd (on_bank (settle_with pe v cid) p))"
| job: "platform_step p (snd (on_bank (processPayoutJob pe isBatch cido) p))"
| exhausted: "platform_step p (set_bank (handleExhaustedPayoutJob cid msg (pf_bank p)) p)"
| refund: "platform_step p (snd (admin_refund rv now fresh cid admin reason p))"
| adminDelete: "platform_step p (admin_delete now cid admin p)"
| adminRestore: "platform_step p (admin_restore cid admin p)"
| adminSettle: "platform_step p (snd (admin_settle cid admin p))"
| optIn: "platform_step p (snd (template_opt_in now cid uid p))"
| optOut: "platform_step p (snd (template_opt_out cid uid p))"
| report: "platform_step p (snd (post_report cid uid reason p))"
| rate: "platform_step p (snd (post_rate cid uid difficulty p))"
| other: "challenges (game b) = pf_challenges p \<Longrightarrow> platform_step p (set_bank b p)"

section \<open>Lemmas\<close>

lemma find_row_update_id:
  assumes "\<And>r. key (f r) = key r"
  shows "find_row (\<lambda>r. key r = k) (update_where P f rows) = map_option (\<lambda>r. if P r then f r else r) (find_row (\<lambda>r. key r = k) rows)"
  using assms by (induction rows) (auto simp: update_where_def)

lemma pf_bank_simps [simp]:
  "pf_bank (set_bank b p) = b" "pf_bank (p\<lparr>pf_brand := s\<rparr>) = bs_bank s" "pf_bank (p\<lparr>pf_gallery := g\<rparr>) = pf_bank p"
  "pf_bank (p\<lparr>pf_ratings := r\<rparr>) = pf_bank p" "pf_bank (p\<lparr>pf_starts := st\<rparr>) = pf_bank p"
  "pf_bank (p\<lparr>pf_refunds := rs\<rparr>) = pf_bank p" "pf_bank (p\<lparr>pf_payments := ps\<rparr>) = pf_bank p"
  by (simp_all add: pf_bank_def set_bank_def)

lemma challenges_set [simp]: "challenges (game (set_challenges f b)) = f (challenges (game b))"
  by (simp add: set_challenges_def)

lemma challenges_audit [simp]: "challenges (game (audit a x cid b)) = challenges (game b)"
  by (simp add: audit_def)


subsection \<open>What leaves the table of challenges alone\<close>

lemma challenges_bookkeeping [simp]:
  "challenges (game (updatePayoutStatus pid st h e b)) = challenges (game b)"
  "challenges (game (incrementUserEarnings uid amt b)) = challenges (game b)"
  "challenges (game (audit_blocked cid uid b)) = challenges (game b)"
  by (simp_all add: updatePayoutStatus_def incrementUserEarnings_def audit_blocked_def Let_def split: sum.splits)

lemma challenges_dispatch [simp]: "challenges (snd (dispatchNotification f uid ty pl a)) = challenges a"
  by (simp add: dispatchNotification_def Let_def split: option.splits)

lemma challenges_queue [simp]: "challenges (game (queue_referral pe cid r b)) = challenges (game b)"
  by (simp add: queue_referral_def queueReferralBonusForPayout_def queue_bonus_def Let_def auditReferralBonusSkipped_def
      createReferralPayout_def markReferralRewarded_def enqueueReferralBonus_def split: option.splits prod.splits)

lemma challenges_notify [simp]: "challenges (game (insertPayoutNotification pe uid amt h cid b)) = challenges (game b)"
  by (simp add: insertPayoutNotification_def Let_def)

lemma challenges_update:
  "challenges (game (updateChallengeStatus cid st d h b)) = update_where (\<lambda>c. ch_id c = cid)
     (\<lambda>c. c\<lparr>ch_status := st, ch_deposit_tx := (case d of Some (x # xs) \<Rightarrow> Some (x # xs) | _ \<Rightarrow> ch_deposit_tx c),
            ch_payout_tx := (case d of Some (x # xs) \<Rightarrow> ch_payout_tx c | _ \<Rightarrow> (case h of Some hs \<Rightarrow> Some hs | None \<Rightarrow> ch_payout_tx c))\<rparr>)
     (challenges (game b))"
  by (simp add: updateChallengeStatus_def)

lemma challenges_create_payouts: "create_payouts pe cid allocs b = (r, b') \<Longrightarrow> challenges (game b') = challenges (game b)"
proof (induction pe cid allocs b arbitrary: r b' rule: create_payouts.induct)
  case (2 pe cid uid addr n rest b)
  obtain cr b1 where c: "createPayout (pe_payoutId pe uid) (pe_now pe) cid uid addr (Some n) None b = (cr, b1)" by fastforce
  note g = createPayout_frame(2) [OF c]
  show ?case
  proof (cases cr)
    case (Inl e)
    show ?thesis
    proof (cases "isFraudBlockError e")
      case True
      then have "create_payouts pe cid rest (audit_blocked cid uid b1) = (r, b')" using "2.prems" Inl c by simp
      from "2.IH"(1) [OF c [symmetric] Inl True this] g show ?thesis by simp
    qed (use "2.prems" Inl c g in simp)
  next
    case (Inr p)
    obtain r2 b2 where rest: "create_payouts pe cid rest b1 = (r2, b2)" by fastforce
    have "challenges (game b2) = challenges (game b1)"
      using "2.IH"(2,3) [OF c [symmetric] Inr _ rest] by blast
    moreover have "b' = b2" using "2.prems" Inr c rest by (cases r2) (auto split: if_splits)
    ultimately show ?thesis using g by simp
  qed
qed auto

abbreviation (input) table :: "bank \<Rightarrow> challenge list" where
  "table b \<equiv> challenges (game b)"

lemma table_submit: "submit_payouts hz nw pk memo rs b = (r, b') \<Longrightarrow> table b' = table b"
  by (auto simp: submit_payouts_def split: if_splits prod.splits)

lemma table_direct: "table (foldl (direct_result pe cid rs) b results) = table b"
proof -
  have "table (direct_record pe cid rs r b rc) = table b" for r b rc
    by (simp add: direct_record_def Let_def split: option.splits)
  moreover have "table (direct_referral pe cid rs b rc) = table b" for b rc
    by (simp add: direct_referral_def split: option.splits)
  ultimately have "table (direct_result pe cid rs b r) = table b" for b r
    by (simp add: direct_result_def Let_def foldl_keeps [where f = table])
  then show ?thesis by (rule foldl_keeps)
qed

lemma table_escrow: "table (foldl (escrow_record pe cid h) b rs) = table b"
  by (rule foldl_keeps) (simp add: escrow_record_def)

subsection \<open>Moves of the table\<close>

text \<open>Only a challenge that left the deposit behind has a deposit.\<close>

definition deposit_ok :: "challenge \<Rightarrow> bool" where
  "deposit_ok c \<longleftrightarrow> (ch_status c \<in> {CDraft, CPendingDeposit} \<longrightarrow> given (ch_deposit_tx c) = None)"

definition row_moves :: "challenge \<Rightarrow> challenge \<Rightarrow> bool" where
  "row_moves c c' \<longleftrightarrow> ch_id c' = ch_id c \<and> (ch_status c' = ch_status c \<or> (ch_status c, ch_status c') \<in> performed) \<and>
     (deposit_ok c \<longrightarrow> deposit_ok c')"

definition new_row :: "challenge \<Rightarrow> bool" where
  "new_row c \<longleftrightarrow> ch_status c = CPendingDeposit \<and> ch_deposit_tx c = None"

definition table_moves :: "challenge list \<Rightarrow> challenge list \<Rightarrow> challenge list \<Rightarrow> bool" where
  "table_moves new rows rows' \<longleftrightarrow>
     (\<exists>f. rows' = map f rows @ new \<and> (\<forall>c \<in> set rows. row_moves c (f c)) \<and> (\<forall>c \<in> set new. new_row c))"

lemma row_moves_refl [simp]: "row_moves c c"
  by (simp add: row_moves_def)

lemma table_moves_refl [simp]: "table_moves [] rows rows"
  unfolding table_moves_def by (intro exI [of _ id]) simp

lemma table_moves_ex [simp]:
  "\<exists>new. table_moves new rows rows" "\<exists>new. table_moves new rows rows \<and> (new = [] \<or> Q new)"
  using table_moves_refl by blast+

lemma table_moves_update:
  assumes "\<And>c. c \<in> set rows \<Longrightarrow> P c \<Longrightarrow> row_moves c (f c)"
  shows "table_moves [] rows (update_where P f rows)"
  unfolding table_moves_def update_where_def
  by (intro exI [of _ "\<lambda>c. if P c then f c else c"]) (simp add: assms)

lemma table_moves_append: "new_row c \<Longrightarrow> table_moves [c] rows (rows @ [c])"
  unfolding table_moves_def by (intro exI [of _ id]) simp

lemma table_moves_ids: "table_moves new rows rows' \<Longrightarrow> map ch_id rows' = map ch_id rows @ map ch_id new"
  by (auto simp: table_moves_def row_moves_def)

lemma find_row_map_id:
  assumes "\<And>r. r \<in> set rows \<Longrightarrow> key (f r) = key r"
  shows "find_row (\<lambda>r. key r = k) (map f rows) = map_option f (find_row (\<lambda>r. key r = k) rows)"
  using assms by (induction rows) auto

lemma table_moves_phase:
  assumes "table_moves new (table b) (table b')"
  shows "spec_step (phase b) (phase b')"
proof -
  obtain f where f: "table b' = map f (table b) @ new" "\<forall>c \<in> set (table b). row_moves c (f c)" "\<forall>c \<in> set new. new_row c"
    using assms unfolding table_moves_def by blast
  have same: "find_row (\<lambda>r. ch_id r = cid) (map f (table b)) = map_option f (find_row (\<lambda>r. ch_id r = cid) (table b))" for cid
    using f(2) by (intro find_row_map_id) (simp add: row_moves_def)
  have "phase b' cid = phase b cid \<or> (phase b cid = None \<and> phase b' cid = Some CPendingDeposit) \<or>
      (\<exists>s s'. phase b cid = Some s \<and> phase b' cid = Some s' \<and> (s, s') \<in> lifecycle)" for cid
  proof (cases "find_row (\<lambda>r. ch_id r = cid) (table b)")
    case None
    then show ?thesis using f(1,3) same [of cid] find_row_Some
      by (cases "find_row (\<lambda>r. ch_id r = cid) new") (fastforce simp: phase_def find_row_append new_row_def)+
  next
    case (Some c)
    then have "row_moves c (f c)" using f(2) find_row_Some by fast
    then show ?thesis using Some f(1) same [of cid] by (auto simp: phase_def find_row_append row_moves_def performed_def)
  qed
  then show ?thesis unfolding spec_step_def by blast
qed

lemma table_moves_ok:
  assumes "table_moves new rows rows'" and "\<forall>c \<in> set rows. deposit_ok c"
  shows "\<forall>c \<in> set rows'. deposit_ok c"
  using assms by (auto simp: table_moves_def row_moves_def new_row_def deposit_ok_def given_def)

subsection \<open>The operations\<close>

lemma found_row:
  assumes "getChallengeById (game b) cid = Some c"
  shows "c \<in> set (table b)" "ch_id c = cid" "ch_deleted_at c = None"
  using assms find_row_Some by (fastforce simp: getChallengeById_def)+

lemma status_moves:
  assumes "unique_by ch_id (table b)" and "c \<in> set (table b)" "ch_id c = cid"
    and "ch_status c = st \<or> (ch_status c, st) \<in> performed" and "st \<notin> {CDraft, CPendingDeposit}"
  shows "table_moves [] (table b) (table (updateChallengeStatus cid st d h b))"
  unfolding challenges_update
proof (rule table_moves_update)
  fix e
  assume "e \<in> set (table b)" "ch_id e = cid"
  then have "e = c" using assms(1-3) by (auto dest: unique_byD)
  then show "row_moves e (e\<lparr>ch_status := st, ch_deposit_tx := (case d of Some (x # xs) \<Rightarrow> Some (x # xs) | _ \<Rightarrow> ch_deposit_tx e),
      ch_payout_tx := (case d of Some (x # xs) \<Rightarrow> ch_payout_tx e | _ \<Rightarrow> (case h of Some hs \<Rightarrow> Some hs | None \<Rightarrow> ch_payout_tx e))\<rparr>)"
    using assms(4,5) by (auto simp: row_moves_def deposit_ok_def)
qed

lemma ended_moves: "(CEnded, CSettled) \<in> performed" "(CEnded, CPayoutFailed) \<in> performed"
  by (simp_all add: performed_def lifecycle_def)

lemma pay_records_table:
  assumes "pay_records pe cid rs b = (r, b')"
  shows "table b' = table b \<or> (\<exists>st h b1. table b1 = table b \<and> st \<in> {CSettled, CPayoutFailed} \<and> table b' = table (updateChallengeStatus cid st None h b1))"
proof (cases "rs = []")
  case True
  then show ?thesis using assms unfolding pay_records_def by auto
next
  case False
  show ?thesis
  proof (cases "settle_escrow pe cid rs b")
    case (Some b2)
    then obtain h where "b2 = updateChallengeStatus cid CSettled None (Some [h]) (foldl (escrow_record pe cid h) b rs)"
      by (auto simp: settle_escrow_def split: option.splits sum.splits)
    then show ?thesis using assms False Some table_escrow [of pe cid h b rs] by (auto simp: pay_records_def)
  next
    case None
    obtain sr b1 where sub: "submit_payouts (pe_horizon pe) (pe_network pe) (pe_publicKey pe) cid
        (map (\<lambda>r. \<lparr>rc_address = pr_address r, rc_amount = pr_amount r\<rparr>) rs) b = (sr, b1)" by fastforce
    note t1 = table_submit [OF sub]
    show ?thesis
    proof (cases sr)
      case (Inl e)
      then show ?thesis using assms False None sub t1 by (simp add: pay_records_def)
    next
      case (Inr results)
      have "table (foldl (direct_result pe cid rs) b1 results) = table b" using table_direct t1 by simp
      moreover have "b' = record_results pe cid rs results b1" using assms False None sub Inr by (simp add: pay_records_def)
      moreover define st where "st = (if \<exists>r \<in> set results. \<not> br_success r then CPayoutFailed else CSettled)"
      moreover define h where "h = (let hs = map br_txHash (filter br_success results) in if hs \<noteq> [] then Some hs else None)"
      ultimately have "b' = updateChallengeStatus cid st None h (foldl (direct_result pe cid rs) b1 results)"
        by (simp add: record_results_def Let_def)
      then show ?thesis using \<open>table (foldl (direct_result pe cid rs) b1 results) = table b\<close> st_def by auto
    qed
  qed
qed

lemma settle_moves:
  assumes "settle_with pe v cid b = (r, b')" and "unique_by ch_id (table b)"
  shows "table_moves [] (table b) (table b')"
proof (cases "\<exists>c rows. getChallengeById (game b) cid = Some c \<and> ch_status c = CEnded \<and> v = LbArray rows")
  case True
  then obtain c rows where c: "getChallengeById (game b) cid = Some c" "ch_status c = CEnded" "v = LbArray rows" by blast
  note id = found_row(2) [OF c(1)]
  have run: "settle_rows pe c rows b = (r, b')" using assms(1) c by (simp add: settle_with_def iterate_def)
  have upd: "table_moves [] (table b) (table (updateChallengeStatus cid st None h b1))"
    if "table b1 = table b" "st \<in> {CSettled, CPayoutFailed}" for st h b1
    using status_moves [of b c cid st None h] assms(2) c(2) found_row [OF c(1)] that ended_moves by (auto simp: challenges_update)
  consider "b' = b" | "b' = updateChallengeStatus cid CSettled None None b"
    | cr b1 where "create_payouts pe cid (payoutAllocations b c rows) b = (cr, b1)" "and_then (cr, b1) (pay_records pe cid) = (r, b')"
    using run id by (auto simp: settle_rows_def split: option.splits if_splits) (metis surj_pair)
  then show ?thesis
  proof cases
    case 2
    then show ?thesis using upd by simp
  next
    case 3
    have t1: "table b1 = table b" using challenges_create_payouts [OF 3(1)] .
    show ?thesis
    proof (cases cr)
      case (Inr rs)
      then have "pay_records pe cid rs b1 = (r, b')" using 3(2) by simp
      from pay_records_table [OF this] t1 show ?thesis using upd by auto
    qed (use 3(2) t1 in simp)
  qed simp
next
  case False
  then have "b' = b" using assms(1)
    by (auto simp: settle_with_def iterate_def split: option.splits if_splits lb_value.splits)
  then show ?thesis by simp
qed

lemma payout_unchanged: "snd (processPayout pe cid b) = b"
  by (simp add: processPayout_def settle_with_def payout_board_def iterate_def split: prod.splits option.splits)

lemma run_challenges_unchanged: "snd (run_challenges (processPayout pe) cids b) = b"
proof (induction cids arbitrary: b)
  case (Cons cid cids)
  obtain r where "processPayout pe cid b = (r, b)" using payout_unchanged by (metis prod.collapse)
  moreover obtain x where "run_challenges (processPayout pe) cids b = (x, b)" using Cons [of b] by (metis prod.collapse)
  ultimately show ?case by (cases r; cases x) simp_all
qed simp

lemma on_game_table: "(\<And>a. challenges (snd (f a)) = challenges a) \<Longrightarrow> on_game f b = (r, b') \<Longrightarrow> table b' = table b"
  by (auto simp: on_game_def split: prod.splits) (metis snd_conv)

lemma batch_table: "table (snd (processBatchPayout pe b)) = table b"
proof -
  have redis: "challenges (snd (redis_do f a)) = challenges a" "challenges (snd (redis_write g a)) = challenges a" for f g a
    by (simp_all add: redis_do_def redis_write_def split: prod.splits)
  obtain acq b1 where lock: "on_game (redis_do (\<lambda>st. r_set_nx (pe_now pe) st batch_lock (RStr ''1'') 1800)) b = (acq, b1)" by fastforce
  note t1 = on_game_table [OF redis(1) lock]
  obtain x b2 where run: "run_challenges (processPayout pe) (map ch_id (getEndedBatchedChallenges b1)) b1 = (x, b2)" by fastforce
  have b2: "b2 = b1" using run_challenges_unchanged [of pe "map ch_id (getEndedBatchedChallenges b1)" b1] run by simp
  obtain y b3 where rel: "on_game (redis_write (\<lambda>st. r_del st batch_lock)) b2 = (y, b3)" by fastforce
  note t3 = on_game_table [OF redis(2) rel]
  show ?thesis using lock run rel t1 t3 b2
    by (cases acq; cases y) (simp_all add: processBatchPayout_def batch_with_def)
qed

lemma job_table: "table (snd (processPayoutJob pe isBatch cido b)) = table b"
proof -
  have s: "snd (case m of (Inr u, b1) \<Rightarrow> (Inr u, b1) | (Inl e, b1) \<Rightarrow> (Inl (g e), b1)) = snd m" for m :: "(exn + unit) \<times> bank" and g
    by (auto split: prod.splits sum.splits)
  have a: "snd (and_then m (\<lambda>_ b1. (Inr (), b1))) = snd m" for m :: "(exn + 'a) \<times> bank"
    by (auto simp: and_then_def split: prod.splits sum.splits)
  show ?thesis unfolding processPayoutJob_def s
    by (auto simp: a batch_table payout_unchanged split: option.splits)
qed

lemma deposit_moves:
  assumes "deposit_webhook dv now req body b = (r, b')" and "unique_by ch_id (table b)"
  shows "table_moves [] (table b) (table b')"
proof -
  obtain v b1 where v: "verifyWebhook (dv_hook dv) now req b = (v, b1)" by fastforce
  have t1: "table b1 = table b" using verifyWebhook_frame [OF v] by simp
  have post: "table_moves [] (table b1) (table b2)" if p: "post_deposit dv body b1 = (r, b2)" for r b2
  proof (cases "b2 = b1")
    case False
    then obtain c where c: "getChallengeByMemo b1 (db_memo body) = Some c" "ch_status c = CPendingDeposit"
      "b2 = updateChallengeStatus (ch_id c) CActive (Some (db_txHash body)) None b1"
      using p by (auto simp: post_deposit_def activate_def split: if_splits option.splits sum.splits)
    have "c \<in> set (table b1)" using c(1) find_row_Some by (fastforce simp: getChallengeByMemo_def)
    then show ?thesis using status_moves [of b1 c "ch_id c" CActive] c(2,3) assms(2) t1 by (simp add: performed_def lifecycle_def)
  qed simp
  show ?thesis using assms(1) v t1 post
    by (auto simp: deposit_webhook_def and_then_def split: sum.splits option.splits)
qed

lemma refund_moves:
  assumes "refundChallenge rv now fresh cid admin reason d = (r, d')" and "unique_by ch_id (table (rd_bank d))"
    and "\<forall>c \<in> set (table (rd_bank d)). deposit_ok c"
  shows "table_moves [] (table (rd_bank d)) (table (rd_bank d'))"
proof (cases "table (rd_bank d') = table (rd_bank d)")
  case False
  have pay: "rd_bank d1 = rd_bank d" if "submitRefundPayment rv x a y d = (h, d1)" for x a y h d1
    using that by (auto simp: submitRefundPayment_def Let_def split: sum.splits)
  have ins: "rd_bank d2 = rd_bank d1" if "createRefund row d1 = (h, d2)" for row d1 h d2
    using that by (auto simp: createRefund_def split: if_splits)
  obtain c where c: "getChallengeById (game (rd_bank d)) cid = Some c" "ch_status c \<noteq> CSettled" "given (ch_deposit_tx c) \<noteq> None"
    "table (rd_bank d') = table (updateChallengeStatus (ch_id c) CRefunded None None (rd_bank d))"
    using assms(1) False
    by (auto simp: refundChallenge_def Let_def and_then_def refund_audit_def pay ins
        split: option.splits if_splits sum.splits prod.splits dest!: pay ins)
  have "ch_status c \<notin> {CDraft, CPendingDeposit}" using assms(3) found_row(1) [OF c(1)] c(3) by (auto simp: deposit_ok_def)
  then have "ch_status c = CRefunded \<or> (ch_status c, CRefunded) \<in> performed"
    using c(2) by (cases "ch_status c") (simp_all add: performed_def lifecycle_def)
  then show ?thesis
    using status_moves [of "rd_bank d" c "ch_id c" CRefunded None None] found_row(1) [OF c(1)] assms(2) c(4) by simp
qed simp

lemma delete_moves: "table_moves [] (table (bs_bank s)) (table (bs_bank (snd (delete_brand bid now uid email admin s))))"
proof -
  have "table_moves [] rows (update_where (\<lambda>c. ch_brand c = bid \<and> ch_status c \<in> {CPendingDeposit, CActive} \<and> ch_deleted_at c = None)
      (\<lambda>c. c\<lparr>ch_status := CCancelled\<rparr>) rows)" for rows
    by (rule table_moves_update) (auto simp: row_moves_def deposit_ok_def performed_def lifecycle_def)
  then show ?thesis by (auto simp: delete_brand_def deleteBrand_def Let_def split: option.splits)
qed

lemma insertChallengeQuestion_table: "insertChallengeQuestion fresh q s = (r, s') \<Longrightarrow> table (bs_bank s') = table (bs_bank s)"
  by (drule insertChallengeQuestion_frame(2)) simp

lemma createChallenge_moves:
  assumes "createChallenge fresh now d s = (r, s')"
  shows "\<exists>new. table_moves new (table (bs_bank s)) (table (bs_bank s')) \<and> (new = [] \<or> (\<exists>c. new = [c] \<and> ch_id c = fresh))"
proof (cases r)
  case (Inl e)
  then show ?thesis using assms by (auto simp: createChallenge_def Let_def split: sum.splits)
next
  case (Inr c)
  then have "table (bs_bank s') = table (bs_bank s) @ [c]" "new_row c" "ch_id c = fresh"
    using assms by (auto simp: createChallenge_def Let_def new_row_def split: sum.splits)
  then show ?thesis using table_moves_append by force
qed

lemma challenge_moves: "\<exists>new. table_moves new (table (bs_bank s)) (table (bs_bank (snd (post_challenge tos seed now body uid email s))))"
proof -
  obtain r s' where p: "post_challenge tos seed now body uid email s = (r, s')" by fastforce
  show ?thesis
  proof (cases "table (bs_bank s') = table (bs_bank s)")
    case False
    with p show ?thesis
    proof (rule post_challenge_cases [OF _ disjI1], goal_cases)
      case (1 b rl lic c' s1 q)
      have "\<exists>new. table_moves new (table (bs_bank s)) (table (bs_bank s1))" using createChallenge_moves [OF 1(7)] by blast
      moreover have "bs_bank s' = bs_bank s1" using insertChallengeQuestions_frame [OF 1(8)] by simp
      ultimately show ?case by (simp add: p)
    qed
  qed (simp add: p)
qed

lemma with_role_table:
  assumes "\<And>b res s'. f b s = (res, s') \<Longrightarrow> table (bs_bank s') = table (bs_bank s)"
  shows "table (bs_bank (snd (with_role bid uid email q f s))) = table (bs_bank s)"
proof -
  obtain r s' where w: "with_role bid uid email q f s = (r, s')" by fastforce
  then show ?thesis by (cases rule: with_role_cases) (simp_all add: assms w)
qed

lemma brand_moves: "brand_step uid email admin s s' \<Longrightarrow> \<exists>new. table_moves new (table (bs_bank s)) (table (bs_bank s'))"
proof (induction rule: brand_step.induct)
  case (create fresh s m now kit)
  have "table (bs_bank (snd (addBrandMember f b e rl by' s1))) = table (bs_bank s1)" for f b e rl by' and s1 :: brand_st
    using addBrandMember_frame(2) by (metis prod.collapse)
  then show ?case by (simp add: post_brand_def Let_def)
next
  case (patch s bid body)
  have "table (bs_bank (snd (patch_brand bid uid email body s))) = table (bs_bank s)"
    unfolding patch_brand_def by (rule with_role_table) (auto simp: updateBrand_def Let_def split: option.splits if_splits)
  then show ?case by simp
next
  case (invite s bid valid)
  then show ?case using invite_never_succeeds [of bid uid email valid s] table_moves_refl by fastforce
next
  case (remove s bid mid)
  have "table (bs_bank (snd (delete_member bid mid uid email s))) = table (bs_bank s)"
    unfolding delete_member_def
    by (rule with_role_table) (auto simp: Let_def and_then_def removeBrandMember_def split: option.splits if_splits)
  then show ?case by simp
next
  case (regenerate s rnd fresh bid qid)
  have "table (bs_bank (snd (regenerate_question rnd fresh bid qid uid email s))) = table (bs_bank s)"
    unfolding regenerate_question_def
    by (rule with_role_table) (auto simp: Let_def deleteChallengeQuestion_def dest: insertChallengeQuestion_table split: option.splits)
  then show ?case by simp
next
  case (review s approved bid qid)
  have "table (bs_bank (snd (review_question approved bid qid uid email s))) = table (bs_bank s)"
    unfolding review_question_def by (rule with_role_table) auto
  then show ?case by simp
next
  case (offer s bid cid available fee)
  have "table (bs_bank (snd (patch_licensing bid cid available fee uid email s))) = table (bs_bank s)"
    unfolding patch_licensing_def
    by (rule with_role_table) (auto simp: setChallengeLicenseOffer_def split: if_splits prod.splits bool.splits)
  then show ?case by simp
next
  case (license s fresh bid cid)
  have "table (bs_bank (snd (post_license fresh bid cid uid email s))) = table (bs_bank s)"
    unfolding post_license_def
    by (rule with_role_table) (auto simp: acquireChallengeLicense_def Let_def split: if_splits prod.splits option.splits)
  then show ?case by simp
qed (use delete_moves challenge_moves in blast)+

lemma set_challenges_moves:
  assumes "\<And>c. c \<in> set (table b) \<Longrightarrow> P c \<Longrightarrow> row_moves c (f c)"
  shows "table_moves [] (table b) (table (set_challenges (update_where P f) b))"
  using table_moves_update [OF assms] by simp

lemma duplicate_moves:
  "\<exists>new. table_moves new (pf_challenges p) (pf_challenges (snd (duplicateChallenge seed now cid uid p))) \<and>
     (new = [] \<or> (\<exists>c. new = [c] \<and> ch_id c = cs_id seed))"
proof (cases "with_owner p cid")
  case (Some x)
  obtain c owner where x: "x = (c, owner)" by fastforce
  show ?thesis
  proof (cases "owner = uid")
    case True
    let ?d = "\<lparr>cd_brand = ch_brand c, cd_challengeId = cs_challengeId seed, cd_memo = None,
      cd_pool = stroopsToUsdc (ch_pool c), cd_endsAt = None, cd_license = challenge_license (pf_bank p) (ch_id c),
      cd_policy = None, cd_percentage = None, cd_draft = True\<rparr>"
    obtain r s where cr: "createChallenge (cs_id seed) now ?d (pf_brand p) = (r, s)" by fastforce
    have "table (bs_bank (copy_questions ids a b s)) = table (bs_bank s)" for ids a b by (simp add: copy_questions_def Let_def)
    then have "pf_challenges (snd (duplicateChallenge seed now cid uid p)) = table (bs_bank s)"
      using Some x True cr by (cases r) (simp_all add: duplicateChallenge_def Let_def)
    then show ?thesis using createChallenge_moves [OF cr] by (simp add: pf_bank_def)
  qed (simp add: duplicateChallenge_def Some x)
qed (simp add: duplicateChallenge_def)

lemma with_owner_found: "with_owner p cid = Some (c, owner) \<Longrightarrow> getChallengeById (game (pf_bank p)) cid = Some c"
  by (auto simp: with_owner_def split: option.splits)

lemma publish_moves:
  assumes "unique_by ch_id (pf_challenges p)"
  shows "table_moves [] (pf_challenges p) (pf_challenges (snd (publish_draft tos valid bytes now cid uid startsAt endsAt p)))"
proof -
  let ?upd = "\<lambda>c. c\<lparr>ch_status := CPendingDeposit, ch_ends_at := Some endsAt, ch_memo := Some (generateDepositMemo bytes)\<rparr>"
  have "table_moves [] (pf_challenges p) (update_where (\<lambda>c. ch_id c = cid) ?upd (pf_challenges p))"
    if w: "with_owner p cid = Some (c, owner)" and d: "ch_status c = CDraft" for c owner
  proof (rule table_moves_update)
    fix e
    assume "e \<in> set (pf_challenges p)" "ch_id e = cid"
    then have "e = c" using found_row(1,2) [OF with_owner_found [OF w]] assms by (auto dest: unique_byD)
    then show "row_moves e (?upd e)" using d by (auto simp: row_moves_def deposit_ok_def performed_def lifecycle_def)
  qed
  then show ?thesis by (auto simp: publish_draft_def Let_def split: option.splits)
qed

lemma admin_moves:
  "table_moves [] (pf_challenges p) (pf_challenges (admin_delete now cid admin p))"
  "table_moves [] (pf_challenges p) (pf_challenges (admin_restore cid admin p))"
  by (auto simp: admin_delete_def admin_restore_def softDeleteChallenge_def restoreChallenge_def row_moves_def deposit_ok_def
      intro!: table_moves_update)

lemma table_same [simp]:
  "pf_challenges (snd (admin_settle cid admin p)) = pf_challenges p"
  "pf_challenges (snd (template_opt_in now cid uid p)) = pf_challenges p"
  "pf_challenges (snd (template_opt_out cid uid p)) = pf_challenges p"
  "pf_challenges (snd (post_report cid uid reason p)) = pf_challenges p"
  "pf_challenges (snd (post_rate cid uid difficulty p)) = pf_challenges p"
proof -
  have "table b' = table b" if "enqueuePayout cid b = (r, b')" for b b' r
    using that by (auto simp: enqueuePayout_def Let_def split: option.splits if_splits)
  then show "pf_challenges (snd (admin_settle cid admin p)) = pf_challenges p"
    by (auto simp: admin_settle_def split: option.splits prod.splits sum.splits)
qed (auto simp: template_opt_in_def template_opt_out_def optChallengeIntoGallery_def optChallengeOutOfGallery_def post_report_def post_rate_def
    split: option.splits sum.splits prod.splits bool.splits)

subsection \<open>The invariant\<close>

definition ratings_ok :: "rating_row list \<Rightarrow> bool" where
  "ratings_ok rows \<longleftrightarrow> unique_by (\<lambda>r. (rt_challenge r, rt_user r)) rows \<and> (\<forall>r \<in> set rows. 1 \<le> rt_difficulty r \<and> rt_difficulty r \<le> 5)"

definition platform_inv :: "platform \<Rightarrow> bool" where
  "platform_inv p \<longleftrightarrow> unique_by ch_id (pf_challenges p) \<and> (\<forall>c \<in> set (pf_challenges p). deposit_ok c) \<and> ratings_ok (pf_ratings p)"

definition platform_init :: "platform \<Rightarrow> bool" where
  "platform_init p \<longleftrightarrow> pf_challenges p = [] \<and> pf_ratings p = []"

lemma step_moves:
  assumes "platform_step p p'" and "platform_inv p"
  shows "\<exists>new. table_moves new (pf_challenges p) (pf_challenges p') \<and> unique_by ch_id (pf_challenges p')"
proof -
  have u: "unique_by ch_id (pf_challenges p)" and ok: "\<forall>c \<in> set (pf_challenges p). deposit_ok c"
    using assms(2) by (simp_all add: platform_inv_def)
  have keep: ?thesis if "table_moves [] (pf_challenges p) (pf_challenges p')"
    using that u table_moves_ids [OF that] by (auto simp: unique_by_def)
  have v: "rd_bank (refund_view p) = pf_bank p" by (simp add: refund_view_def)
  from assms(1) show ?thesis
  proof cases
    case (brand uid email admin s)
    then show ?thesis using brand_moves [OF brand(2)] by (simp add: pf_bank_def)
  next
    case (duplicate seed now cid uid)
    obtain new where new: "table_moves new (pf_challenges p) (pf_challenges p')" "new = [] \<or> (\<exists>c. new = [c] \<and> ch_id c = cs_id seed)"
      using duplicate_moves [of p seed now cid uid] duplicate(1) by blast
    then have "unique_by ch_id (pf_challenges p')"
      using table_moves_ids [OF new(1)] u duplicate(2) by (force simp: unique_by_def)
    with new(1) show ?thesis by blast
  next
    case (deposit dv now req body)
    then show ?thesis using deposit_moves [OF _ u] by (intro keep) (auto simp: on_bank_def split: prod.splits)
  next
    case (settle pe v cid)
    then show ?thesis using settle_moves [OF _ u] by (intro keep) (auto simp: on_bank_def split: prod.splits)
  next
    case (job pe isBatch cido)
    then show ?thesis using job_table [of pe isBatch cido "pf_bank p"] by (intro keep) (simp add: on_bank_def split: prod.splits)
  next
    case (exhausted cid msg)
    then show ?thesis by (intro keep) (simp add: handleExhaustedPayoutJob_def Let_def failPayoutsForChallenge_def)
  next
    case (refund rv now fresh cid admin reason)
    show ?thesis
      using refund refund_moves [of rv now fresh cid admin reason "refund_view p"] u ok unfolding v
      by (intro keep) (auto simp: admin_refund_def split: prod.splits)
  qed (intro keep, simp add: publish_moves [OF u] admin_moves)+
qed

lemma upsert_ok:
  assumes "ratings_ok rows" and "1 \<le> n" and "n \<le> 5"
  shows "ratings_ok (upsertChallengeRating cid uid n rows)"
proof (cases "find_row (\<lambda>r. rt_challenge r = cid \<and> rt_user r = uid) rows = None")
  case True
  then show ?thesis using assms by (force simp: upsertChallengeRating_def ratings_ok_def unique_by_def find_row_None)
next
  case False
  then show ?thesis using assms
    by (auto simp: upsertChallengeRating_def ratings_ok_def unique_by_update set_update_where split: if_splits)
qed

lemma ratings_set_bank [simp]: "pf_ratings (set_bank b p) = pf_ratings p"
  by (simp add: set_bank_def)

lemma ratings_same [simp]:
  "pf_ratings (snd (duplicateChallenge seed now cid uid p)) = pf_ratings p"
  "pf_ratings (snd (publish_draft tos valid bytes now cid uid startsAt endsAt p)) = pf_ratings p"
  "pf_ratings (snd (on_bank f p)) = pf_ratings p"
  "pf_ratings (snd (admin_refund rv now fresh cid admin reason p)) = pf_ratings p"
  "pf_ratings (admin_delete now cid admin p) = pf_ratings p"
  "pf_ratings (admin_restore cid admin p) = pf_ratings p"
  "pf_ratings (snd (admin_settle cid admin p)) = pf_ratings p"
  "pf_ratings (snd (template_opt_in now cid uid p)) = pf_ratings p"
  "pf_ratings (snd (template_opt_out cid uid p)) = pf_ratings p"
  "pf_ratings (snd (post_report cid uid reason p)) = pf_ratings p"
  by (simp_all add: duplicateChallenge_def publish_draft_def on_bank_def admin_refund_def admin_delete_def admin_restore_def admin_settle_def
      template_opt_in_def template_opt_out_def optChallengeIntoGallery_def optChallengeOutOfGallery_def post_report_def Let_def
      split: option.split sum.split prod.split bool.split)

lemma step_ratings:
  assumes "platform_step p p'" and "ratings_ok (pf_ratings p)"
  shows "ratings_ok (pf_ratings p')"
  using assms
proof cases
  case (rate cid uid n)
  then show ?thesis using assms(2) upsert_ok by (auto simp: post_rate_def split: option.split)
qed simp_all

subsection \<open>Refinement\<close>

text \<open>A transition system that implements a specification: every step from a state of the invariant is a
  step of the specification on the abstract states.\<close>

locale refines = transition_system init step inv
  for init :: "'s \<Rightarrow> bool" and step :: "'s \<Rightarrow> 's \<Rightarrow> bool" and inv :: "'s \<Rightarrow> bool" +
  fixes abs :: "'s \<Rightarrow> 'a"
    and astep :: "'a \<Rightarrow> 'a \<Rightarrow> bool"
  assumes simulates: "inv s \<Longrightarrow> step s t \<Longrightarrow> astep (abs s) (abs t)"
begin

lemma simulates_steps: "step\<^sup>*\<^sup>* s t \<Longrightarrow> inv s \<Longrightarrow> astep\<^sup>*\<^sup>* (abs s) (abs t)"
  by (induction rule: rtranclp_induct) (auto intro: rtranclp.rtrancl_into_rtrancl simulates inv_steps)

lemma simulates_reachable: "init s \<Longrightarrow> step\<^sup>*\<^sup>* s t \<Longrightarrow> astep\<^sup>*\<^sup>* (abs s) (abs t)"
  using simulates_steps inv_init by blast

end

interpretation lifecycle: refines platform_init platform_step platform_inv "\<lambda>p. phase (pf_bank p)" spec_step
proof
  show "platform_inv p" if "platform_init p" for p
    using that by (simp add: platform_init_def platform_inv_def unique_by_def ratings_ok_def)
  show "platform_inv p'" if inv: "platform_inv p" and step: "platform_step p p'" for p p'
  proof -
    obtain new where "table_moves new (pf_challenges p) (pf_challenges p')" "unique_by ch_id (pf_challenges p')"
      using step_moves [OF step inv] by blast
    then show ?thesis
      using table_moves_ok step_ratings [OF step] inv unfolding platform_inv_def by blast
  qed
  show "spec_step (phase (pf_bank p)) (phase (pf_bank p'))" if "platform_inv p" "platform_step p p'" for p p'
    using step_moves [OF that(2,1)] table_moves_phase by blast
qed

section \<open>Properties\<close>



definition open_status :: "challenge \<Rightarrow> bool" where
  "open_status c \<longleftrightarrow> ch_status c \<in> {CPendingDeposit, CActive, CCancelled, CRefunded}"

lemma moves_open: "row_moves c c' \<Longrightarrow> open_status c \<Longrightarrow> open_status c'"
  by (auto simp: row_moves_def open_status_def performed_def lifecycle_def)

interpretation open_challenges: transition_system platform_init platform_step
  "\<lambda>p. platform_inv p \<and> (\<forall>c \<in> set (pf_challenges p). open_status c)"
proof
  show "platform_inv p \<and> (\<forall>c \<in> set (pf_challenges p). open_status c)" if "platform_init p" for p
    using that lifecycle.inv_init by (simp add: platform_init_def)
  show "platform_inv q \<and> (\<forall>c \<in> set (pf_challenges q). open_status c)"
    if inv: "platform_inv p \<and> (\<forall>c \<in> set (pf_challenges p). open_status c)" and step: "platform_step p q" for p q
  proof -
    obtain new where "table_moves new (pf_challenges p) (pf_challenges q)" using step_moves step inv by blast
    moreover have "new_row c \<Longrightarrow> open_status c" for c by (simp add: new_row_def open_status_def)
    ultimately have "\<forall>c \<in> set (pf_challenges q). open_status c"
      using inv moves_open unfolding table_moves_def by fastforce
    then show ?thesis using lifecycle.inv_step inv step by blast
  qed
qed


text \<open>
  A duplicated challenge is not a draft: it awaits a deposit at once but has no memo, so that no deposit
  can be matched to it, and the deposit instructions show its id instead.
\<close>

lemma duplicate_is_no_draft:
  assumes "duplicateChallenge seed now cid uid p = (Inr c, p')"
  shows "ch_status c = CPendingDeposit \<and> ch_memo c = None \<and> ch_ends_at c = None \<and>
    (\<exists>d. getChallengeById (game (pf_bank p)) cid = Some d \<and> (0 \<le> ch_pool d \<longrightarrow> ch_pool c = ch_pool d))"
proof -
  obtain d owner where w: "with_owner p cid = Some (d, owner)" and o': "owner = uid"
    using assms by (auto simp: duplicateChallenge_def split: option.splits if_splits)
  have "usdcToStroops (stroopsToUsdc (ch_pool d)) = Inr (string_of_nat (nat (ch_pool d)))" if "0 \<le> ch_pool d"
    using that usdcToStroops_stroopsToUsdc [of "nat (ch_pool d)"] by simp
  then show ?thesis using assms w o' with_owner_found [OF w]
    by (auto simp: duplicateChallenge_def createChallenge_def Let_def split: sum.splits)
qed

section \<open>Witnesses\<close>

text \<open>The owner of a brand creates a challenge and deletes the brand, which cancels the challenge.\<close>

definition demo_platform :: platform where
  "demo_platform = \<lparr>pf_brand = demo_brand_st\<lparr>bs_bank := blank_bank blank_app\<rparr>, pf_refunds = [], pf_payments = [],
     pf_starts = (\<lambda>_. None), pf_gallery = (\<lambda>_. None), pf_reports = [], pf_ratings = []\<rparr>"

definition demo_created :: platform where
  "demo_created = demo_platform\<lparr>pf_brand := snd (post_challenge True demo_seed 0 demo_body ''u2'' None (pf_brand demo_platform))\<rparr>"

definition demo_cancelled :: platform where
  "demo_cancelled = demo_created\<lparr>pf_brand := snd (delete_brand ''b2'' 1 ''u2'' None None (pf_brand demo_created))\<rparr>"

lemma demo_table: "\<exists>c. pf_challenges demo_created = [c] \<and> ch_id c = ''c9'' \<and> ch_brand c = ''b2'' \<and> ch_status c = CPendingDeposit \<and>
    ch_deleted_at c = None \<and> bs_brands (pf_brand demo_created) = bs_brands demo_brand_st"
proof -
  define s where "s = demo_brand_st\<lparr>bs_bank := blank_bank blank_app\<rparr>"
  let ?b = "\<lparr>bw_id = ''b2'', bw_owner = ''u2'', bw_kit = demo_kit\<lparr>bk_name := ''Bolt'', bk_tagline := Some ''Go''\<rparr>,
    bw_deleted = None, bw_created = 1\<rparr>"
  have b: "getBrandById s ''b2'' = Some ?b" "getBrandMemberRole s ''b2'' ''u2'' None = Some Owner"
    by (simp_all add: s_def demo_brand_st_def getBrandMemberRole_def getBrandById_def find_row_def)
  obtain c s1 where c: "createChallenge ''c9'' 0 (request_data demo_seed demo_body None) s = (Inr c, s1)"
      "ch_id c = ''c9''" "ch_brand c = ''b2''" "ch_status c = CPendingDeposit" "table (bs_bank s1) = [c]"
    using createChallenge_row [of demo_body "''c9''" 0 demo_seed None s] demo_pool
    by (auto simp: demo_body_def s_def blank_bank_def blank_app_def)
  have del: "ch_deleted_at c = None" "bs_brands s1 = bs_brands demo_brand_st"
    using c(1) by (auto simp: createChallenge_def Let_def s_def split: sum.splits)
  let ?qs = "generateChallengeQuestions (\<lambda>_ _. 0) ''c9'' (bw_kit ?b) (getActiveDistractorBrands s1 ''b2'')"
  obtain q s' where q: "insertChallengeQuestions string_of_nat ?qs s1 = (q, s')" by fastforce
  have "snd (post_challenge True demo_seed 0 demo_body ''u2'' None s) = s'"
    using c(1,2) q b demo_pool demo_ends
    by (cases q) (simp_all add: post_challenge_def with_role_def assertBrandRole_def hasRequiredBrandRole_def given_def demo_body_def demo_seed_def)
  then have "pf_brand demo_created = s'" by (simp add: demo_created_def demo_platform_def s_def)
  then show ?thesis using insertChallengeQuestions_frame [OF q] c del by (auto simp: pf_bank_def)
qed

lemma demo_steps: "platform_init demo_platform" "platform_step demo_platform demo_created" "platform_step demo_created demo_cancelled"
proof -
  show "platform_init demo_platform"
    by (simp add: platform_init_def demo_platform_def pf_bank_def blank_bank_def blank_app_def)
  obtain c where c: "pf_challenges demo_created = [c]" using demo_table by blast
  show "platform_step demo_platform demo_created"
    using c platform_step.brand [OF brand_step.challenge [of "''u2''" None None "pf_brand demo_platform" True demo_seed 0 demo_body]]
    by (simp add: demo_created_def pf_bank_def unique_by_def)
  have "pf_challenges demo_cancelled = update_where
      (\<lambda>c. ch_brand c = ''b2'' \<and> ch_status c \<in> {CPendingDeposit, CActive} \<and> ch_deleted_at c = None) (\<lambda>c. c\<lparr>ch_status := CCancelled\<rparr>)
      (pf_challenges demo_created)"
    using demo_table
    by (auto simp: demo_cancelled_def delete_brand_def deleteBrand_def getBrandMemberRole_def getBrandById_def demo_brand_st_def Let_def pf_bank_def)
  then have "unique_by ch_id (pf_challenges demo_cancelled)" using c by (simp add: update_where_def unique_by_def)
  then show "platform_step demo_created demo_cancelled"
    using platform_step.brand [OF brand_step.delete [of "''u2''" None None "pf_brand demo_created" "''b2''" 1]]
    by (simp add: demo_cancelled_def pf_bank_def)
qed

lemma demo_reach: "platform_step\<^sup>*\<^sup>* demo_platform demo_created"
  using demo_steps(2) by (rule r_into_rtranclp)




end
