(* ===== verification/Lobby.thy ===== *)
theory Lobby
  imports Challenges
begin

text \<open>
  The lists of challenges (\<open>db/queries/challenges.ts\<close>, \<open>routes/challenges.ts\<close>): the lobby in its four orders, the
  list by id, the filtered list and the list of a brand, each with its cursor. The lobby and the list by id
  satisfy the laws of a paged query; the filtered list compares its cursor with another order than its
  own. Timestamps are whole milliseconds, as in the cursors.
\<close>

section \<open>Orders\<close>

text \<open>Ids in ascending or descending order.\<close>

datatype id_order = Up string | Down string

instantiation id_order :: linorder
begin

definition less_eq_id_order :: "id_order \<Rightarrow> id_order \<Rightarrow> bool" where
  "less_eq_id_order x y =
     (case (x, y) of (Up a, Up b) \<Rightarrow> a \<le> b | (Down a, Down b) \<Rightarrow> b \<le> a | (Up _, Down _) \<Rightarrow> True | (Down _, Up _) \<Rightarrow> False)"

definition less_id_order :: "id_order \<Rightarrow> id_order \<Rightarrow> bool" where
  "less_id_order x y =
     (case (x, y) of (Up a, Up b) \<Rightarrow> a < b | (Down a, Down b) \<Rightarrow> b < a | (Up _, Down _) \<Rightarrow> True | (Down _, Up _) \<Rightarrow> False)"

instance
  by standard (auto simp: less_eq_id_order_def less_id_order_def split: id_order.splits)

end

lemma id_order_less [simp]: "Up a < Up b \<longleftrightarrow> a < b" "Down a < Down b \<longleftrightarrow> b < a"
  by (simp_all add: less_id_order_def)

datatype lobby_sort = PoolDesc | PoolAsc | Newest | EndingSoon

text \<open>\<open>ORDER BY\<close> of the four modes.\<close>

definition lobby_key :: "lobby_sort \<Rightarrow> challenge \<Rightarrow> (bool \<times> int) \<times> id_order" where
  "lobby_key srt c =
     (case srt of
        PoolDesc \<Rightarrow> ((False, - ch_pool c), Down (ch_id c))
      | PoolAsc \<Rightarrow> ((False, ch_pool c), Up (ch_id c))
      | Newest \<Rightarrow> ((False, - ch_created c), Down (ch_id c))
      | EndingSoon \<Rightarrow> (nulls_last (ch_ends_at c), Up (ch_id c)))"

section \<open>Statements\<close>

text \<open>Active challenges of brands that are not deleted.\<close>

definition active_rows :: "platform \<Rightarrow> challenge list" where
  "active_rows p = filter (\<lambda>c. ch_status c = CActive \<and> ch_deleted_at c = None \<and> getBrandById (pf_brand p) (ch_brand c) \<noteq> None) (pf_challenges p)"

record lobby_cursor =
  lc_primary :: "int option"
  lc_id :: string

definition lobby_column :: "lobby_sort \<Rightarrow> challenge \<Rightarrow> int option" where
  "lobby_column srt c =
     (case srt of PoolDesc \<Rightarrow> Some (ch_pool c) | PoolAsc \<Rightarrow> Some (ch_pool c) | Newest \<Rightarrow> Some (ch_created c) | EndingSoon \<Rightarrow> ch_ends_at c)"

definition descending :: "lobby_sort \<Rightarrow> bool" where
  "descending srt \<longleftrightarrow> srt \<in> {PoolDesc, Newest}"

text \<open>The condition of the cursor; a comparison with null does not hold.\<close>

definition after_lobby :: "lobby_sort \<Rightarrow> lobby_cursor \<Rightarrow> challenge \<Rightarrow> bool" where
  "after_lobby srt k c =
     (let lt = (\<lambda>x y. if descending srt then x < y else y < (x :: int));
          ltid = (if descending srt then ch_id c < lc_id k else lc_id k < ch_id c)
      in case (lobby_column srt c, lc_primary k) of
           (Some x, Some v) \<Rightarrow> lt x v \<or> (x = v \<and> ltid)
         | (None, None) \<Rightarrow> srt = EndingSoon \<and> ltid
         | _ \<Rightarrow> False)"

definition getActiveChallengesSorted ::
  "lobby_sort \<Rightarrow> platform \<Rightarrow> nat \<Rightarrow> lobby_cursor option \<Rightarrow> challenge list \<times> lobby_cursor option" where
  "getActiveChallengesSorted srt p limit cursor =
     (let cond = (case cursor of None \<Rightarrow> (\<lambda>_. True) | Some k \<Rightarrow> after_lobby srt k);
          rows = take (limit + 1) (sort_key (lobby_key srt) (filter cond (active_rows p)));
          items = take limit rows
      in (items, if limit < length rows \<and> items \<noteq> []
                 then Some \<lparr>lc_primary = lobby_column srt (last items), lc_id = ch_id (last items)\<rparr> else None))"

definition get_active :: "lobby_sort option \<Rightarrow> nat \<Rightarrow> lobby_cursor option \<Rightarrow> platform \<Rightarrow> exn + challenge list \<times> lobby_cursor option" where
  "get_active srt rawLimit cursor p =
     (if rawLimit < 1 \<or> 100 < rawLimit then Inl (createError ''Invalid query parameters'' 400 (Some ''INVALID_QUERY''))
      else Inr (getActiveChallengesSorted (case srt of Some x \<Rightarrow> x | None \<Rightarrow> PoolDesc) p (min rawLimit 50) cursor))"

definition getActiveChallengesCursor :: "platform \<Rightarrow> nat \<Rightarrow> string option \<Rightarrow> challenge list \<times> string option" where
  "getActiveChallengesCursor p limit cursor =
     (let cond = (case cursor of None \<Rightarrow> (\<lambda>_. True) | Some k \<Rightarrow> (\<lambda>c. k < ch_id c));
          rows = take (limit + 1) (sort_key ch_id (filter cond (active_rows p)));
          items = take limit rows
      in (items, if limit < length rows then (if items \<noteq> [] then Some (ch_id (last items)) else None) else None))"

record challenge_filter =
  cf_status :: "string option"
  cf_minPool :: "rat option"
  cf_endBefore :: "int option"
  cf_tagged :: "string \<Rightarrow> bool"

definition status_filter :: "string option \<Rightarrow> challenge_status \<Rightarrow> bool" where
  "status_filter f st =
     (if f = Some ''active'' then st = CActive
      else if f = Some ''upcoming'' then st = CPendingDeposit
      else if f = Some ''ended'' then st \<in> {CEnded, CSettled, CPayoutFailed, CCancelled, CRefunded}
      else st \<noteq> CDraft)"

definition matches_filter :: "challenge_filter \<Rightarrow> challenge \<Rightarrow> bool" where
  "matches_filter f c \<longleftrightarrow> status_filter (cf_status f) (ch_status c) \<and>
     (case cf_minPool f of None \<Rightarrow> True | Some x \<Rightarrow> \<lfloor>nmult x 10000000 + 1 / 2\<rfloor> \<le> ch_pool c) \<and>
     (case cf_endBefore f of None \<Rightarrow> True | Some t \<Rightarrow> (case ch_ends_at c of None \<Rightarrow> False | Some e \<Rightarrow> e < t)) \<and>
     cf_tagged f (ch_id c)"

text \<open>The cursor asks for greater ids, the order is by pool and id, both descending.\<close>

definition getFilteredChallenges :: "challenge_filter \<Rightarrow> platform \<Rightarrow> nat \<Rightarrow> string option \<Rightarrow> challenge list \<times> string option" where
  "getFilteredChallenges f p limit cursor =
     (let cond = (\<lambda>c. ch_deleted_at c = None \<and> getBrandById (pf_brand p) (ch_brand c) \<noteq> None \<and> matches_filter f c \<and>
                      (case cursor of None \<Rightarrow> True | Some k \<Rightarrow> k < ch_id c));
          rows = take (limit + 1) (sort_key (lobby_key PoolDesc) (filter cond (pf_challenges p)));
          items = take limit rows
      in (items, if limit < length rows \<and> items \<noteq> [] then Some (ch_id (last items)) else None))"

text \<open>\<open>buildCursorWhereSimple\<close> writes the column \<open>id\<close> without its table, which is ambiguous in the join with
  the brands: with a cursor the statement fails.\<close>

definition getChallengesByBrandId ::
  "string \<Rightarrow> platform \<Rightarrow> nat \<Rightarrow> lobby_cursor option \<Rightarrow> exn + challenge list \<times> lobby_cursor option" where
  "getChallengesByBrandId bid p limit cursor =
     (if cursor \<noteq> None then Inl ((js_error ''column reference id is ambiguous'')\<lparr>err_code := Some ''42702''\<rparr>)
      else
        let rows = take limit (sort_key (lobby_key Newest)
              (filter (\<lambda>c. ch_brand c = bid \<and> ch_deleted_at c = None \<and> (\<exists>b \<in> set (bs_brands (pf_brand p)). bw_id b = bid)) (pf_challenges p)))
        in Inr (rows, if length rows = limit \<and> rows \<noteq> []
                      then Some \<lparr>lc_primary = Some (ch_created (last rows)), lc_id = ch_id (last rows)\<rparr> else None))"

section \<open>Paging\<close>

definition lobby_pos :: "lobby_sort \<Rightarrow> lobby_cursor \<Rightarrow> (bool \<times> int) \<times> id_order" where
  "lobby_pos srt k =
     (nulls_last (if descending srt then map_option uminus (lc_primary k) else lc_primary k),
      if descending srt then Down (lc_id k) else Up (lc_id k))"

definition lobby_wf :: "lobby_sort \<Rightarrow> platform \<Rightarrow> bool" where
  "lobby_wf srt p \<longleftrightarrow> unique_by ch_id (pf_challenges p) \<and> (srt = EndingSoon \<longrightarrow> (\<forall>c \<in> set (active_rows p). ch_ends_at c \<noteq> None))"

lemma sort_key_Nil [simp]: "sort_key k xs = [] \<longleftrightarrow> xs = []"
  by (metis length_0_conv length_sort)

lemma lobby_key_pos: "lobby_key srt c = lobby_pos srt \<lparr>lc_primary = lobby_column srt c, lc_id = ch_id c\<rparr>"
  by (cases srt) (simp_all add: lobby_key_def lobby_pos_def lobby_column_def descending_def nulls_last_def)

lemma after_lobby_key:
  assumes "lobby_column srt c \<noteq> None" and "lc_primary k \<noteq> None"
  shows "after_lobby srt k c \<longleftrightarrow> lobby_pos srt k < lobby_key srt c"
proof -
  obtain x v where x: "lobby_column srt c = Some x" "lc_primary k = Some v" using assms by blast
  then show ?thesis unfolding lobby_key_pos
    by (auto simp: after_lobby_def lobby_pos_def descending_def nulls_last_def less_prod_def)
qed

lemma distinct_active: "unique_by ch_id (pf_challenges p) \<Longrightarrow> distinct (map ch_id (active_rows p))"
  unfolding active_rows_def unique_by_def by (rule distinct_map_filter)

lemma lobby_key_id: "lobby_key srt c = lobby_key srt d \<Longrightarrow> ch_id c = ch_id d"
  by (cases srt) (simp_all add: lobby_key_def)

interpretation lobby: keyset_probe "lobby_key srt" "lobby_pos srt" active_rows "getActiveChallengesSorted srt" "lobby_wf srt" for srt
proof unfold_locales
  fix p :: platform and n :: nat and r :: challenge and c :: lobby_cursor and oc :: "lobby_cursor option"
  show "fst (getActiveChallengesSorted srt p n None) = take n (sort_key (lobby_key srt) (active_rows p))"
    by (simp add: getActiveChallengesSorted_def Let_def min_def)
  show "if n < length (fst (getActiveChallengesSorted srt p (Suc n) oc))
      then \<exists>k. snd (getActiveChallengesSorted srt p n oc) = Some k \<and>
        lobby_pos srt k = lobby_key srt (last (fst (getActiveChallengesSorted srt p n oc)))
      else snd (getActiveChallengesSorted srt p n oc) = None" if "0 < n"
    using that by (auto simp: getActiveChallengesSorted_def Let_def min_def lobby_key_pos [symmetric])
  assume wf: "lobby_wf srt p"
  show "distinct (map (lobby_key srt) (active_rows p))"
  proof -
    have d: "distinct (map ch_id (active_rows p))" using distinct_active [of p] wf by (simp add: lobby_wf_def)
    show ?thesis unfolding distinct_map
    proof
      show "distinct (active_rows p)" using d by (simp add: distinct_map)
      show "inj_on (lobby_key srt) (set (active_rows p))"
        using d lobby_key_id by (metis distinct_map inj_onD inj_onI)
    qed
  qed
  assume r: "r \<in> set (active_rows p)" and c: "lobby_pos srt c = lobby_key srt r"
  have col: "lobby_column srt d \<noteq> None" if "d \<in> set (active_rows p)" for d
    using that wf by (cases srt) (auto simp: lobby_column_def lobby_wf_def)
  have "lc_primary c \<noteq> None" using c col [OF r] unfolding lobby_key_pos
    by (auto simp: lobby_pos_def nulls_last_def descending_def split: option.splits if_splits)
  then have "filter (after_lobby srt c) (active_rows p) = filter (\<lambda>d. lobby_pos srt c < lobby_key srt d) (active_rows p)"
    using after_lobby_key col by (intro filter_cong) auto
  then show "fst (getActiveChallengesSorted srt p n (Some c)) =
      take n (filter (\<lambda>d. lobby_pos srt c < lobby_key srt d) (sort_key (lobby_key srt) (active_rows p)))"
    by (simp add: getActiveChallengesSorted_def Let_def min_def filter_sort)
qed

interpretation by_id: keyset_probe ch_id "\<lambda>k. k" active_rows getActiveChallengesCursor "\<lambda>p. unique_by ch_id (pf_challenges p)"
proof unfold_locales
  fix p :: platform and n :: nat and r :: challenge and c :: string and oc :: "string option"
  show "fst (getActiveChallengesCursor p n None) = take n (sort_key ch_id (active_rows p))"
    by (simp add: getActiveChallengesCursor_def Let_def min_def)
  show "if n < length (fst (getActiveChallengesCursor p (Suc n) oc))
      then \<exists>k. snd (getActiveChallengesCursor p n oc) = Some k \<and> k = ch_id (last (fst (getActiveChallengesCursor p n oc)))
      else snd (getActiveChallengesCursor p n oc) = None" if "0 < n"
    using that by (auto simp: getActiveChallengesCursor_def Let_def min_def)
  show "fst (getActiveChallengesCursor p n (Some c)) = take n (filter (\<lambda>d. c < ch_id d) (sort_key ch_id (active_rows p)))"
    by (simp add: getActiveChallengesCursor_def Let_def min_def filter_sort)
qed (rule distinct_active)

section \<open>Properties\<close>

text \<open>All pages from a cursor on, as a client that follows the cursors sees them.\<close>

primrec lobby_pages :: "nat \<Rightarrow> lobby_sort \<Rightarrow> nat \<Rightarrow> lobby_cursor option \<Rightarrow> platform \<Rightarrow> challenge list option" where
  "lobby_pages 0 srt limit cursor p = None"
| "lobby_pages (Suc fuel) srt limit cursor p =
     (case getActiveChallengesSorted srt p limit cursor of
        (items, None) \<Rightarrow> Some items
      | (items, Some k) \<Rightarrow> map_option (append items) (lobby_pages fuel srt limit (Some k) p))"

lemma lobby_pages_follow: "lobby_pages fuel srt limit cursor p = lobby.follow srt fuel p limit cursor"
  by (induction fuel arbitrary: cursor) (simp_all split: option.splits prod.splits)


text \<open>The list by id is complete as well.\<close>

lemma by_id_page:
  assumes "unique_by ch_id (pf_challenges p)" and "sort_key ch_id (active_rows p) = pre @ suf" and "pre \<noteq> []" and "0 < limit"
  shows "fst (getActiveChallengesCursor p limit (Some (ch_id (last pre)))) = take limit suf"
  using by_id.fetch_suffix [OF assms(1,2), of "Some (ch_id (last pre))"] assms(3) by (simp add: by_id.at_end_def)

text \<open>In the order by end, a challenge without an end is lost once a page ends at one that has an end.\<close>

lemma open_end_lost:
  assumes "lc_primary k = Some t" and "ch_ends_at c = None"
  shows "c \<notin> set (fst (getActiveChallengesSorted EndingSoon p limit (Some k)))"
proof -
  have "\<not> after_lobby EndingSoon k c" using assms by (simp add: after_lobby_def lobby_column_def)
  then show ?thesis by (auto simp: getActiveChallengesSorted_def Let_def dest!: in_set_takeD)
qed

text \<open>The second page of the filtered list misses every challenge with a smaller id than the cursor's.\<close>

lemma filtered_lost:
  assumes "\<not> k < ch_id c"
  shows "c \<notin> set (fst (getFilteredChallenges f p limit (Some k)))"
  using assms by (auto simp: getFilteredChallenges_def Let_def dest!: in_set_takeD)

definition demo_open :: "string \<Rightarrow> int \<Rightarrow> challenge" where
  "demo_open cid n = \<lparr>ch_id = cid, ch_brand = ''b1'', ch_memo = None, ch_pool = n, ch_status = CActive, ch_batched = False,
     ch_deposit_tx = None, ch_confirmations = 0, ch_payout_tx = None, ch_ends_at = None, ch_deleted_at = None, ch_created = 0\<rparr>"

definition demo_lobby :: platform where
  "demo_lobby = set_bank (set_challenges (\<lambda>_. [demo_open ''c'' 5, demo_open ''a'' 9, demo_open ''b'' 5]) (blank_bank blank_app)) demo_platform"

lemma demo_active: "active_rows demo_lobby = [demo_open ''c'' 5, demo_open ''a'' 9, demo_open ''b'' 5]"
  by (simp add: active_rows_def demo_lobby_def demo_platform_def demo_open_def pf_bank_def set_bank_def getBrandById_def demo_brand_st_def)


end
