(* ===== verification/Invites.thy ===== *)
theory Invites
  imports Lobby
begin

text \<open>
  Invite codes and the waitlist (\<open>db/queries/invite-codes.ts\<close>, \<open>routes/waitlist.ts\<close>, the invite-code routes of
  \<open>routes/brands.ts\<close>, \<open>queues/challenge-reminder.queue.ts\<close>): an owner issues codes with an expiry and a number of uses,
  a user on the waitlist redeems one, and the list of codes is paged. The state extends that of the brands, whose
  \<open>bs_emails\<close> gives the email of a user. Whether the statement on the table of reminders succeeds and which job
  ids the queue accepts are parameters, because both errors are swallowed. Timestamps are whole milliseconds.
\<close>

section \<open>State\<close>

record invite_code =
  ic_id :: string
  ic_brand :: string
  ic_challenge :: "string option"
  ic_code :: string
  ic_expires :: "int option"
  ic_max :: "nat option"
  ic_uses :: nat
  ic_created_by :: string
  ic_created :: int

datatype waitlist_status = WaitingList | ActiveList

record waitlist_row =
  wl_id :: string
  wl_email :: string
  wl_referral :: "string option"
  wl_status :: waitlist_status
  wl_activated :: "int option"
  wl_created :: int

record reminder_row =
  rm_challenge :: string
  rm_user :: "string option"
  rm_email :: string
  rm_lead :: int
  rm_for :: int
  rm_sent :: "int option"

record reminder_job =
  rj_id :: string
  rj_challenge :: string
  rj_user :: "string option"
  rj_email :: string
  rj_lead :: int
  rj_delay :: int

record invite_st =
  iv_brand :: brand_st
  iv_starts :: "string \<Rightarrow> int"
  iv_codes :: "invite_code list"
  iv_redemptions :: "(string \<times> string) list"
  iv_waitlist :: "waitlist_row list"
  iv_reminders :: "reminder_row list"
  iv_jobs :: "reminder_job list"

abbreviation iv_app :: "invite_st \<Rightarrow> app" where "iv_app s \<equiv> game (bs_bank (iv_brand s))"

definition iv_audit :: "string \<Rightarrow> string \<Rightarrow> string \<Rightarrow> invite_st \<Rightarrow> invite_st" where
  "iv_audit actor action key s =
     (let a = iv_app s; row = \<lparr>au_actor = actor, au_action = action, au_entity = ''waitlist'', au_key = key\<rparr>
      in s\<lparr>iv_brand := (iv_brand s)\<lparr>bs_bank := (bs_bank (iv_brand s))\<lparr>game := a\<lparr>audit_log := audit_log a @ [row]\<rparr>\<rparr>\<rparr>\<rparr>)"

section \<open>Invite codes\<close>

text \<open>Sixteen random bytes in upper-case hexadecimal.\<close>

definition invite_text :: "nat list \<Rightarrow> string" where
  "invite_text rnd = toUpperCase (concat (map (\<lambda>b. [hex_digit (b div 16), hex_digit (b mod 16)]) rnd))"

definition check_violation :: exn where
  "check_violation = (js_error ''new row violates check constraint'')\<lparr>err_code := Some ''23514''\<rparr>"

definition createInviteCode ::
  "nat list \<Rightarrow> string \<Rightarrow> int \<Rightarrow> string \<Rightarrow> string \<Rightarrow> string option \<Rightarrow> int option \<Rightarrow> nat option \<Rightarrow> invite_st \<Rightarrow>
     (exn + invite_code) \<times> invite_st" where
  "createInviteCode rnd fresh now brandId actorId challengeId expiresAt maxUses s =
     (if find_row (\<lambda>b. bw_id b = brandId \<and> bw_owner b = actorId \<and> bw_deleted b = None) (bs_brands (iv_brand s)) = None
      then (Inl (createError ''Brand not found or not owned by you'' 403 None), s)
      else if (case challengeId of None \<Rightarrow> False | Some c \<Rightarrow>
                 find_row (\<lambda>x. ch_id x = c \<and> ch_brand x = brandId \<and> ch_deleted_at x = None) (challenges (iv_app s)) = None)
      then (Inl (createError ''Challenge not found for this brand'' 404 None), s)
      else if maxUses = Some 0 then (Inl check_violation, s)
      else if find_row (\<lambda>c. ic_code c = invite_text rnd) (iv_codes s) \<noteq> None
      then (Inl ((js_error ''duplicate key value violates unique constraint'')\<lparr>err_code := Some ''23505''\<rparr>), s)
      else
        let row = \<lparr>ic_id = fresh, ic_brand = brandId, ic_challenge = challengeId, ic_code = invite_text rnd,
                   ic_expires = expiresAt, ic_max = maxUses, ic_uses = 0, ic_created_by = actorId, ic_created = now\<rparr>
        in (Inr row, s\<lparr>iv_codes := iv_codes s @ [row]\<rparr>))"

text \<open>The row a code gives access to: its brand is live, and its challenge, if any, is live and the brand's.\<close>

definition code_row :: "string \<Rightarrow> invite_st \<Rightarrow> invite_code option" where
  "code_row code s = find_row (\<lambda>c. ic_code c = code \<and>
     list_ex (\<lambda>b. bw_id b = ic_brand c \<and> bw_deleted b = None) (bs_brands (iv_brand s)) \<and>
     (case ic_challenge c of None \<Rightarrow> True | Some cid \<Rightarrow>
        list_ex (\<lambda>x. ch_id x = cid \<and> ch_deleted_at x = None \<and> ch_brand x = ic_brand c) (challenges (iv_app s)))) (iv_codes s)"

text \<open>The waitlist entry of an active account, found by the lower-cased email of the account.\<close>

definition user_email :: "invite_st \<Rightarrow> string \<Rightarrow> string option" where
  "user_email s uid = map_of (bs_emails (iv_brand s)) uid"

definition entry_of :: "(user \<Rightarrow> bool) \<Rightarrow> string \<Rightarrow> invite_st \<Rightarrow> waitlist_row option" where
  "entry_of ok uid s =
     (if list_ex (\<lambda>u. u_id u = uid \<and> ok u) (users (iv_app s))
      then (case user_email s uid of
              None \<Rightarrow> None
            | Some e \<Rightarrow> find_row (\<lambda>w. wl_email w = toLowerCase e) (iv_waitlist s))
      else None)"

definition may_redeem :: "user \<Rightarrow> bool" where
  "may_redeem u \<longleftrightarrow> u_deleted_at u = None \<and> \<not> u_suspended u \<and> u_suspended_at u = None"

definition redeemInviteCode ::
  "int \<Rightarrow> string \<Rightarrow> string \<Rightarrow> invite_st \<Rightarrow> (exn + string \<times> string option) \<times> invite_st" where
  "redeemInviteCode now userId code s =
     (case code_row code s of
        None \<Rightarrow> (Inl (createError ''Invalid invite code'' 404 (Some ''INVALID_INVITE_CODE'')), s)
      | Some invite \<Rightarrow>
          let answer = Inr (ic_brand invite, ic_challenge invite)
          in if (ic_id invite, userId) \<in> set (iv_redemptions s) then (answer, s)
             else if (case ic_expires invite of Some e \<Rightarrow> e \<le> now | None \<Rightarrow> False)
             then (Inl (createError ''Invite code has expired'' 410 (Some ''INVITE_CODE_EXPIRED'')), s)
             else if (case ic_max invite of Some m \<Rightarrow> m \<le> ic_uses invite | None \<Rightarrow> False)
             then (Inl (createError ''Invite code has no uses left'' 409 (Some ''INVITE_CODE_EXHAUSTED'')), s)
             else (case entry_of may_redeem userId s of
               None \<Rightarrow> (Inl (createError ''Join the waitlist with your account email before redeeming'' 403 (Some ''NOT_WAITLISTED'')), s)
             | Some entry \<Rightarrow>
                 (answer, iv_audit userId ''waitlist.invite_redeemed'' (wl_id entry)
                   (s\<lparr>iv_redemptions := iv_redemptions s @ [(ic_id invite, userId)],
                      iv_codes := update_where (\<lambda>c. ic_id c = ic_id invite) (\<lambda>c. c\<lparr>ic_uses := ic_uses c + 1\<rparr>) (iv_codes s),
                      iv_waitlist := update_where (\<lambda>w. wl_id w = wl_id entry)
                        (\<lambda>w. w\<lparr>wl_status := ActiveList, wl_activated := (case wl_activated w of Some t \<Rightarrow> Some t | None \<Rightarrow> Some now)\<rparr>)
                        (iv_waitlist s)\<rparr>))))"

text \<open>A page of codes, newest first; the cursor carries the creation time and the id of the last one.\<close>

definition invite_key :: "invite_code \<Rightarrow> int \<times> id_order" where
  "invite_key c = (- ic_created c, Down (ic_id c))"

definition brand_codes :: "string \<Rightarrow> invite_st \<Rightarrow> invite_code list" where
  "brand_codes bid s = filter (\<lambda>c. ic_brand c = bid) (iv_codes s)"

definition before_cursor :: "int \<times> string \<Rightarrow> invite_code \<Rightarrow> bool" where
  "before_cursor k c \<longleftrightarrow> ic_created c < fst k \<or> (ic_created c = fst k \<and> ic_id c < snd k)"

definition invite_page ::
  "string \<Rightarrow> invite_st \<Rightarrow> nat \<Rightarrow> (int \<times> string) option \<Rightarrow> invite_code list \<times> (int \<times> string) option" where
  "invite_page bid s n cursor =
     (let rows = take (n + 1) (sort_key invite_key
            (filter (case cursor of None \<Rightarrow> \<lambda>_. True | Some k \<Rightarrow> before_cursor k) (brand_codes bid s)));
          page = take n rows
      in (page, if n < length rows then Some (ic_created (last page), ic_id (last page)) else None))"

definition listInviteCodes ::
  "string \<Rightarrow> (int \<times> string) option \<Rightarrow> invite_st \<Rightarrow> invite_code list \<times> (int \<times> string) option" where
  "listInviteCodes bid cursor s = invite_page bid s 100 cursor"

section \<open>Routes\<close>

text \<open>The routes of a brand. The format of a UUID is a parameter; \<open>cursor\<close> is the decoded cursor.\<close>

definition get_invite_codes ::
  "(string \<Rightarrow> bool) \<Rightarrow> string \<Rightarrow> string \<Rightarrow> string option \<Rightarrow> (int \<times> string) option \<Rightarrow> invite_st \<Rightarrow>
     exn + invite_code list \<times> (int \<times> string) option" where
  "get_invite_codes uuid bid uid email cursor s =
     (if \<not> uuid bid then Inl zod_error
      else case assertBrandRole (iv_brand s) bid uid email Owner of
             Inl e \<Rightarrow> Inl e
           | Inr _ \<Rightarrow> Inr (listInviteCodes bid cursor s))"

definition post_invite_code ::
  "(string \<Rightarrow> bool) \<Rightarrow> nat list \<Rightarrow> string \<Rightarrow> int \<Rightarrow> string \<Rightarrow> string \<Rightarrow> string option \<Rightarrow> int option \<Rightarrow> nat option \<Rightarrow> invite_st \<Rightarrow>
     (exn + invite_code) \<times> invite_st" where
  "post_invite_code uuid rnd fresh now bid uid challengeId expiresAt maxUses s =
     (if \<not> uuid bid \<or> (case challengeId of Some c \<Rightarrow> \<not> uuid c | None \<Rightarrow> False) \<or>
         (case expiresAt of Some e \<Rightarrow> e \<le> now | None \<Rightarrow> False) \<or>
         (case maxUses of Some m \<Rightarrow> m < 1 \<or> 100000 < m | None \<Rightarrow> False)
      then (Inl zod_error, s)
      else createInviteCode rnd fresh now bid uid challengeId expiresAt maxUses s)"

definition alnum32 :: "string \<Rightarrow> bool" where
  "alnum32 c \<longleftrightarrow> length c = 32 \<and> list_all is_alnum c"

definition post_redeem_code :: "int \<Rightarrow> request \<Rightarrow> string \<Rightarrow> invite_st \<Rightarrow> (exn + string \<times> string option) \<times> invite_st" where
  "post_redeem_code now req code s =
     (case fst (requireActiveUser req (iv_app s)) of
        Inl e \<Rightarrow> (Inl e, s)
      | Inr _ \<Rightarrow>
          if \<not> alnum32 (trim code) then (Inl zod_error, s)
          else redeemInviteCode now (case rq_user req of Some u \<Rightarrow> u | None \<Rightarrow> []) (toUpperCase (trim code)) s)"

definition get_access :: "string \<Rightarrow> invite_st \<Rightarrow> string" where
  "get_access uid s =
     (case entry_of (\<lambda>u. u_deleted_at u = None) uid s of
        Some w \<Rightarrow> (case wl_status w of WaitingList \<Rightarrow> ''waiting'' | ActiveList \<Rightarrow> ''active'')
      | None \<Rightarrow> ''not_enrolled'')"

section \<open>Waitlist\<close>

definition reminder_id :: "string \<Rightarrow> string option \<Rightarrow> string \<Rightarrow> int \<Rightarrow> string" where
  "reminder_id cid uid email lead =
     ''reminder:'' @ cid @ '':'' @ (case given uid of Some u \<Rightarrow> u | None \<Rightarrow> email) @ '':'' @ string_of_int lead"

text \<open>A job whose id the queue holds already is not added.\<close>

definition scheduleChallengeReminder ::
  "(string \<Rightarrow> bool) \<Rightarrow> int \<Rightarrow> string \<Rightarrow> string option \<Rightarrow> string \<Rightarrow> int \<Rightarrow> int \<Rightarrow> invite_st \<Rightarrow> (exn + int \<times> int) \<times> invite_st" where
  "scheduleChallengeReminder accepts now cid uid email lead startsAt s =
     (let scheduledFor = startsAt - lead * 60 * 1000; delayMs = max 0 (scheduledFor - now); jid = reminder_id cid uid email lead
      in if \<not> accepts jid then (Inl (js_error ''Custom Id cannot contain :''), s)
         else (Inr (scheduledFor, delayMs),
               if list_ex (\<lambda>j. rj_id j = jid) (iv_jobs s) then s
               else s\<lparr>iv_jobs := iv_jobs s @ [\<lparr>rj_id = jid, rj_challenge = cid, rj_user = uid, rj_email = email, rj_lead = lead,
                        rj_delay = delayMs\<rparr>]\<rparr>))"

definition upsert_reminder :: "reminder_row \<Rightarrow> reminder_row list \<Rightarrow> reminder_row list" where
  "upsert_reminder r rows =
     (let slot = (\<lambda>x. rm_challenge x = rm_challenge r \<and> rm_email x = rm_email r)
      in if find_row slot rows = None then rows @ [r]
         else update_where slot (\<lambda>x. x\<lparr>rm_lead := rm_lead r, rm_for := rm_for r, rm_sent := None\<rparr>) rows)"

definition join_waitlist :: "string \<Rightarrow> int \<Rightarrow> string \<Rightarrow> string option \<Rightarrow> invite_st \<Rightarrow> invite_st" where
  "join_waitlist fresh now email referral s =
     (if find_row (\<lambda>w. wl_email w = email) (iv_waitlist s) = None
      then s\<lparr>iv_waitlist := iv_waitlist s @ [\<lparr>wl_id = fresh, wl_email = email, wl_referral = referral, wl_status = WaitingList,
               wl_activated = None, wl_created = now\<rparr>]\<rparr>
      else s)"

text \<open>The schema; its formats of an email and of a UUID are parameters.\<close>

definition waitlist_body ::
  "(string \<Rightarrow> bool) \<Rightarrow> (string \<Rightarrow> bool) \<Rightarrow> string \<Rightarrow> string option \<Rightarrow> string option \<Rightarrow> int option \<Rightarrow> bool" where
  "waitlist_body is_email uuid rawEmail referral challengeId lead \<longleftrightarrow>
     is_email rawEmail \<and> length rawEmail \<le> 254 \<and> (case referral of Some r \<Rightarrow> length r \<le> 64 | None \<Rightarrow> True) \<and>
     (case challengeId of Some c \<Rightarrow> uuid c | None \<Rightarrow> True) \<and> (case lead of Some l \<Rightarrow> 1 \<le> l \<and> l \<le> 10080 | None \<Rightarrow> True)"

text \<open>The branch with a challenge: neither a failing statement nor a refused job is reported.\<close>

definition register_reminder ::
  "bool \<Rightarrow> (string \<Rightarrow> bool) \<Rightarrow> int \<Rightarrow> string option \<Rightarrow> string \<Rightarrow> string \<Rightarrow> int option \<Rightarrow> invite_st \<Rightarrow> (exn + int option) \<times> invite_st" where
  "register_reminder stored accepts now user email cid lead s =
     (case find_row (\<lambda>c. ch_id c = cid \<and> ch_deleted_at c = None \<and> ch_status c \<noteq> CDraft) (challenges (iv_app s)) of
        None \<Rightarrow> (Inl (createError ''Challenge not found'' 404 None), s)
      | Some c \<Rightarrow>
          if ch_status c \<in> {CCancelled, CRefunded}
          then (Inl (createError ''Cannot register reminder for cancelled challenge'' 400 None), s)
          else
            let leadTime = (case lead of Some l \<Rightarrow> l | None \<Rightarrow> 15);
                scheduledFor = iv_starts s cid - leadTime * 60 * 1000;
                s1 = (if stored then s\<lparr>iv_reminders := upsert_reminder \<lparr>rm_challenge = cid, rm_user = user, rm_email = email,
                        rm_lead = leadTime, rm_for = scheduledFor, rm_sent = None\<rparr> (iv_reminders s)\<rparr> else s)
            in (Inr (Some scheduledFor), snd (scheduleChallengeReminder accepts now cid user email leadTime (iv_starts s cid) s1)))"

definition post_waitlist ::
  "(string \<Rightarrow> bool) \<Rightarrow> (string \<Rightarrow> bool) \<Rightarrow> bool \<Rightarrow> (string \<Rightarrow> bool) \<Rightarrow> string \<Rightarrow> int \<Rightarrow> string option \<Rightarrow> string \<Rightarrow> string option \<Rightarrow>
     string option \<Rightarrow> int option \<Rightarrow> invite_st \<Rightarrow> (exn + int option) \<times> invite_st" where
  "post_waitlist is_email uuid stored accepts fresh now user rawEmail referral challengeId lead s =
     (if \<not> waitlist_body is_email uuid rawEmail referral challengeId lead
      then (Inl (createError ''Invalid email address'' 422 (Some ''INVALID_EMAIL'')), s)
      else
        let email = trim (toLowerCase rawEmail); s1 = join_waitlist fresh now email referral s
        in case given challengeId of
             None \<Rightarrow> (Inr None, s1)
           | Some cid \<Rightarrow> register_reminder stored accepts now user email cid lead s1)"

text \<open>The place in the queue: the rows that wait, by creation time and id.\<close>

definition waiting_key :: "waitlist_row \<Rightarrow> int \<times> string" where
  "waiting_key w = (wl_created w, wl_id w)"

definition get_position :: "(string \<Rightarrow> bool) \<Rightarrow> string \<Rightarrow> invite_st \<Rightarrow> exn + nat" where
  "get_position is_email rawEmail s =
     (if \<not> is_email rawEmail then Inl zod_error
      else
        let email = trim (toLowerCase rawEmail); q = sort_key waiting_key (filter (\<lambda>w. wl_status w = WaitingList) (iv_waitlist s))
        in if list_ex (\<lambda>w. wl_email w = email) q then Inr (length (takeWhile (\<lambda>w. wl_email w \<noteq> email) q) + 1)
           else Inl (createError ''Email not found on waitlist'' 404 None))"

section \<open>Capacity\<close>

text \<open>Requests in any order. The other components change brands, challenges, users and emails at will and only add
  rows to the audit log. New rows have fresh ids.\<close>

inductive invite_step :: "invite_st \<Rightarrow> invite_st \<Rightarrow> bool" where
  issue: "fresh \<notin> ic_id ` set (iv_codes s) \<union> fst ` set (iv_redemptions s) \<Longrightarrow>
     invite_step s (snd (post_invite_code uuid rnd fresh now bid uid cid expires mx s))"
| redeem: "invite_step s (snd (post_redeem_code now req code s))"
| join: "fresh \<notin> wl_id ` set (iv_waitlist s) \<Longrightarrow>
     invite_step s (snd (post_waitlist is_email uuid stored accepts fresh now user rawEmail referral cid lead s))"
| others: "set (audit_log (iv_app s)) \<subseteq> set (audit_log (game (bs_bank b))) \<Longrightarrow> invite_step s (s\<lparr>iv_brand := b\<rparr>)"

inductive_cases invite_stepE: "invite_step s s'"

definition code_ok :: "invite_st \<Rightarrow> invite_code \<Rightarrow> bool" where
  "code_ok s c \<longleftrightarrow> ic_uses c = count_where (\<lambda>r. fst r = ic_id c) (iv_redemptions s) \<and>
     (case ic_max c of Some m \<Rightarrow> ic_uses c \<le> m | None \<Rightarrow> True)"

definition admitted :: "invite_st \<Rightarrow> waitlist_row \<Rightarrow> bool" where
  "admitted s w \<longleftrightarrow> wl_activated w \<noteq> None \<and>
     (\<exists>a \<in> set (audit_log (iv_app s)). au_action a = ''waitlist.invite_redeemed'' \<and> au_key a = wl_id w)"

definition invite_inv :: "invite_st \<Rightarrow> bool" where
  "invite_inv s \<longleftrightarrow> unique_by ic_id (iv_codes s) \<and> unique_by ic_code (iv_codes s) \<and> distinct (iv_redemptions s) \<and>
     fst ` set (iv_redemptions s) \<subseteq> ic_id ` set (iv_codes s) \<and> (\<forall>c \<in> set (iv_codes s). code_ok s c) \<and>
     unique_by wl_id (iv_waitlist s) \<and> unique_by wl_email (iv_waitlist s) \<and>
     (\<forall>w \<in> set (iv_waitlist s). wl_status w = ActiveList \<longrightarrow> admitted s w)"

definition invite_init :: "invite_st \<Rightarrow> bool" where
  "invite_init s \<longleftrightarrow> iv_codes s = [] \<and> iv_redemptions s = [] \<and> iv_waitlist s = []"

lemma iv_audit_simps [simp]:
  "iv_codes (iv_audit a b c s) = iv_codes s" "iv_redemptions (iv_audit a b c s) = iv_redemptions s"
  "iv_waitlist (iv_audit a b c s) = iv_waitlist s"
  "audit_log (iv_app (iv_audit a b c s)) = audit_log (iv_app s) @ [\<lparr>au_actor = a, au_action = b, au_entity = ''waitlist'', au_key = c\<rparr>]"
  by (simp_all add: iv_audit_def Let_def)

lemma code_row_in: "code_row code s = Some c \<Longrightarrow> c \<in> set (iv_codes s) \<and> ic_code c = code"
  unfolding code_row_def by (drule find_row_Some) simp

lemma entry_of_in: "entry_of ok uid s = Some w \<Longrightarrow> w \<in> set (iv_waitlist s)"
  by (auto simp: entry_of_def dest: find_row_Some split: if_splits option.splits)

lemma redeem_cases:
  obtains e where "redeemInviteCode now uid code s = (Inl e, s)"
  | x where "redeemInviteCode now uid code s = (Inr x, s)"
  | c w where "code_row code s = Some c" "(ic_id c, uid) \<notin> set (iv_redemptions s)" "entry_of may_redeem uid s = Some w"
      "case ic_max c of Some m \<Rightarrow> ic_uses c < m | None \<Rightarrow> True"
      "redeemInviteCode now uid code s = (Inr (ic_brand c, ic_challenge c),
         iv_audit uid ''waitlist.invite_redeemed'' (wl_id w)
           (s\<lparr>iv_redemptions := iv_redemptions s @ [(ic_id c, uid)],
              iv_codes := update_where (\<lambda>x. ic_id x = ic_id c) (\<lambda>x. x\<lparr>ic_uses := ic_uses x + 1\<rparr>) (iv_codes s),
              iv_waitlist := update_where (\<lambda>x. wl_id x = wl_id w)
                (\<lambda>x. x\<lparr>wl_status := ActiveList, wl_activated := (case wl_activated x of Some t \<Rightarrow> Some t | None \<Rightarrow> Some now)\<rparr>)
                (iv_waitlist s)\<rparr>))"
proof (cases "code_row code s")
  case None
  then show ?thesis using that(1) by (simp add: redeemInviteCode_def)
next
  case (Some c)
  note cr = Some
  show ?thesis
  proof (cases "entry_of may_redeem uid s")
    case None
    then show ?thesis using that(1,2) cr
      by (cases "(ic_id c, uid) \<in> set (iv_redemptions s)")
        (fastforce simp: redeemInviteCode_def Let_def)+
  next
    case (Some w)
    consider "(ic_id c, uid) \<in> set (iv_redemptions s)"
      | "(ic_id c, uid) \<notin> set (iv_redemptions s)" "case ic_expires c of Some e \<Rightarrow> e \<le> now | None \<Rightarrow> False"
      | "(ic_id c, uid) \<notin> set (iv_redemptions s)" "\<not> (case ic_expires c of Some e \<Rightarrow> e \<le> now | None \<Rightarrow> False)"
        "case ic_max c of Some m \<Rightarrow> m \<le> ic_uses c | None \<Rightarrow> False"
      | "(ic_id c, uid) \<notin> set (iv_redemptions s)" "\<not> (case ic_expires c of Some e \<Rightarrow> e \<le> now | None \<Rightarrow> False)"
        "\<not> (case ic_max c of Some m \<Rightarrow> m \<le> ic_uses c | None \<Rightarrow> False)"
      by blast
    then show ?thesis
    proof cases
      case 4
      then have "case ic_max c of Some m \<Rightarrow> ic_uses c < m | None \<Rightarrow> True" by (auto split: option.splits)
      with 4 show ?thesis using that(3) [OF cr 4(1) Some] cr Some by (simp add: redeemInviteCode_def Let_def)
    qed (use that(1,2) cr in \<open>simp_all add: redeemInviteCode_def Let_def\<close>)
  qed
qed

lemma invite_inv_redeem: "invite_inv s \<Longrightarrow> invite_inv (snd (redeemInviteCode now uid code s))"
proof (cases rule: redeem_cases [of now uid code s])
  case (3 c w)
  assume inv: "invite_inv s"
  have c: "c \<in> set (iv_codes s)" using code_row_in 3(1) by blast
  have w: "w \<in> set (iv_waitlist s)" using entry_of_in 3(3) by blast
  have only: "x = c" if "x \<in> set (iv_codes s)" "ic_id x = ic_id c" for x
    using inv that c by (auto simp: invite_inv_def dest: unique_byD)
  define s' where "s' = snd (redeemInviteCode now uid code s)"
  have red: "iv_redemptions s' = iv_redemptions s @ [(ic_id c, uid)]"
    and codes: "iv_codes s' = update_where (\<lambda>x. ic_id x = ic_id c) (\<lambda>x. x\<lparr>ic_uses := ic_uses x + 1\<rparr>) (iv_codes s)"
    and wait: "iv_waitlist s' = update_where (\<lambda>x. wl_id x = wl_id w)
          (\<lambda>x. x\<lparr>wl_status := ActiveList, wl_activated := (case wl_activated x of Some t \<Rightarrow> Some t | None \<Rightarrow> Some now)\<rparr>) (iv_waitlist s)"
    and lg: "audit_log (iv_app s') = audit_log (iv_app s) @
          [\<lparr>au_actor = uid, au_action = ''waitlist.invite_redeemed'', au_entity = ''waitlist'', au_key = wl_id w\<rparr>]"
    using 3(5) by (simp_all add: s'_def)
  have "\<forall>x \<in> set (iv_codes s'). code_ok s' x"
  proof -
    have "code_ok s' (if ic_id x = ic_id c then x\<lparr>ic_uses := ic_uses x + 1\<rparr> else x)" if x: "x \<in> set (iv_codes s)" for x
      using inv x only [OF x] 3(4)
      by (auto simp: code_ok_def red count_where_def invite_inv_def split: option.splits)
    then show ?thesis unfolding codes ball_update_where by (metis (full_types))
  qed
  moreover have "ic_id ` set (iv_codes s') = ic_id ` set (iv_codes s)" unfolding codes by (rule image_update_where) simp
  moreover have "unique_by ic_id (iv_codes s')" "unique_by ic_code (iv_codes s')" "unique_by wl_id (iv_waitlist s')" "unique_by wl_email (iv_waitlist s')"
    using inv unfolding codes wait by (simp_all add: unique_by_update invite_inv_def)
  moreover have "\<forall>x \<in> set (iv_waitlist s'). wl_status x = ActiveList \<longrightarrow> admitted s' x"
    unfolding wait ball_update_where using inv by (auto simp: admitted_def lg invite_inv_def split: option.splits)
  ultimately have "invite_inv s'" using inv c 3(2) unfolding invite_inv_def red by simp
  then show ?thesis by (simp add: s'_def)
qed simp_all
lemma invite_inv_cong:
  assumes "invite_inv s" and "iv_codes s' = iv_codes s" and "iv_redemptions s' = iv_redemptions s" and "iv_waitlist s' = iv_waitlist s"
    and "set (audit_log (iv_app s)) \<subseteq> set (audit_log (iv_app s'))"
  shows "invite_inv s'"
proof -
  have "admitted s w \<Longrightarrow> admitted s' w" for w using assms(5) by (auto simp: admitted_def)
  then show ?thesis using assms(1-4) by (auto simp: invite_inv_def code_ok_def)
qed

lemma invite_inv_issue:
  assumes "invite_inv s" and "fresh \<notin> ic_id ` set (iv_codes s) \<union> fst ` set (iv_redemptions s)"
  shows "invite_inv (snd (createInviteCode rnd fresh now bid uid cid expires mx s))"
proof -
  have "count_where (\<lambda>r. fst r = fresh) (iv_redemptions s) = 0"
    using assms(2) by (auto simp: count_where_def filter_empty_conv)
  then show ?thesis
    using assms by (auto simp: createInviteCode_def Let_def invite_inv_def unique_by_snoc find_row_None image_iff
        code_ok_def admitted_def split: option.split)
qed

lemma schedule_keeps [simp]:
  "iv_codes (snd (scheduleChallengeReminder accepts now cid uid email lead t s)) = iv_codes s"
  "iv_redemptions (snd (scheduleChallengeReminder accepts now cid uid email lead t s)) = iv_redemptions s"
  "iv_waitlist (snd (scheduleChallengeReminder accepts now cid uid email lead t s)) = iv_waitlist s"
  "iv_brand (snd (scheduleChallengeReminder accepts now cid uid email lead t s)) = iv_brand s"
  by (simp_all add: scheduleChallengeReminder_def Let_def)

lemma invite_inv_join:
  assumes "invite_inv s" and "fresh \<notin> wl_id ` set (iv_waitlist s)"
  shows "invite_inv (join_waitlist fresh now email referral s)"
  using assms by (auto simp: join_waitlist_def invite_inv_def unique_by_snoc find_row_None image_iff code_ok_def admitted_def)

lemma register_keeps [simp]:
  "iv_codes (snd (register_reminder stored accepts now user email cid lead s)) = iv_codes s"
  "iv_redemptions (snd (register_reminder stored accepts now user email cid lead s)) = iv_redemptions s"
  "iv_waitlist (snd (register_reminder stored accepts now user email cid lead s)) = iv_waitlist s"
  "iv_brand (snd (register_reminder stored accepts now user email cid lead s)) = iv_brand s"
  by (simp_all add: register_reminder_def Let_def split: option.split)

lemma invite_inv_waitlist:
  assumes "invite_inv s" and "fresh \<notin> wl_id ` set (iv_waitlist s)"
  shows "invite_inv (snd (post_waitlist is_email uuid stored accepts fresh now user raw referral cid lead s))"
proof -
  have j: "invite_inv (join_waitlist fresh now e referral s)" for e using invite_inv_join [OF assms] .
  have "invite_inv (snd (register_reminder stored accepts now user e c lead (join_waitlist fresh now e referral s)))" for e c
    by (rule invite_inv_cong [OF j [of e]]) simp_all
  then show ?thesis using assms(1) j by (simp add: post_waitlist_def Let_def split: option.split)
qed

interpretation invites: transition_system invite_init invite_step invite_inv
proof
  fix s s'
  show "invite_init s \<Longrightarrow> invite_inv s" by (simp add: invite_init_def invite_inv_def)
  assume inv: "invite_inv s" and "invite_step s s'"
  from this(2) show "invite_inv s'"
  proof cases
    case issue
    then show ?thesis using inv invite_inv_issue by (simp add: post_invite_code_def)
  next
    case redeem
    then show ?thesis using inv invite_inv_redeem by (simp add: post_redeem_code_def split: sum.split)
  next
    case join
    then show ?thesis using inv invite_inv_waitlist by simp
  next
    case others
    then show ?thesis by (intro invite_inv_cong [OF inv]) simp_all
  qed
qed

text \<open>(C22) In every reachable state a code was used as often as it has redemptions, by different users and never more often than
  allowed; and nobody is admitted from the waitlist without a redemption in the audit log.\<close>

theorem invite_capacity:
  assumes "invite_init s0" and "invite_step\<^sup>*\<^sup>* s0 s" and "c \<in> set (iv_codes s)" and "w \<in> set (iv_waitlist s)"
  shows "let us = map snd (filter (\<lambda>r. fst r = ic_id c) (iv_redemptions s)) in
      distinct us \<and> ic_uses c = length us \<and> (case ic_max c of Some m \<Rightarrow> length us \<le> m | None \<Rightarrow> True) \<and>
      (wl_status w = ActiveList \<longrightarrow>
        (\<exists>a \<in> set (audit_log (iv_app s)). au_action a = ''waitlist.invite_redeemed'' \<and> au_key a = wl_id w))"
proof -
  have inv: "invite_inv s" using invites.inv_reachable [OF assms(1,2)] .
  then have "distinct (filter (\<lambda>r. fst r = ic_id c) (iv_redemptions s))" by (simp add: invite_inv_def)
  then have "distinct (map snd (filter (\<lambda>r. fst r = ic_id c) (iv_redemptions s)))"
    by (auto simp: distinct_map intro!: inj_onI prod_eqI)
  then show ?thesis using inv assms(3,4)
    by (auto simp: invite_inv_def code_ok_def admitted_def count_where_def Let_def split: option.splits)
qed
section \<open>Retries\<close>

lemma iv_audit_others [simp]:
  "bs_brands (iv_brand (iv_audit a b c s)) = bs_brands (iv_brand s)" "challenges (iv_app (iv_audit a b c s)) = challenges (iv_app s)"
  "users (iv_app (iv_audit a b c s)) = users (iv_app s)" "bs_emails (iv_brand (iv_audit a b c s)) = bs_emails (iv_brand s)"
  by (simp_all add: iv_audit_def Let_def)

text \<open>A retry of a successful redemption gives the same answer and changes nothing, also when the code has expired or has no
  uses left by then; and after the redemption itself the user is off the waitlist.\<close>

theorem redeem_retry:
  assumes "redeemInviteCode now uid code s = (Inr x, s')"
  shows "redeemInviteCode later uid code s' = (Inr x, s') \<and> (s' \<noteq> s \<longrightarrow> get_access uid s' = ''active'')"
proof (cases rule: redeem_cases [of now uid code s])
  case (2 y)
  then have s: "s' = s" using assms by simp
  obtain c where c: "code_row code s = Some c" using assms by (auto simp: redeemInviteCode_def split: option.splits)
  have "(ic_id c, uid) \<in> set (iv_redemptions s)"
  proof (rule ccontr)
    assume "(ic_id c, uid) \<notin> set (iv_redemptions s)"
    then have "iv_redemptions s' \<noteq> iv_redemptions s"
      using assms c by (auto simp: redeemInviteCode_def Let_def split: option.splits if_splits)
    then show False using s by simp
  qed
  then show ?thesis using assms s c by (simp add: redeemInviteCode_def Let_def)
next
  case (3 c w)
  then have x: "x = (ic_brand c, ic_challenge c)"
    and s': "s' = iv_audit uid ''waitlist.invite_redeemed'' (wl_id w)
           (s\<lparr>iv_redemptions := iv_redemptions s @ [(ic_id c, uid)],
              iv_codes := update_where (\<lambda>x. ic_id x = ic_id c) (\<lambda>x. x\<lparr>ic_uses := ic_uses x + 1\<rparr>) (iv_codes s),
              iv_waitlist := update_where (\<lambda>x. wl_id x = wl_id w)
                (\<lambda>x. x\<lparr>wl_status := ActiveList, wl_activated := (case wl_activated x of Some t \<Rightarrow> Some t | None \<Rightarrow> Some now)\<rparr>)
                (iv_waitlist s)\<rparr>)"
    using assms by auto
  have "code_row code s' = map_option (\<lambda>x. if ic_id x = ic_id c then x\<lparr>ic_uses := ic_uses x + 1\<rparr> else x) (code_row code s)"
  proof -
    have parts: "bs_brands (iv_brand s') = bs_brands (iv_brand s)" "challenges (iv_app s') = challenges (iv_app s)"
      "iv_codes s' = update_where (\<lambda>x. ic_id x = ic_id c) (\<lambda>x. x\<lparr>ic_uses := ic_uses x + 1\<rparr>) (iv_codes s)" by (simp_all add: s')
    show ?thesis unfolding code_row_def parts by (rule find_row_update_same) (simp split: option.split)
  qed
  then have "code_row code s' = Some (c\<lparr>ic_uses := ic_uses c + 1\<rparr>)" using 3(1) by simp
  moreover have "(ic_id c, uid) \<in> set (iv_redemptions s')" by (simp add: s')
  ultimately have retry: "redeemInviteCode later uid code s' = (Inr x, s')" by (simp add: redeemInviteCode_def Let_def x)
  obtain e where e: "user_email s uid = Some e" "find_row (\<lambda>w. wl_email w = toLowerCase e) (iv_waitlist s) = Some w"
      "list_ex (\<lambda>u. u_id u = uid \<and> may_redeem u) (users (iv_app s))"
    using 3(3) by (auto simp: entry_of_def split: if_splits option.splits)
  have "list_ex (\<lambda>u. u_id u = uid \<and> u_deleted_at u = None) (users (iv_app s'))"
    using e(3) by (auto simp: s' may_redeem_def list_ex_iff)
  moreover have "user_email s' uid = Some e" using e(1) by (simp add: user_email_def s')
  moreover have "find_row (\<lambda>w. wl_email w = toLowerCase e) (iv_waitlist s') = Some
      (w\<lparr>wl_status := ActiveList, wl_activated := (case wl_activated w of Some t \<Rightarrow> Some t | None \<Rightarrow> Some now)\<rparr>)"
    using e(2) by (simp add: s' find_row_update_same)
  ultimately have "get_access uid s' = ''active''" by (simp add: get_access_def entry_of_def)
  with retry show ?thesis by simp
qed (use assms in simp)

section \<open>Pages\<close>

definition invite_pos :: "int \<times> string \<Rightarrow> int \<times> id_order" where
  "invite_pos k = (- fst k, Down (snd k))"

lemma before_cursor_key: "before_cursor k c \<longleftrightarrow> invite_pos k < invite_key c"
  by (auto simp: before_cursor_def invite_pos_def invite_key_def less_prod_def')

lemma filter_sort_key: "sort_key key (filter P xs) = filter P (sort_key key xs)"
  by (simp add: filter_sort)

interpretation invite_list: keyset_probe invite_key invite_pos "brand_codes bid" "invite_page bid" "\<lambda>s. unique_by ic_id (iv_codes s)" for bid
proof
  fix s :: invite_st and n r c oc
  show "fst (invite_page bid s n None) = take n (sort_key invite_key (brand_codes bid s))"
    by (simp add: invite_page_def Let_def min_def)
  show "if n < length (fst (invite_page bid s (Suc n) oc))
      then \<exists>k. snd (invite_page bid s n oc) = Some k \<and> invite_pos k = invite_key (last (fst (invite_page bid s n oc)))
      else snd (invite_page bid s n oc) = None" if "0 < n"
    using that by (auto simp: invite_page_def Let_def min_def invite_pos_def invite_key_def)
  show "fst (invite_page bid s n (Some c)) = take n (filter (\<lambda>r'. invite_pos c < invite_key r') (sort_key invite_key (brand_codes bid s)))"
    by (simp add: invite_page_def Let_def min_def before_cursor_key [abs_def] filter_sort_key)
  assume "unique_by ic_id (iv_codes s)"
  then have d: "distinct (map ic_id (brand_codes bid s))" by (simp add: unique_by_def brand_codes_def distinct_map_filter)
  then show "distinct (map invite_key (brand_codes bid s))"
    by (auto simp: distinct_map inj_on_def invite_key_def)
qed

text \<open>Following the cursors lists every code of the brand exactly once, newest first.\<close>

lemma invite_codes_listed:
  assumes "unique_by ic_id (iv_codes s)" and "length (brand_codes bid s) \<le> 100 * fuel" and "0 < fuel"
  shows "invite_list.follow bid fuel s 100 None = Some (sort_key invite_key (brand_codes bid s))"
  using invite_list.follow_suffix [OF assms(1), where n = 100 and pre = "[]" and c = None] assms(2,3)
  by (simp add: invite_list.at_end_def)
text \<open>A queue that refuses ids with a colon and a missing table leave no trace of a reminder, although the answer
  says when it is due.\<close>

lemma reminder_lost:
  assumes "waitlist_body is_email uuid raw referral cid lead" and "given cid = Some c"
    and "find_row (\<lambda>x. ch_id x = c \<and> ch_deleted_at x = None \<and> ch_status x \<noteq> CDraft) (challenges (iv_app s)) = Some ch"
    and "ch_status ch = CActive" and "\<And>j. CHR '':'' \<in> set j \<Longrightarrow> \<not> accepts j"
  shows "post_waitlist is_email uuid False accepts fresh now user raw referral cid lead s =
    (Inr (Some (iv_starts s c - (case lead of Some l \<Rightarrow> l | None \<Rightarrow> 15) * 60 * 1000)),
     join_waitlist fresh now (trim (toLowerCase raw)) referral s)"
proof -
  have "\<not> accepts (reminder_id c u e l)" for u e l using assms(5) by (simp add: reminder_id_def)
  moreover have "iv_app (join_waitlist fresh now e referral s) = iv_app s" "iv_starts (join_waitlist fresh now e referral s) = iv_starts s"
    for e by (simp_all add: join_waitlist_def)
  ultimately show ?thesis
    using assms(1-4) by (simp add: post_waitlist_def register_reminder_def scheduleChallengeReminder_def Let_def)
qed

section \<open>Examples\<close>

text \<open>The owner issues a code with one use; the first user of the waitlist redeems it twice, the second is refused.\<close>

definition demo_invites :: invite_st where
  "demo_invites = \<lparr>iv_brand = demo_brand_st\<lparr>bs_bank := blank_bank (blank_app\<lparr>users := [new_user ''u5'', new_user ''u6'']\<rparr>),
       bs_emails := [(''u5'', ''Eve@x.org''), (''u6'', ''fay@x.org'')]\<rparr>,
     iv_starts = (\<lambda>_. 0), iv_codes = [], iv_redemptions = [], iv_waitlist = [], iv_reminders = [], iv_jobs = []\<rparr>"

definition demo_random :: "nat list" where "demo_random = replicate 16 171"

definition demo_issued :: invite_st where
  "demo_issued = snd (post_invite_code (\<lambda>_. True) demo_random ''i1'' 5 ''b1'' ''u1'' None (Some 50) (Some 1) demo_invites)"

definition demo_waiting :: invite_st where
  "demo_waiting = snd (post_waitlist (\<lambda>_. True) (\<lambda>_. True) False (\<lambda>_. False) ''w1'' 6 None ''eve@x.org'' None None None demo_issued)"

definition demo_redeemed :: invite_st where
  "demo_redeemed = snd (post_redeem_code 10 (plain_req\<lparr>rq_user := Some ''u5''\<rparr>) (invite_text demo_random) demo_waiting)"

definition demo_code :: invite_code where
  "demo_code = \<lparr>ic_id = ''i1'', ic_brand = ''b1'', ic_challenge = None, ic_code = invite_text demo_random,
     ic_expires = Some 50, ic_max = Some 1, ic_uses = 0, ic_created_by = ''u1'', ic_created = 5\<rparr>"

definition demo_entry :: waitlist_row where
  "demo_entry = \<lparr>wl_id = ''w1'', wl_email = ''eve@x.org'', wl_referral = None, wl_status = WaitingList, wl_activated = None, wl_created = 6\<rparr>"

lemma demo_issued_eq: "demo_issued = demo_invites\<lparr>iv_codes := [demo_code]\<rparr>"
  by (simp add: demo_issued_def post_invite_code_def createInviteCode_def demo_invites_def demo_brand_st_def Let_def demo_code_def)

lemma demo_waiting_eq: "demo_waiting = demo_invites\<lparr>iv_codes := [demo_code], iv_waitlist := [demo_entry]\<rparr>"
proof -
  have "trim (toLowerCase ''eve@x.org'') = ''eve@x.org''" "waitlist_body (\<lambda>_. True) (\<lambda>_. True) ''eve@x.org'' None None None" by code_simp+
  then show ?thesis
    by (simp add: demo_waiting_def demo_issued_eq post_waitlist_def given_def Let_def join_waitlist_def demo_invites_def demo_entry_def)
qed

lemma demo_redeem:
  "redeemInviteCode 10 ''u5'' (invite_text demo_random) demo_waiting = (Inr (''b1'', None), demo_redeemed)"
  "iv_codes demo_redeemed = [demo_code\<lparr>ic_uses := 1\<rparr>]" "iv_redemptions demo_redeemed = [(''i1'', ''u5'')]"
  "iv_waitlist demo_redeemed = [demo_entry\<lparr>wl_status := ActiveList, wl_activated := Some 10\<rparr>]"
  "bs_brands (iv_brand demo_redeemed) = bs_brands demo_brand_st"
proof -
  have t: "toUpperCase (trim (invite_text demo_random)) = invite_text demo_random" "alnum32 (trim (invite_text demo_random))"
    "toLowerCase ''Eve@x.org'' = ''eve@x.org''" by code_simp+
  have row: "code_row (invite_text demo_random) demo_waiting = Some demo_code"
    by (simp add: code_row_def demo_waiting_eq demo_code_def demo_invites_def demo_brand_st_def)
  have entry: "entry_of may_redeem ''u5'' demo_waiting = Some demo_entry"
    by (simp add: entry_of_def demo_waiting_eq demo_entry_def demo_invites_def user_email_def may_redeem_def new_user_def blank_bank_def t)
  have run: "redeemInviteCode 10 ''u5'' (invite_text demo_random) demo_waiting = (Inr (''b1'', None),
      iv_audit ''u5'' ''waitlist.invite_redeemed'' ''w1'' (demo_waiting\<lparr>iv_redemptions := [(''i1'', ''u5'')], iv_codes := [demo_code\<lparr>ic_uses := 1\<rparr>],
        iv_waitlist := [demo_entry\<lparr>wl_status := ActiveList, wl_activated := Some 10\<rparr>]\<rparr>))"
    using row entry
    by (simp add: redeemInviteCode_def Let_def demo_waiting_eq demo_code_def demo_entry_def demo_invites_def update_where_def)
  have "fst (requireActiveUser (plain_req\<lparr>rq_user := Some ''u5''\<rparr>) (iv_app demo_waiting)) = Inr ()"
    by (simp add: requireActiveUser_def plain_req_def given_def demo_waiting_eq demo_invites_def findUserById_def new_user_def blank_bank_def)
  then have eq: "demo_redeemed = snd (redeemInviteCode 10 ''u5'' (invite_text demo_random) demo_waiting)"
    unfolding demo_redeemed_def post_redeem_code_def by (simp add: t)
  show "redeemInviteCode 10 ''u5'' (invite_text demo_random) demo_waiting = (Inr (''b1'', None), demo_redeemed)"
    "iv_codes demo_redeemed = [demo_code\<lparr>ic_uses := 1\<rparr>]" "iv_redemptions demo_redeemed = [(''i1'', ''u5'')]"
    "iv_waitlist demo_redeemed = [demo_entry\<lparr>wl_status := ActiveList, wl_activated := Some 10\<rparr>]"
    "bs_brands (iv_brand demo_redeemed) = bs_brands demo_brand_st"
    unfolding eq run by (simp_all add: demo_waiting_eq demo_invites_def)
qed

lemma demo_invites_reach: "invite_step\<^sup>*\<^sup>* demo_invites demo_redeemed"
proof -
  have "invite_step demo_invites demo_issued"
    unfolding demo_issued_def by (rule invite_step.issue) (simp add: demo_invites_def)
  moreover have "invite_step demo_issued demo_waiting"
    unfolding demo_waiting_def by (intro invite_step.join) (simp add: demo_issued_eq demo_invites_def)
  moreover have "invite_step demo_waiting demo_redeemed" unfolding demo_redeemed_def by (rule invite_step.redeem)
  ultimately show ?thesis by (meson converse_rtranclp_into_rtranclp rtranclp.rtrancl_refl)
qed

theorem invite_capacity_witness:
  "map ic_uses (iv_codes demo_redeemed) = [1] \<and> iv_redemptions demo_redeemed = [(''i1'', ''u5'')] \<and>
   (\<exists>a \<in> set (audit_log (iv_app demo_redeemed)). au_action a = ''waitlist.invite_redeemed'' \<and> au_key a = ''w1'')"
proof -
  have init: "invite_init demo_invites" by (simp add: invite_init_def demo_invites_def)
  show ?thesis
    using invite_capacity [OF init demo_invites_reach, of "demo_code\<lparr>ic_uses := 1\<rparr>" "demo_entry\<lparr>wl_status := ActiveList, wl_activated := Some 10\<rparr>"]
    by (simp add: demo_redeem(2-4) Let_def demo_entry_def)
qed

theorem redeem_retry_witness:
  "redeemInviteCode 99 ''u5'' (invite_text demo_random) demo_redeemed = (Inr (''b1'', None), demo_redeemed) \<and>
   get_access ''u5'' demo_redeemed = ''active'' \<and>
   redeemInviteCode 20 ''u6'' (invite_text demo_random) demo_redeemed =
     (Inl (createError ''Invite code has no uses left'' 409 (Some ''INVITE_CODE_EXHAUSTED'')), demo_redeemed)"
proof -
  have "iv_redemptions demo_waiting = []" by (simp add: demo_waiting_eq demo_invites_def)
  then have "demo_redeemed \<noteq> demo_waiting" using demo_redeem(3) by auto
  moreover have "code_row (invite_text demo_random) demo_redeemed = Some (demo_code\<lparr>ic_uses := 1\<rparr>)"
    by (simp add: code_row_def demo_redeem(2,5) demo_code_def demo_brand_st_def)
  then have "redeemInviteCode 20 ''u6'' (invite_text demo_random) demo_redeemed =
      (Inl (createError ''Invite code has no uses left'' 409 (Some ''INVITE_CODE_EXHAUSTED'')), demo_redeemed)"
    by (simp add: redeemInviteCode_def Let_def demo_redeem(3) demo_code_def)
  ultimately show ?thesis using redeem_retry [OF demo_redeem(1), of 99] by simp
qed

end
