(* ===== verification/Calendar.thy ===== *)
theory Calendar
  imports Tables
begin

text \<open>
  The part of the JavaScript class \<open>Date\<close> that the schedules use, in UTC, as ECMAScript defines it: day numbers since
  1970-01-01, year, month and day of a day number, weekdays, and \<open>setUTCDate\<close> and \<open>setUTCMonth\<close> with their carries.
  The week number is that of \<open>isoWeek\<close> in \<open>services/challenge-templates.ts\<close>.
\<close>

section \<open>Dates\<close>

definition ms_per_day :: int where "ms_per_day = 86400000"

definition day_of :: "int \<Rightarrow> int" where "day_of t = t div ms_per_day"

definition DayFromYear :: "int \<Rightarrow> int" where
  "DayFromYear y = 365 * (y - 1970) + (y - 1969) div 4 - (y - 1901) div 100 + (y - 1601) div 400"

text \<open>The year with \<open>DayFromYear y \<le> d < DayFromYear (y + 1)\<close>: an estimate that is off by at most one.\<close>

definition YearFromDay :: "int \<Rightarrow> int" where
  "YearFromDay d =
     (let y = 1970 + d * 400 div 146097
      in if d < DayFromYear y then y - 1 else if DayFromYear (y + 1) \<le> d then y + 1 else y)"

definition leap :: "int \<Rightarrow> bool" where
  "leap y \<longleftrightarrow> (y mod 4 = 0 \<and> y mod 100 \<noteq> 0) \<or> y mod 400 = 0"

text \<open>The day within the year on which month \<open>m\<close> (from 0) starts.\<close>

definition month_start :: "int \<Rightarrow> nat \<Rightarrow> int" where
  "month_start y m = [0, 31, 59, 90, 120, 151, 181, 212, 243, 273, 304, 334] ! m + (if leap y \<and> 1 < m then 1 else 0)"

definition getUTCFullYear :: "int \<Rightarrow> int" where "getUTCFullYear d = YearFromDay d"

text \<open>The last month that starts on or before day \<open>n\<close> of the year.\<close>

fun month_from :: "int \<Rightarrow> int \<Rightarrow> nat \<Rightarrow> nat" where
  "month_from y n 0 = 0"
| "month_from y n (Suc m) = (if month_start y (Suc m) \<le> n then Suc m else month_from y n m)"

definition getUTCMonth :: "int \<Rightarrow> nat" where
  "getUTCMonth d = (let y = YearFromDay d in month_from y (d - DayFromYear y) 11)"

definition getUTCDate :: "int \<Rightarrow> int" where
  "getUTCDate d = (let y = YearFromDay d in d - DayFromYear y - month_start y (getUTCMonth d) + 1)"

text \<open>0 is Sunday.\<close>

definition getUTCDay :: "int \<Rightarrow> int" where "getUTCDay d = (d + 4) mod 7"

text \<open>The first day of month \<open>m\<close> of year \<open>y\<close>, where a month past December carries into the year.\<close>

definition first_of_month :: "int \<Rightarrow> nat \<Rightarrow> int" where
  "first_of_month y m = (let y' = y + int m div 12 in DayFromYear y' + month_start y' (m mod 12))"

definition two_digits :: "int \<Rightarrow> string" where
  "two_digits n = padStart 2 CHR ''0'' (string_of_int n)"

definition iso_week_number :: "int \<Rightarrow> int" where
  "iso_week_number d =
     (let dayNum = (if getUTCDay d = 0 then 7 else getUTCDay d); thursday = d + 4 - dayNum
      in (thursday - DayFromYear (YearFromDay thursday)) div 7 + 1)"

section \<open>Lemmas\<close>

lemma div_bounds:
  fixes x k :: int assumes "0 < k"
  shows "k * (x div k) \<le> x" "x \<le> k * (x div k) + (k - 1)"
  using pos_mod_sign [OF assms, of x] pos_mod_bound [OF assms, of x] mult_div_mod_eq [of k x] by linarith+

lemma day_from_year_bounds:
  "400 * DayFromYear y \<le> 146097 * y - 287810490" "146097 * y - 287811690 \<le> 400 * DayFromYear y"
  using div_bounds [of 4 "y - 1969"] div_bounds [of 100 "y - 1901"] div_bounds [of 400 "y - 1601"]
  by (simp_all add: DayFromYear_def)

lemma day_from_year_mono: "y \<le> z \<Longrightarrow> DayFromYear y \<le> DayFromYear z"
proof -
  assume "y \<le> z"
  then have "(y - 1969) div 4 \<le> (z - 1969) div 4" "(y - 1601) div 400 \<le> (z - 1601) div 400"
    "(z - 1901) div 100 \<le> (y - 1901) div 100 + (z - y)" by (simp_all add: zdiv_mono1)
  then show ?thesis using \<open>y \<le> z\<close> by (simp add: DayFromYear_def)
qed

lemma year_of_day: "DayFromYear (YearFromDay d) \<le> d" "d < DayFromYear (YearFromDay d + 1)"
proof -
  define y where "y = 1970 + d * 400 div 146097"
  have e: "146097 * y - 287811090 \<le> d * 400" "d * 400 < 146097 * y - 287664993"
    using div_bounds [of 146097 "d * 400"] by (simp_all add: y_def)
  have "400 * DayFromYear (y - 1) \<le> 146097 * y - 287956587" "146097 * y - 287519496 \<le> 400 * DayFromYear (y + 2)"
    using day_from_year_bounds [of "y - 1"] day_from_year_bounds [of "y + 2"] by simp_all
  then have "DayFromYear (y - 1) \<le> d" "d < DayFromYear (y + 2)" using e by linarith+
  then show "DayFromYear (YearFromDay d) \<le> d" "d < DayFromYear (YearFromDay d + 1)"
    by (auto simp: YearFromDay_def Let_def y_def [symmetric] add.assoc)
qed

lemma year_of_day_unique:
  assumes "DayFromYear y \<le> d" and "d < DayFromYear (y + 1)"
  shows "YearFromDay d = y"
proof (rule ccontr)
  assume "YearFromDay d \<noteq> y"
  then consider "YearFromDay d + 1 \<le> y" | "y + 1 \<le> YearFromDay d" by linarith
  then show False
  proof cases
    case 1
    then show False using day_from_year_mono [OF 1] year_of_day(2) [of d] assms(1) by linarith
  next
    case 2
    then show False using day_from_year_mono [OF 2] year_of_day(1) [of d] assms(2) by linarith
  qed
qed

lemma month_from_le: "month_from y n m \<le> m"
  by (induction m) auto

lemma month_from_start: "0 \<le> n \<Longrightarrow> month_start y (month_from y n m) \<le> n"
  by (induction m) (auto simp: month_start_def)

lemma month_from_next: "month_from y n m < m \<Longrightarrow> n < month_start y (Suc (month_from y n m))"
proof (induction m)
  case (Suc m)
  then show ?case using month_from_le [of y n m] by (cases "month_from y n m = m") (auto split: if_splits)
qed simp

lemma month_lengths: "m < 11 \<Longrightarrow> month_start y (Suc m) \<le> month_start y m + 31"
proof -
  assume "m < 11"
  then have "m \<in> set [0..<11]" by simp
  then show ?thesis by (auto simp: month_start_def upt_rec)
qed

lemma year_length: "DayFromYear (y + 1) \<le> DayFromYear y + 367"
  using div_bounds [of 4 "y - 1969"] div_bounds [of 400 "y - 1601"] div_bounds [of 100 "y - 1901"]
    div_bounds [of 4 "y - 1968"] div_bounds [of 400 "y - 1600"] div_bounds [of 100 "y - 1900"]
  by (simp add: DayFromYear_def)

lemma getUTCMonth_less: "getUTCMonth d < 12"
  using month_from_le [of "YearFromDay d" "d - DayFromYear (YearFromDay d)" 11] by (simp add: getUTCMonth_def Let_def)

lemma date_parts:
  "d = DayFromYear (getUTCFullYear d) + month_start (getUTCFullYear d) (getUTCMonth d) + getUTCDate d - 1"
  by (simp add: getUTCFullYear_def getUTCDate_def Let_def)

lemma getUTCDate_bounds: "1 \<le> getUTCDate d" "getUTCDate d < 100"
proof -
  define y where "y = YearFromDay d"
  define n where "n = d - DayFromYear y"
  have n: "0 \<le> n" "n < 367" using year_of_day [of d] year_length [of y] by (simp_all add: n_def y_def)
  have date: "getUTCDate d = n - month_start y (month_from y n 11) + 1"
    by (simp add: getUTCDate_def getUTCMonth_def y_def n_def Let_def)
  show "1 \<le> getUTCDate d" using month_from_start [OF n(1)] date by simp
  show "getUTCDate d < 100"
  proof (cases "month_from y n 11 < 11")
    case True
    then show ?thesis using month_from_next [OF True] month_lengths [OF True, of y] date by simp
  next
    case False
    then have "month_from y n 11 = 11" using month_from_le [of y n 11] by simp
    then show ?thesis using date n(2) by (simp add: month_start_def)
  qed
qed

lemma two_digits_length: "0 \<le> n \<Longrightarrow> n < 100 \<Longrightarrow> length (two_digits n) = 2"
  using length_string_of_nat [of "nat n" 1] by (simp add: two_digits_def string_of_int_def nat_less_iff)

lemma two_digits_inj: "0 \<le> m \<Longrightarrow> 0 \<le> n \<Longrightarrow> two_digits m = two_digits n \<Longrightarrow> m = n"
proof -
  assume "0 \<le> m" "0 \<le> n" "two_digits m = two_digits n"
  then have "nat_of_string (padStart 2 CHR ''0'' (string_of_nat (nat m))) = nat_of_string (padStart 2 CHR ''0'' (string_of_nat (nat n)))"
    by (simp add: two_digits_def string_of_int_def)
  then have "nat m = nat n" by (simp add: nat_of_string_of_nat)
  then show "m = n" using \<open>0 \<le> m\<close> \<open>0 \<le> n\<close> by simp
qed

end
