(* ===== verification/Templates.thy ===== *)
theory Templates
  imports Lobby Calendar
begin

text \<open>
  Recurring challenges (\<open>services/challenge-templates.ts\<close>, \<open>db/queries/challenge-templates.ts\<close>, the template routes of
  \<open>routes/brands.ts\<close>, \<open>queues/processors/recurring-challenges.processor.ts\<close>): a template describes a challenge and a rule, and a
  daily sweep spawns the challenge of the next period unless it exists. The period is a text computed from the
  start date. The state extends that of the brands; \<open>ts_spawned\<close> holds the columns \<open>template_id\<close>, \<open>spawned_period\<close>
  and \<open>starts_at\<close> of the spawned challenges.
\<close>

section \<open>Periods\<close>

datatype recurrence = Daily | Weekly | Biweekly | Monthly | Custom

definition isoWeek :: "int \<Rightarrow> string" where "isoWeek d = two_digits (iso_week_number d)"

text \<open>The key of the period that starts at a time in milliseconds.\<close>

definition periodKeyForRule :: "recurrence \<Rightarrow> int \<Rightarrow> string" where
  "periodKeyForRule rule t =
     (let d = day_of t; year = string_of_int (getUTCFullYear d); month = two_digits (int (getUTCMonth d) + 1);
          ms = t mod ms_per_day
      in case rule of
           Daily \<Rightarrow> year @ ''-'' @ month @ ''-'' @ two_digits (getUTCDate d)
         | Weekly \<Rightarrow> year @ ''-W'' @ isoWeek d
         | Biweekly \<Rightarrow> year @ ''-B'' @ string_of_int ((iso_week_number d + 1) div 2)
         | Monthly \<Rightarrow> year @ ''-'' @ month
         | Custom \<Rightarrow> year @ ''-'' @ month @ ''-'' @ two_digits (getUTCDate d) @ ''T'' @
             two_digits (ms div 3600000) @ two_digits (ms div 60000 mod 60))"

definition days_until_monday :: "int \<Rightarrow> int" where
  "days_until_monday d = (if getUTCDay d = 0 then 1 else 8 - getUTCDay d)"

definition computeNextStartDate :: "recurrence \<Rightarrow> int \<Rightarrow> int" where
  "computeNextStartDate rule now =
     (let d = day_of now
      in case rule of
           Daily \<Rightarrow> (d + 1) * ms_per_day
         | Weekly \<Rightarrow> (d + days_until_monday d) * ms_per_day
         | Biweekly \<Rightarrow> (d + days_until_monday d + 7) * ms_per_day
         | Monthly \<Rightarrow> first_of_month (getUTCFullYear d) (getUTCMonth d + 1) * ms_per_day
         | Custom \<Rightarrow> now + ms_per_day)"

section \<open>State\<close>

datatype template_status = TActive | TPaused | TDeleted

record template_row =
  tp_id :: string
  tp_brand :: string
  tp_pool :: int
  tp_maxPlayers :: "nat option"
  tp_hours :: int
  tp_rule :: recurrence
  tp_cron :: "string option"
  tp_timezone :: string
  tp_status :: template_status
  tp_last :: "string option"
  tp_last_at :: "int option"
  tp_deleted :: "int option"
  tp_created :: int

record spawned_row =
  sp_challenge :: string
  sp_template :: string
  sp_period :: string
  sp_starts :: int

record template_st =
  ts_brand :: brand_st
  ts_templates :: "template_row list"
  ts_spawned :: "spawned_row list"

definition computeNextPeriodForTemplate :: "template_row \<Rightarrow> int \<Rightarrow> string \<times> int \<times> int" where
  "computeNextPeriodForTemplate t now =
     (let startsAt = computeNextStartDate (tp_rule t) now
      in (periodKeyForRule (tp_rule t) startsAt, startsAt, startsAt + tp_hours t * 60 * 60 * 1000))"

section \<open>Statements\<close>

text \<open>\<open>pool_amount_stroops\<close> is a generated column, the amount times ten million; amounts have at most seven decimals.\<close>

definition createChallengeTemplate ::
  "string \<Rightarrow> int \<Rightarrow> string \<Rightarrow> int \<Rightarrow> nat option \<Rightarrow> int \<Rightarrow> recurrence \<Rightarrow> string option \<Rightarrow> string option \<Rightarrow> template_st \<Rightarrow>
     template_row \<times> template_st" where
  "createChallengeTemplate fresh now brandId stroops maxPlayers hours rule cron zone s =
     (let row = \<lparr>tp_id = fresh, tp_brand = brandId, tp_pool = stroops, tp_maxPlayers = maxPlayers, tp_hours = hours, tp_rule = rule,
          tp_cron = (if rule = Custom then cron else None), tp_timezone = (case zone of Some z \<Rightarrow> z | None \<Rightarrow> ''UTC''), tp_status = TActive,
          tp_last = None, tp_last_at = None, tp_deleted = None, tp_created = now\<rparr>
      in (row, s\<lparr>ts_templates := ts_templates s @ [row]\<rparr>))"

definition getChallengeTemplateById :: "string \<Rightarrow> template_st \<Rightarrow> template_row option" where
  "getChallengeTemplateById i s = find_row (\<lambda>t. tp_id t = i \<and> tp_deleted t = None) (ts_templates s)"

definition getChallengeTemplatesByBrandId :: "string \<Rightarrow> bool \<Rightarrow> template_st \<Rightarrow> template_row list" where
  "getChallengeTemplatesByBrandId bid includeDeleted s =
     sort_key (\<lambda>t. - tp_created t) (filter (\<lambda>t. tp_brand t = bid \<and> (includeDeleted \<or> tp_deleted t = None)) (ts_templates s))"

definition listActiveChallengeTemplates :: "template_st \<Rightarrow> template_row list" where
  "listActiveChallengeTemplates s = filter (\<lambda>t. tp_status t = TActive \<and> tp_deleted t = None) (ts_templates s)"

text \<open>\<open>UPDATE ... SET status = ... WHERE id = $1 AND status = ... AND deleted_at IS NULL RETURNING *\<close>.\<close>

definition set_template_status ::
  "template_status \<Rightarrow> template_status \<Rightarrow> string \<Rightarrow> template_st \<Rightarrow> template_row option \<times> template_st" where
  "set_template_status old new i s =
     (let P = (\<lambda>t. tp_id t = i \<and> tp_status t = old \<and> tp_deleted t = None)
      in (map_option (\<lambda>t. t\<lparr>tp_status := new\<rparr>) (find_row P (ts_templates s)),
          s\<lparr>ts_templates := update_where P (\<lambda>t. t\<lparr>tp_status := new\<rparr>) (ts_templates s)\<rparr>))"

definition pauseChallengeTemplate :: "string \<Rightarrow> template_st \<Rightarrow> template_row option \<times> template_st" where
  "pauseChallengeTemplate = set_template_status TActive TPaused"

definition resumeChallengeTemplate :: "string \<Rightarrow> template_st \<Rightarrow> template_row option \<times> template_st" where
  "resumeChallengeTemplate = set_template_status TPaused TActive"

definition softDeleteChallengeTemplate :: "int \<Rightarrow> string \<Rightarrow> template_st \<Rightarrow> template_st" where
  "softDeleteChallengeTemplate now i s =
     s\<lparr>ts_templates := update_where (\<lambda>t. tp_id t = i \<and> tp_deleted t = None) (\<lambda>t. t\<lparr>tp_status := TDeleted, tp_deleted := Some now\<rparr>)
        (ts_templates s)\<rparr>"

definition markTemplateSpawned :: "int \<Rightarrow> string \<Rightarrow> string \<Rightarrow> template_st \<Rightarrow> template_st" where
  "markTemplateSpawned now i period s =
     s\<lparr>ts_templates := update_where (\<lambda>t. tp_id t = i) (\<lambda>t. t\<lparr>tp_last := Some period, tp_last_at := Some now\<rparr>) (ts_templates s)\<rparr>"

section \<open>Spawning\<close>

definition statement_timeout :: exn where
  "statement_timeout = (js_error ''canceling statement due to statement timeout'')\<lparr>err_code := Some ''57014''\<rparr>"

definition ends_violation :: exn where
  "ends_violation = (js_error ''new row violates check constraint challenges_ends_after_starts'')\<lparr>err_code := Some ''23514''\<rparr>"

text \<open>The insert into \<open>challenges\<close>, with the defaults of the columns it does not name.\<close>

definition insert_spawned :: "challenge_seed \<Rightarrow> int \<Rightarrow> template_row \<Rightarrow> string \<Rightarrow> int \<Rightarrow> template_st \<Rightarrow> (exn + challenge) \<times> template_st" where
  "insert_spawned seed now t period startsAt s =
     (let endsAt = startsAt + tp_hours t * 60 * 60 * 1000; b = bs_bank (ts_brand s);
          row = \<lparr>ch_id = cs_id seed, ch_brand = tp_brand t, ch_memo = Some (generateDepositMemo (cs_bytes seed)), ch_pool = tp_pool t,
            ch_status = CPendingDeposit, ch_batched = False, ch_deposit_tx = None, ch_confirmations = 0, ch_payout_tx = None,
            ch_ends_at = Some endsAt, ch_deleted_at = None, ch_created = now\<rparr>
      in if endsAt \<le> startsAt then (Inl ends_violation, s)
         else (Inr row, s\<lparr>ts_brand := (ts_brand s)\<lparr>
                   bs_bank := b\<lparr>game := (game b)\<lparr>challenges := challenges (game b) @ [row]\<rparr>,
                     challenge_license := (challenge_license b)(cs_id seed := None)\<rparr>,
                   bs_refund := (bs_refund (ts_brand s))(cs_id seed := (RFull, 10000))\<rparr>,
                 ts_spawned := ts_spawned s @ [\<lparr>sp_challenge = cs_id seed, sp_template = tp_id t, sp_period = period, sp_starts = startsAt\<rparr>]\<rparr>))"

text \<open>The transaction. When the challenge of the period exists, the template is marked over another connection while
  this one holds the lock on its row: the statement waits until its timeout and the transaction is rolled back.\<close>

definition spawn_locked ::
  "challenge_seed \<Rightarrow> int \<Rightarrow> template_row \<Rightarrow> brand_row \<Rightarrow> string \<Rightarrow> int \<Rightarrow> template_st \<Rightarrow> (exn + (challenge \<times> string) option) \<times> template_st" where
  "spawn_locked seed now t brand periodKey startsAt s =
     (if list_ex (\<lambda>r. sp_template r = tp_id t \<and> sp_period r = periodKey) (ts_spawned s) then (Inl statement_timeout, s)
      else (case insert_spawned seed now t periodKey startsAt s of
          (Inl e, _) \<Rightarrow> (Inl e, s)
        | (Inr c, s1) \<Rightarrow>
            let questions = generateChallengeQuestions (cs_rnd seed) (ch_id c) (bw_kit brand) (getActiveDistractorBrands (ts_brand s) (tp_brand t))
            in (case insertChallengeQuestions (cs_questionIds seed) questions (ts_brand s1) of
                  (Inl e, _) \<Rightarrow> (Inl e, s)
                | (Inr _, b) \<Rightarrow> (Inr (Some (c, periodKey)), markTemplateSpawned now (tp_id t) periodKey (s1\<lparr>ts_brand := b\<rparr>)))))"

definition spawnChallengeFromTemplate ::
  "challenge_seed \<Rightarrow> int \<Rightarrow> string option \<Rightarrow> int option \<Rightarrow> string \<Rightarrow> template_st \<Rightarrow> (exn + (challenge \<times> string) option) \<times> template_st" where
  "spawnChallengeFromTemplate seed now forcePeriod startsAtOverride templateId s =
     (case getChallengeTemplateById templateId s of
        None \<Rightarrow> (Inr None, s)
      | Some t \<Rightarrow>
          if tp_status t = TDeleted then (Inr None, s)
          else (case getBrandById (ts_brand s) (tp_brand t) of
             None \<Rightarrow> (Inr None, s)
           | Some brand \<Rightarrow>
               (case computeNextPeriodForTemplate t now of (key, startsAt, _) \<Rightarrow>
                  let periodKey = (case forcePeriod of Some p \<Rightarrow> p | None \<Rightarrow> key)
                  in if tp_last t = Some periodKey \<and> given forcePeriod = None then (Inr None, s)
                     else spawn_locked seed now t brand periodKey (case startsAtOverride of Some x \<Rightarrow> x | None \<Rightarrow> startsAt) s)))"

record sweep_result =
  sw_spawned :: nat
  sw_skipped :: nat
  sw_errors :: "(string \<times> string) list"

text \<open>The sweep over the templates that were active when it began; each has its own outcome.\<close>

fun sweep :: "(string \<Rightarrow> challenge_seed) \<Rightarrow> int \<Rightarrow> template_row list \<Rightarrow> sweep_result \<Rightarrow> template_st \<Rightarrow> sweep_result \<times> template_st" where
  "sweep seeds now [] acc s = (acc, s)"
| "sweep seeds now (t # ts) acc s =
     (case spawnChallengeFromTemplate (seeds (tp_id t)) now None None (tp_id t) s of
        (Inr (Some _), s1) \<Rightarrow> sweep seeds now ts (acc\<lparr>sw_spawned := sw_spawned acc + 1\<rparr>) s1
      | (Inr None, s1) \<Rightarrow> sweep seeds now ts (acc\<lparr>sw_skipped := sw_skipped acc + 1\<rparr>) s1
      | (Inl e, s1) \<Rightarrow> sweep seeds now ts (acc\<lparr>sw_errors := sw_errors acc @ [(tp_id t, err_message e)]\<rparr>) s1)"

definition spawnDueChallengesFromAllTemplates ::
  "(string \<Rightarrow> challenge_seed) \<Rightarrow> int \<Rightarrow> template_st \<Rightarrow> sweep_result \<times> template_st" where
  "spawnDueChallengesFromAllTemplates seeds now s =
     sweep seeds now (listActiveChallengeTemplates s) \<lparr>sw_spawned = 0, sw_skipped = 0, sw_errors = []\<rparr> s"

section \<open>Routes\<close>

definition with_brand_role ::
  "string \<Rightarrow> string \<Rightarrow> string option \<Rightarrow> role \<Rightarrow> (brand_row \<Rightarrow> template_st \<Rightarrow> (exn + 'a) \<times> template_st) \<Rightarrow> template_st \<Rightarrow>
     (exn + 'a) \<times> template_st" where
  "with_brand_role bid uid email minRole f s =
     (case assertBrandRole (ts_brand s) bid uid email minRole of Inl e \<Rightarrow> (Inl e, s) | Inr (b, _) \<Rightarrow> f b s)"

text \<open>The answer to an invalid body joins the messages of the schema; here one text stands for them.\<close>

definition post_template ::
  "bool \<Rightarrow> string \<Rightarrow> int \<Rightarrow> string \<Rightarrow> string \<Rightarrow> string option \<Rightarrow> string \<Rightarrow> nat option \<Rightarrow> int \<Rightarrow> recurrence \<Rightarrow> string option \<Rightarrow> string option \<Rightarrow>
     template_st \<Rightarrow> (exn + template_row) \<times> template_st" where
  "post_template tosAccepted fresh now bid uid email pool maxPlayers hours rule cron zone s =
     (if \<not> tosAccepted then (Inl (createError ''Current Terms of Service must be accepted'' 403 (Some ''TOS_NOT_ACCEPTED'')), s)
      else with_brand_role bid uid email Editor (\<lambda>b s.
        if \<not> pool_valid pool \<or> maxPlayers = Some 0 \<or> hours < 1 \<or> (rule = Custom \<and> given cron = None)
        then (Inl (createError ''Invalid template fields'' 422 (Some ''VALIDATION_ERROR'')), s)
        else case usdcToStroops pool of
          Inl e \<Rightarrow> (Inl e, s)
        | Inr stroops \<Rightarrow>
            (case createChallengeTemplate fresh now (bw_id b) (int (nat_of_string stroops)) maxPlayers hours rule cron zone s of
               (row, s1) \<Rightarrow> (Inr row, s1))) s)"

definition with_template ::
  "string \<Rightarrow> string \<Rightarrow> string option \<Rightarrow> (template_row \<Rightarrow> template_st \<Rightarrow> (exn + 'a) \<times> template_st) \<Rightarrow> template_st \<Rightarrow> (exn + 'a) \<times> template_st" where
  "with_template i uid email f s =
     (case getChallengeTemplateById i s of
        None \<Rightarrow> (Inl (createError ''Template not found'' 404 None), s)
      | Some t \<Rightarrow> with_brand_role (tp_brand t) uid email Editor (\<lambda>_ s. f t s) s)"

definition patch_template_pause :: "string \<Rightarrow> string \<Rightarrow> string option \<Rightarrow> template_st \<Rightarrow> (exn + template_row) \<times> template_st" where
  "patch_template_pause i uid email = with_template i uid email (\<lambda>t s.
     case pauseChallengeTemplate (tp_id t) s of
       (None, s1) \<Rightarrow> (Inl (createError ''Template is not active'' 400 (Some ''INVALID_STATE'')), s1)
     | (Some u, s1) \<Rightarrow> (Inr u, s1))"

definition patch_template_resume :: "string \<Rightarrow> string \<Rightarrow> string option \<Rightarrow> template_st \<Rightarrow> (exn + template_row) \<times> template_st" where
  "patch_template_resume i uid email = with_template i uid email (\<lambda>t s.
     case resumeChallengeTemplate (tp_id t) s of
       (None, s1) \<Rightarrow> (Inl (createError ''Template is not paused'' 400 (Some ''INVALID_STATE'')), s1)
     | (Some u, s1) \<Rightarrow> (Inr u, s1))"

definition delete_template :: "int \<Rightarrow> string \<Rightarrow> string \<Rightarrow> string option \<Rightarrow> template_st \<Rightarrow> (exn + unit) \<times> template_st" where
  "delete_template now i uid email = with_template i uid email (\<lambda>t s. (Inr (), softDeleteChallengeTemplate now (tp_id t) s))"

definition get_templates :: "string \<Rightarrow> string \<Rightarrow> string option \<Rightarrow> template_st \<Rightarrow> exn + template_row list" where
  "get_templates bid uid email s =
     (case assertBrandRole (ts_brand s) bid uid email Viewer of
        Inl e \<Rightarrow> Inl e
      | Inr (b, _) \<Rightarrow> Inr (getChallengeTemplatesByBrandId (bw_id b) False s))"

text \<open>The worker: a job for one template may name the period.\<close>

datatype recurring_job = SpawnAllDue | SpawnTemplate string "string option"

definition recurring_worker :: "(string \<Rightarrow> challenge_seed) \<Rightarrow> int \<Rightarrow> recurring_job \<Rightarrow> template_st \<Rightarrow> template_st" where
  "recurring_worker seeds now job s =
     (case job of
        SpawnAllDue \<Rightarrow> snd (spawnDueChallengesFromAllTemplates seeds now s)
      | SpawnTemplate i force \<Rightarrow> if i = [] then s else snd (spawnChallengeFromTemplate (seeds i) now force None i s))"

section \<open>One challenge per period\<close>

definition period_of :: "spawned_row \<Rightarrow> string \<times> string" where "period_of r = (sp_template r, sp_period r)"

lemma insert_spawned_rows:
  assumes "insert_spawned seed now t period startsAt s = (Inr c, s1)"
  shows "ts_spawned s1 = ts_spawned s @ [\<lparr>sp_challenge = cs_id seed, sp_template = tp_id t, sp_period = period, sp_starts = startsAt\<rparr>] \<and>
    ts_templates s1 = ts_templates s \<and> 0 < tp_hours t \<and> ch_id c = cs_id seed \<and> ch_brand c = tp_brand t \<and> ch_pool c = tp_pool t \<and>
    ch_status c = CPendingDeposit \<and> ch_memo c = Some (generateDepositMemo (cs_bytes seed)) \<and>
    ch_ends_at c = Some (startsAt + tp_hours t * 3600000) \<and> bs_questions (ts_brand s1) = bs_questions (ts_brand s) \<and>
    challenges (game (bs_bank (ts_brand s1))) = challenges (game (bs_bank (ts_brand s))) @ [c]"
  using assms by (auto simp: insert_spawned_def Let_def split: if_splits)

lemma spawn_locked_outcome:
  assumes "spawn_locked seed now t brand key startsAt s = (r, s')"
  shows "s' = s \<and> (\<exists>e. r = Inl e) \<or>
    (\<exists>c s1 b. r = Inr (Some (c, key)) \<and> \<not> list_ex (\<lambda>r. period_of r = (tp_id t, key)) (ts_spawned s) \<and>
       insert_spawned seed now t key startsAt s = (Inr c, s1) \<and>
       insertChallengeQuestions (cs_questionIds seed) (generateChallengeQuestions (cs_rnd seed) (ch_id c) (bw_kit brand)
         (getActiveDistractorBrands (ts_brand s) (tp_brand t))) (ts_brand s1) = (Inr (), b) \<and>
       s' = markTemplateSpawned now (tp_id t) key (s1\<lparr>ts_brand := b\<rparr>))"
  using assms by (auto simp: spawn_locked_def Let_def period_of_def split: if_splits prod.splits sum.splits)

lemma spawn_outcome:
  assumes "spawnChallengeFromTemplate seed now force startsOverride i s = (r, s')"
  shows "s' = s \<or>
    (\<exists>t brand key startsAt. getChallengeTemplateById i s = Some t \<and> getBrandById (ts_brand s) (tp_brand t) = Some brand \<and>
       spawn_locked seed now t brand key startsAt s = (r, s'))"
  using assms by (auto simp: spawnChallengeFromTemplate_def Let_def split: option.splits if_splits prod.splits)

definition period_inv :: "template_st \<Rightarrow> bool" where
  "period_inv s \<longleftrightarrow> unique_by period_of (ts_spawned s) \<and> sp_template ` set (ts_spawned s) \<subseteq> tp_id ` set (ts_templates s)"

lemma mark_keeps_rows [simp]:
  "ts_spawned (markTemplateSpawned now i p s) = ts_spawned s"
  "tp_id ` set (ts_templates (markTemplateSpawned now i p s)) = tp_id ` set (ts_templates s)"
  by (simp_all add: markTemplateSpawned_def image_update_where)

lemma period_inv_spawn:
  assumes "period_inv s"
  shows "period_inv (snd (spawnChallengeFromTemplate seed now force startsOverride i s))"
proof -
  obtain r s' where run: "spawnChallengeFromTemplate seed now force startsOverride i s = (r, s')" by fastforce
  have "period_inv s'"
  proof (cases "s' = s")
    case False
    then obtain t brand key startsAt where t: "getChallengeTemplateById i s = Some t"
        and l: "spawn_locked seed now t brand key startsAt s = (r, s')" using spawn_outcome [OF run] by blast
    have "tp_id t \<in> tp_id ` set (ts_templates s)" using t by (auto simp: getChallengeTemplateById_def dest: find_row_Some)
    moreover obtain c s1 b where "\<not> list_ex (\<lambda>r. period_of r = (tp_id t, key)) (ts_spawned s)"
        "insert_spawned seed now t key startsAt s = (Inr c, s1)" "s' = markTemplateSpawned now (tp_id t) key (s1\<lparr>ts_brand := b\<rparr>)"
      using spawn_locked_outcome [OF l] False by blast
    ultimately show ?thesis using assms insert_spawned_rows [of seed now t key startsAt s c s1]
      by (auto simp: period_inv_def unique_by_snoc period_of_def find_row_None list_ex_iff)
  qed (simp add: assms)
  then show ?thesis by (simp add: run)
qed

lemma period_inv_sweep: "period_inv s \<Longrightarrow> period_inv (snd (sweep seeds now ts acc s))"
proof (induction ts arbitrary: acc s)
  case (Cons t ts)
  then show ?case using period_inv_spawn [OF Cons.prems, of "seeds (tp_id t)" now None None "tp_id t"]
    by (auto split: prod.split sum.split option.split)
qed simp

inductive template_step :: "template_st \<Rightarrow> template_st \<Rightarrow> bool" where
  work: "template_step s (recurring_worker seeds now job s)"
| create: "template_step s (snd (post_template tos fresh now bid uid email pool mx hours rule cron zone s))"
| pause: "template_step s (snd (patch_template_pause i uid email s))"
| resume: "template_step s (snd (patch_template_resume i uid email s))"
| delete: "template_step s (snd (delete_template now i uid email s))"
| others: "template_step s (s\<lparr>ts_brand := b\<rparr>)"

definition template_init :: "template_st \<Rightarrow> bool" where
  "template_init s \<longleftrightarrow> ts_templates s = [] \<and> ts_spawned s = []"

lemma period_inv_cong:
  "period_inv s \<Longrightarrow> ts_spawned s' = ts_spawned s \<Longrightarrow> tp_id ` set (ts_templates s) \<subseteq> tp_id ` set (ts_templates s') \<Longrightarrow> period_inv s'"
  unfolding period_inv_def by (metis order_trans)

lemma period_inv_routes:
  assumes "period_inv s"
  shows "period_inv (snd (post_template tos fresh now bid uid email pool mx hours rule cron zone s))"
    and "period_inv (snd (patch_template_pause i uid email s))" and "period_inv (snd (patch_template_resume i uid email s))"
    and "period_inv (snd (delete_template now i uid email s))"
proof -
  have st: "period_inv (snd (set_template_status old new j s))" for old new j
    by (rule period_inv_cong [OF assms]) (simp_all add: set_template_status_def Let_def image_update_where)
  then show "period_inv (snd (patch_template_pause i uid email s))" "period_inv (snd (patch_template_resume i uid email s))"
    using assms
    by (auto simp: patch_template_pause_def patch_template_resume_def with_template_def with_brand_role_def pauseChallengeTemplate_def
        resumeChallengeTemplate_def split: option.split sum.split prod.split) (metis snd_conv)+
  have "period_inv (softDeleteChallengeTemplate now j s)" for j
    by (rule period_inv_cong [OF assms]) (simp_all add: softDeleteChallengeTemplate_def image_update_where)
  then show "period_inv (snd (delete_template now i uid email s))"
    using assms by (simp add: delete_template_def with_template_def with_brand_role_def split: option.split sum.split prod.split)
  have "period_inv (snd (createChallengeTemplate fresh now bb stroops mx hours rule cron zone s))" for bb stroops
    by (rule period_inv_cong [OF assms]) (auto simp: createChallengeTemplate_def Let_def)
  then show "period_inv (snd (post_template tos fresh now bid uid email pool mx hours rule cron zone s))"
    using assms by (simp add: post_template_def with_brand_role_def split: sum.split prod.split) (metis snd_conv)
qed

interpretation templates: transition_system template_init template_step period_inv
proof
  fix s s'
  show "template_init s \<Longrightarrow> period_inv s" by (simp add: template_init_def period_inv_def)
  assume inv: "period_inv s" and "template_step s s'"
  from this(2) show "period_inv s'"
  proof cases
    case (work seeds now job)
    then show ?thesis using inv
      by (auto simp: recurring_worker_def spawnDueChallengesFromAllTemplates_def period_inv_sweep period_inv_spawn split: recurring_job.split)
  next
    case (others b)
    then show ?thesis using inv by (simp add: period_inv_def)
  qed (use inv in \<open>simp_all add: period_inv_routes\<close>)
qed
text \<open>(C23) In every reachable state a template has at most one challenge per period, whatever jobs and requests ran and in whatever
  order.\<close>

theorem one_challenge_per_period:
  assumes "template_init s0" and "template_step\<^sup>*\<^sup>* s0 s"
  shows "distinct (map (\<lambda>r. (sp_template r, sp_period r)) (ts_spawned s)) \<and>
    (\<forall>r \<in> set (ts_spawned s). \<exists>t \<in> set (ts_templates s). tp_id t = sp_template r)"
  using templates.inv_reachable [OF assms] by (fastforce simp: period_inv_def unique_by_def period_of_def [abs_def])

section \<open>Keys\<close>

lemma day_of_midnight [simp]: "day_of (d * ms_per_day) = d"
  by (simp add: day_of_def ms_per_day_def)

lemma daily_key_inj:
  assumes "periodKeyForRule Daily (a * ms_per_day) = periodKeyForRule Daily (b * ms_per_day)"
  shows "a = b"
proof -
  have l: "length (two_digits (int (getUTCMonth d) + 1)) = 2" "length (two_digits (getUTCDate d)) = 2" for d
    using getUTCMonth_less [of d] getUTCDate_bounds [of d] by (auto intro!: two_digits_length)
  have eq: "string_of_int (getUTCFullYear a) @ (''-'' @ two_digits (int (getUTCMonth a) + 1) @ ''-'' @ two_digits (getUTCDate a)) =
      string_of_int (getUTCFullYear b) @ (''-'' @ two_digits (int (getUTCMonth b) + 1) @ ''-'' @ two_digits (getUTCDate b))"
    using assms by (simp add: periodKeyForRule_def Let_def)
  then have y: "string_of_int (getUTCFullYear a) = string_of_int (getUTCFullYear b)"
      "two_digits (int (getUTCMonth a) + 1) @ (''-'' @ two_digits (getUTCDate a)) = two_digits (int (getUTCMonth b) + 1) @ (''-'' @ two_digits (getUTCDate b))"
    by (simp_all add: append_eq_append_conv l)
  then have m: "two_digits (int (getUTCMonth a) + 1) = two_digits (int (getUTCMonth b) + 1)" "two_digits (getUTCDate a) = two_digits (getUTCDate b)"
    by (simp_all add: append_eq_append_conv l)
  have "getUTCFullYear a = getUTCFullYear b" using y(1) by (rule string_of_int_inj)
  moreover have "getUTCMonth a = getUTCMonth b" using two_digits_inj [OF _ _ m(1)] by simp
  moreover have "getUTCDate a = getUTCDate b" using two_digits_inj [OF _ _ m(2)] getUTCDate_bounds [of a] getUTCDate_bounds [of b] by simp
  ultimately show ?thesis using date_parts [of a] date_parts [of b] by simp
qed

lemma monday_week:
  assumes "getUTCDay d = 1"
  shows "iso_week_number d = (d + 3 - DayFromYear (getUTCFullYear (d + 3))) div 7 + 1" "1 \<le> iso_week_number d" "iso_week_number d < 100"
proof -
  show w: "iso_week_number d = (d + 3 - DayFromYear (getUTCFullYear (d + 3))) div 7 + 1"
    using assms by (simp add: iso_week_number_def getUTCFullYear_def Let_def add.commute)
  have "0 \<le> d + 3 - DayFromYear (getUTCFullYear (d + 3))" "d + 3 - DayFromYear (getUTCFullYear (d + 3)) < 367"
    using year_of_day [of "d + 3"] year_length [of "YearFromDay (d + 3)"] by (simp_all add: getUTCFullYear_def)
  then show "1 \<le> iso_week_number d" "iso_week_number d < 100"
    unfolding w using div_bounds [of 7 "d + 3 - DayFromYear (getUTCFullYear (d + 3))"] by (simp_all add: pos_imp_zdiv_nonneg_iff)
qed

text \<open>The keys of weekly periods are unique as long as the Monday and the Thursday of the week lie in the same year.\<close>

theorem weekly_key_unique:
  assumes "getUTCDay a = 1" and "getUTCDay b = 1" and "getUTCFullYear (a + 3) = getUTCFullYear a" and "getUTCFullYear (b + 3) = getUTCFullYear b"
    and "periodKeyForRule Weekly (a * ms_per_day) = periodKeyForRule Weekly (b * ms_per_day)"
  shows "a = b"
proof -
  have l: "length (two_digits (iso_week_number d)) = 2" if "getUTCDay d = 1" for d
    using monday_week [OF that] by (intro two_digits_length) simp_all
  have "string_of_int (getUTCFullYear a) @ (''-W'' @ two_digits (iso_week_number a)) = string_of_int (getUTCFullYear b) @ (''-W'' @ two_digits (iso_week_number b))"
    using assms(5) by (simp add: periodKeyForRule_def Let_def isoWeek_def)
  then have "string_of_int (getUTCFullYear a) = string_of_int (getUTCFullYear b)" "two_digits (iso_week_number a) = two_digits (iso_week_number b)"
    using l [OF assms(1)] l [OF assms(2)] by (simp_all add: append_eq_append_conv)
  then have y: "getUTCFullYear a = getUTCFullYear b" and w: "iso_week_number a = iso_week_number b"
    using string_of_int_inj two_digits_inj monday_week(2) [OF assms(1)] monday_week(2) [OF assms(2)] by auto
  let ?D = "DayFromYear (getUTCFullYear a)"
  have "(a + 3 - ?D) div 7 = (b + 3 - ?D) div 7"
    using w monday_week(1) [OF assms(1)] monday_week(1) [OF assms(2)] assms(3,4) y by simp
  moreover have "(a + 4) mod 7 = (b + 4) mod 7" using assms(1,2) by (simp add: getUTCDay_def)
  then have "7 dvd a - b" unfolding mod_eq_dvd_iff by simp
  then have "(a + 3 - ?D) mod 7 = (b + 3 - ?D) mod 7" unfolding mod_eq_dvd_iff by simp
  ultimately have "a + 3 - ?D = b + 3 - ?D" by (metis div_mult_mod_eq)
  then show ?thesis by simp
qed

text \<open>The week of 30 December 2024 has the key of the first week of that year: its challenge is never spawned when the first
  one was, and every sweep of the week before fails for the template.\<close>

lemma weekly_key_clash:
  "periodKeyForRule Weekly (19723 * ms_per_day) = ''2024-W01''" "periodKeyForRule Weekly (20087 * ms_per_day) = ''2024-W01''"
  "getUTCFullYear 19723 = 2024 \<and> getUTCMonth 19723 = 0 \<and> getUTCDate 19723 = 1 \<and> getUTCFullYear 20087 = 2024 \<and> getUTCMonth 20087 = 11 \<and> getUTCDate 20087 = 30"
  by code_simp+

lemma last_week_lost:
  assumes "getChallengeTemplateById i s = Some t" and "tp_rule t = Weekly" and "tp_status t = TActive"
    and "getBrandById (ts_brand s) (tp_brand t) = Some brand" and "tp_last t \<noteq> Some ''2024-W01''"
    and "list_ex (\<lambda>r. sp_template r = i \<and> sp_period r = ''2024-W01'') (ts_spawned s)"
    and "20080 \<le> day_of now" and "day_of now \<le> 20086"
  shows "spawnChallengeFromTemplate seed now None None i s = (Inl statement_timeout, s)"
proof -
  have "tp_id t = i" using assms(1) by (auto simp: getChallengeTemplateById_def dest: find_row_Some)
  moreover have "day_of now \<in> {20080..20086}" using assms(7,8) by simp
  then have "day_of now + days_until_monday (day_of now) = 20087"
    by (auto simp: days_until_monday_def getUTCDay_def) presburger+
  then have "computeNextPeriodForTemplate t now = (''2024-W01'', 20087 * ms_per_day, 20087 * ms_per_day + tp_hours t * 60 * 60 * 1000)"
    using weekly_key_clash(2) by (simp add: computeNextPeriodForTemplate_def computeNextStartDate_def assms(2) Let_def)
  ultimately show ?thesis using assms(1,3-6) by (simp add: spawnChallengeFromTemplate_def spawn_locked_def given_def)
qed
section \<open>A daily template\<close>

definition kit_complete :: "brand_kit \<Rightarrow> bool" where
  "kit_complete k \<longleftrightarrow> (if present (bk_tagline k) then present (bk_usp k) \<or> bk_images k = [] else \<not> present (bk_usp k) \<and> bk_images k = [])"

lemma generated_stored:
  assumes "questions_of cid b = []" and "distinct (map slot_of (map sq_draft (bs_questions b)))" and "kit_complete kit"
  shows "\<exists>b'. insertChallengeQuestions fresh (generateChallengeQuestions rnd cid kit pool) b = (Inr (), b') \<and>
    map qd_round (questions_of cid b') = [1, 2, 3]"
proof -
  let ?qs = "generateChallengeQuestions rnd cid kit pool"
  have c: "\<forall>q \<in> set ?qs. qd_challenge q = cid" using generated_challenge by blast
  have "distinct (map qd_round ?qs)" using generated_rounds_distinct [of rnd cid kit pool] assms(3) unfolding kit_complete_def by blast
  then have "distinct (map slot_of ?qs)" using slots_distinct [OF c] by blast
  moreover have "qd_challenge (sq_draft x) \<noteq> cid" if "x \<in> set (bs_questions b)" for x
    using assms(1) that by (auto simp: questions_of_def filter_empty_conv)
  ultimately have "distinct (map slot_of (map sq_draft (bs_questions b) @ ?qs))" using assms(2) c by fastforce
  then have "fst (insertChallengeQuestions fresh ?qs b) = Inr ()" by (rule insertChallengeQuestions_ok)
  then obtain b' where ins: "insertChallengeQuestions fresh ?qs b = (Inr (), b')" by (metis prod.collapse)
  have failed: False if "\<exists>e. Inr () = Inl e \<and> P e" for P :: "exn \<Rightarrow> bool" using that by simp
  have "map qd_round (questions_of cid b') = [1, 2, 3]"
    by (rule disjE [OF stored_generated [OF ins assms(1,2)]]) (use failed in \<open>blast+\<close>)
  then show ?thesis by (intro exI conjI) (rule ins)
qed

lemma spawn_locked_ok:
  assumes "0 < tp_hours t" and "kit_complete (bw_kit brand)" and "questions_of (cs_id seed) (ts_brand s) = []"
    and "distinct (map slot_of (map sq_draft (bs_questions (ts_brand s))))"
    and "\<not> list_ex (\<lambda>r. sp_template r = tp_id t \<and> sp_period r = key) (ts_spawned s)"
  obtains c s1 b where "insert_spawned seed now t key startsAt s = (Inr c, s1)"
    "spawn_locked seed now t brand key startsAt s = (Inr (Some (c, key)), markTemplateSpawned now (tp_id t) key (s1\<lparr>ts_brand := b\<rparr>))"
    "map qd_round (questions_of (ch_id c) b) = [1, 2, 3]"
proof -
  obtain c s1 where ins: "insert_spawned seed now t key startsAt s = (Inr c, s1)" using assms(1) by (auto simp: insert_spawned_def Let_def)
  note rows = insert_spawned_rows [OF ins]
  have "questions_of (ch_id c) (ts_brand s1) = []" "distinct (map slot_of (map sq_draft (bs_questions (ts_brand s1))))"
    using assms(3,4) rows by (simp_all add: questions_of_def)
  from generated_stored [OF this assms(2), of "cs_questionIds seed" "cs_rnd seed" "getActiveDistractorBrands (ts_brand s) (tp_brand t)"]
  obtain b where b: "insertChallengeQuestions (cs_questionIds seed) (generateChallengeQuestions (cs_rnd seed) (ch_id c) (bw_kit brand)
      (getActiveDistractorBrands (ts_brand s) (tp_brand t))) (ts_brand s1) = (Inr (), b)" "map qd_round (questions_of (ch_id c) b) = [1, 2, 3]"
    by (elim exE conjE) (rule that)
  show thesis by (rule that [OF ins _ b(2)]) (use assms(5) ins b(1) in \<open>simp add: spawn_locked_def\<close>)
qed

lemma period_taken:
  assumes "list_ex (\<lambda>r. sp_template r = i \<and> sp_period r = p) (ts_spawned s)"
  shows "snd (spawnChallengeFromTemplate seed now (Some p) startsOverride i s) = s"
proof (cases "getChallengeTemplateById i s")
  case (Some t)
  then have "tp_id t = i" by (auto simp: getChallengeTemplateById_def dest: find_row_Some)
  then have "snd (spawn_locked seed now t brand p start s) = s" for brand start using assms by (simp add: spawn_locked_def)
  then show ?thesis using Some by (simp add: spawnChallengeFromTemplate_def Let_def split: option.split prod.split)
qed (simp add: spawnChallengeFromTemplate_def)


section \<open>Examples\<close>

definition demo_template :: template_row where
  "demo_template = \<lparr>tp_id = ''t1'', tp_brand = ''b2'', tp_pool = 1000000000, tp_maxPlayers = None, tp_hours = 24, tp_rule = Daily, tp_cron = None,
     tp_timezone = ''UTC'', tp_status = TActive, tp_last = None, tp_last_at = None, tp_deleted = None, tp_created = 0\<rparr>"

definition demo_empty_templates :: template_st where
  "demo_empty_templates = \<lparr>ts_brand = demo_brand_st, ts_templates = [], ts_spawned = []\<rparr>"

definition demo_templates :: template_st where
  "demo_templates = demo_empty_templates\<lparr>ts_templates := [demo_template]\<rparr>"


text \<open>The owner creates the template, and a job for a given period runs twice.\<close>

definition demo_created :: template_st where
  "demo_created = snd (post_template True ''t1'' 0 ''b2'' ''u2'' None ''100'' None 24 Daily None None demo_empty_templates)"

definition demo_worked :: template_st where
  "demo_worked = recurring_worker (\<lambda>_. demo_seed) 6 (SpawnTemplate ''t1'' (Some ''p''))
     (recurring_worker (\<lambda>_. demo_seed) 5 (SpawnTemplate ''t1'' (Some ''p'')) demo_created)"

lemma demo_template_found:
  "getChallengeTemplateById ''t1'' demo_templates = Some demo_template" "bs_questions (ts_brand demo_templates) = []" "ts_spawned demo_templates = []"
  "\<exists>brand. getBrandById (ts_brand demo_templates) (tp_brand demo_template) = Some brand \<and> kit_complete (bw_kit brand)"
  by (simp_all add: getChallengeTemplateById_def demo_templates_def demo_template_def demo_empty_templates_def demo_brand_st_def getBrandById_def
      demo_kit_def kit_complete_def present_def)

lemma demo_created_eq: "demo_created = demo_templates"
proof -
  have m: "match_usdc ''100'' = Some (''100'', [])" by code_simp
  have "nat_of_string ''100'' = 100" by (simp add: nat_of_string_def digit_val_def)
  moreover have "nat_of_string (padEnd 7 CHR ''0'' []) = 0" by (simp add: padEnd_def)
  ultimately have "usdcToStroops ''100'' = Inr (string_of_nat 1000000000)"
    using m by (simp add: usdcToStroops_def STROOPS_PER_USDC_def string_of_int_def)
  moreover note demo_pool
  moreover have "assertBrandRole demo_brand_st ''b2'' ''u2'' None Editor = Inr
      (\<lparr>bw_id = ''b2'', bw_owner = ''u2'', bw_kit = demo_kit\<lparr>bk_name := ''Bolt'', bk_tagline := Some ''Go''\<rparr>, bw_deleted = None, bw_created = 1\<rparr>, Owner)"
    by (simp add: assertBrandRole_def getBrandById_def getBrandMemberRole_def hasRequiredBrandRole_def demo_brand_st_def)
  ultimately show ?thesis
    by (simp add: demo_created_def post_template_def with_brand_role_def demo_empty_templates_def createChallengeTemplate_def Let_def
        demo_templates_def demo_template_def)
qed

lemma demo_worked_rows: "map sp_period (ts_spawned demo_worked) = [''p'']"
proof -
  obtain brand where brand: "getBrandById (ts_brand demo_templates) (tp_brand demo_template) = Some brand" "kit_complete (bw_kit brand)"
    using demo_template_found(4) by blast
  obtain start where run: "snd (spawnChallengeFromTemplate demo_seed 5 (Some ''p'') None ''t1'' demo_templates) =
      snd (spawn_locked demo_seed 5 demo_template brand ''p'' start demo_templates)"
    using demo_template_found(1) brand(1)
    by (simp add: spawnChallengeFromTemplate_def computeNextPeriodForTemplate_def Let_def given_def demo_template_def)
  have h: "0 < tp_hours demo_template" and i: "tp_id demo_template = ''t1''" by (simp_all add: demo_template_def)
  have q: "questions_of (cs_id demo_seed) (ts_brand demo_templates) = []"
      "distinct (map slot_of (map sq_draft (bs_questions (ts_brand demo_templates))))"
      "\<not> list_ex (\<lambda>r. sp_template r = tp_id demo_template \<and> sp_period r = ''p'') (ts_spawned demo_templates)"
    using demo_template_found(2,3) by (simp_all add: questions_of_def)
  obtain c s1 b where ins: "insert_spawned demo_seed 5 demo_template ''p'' start demo_templates = (Inr c, s1)"
      and l: "spawn_locked demo_seed 5 demo_template brand ''p'' start demo_templates =
        (Inr (Some (c, ''p'')), markTemplateSpawned 5 (tp_id demo_template) ''p'' (s1\<lparr>ts_brand := b\<rparr>))"
    by (rule spawn_locked_ok [OF h brand(2) q])
  define s' where "s' = recurring_worker (\<lambda>_. demo_seed) 5 (SpawnTemplate ''t1'' (Some ''p'')) demo_created"
  have rows: "ts_spawned s' = [\<lparr>sp_challenge = cs_id demo_seed, sp_template = ''t1'', sp_period = ''p'', sp_starts = start\<rparr>]"
    using insert_spawned_rows [OF ins] demo_template_found(3) run l i by (simp add: s'_def recurring_worker_def demo_created_eq)
  then have "demo_worked = s'"
    using period_taken [of "''t1''" "''p''" s'] by (simp add: demo_worked_def s'_def [symmetric]) (simp add: recurring_worker_def)
  then show ?thesis using rows by simp
qed

theorem one_challenge_per_period_witness:
  "map sp_period (ts_spawned demo_worked) = [''p''] \<and> distinct (map (\<lambda>r. (sp_template r, sp_period r)) (ts_spawned demo_worked))"
proof -
  have "template_step demo_empty_templates demo_created" unfolding demo_created_def by (rule template_step.create)
  then have "template_step\<^sup>*\<^sup>* demo_empty_templates demo_worked"
    unfolding demo_worked_def by (meson template_step.work converse_rtranclp_into_rtranclp rtranclp.rtrancl_refl)
  moreover have "template_init demo_empty_templates" by (simp add: template_init_def demo_empty_templates_def)
  ultimately show ?thesis using one_challenge_per_period demo_worked_rows by blast
qed

theorem weekly_key_unique_witness:
  "periodKeyForRule Weekly (19730 * ms_per_day) \<noteq> periodKeyForRule Weekly (19737 * ms_per_day)"
proof -
  have "getUTCDay 19730 = 1" "getUTCDay 19737 = 1" "getUTCFullYear (19730 + 3) = getUTCFullYear 19730" "getUTCFullYear (19737 + 3) = getUTCFullYear 19737"
    by code_simp+
  then show ?thesis using weekly_key_unique [of 19730 19737] by auto
qed

end
