(* ===== verification/Spec2Isabelle.thy ===== *)
theory Spec2Isabelle
  imports Session_Machine Chat Erasure Multisig Invites Templates
begin

text \<open>
  \<^bold>\<open>BrandBlitz: verification of the backend.\<close>

  BrandBlitz is a marketplace where a brand funds a challenge in USDC on the Stellar ledger, players study the
  brand, answer three timed questions, and share the prize pool by score. The program is an HTTP service
  (\<open>src/apps/api\<close>) over PostgreSQL and Redis with job workers, a deposit monitor (\<open>src/apps/deposit-monitor\<close>), a
  Stellar package (\<open>src/packages/stellar\<close>), and a web application (\<open>src/apps/web\<close>) that only calls the service.
  The development models the first three. Below, paths without a prefix are relative to \<open>src/apps/api/src\<close>.

  \<^bold>\<open>How the program is represented.\<close> A table is a list of rows, a row a record with the columns the modelled code
  reads or writes, and an SQL statement a function on the state; \<open>NOW()\<close>, \<open>Date.now()\<close> and fresh ids are arguments.
  Redis is a store of values with expiry times that may be down (\<open>redis_up\<close>). A route is its chain of middleware and
  its handler, a function of the request and the state that returns a sum of an exception and a result together
  with the state it leaves, so that writes made before an exception stay. A transaction restores the tables on an exception. The state
  \<open>app\<close> of the game is contained in \<open>bank\<close> (with the money tables), which is contained in \<open>platform\<close> (with ratings,
  reports and gallery) and in the states of the brand, authentication and chat components. Integers of the code that are
  stroop amounts or \<open>bigint\<close> are \<open>int\<close>; numbers whose rounding matters are rationals with the rounding of IEEE doubles
  written out (\<open>Js_Number\<close>); bytes and 32-bit operations are \<open>word\<close>s.

  \<^bold>\<open>The theories and the code they model.\<close>

  \<^item> \<open>Prelude\<close>, \<open>Js_Number\<close>, \<open>Bytes\<close>, \<open>Tables\<close>: the JavaScript built-ins, doubles, byte buffers, SQL tables and Redis
    the sources use, with the locales \<open>dictionary\<close>, \<open>comparison\<close>, \<open>expiring_store\<close> and \<open>transition_system\<close>.
  \<^item> \<open>Errors\<close>: \<open>middleware/error.ts\<close>.
  \<^item> \<open>Usdc\<close>: \<open>lib/usdc.ts\<close>; parser and printer are inverse and the parser accepts the documented decimals.
  \<^item> \<open>Scoring\<close>: \<open>services/scoring.ts\<close>; scores in range, and how the computation in doubles differs from the documented floor.
  \<^item> \<open>Sessions_Db\<close>, \<open>Anti_Cheat\<close>, \<open>Session_Routes\<close>, \<open>Session_Machine\<close>: the game (\<open>db/queries/sessions.ts\<close>,
    \<open>middleware/anti-cheat.ts\<close>, \<open>require-active-user.ts\<close>, \<open>lib/fingerprint.ts\<close>, \<open>lib/integrity.ts\<close>, \<open>routes/sessions.ts\<close>).
    \<open>game_step\<close> is the step relation of all requests and the sweep of abandoned sessions, in any order, with outages of
    Redis; the theorems are about its reachable states: warm-up enforced, answers final, one session per player
    and challenge, totals consistent, a finish credited once, tokens used once, scores authenticated.
  \<^item> \<open>Notifications\<close>, \<open>Badges\<close>, \<open>Streaks\<close>: \<open>services/notifications.ts\<close>, \<open>rank-overtaken.ts\<close>, \<open>badges.ts\<close>, \<open>streaks.ts\<close>
    with their statements.
  \<^item> \<open>Stellar_Payout\<close>: \<open>packages/stellar/src/constants.ts\<close>, \<open>sequence.ts\<close>, \<open>client.ts\<close>, \<open>payout.ts\<close>; batches partition the
    recipients, and reservations of sequence numbers by interleaved processes are distinct (\<open>sequence_source\<close>).
  \<^item> \<open>Money_Db\<close>, \<open>Teams\<close>, \<open>Referrals\<close>, \<open>Payout\<close>: the money tables, \<open>db/queries/challenge-teams.ts\<close>,
    \<open>services/referrals.ts\<close> with the bonus job, \<open>services/payout.ts\<close> with the settlement job and the daily batch run. Payments are due,
    exact, within the pool and not repeated; tampering stops a settlement.
  \<^item> \<open>Leaderboard\<close>, \<open>Lobby\<close>: paged reads (\<open>db/pagination.ts\<close>, \<open>routes/leaderboard.ts\<close>, the lists of \<open>db/queries/challenges.ts\<close>). The
    locales \<open>keyset_pages\<close>, \<open>keyset\<close> and \<open>keyset_probe\<close> state what a query with a cursor promises and prove once that
    following the cursors lists every row exactly once; each list is an interpretation or has a lemma showing the rows it loses.
  \<^item> \<open>Totp\<close>, \<open>Auth\<close>: \<open>db/queries/totp.ts\<close>, \<open>routes/auth.2fa.ts\<close>, \<open>lib/tokens.ts\<close>, \<open>middleware/authenticate.ts\<close>,
    \<open>api-key-auth.ts\<close>, \<open>routes/auth.ts\<close> and the API keys of \<open>routes/users.ts\<close>; one-time passwords equal RFC 6238.
  \<^item> \<open>Ws_Frame\<close>, \<open>Chat\<close>: \<open>lib/ws-frame.ts\<close>, \<open>routes/challenges.chat.ts\<close>, with the rooms in an explicit store because
    connections share them.
  \<^item> \<open>Deposits\<close>: the deposit monitor composed with \<open>middleware/verify-webhook.ts\<close> and \<open>routes/webhooks.ts\<close>, and
    \<open>services/refund.ts\<close>.
  \<^item> \<open>Questions\<close>, \<open>Brands\<close>: \<open>services/questions.ts\<close>, \<open>routes/brands.ts\<close> and the brand tables; who may change what.
  \<^item> \<open>Challenges\<close>: \<open>routes/challenges.ts\<close>, \<open>challenge-management.ts\<close>, \<open>admin/challenges.ts\<close>. \<open>platform_step\<close> is the union of every
    request and job that touches a challenge, from all components; \<open>lifecycle\<close> is the specification, an automaton of
    statuses, and the locale \<open>refines\<close> proves that the platform simulates it.

  \<^item> \<open>Accounts\<close>: \<open>lib/slugify.ts\<close>, the statements of \<open>db/queries/users.ts\<close> and the routes of \<open>routes/users.ts\<close> for signing
    up, profile, wallet, vanity slug, blocks and reports; which name a new user gets and when a sign-up fails.
  \<^item> \<open>Phone\<close>: \<open>services/phone.ts\<close> and the phone routes; how many codes can be guessed, and that a number is claimed only after
    its code was approved.
  \<^item> \<open>Moderation\<close>: \<open>routes/admin/users.ts\<close>; the audit log decides who is suspended, and a bulk request equals its single requests.
  \<^item> \<open>Erasure\<close>: \<open>db/queries/gdpr.ts\<close>, \<open>queues/gdpr-erasure.queue.ts\<close>, its processor and \<open>routes/me/delete-account.ts\<close>. Requests,
    cancellations, jobs and moderation interleave in \<open>erasure_step\<close>; nobody is erased early or after a cancellation, and
    an executed job clears the account.
  \<^item> \<open>Invites\<close>: \<open>db/queries/invite-codes.ts\<close>, \<open>routes/waitlist.ts\<close>, the invite routes of \<open>routes/brands.ts\<close> and
    \<open>queues/challenge-reminder.queue.ts\<close>. A code admits no more users than its limit, a retry stays successful, and the pages
    of codes are complete.
  \<^item> \<open>Multisig\<close>: \<open>db/queries/multisig.ts\<close>, \<open>routes/admin/escrow.ts\<close> and the threshold of \<open>routes/admin/config.ts\<close>. A submission has
    its quorum of distinct cosigners, and what a driver that parses json columns makes of the collection of signatures.
  \<^item> \<open>Calendar\<close>, \<open>Templates\<close>: the dates of JavaScript, \<open>services/challenge-templates.ts\<close>,
    \<open>db/queries/challenge-templates.ts\<close>, the template routes of \<open>routes/brands.ts\<close> and the worker of the recurring
    challenges. Years, months and days partition the days; a template has one challenge per period, which keys
    are unique, and what a daily sweep does.
  \<^item> The present theory: suspension by an administrator, as the game sees it.

  \<^bold>\<open>Parameters.\<close> SHA-256, HMAC, AES-GCM, bcrypt, JWT signing, Horizon and the Stellar SDK, the escrow contract, Twilio, which ids the job queue accepts, how the database
  driver returns a json column, the JSON parser, the UUID and email formats of the schema library and randomness are arguments of the definitions that use them. A theorem that needs
  a property of one (a digest without collisions, a signature that verifies) has it as a hypothesis, and its witness instantiates it with a
  concrete function.

  \<^bold>\<open>Bounds and fuel.\<close> Loops over collections are structural. The retry loop of the Stellar client has the attempts
  of the source as its measure. Following cursors (\<open>export_loop\<close>, \<open>follow\<close>) takes fuel; the theorems show that one more step
  than there are rows is enough, so that these loops end. Generation of a referral code has the bounded number of attempts of the source.

  \<^bold>\<open>What is not modelled.\<close> The web application, which renders pages and calls the API; the escrow contract in Rust and its client, whose results are
  parameters of the settlement; object storage and image processing; rate limiting, which is a third-party package configured
  with constants; caching of responses and server-sent events; logging, metrics and traces; reporting queries (analytics, retention,
  cohorts, statistics); the infrastructure of queues; the OpenAPI documents; scripts, migrations as such (their constraints are
  modelled where a statement relies on them) and tests. The manifest lists these parts with the reason for each.
\<close>

section \<open>Properties across components\<close>

text \<open>(C20) Moderation and the game: once a suspension succeeded, the suspended user can neither start a warm-up nor a game, and
  the attempt changes nothing; once it is lifted, the account gate lets him pass again.\<close>

theorem suspension_stops_play:
  assumes suspended: "patch_suspend uuid now caller uid reason s = (Inr x, s')"
    and lifted: "delete_suspend uuid caller' uid s' = (Inr y, s'')"
    and req: "rq_user req = Some uid" "uid \<noteq> []" "\<not> rq_impersonated req"
  shows "let refused = (Inl (createError ''Your account has been suspended. Please contact support for assistance.'' 403
        (Some ''ACCOUNT_SUSPENDED'')), an_app s')
    in post_warmup_start env fresh rnd t req (an_app s') = refused \<and> post_start env allowed t req (an_app s') = refused \<and>
       requireActiveUser req (an_app s'') = (Inr (), an_app s'')"
proof -
  have uid: "given (rq_user req) = Some uid" using req by (cases uid) (auto simp: given_def)
  obtain u where u: "findUserById (an_app s') uid = Some u" "u_suspended u" using suspend_effect [OF suspended] by blast
  have "requireActiveUser req (an_app s') = (Inl (createError ''Your account has been suspended. Please contact support for assistance.'' 403
        (Some ''ACCOUNT_SUSPENDED'')), an_app s')"
    using u uid req by (simp add: requireActiveUser_def)
  moreover obtain v where "findUserById (an_app s'') uid = Some v" "\<not> u_suspended v" "u_suspended_at v = None"
    using lift_effect [OF lifted] by blast
  then have "requireActiveUser req (an_app s'') = (Inr (), an_app s'')" using uid req by (simp add: requireActiveUser_def)
  ultimately show ?thesis by (simp add: post_warmup_start_def post_start_def Let_def)
qed

theorem suspension_stops_play_witness:
  "let s' = snd (patch_suspend (\<lambda>_. True) 7 demo_admin ''ana'' ''spam'' demo_accounts); req = plain_req\<lparr>rq_user := Some ''ana''\<rparr>
   in snd (post_warmup_start demo_env ''f'' 0 8 req (an_app s')) = an_app s' \<and>
      requireActiveUser req (an_app (snd (delete_suspend (\<lambda>_. True) demo_admin ''ana'' s'))) =
        (Inr (), an_app (snd (delete_suspend (\<lambda>_. True) demo_admin ''ana'' s')))"
proof -
  obtain r1 s1 where 1: "patch_suspend (\<lambda>_. True) 7 demo_admin ''ana'' ''spam'' demo_accounts = (r1, s1)" by fastforce
  obtain r2 s2 where 2: "delete_suspend (\<lambda>_. True) demo_admin ''ana'' s1 = (r2, s2)" by fastforce
  have "fst (patch_suspend (\<lambda>_. True) 7 demo_admin ''ana'' ''spam'' demo_accounts) = Inr ()"
    "fst (delete_suspend (\<lambda>_. True) demo_admin ''ana'' (snd (patch_suspend (\<lambda>_. True) 7 demo_admin ''ana'' ''spam'' demo_accounts))) = Inr ()"
    by code_simp+
  then have "r1 = Inr ()" "r2 = Inr ()" unfolding 1 by (simp_all add: 2)
  then show ?thesis
    using suspension_stops_play [of "\<lambda>_. True" 7 demo_admin "''ana''" "''spam''" demo_accounts "()" s1 demo_admin "()" s2
        "plain_req\<lparr>rq_user := Some ''ana''\<rparr>" demo_env "''f''" 0 8 True] 1 2
    by (simp add: plain_req_def Let_def)
qed

end
